(* ===== verification/Prelude.thy ===== *)
theory Prelude
  imports Main "HOL-Library.Word" "HOL-Library.Sublist" "HOL-Library.Monad_Syntax"
begin

section \<open>Prelude: shared types, tables and scans\<close>

text \<open>
  What every component of the development shares:
  \<^item> the names of the basic Go types (\<open>ID\<close>, \<open>uint64\<close>, \<open>time.Time\<close>,
    \<open>time.Duration\<close>) and the standard-library operations on them the sources use;
  \<^item> \<open>first_rule\<close>, the first-match-wins decision table of the policy functions;
  \<^item> \<open>seen_all\<close>, the loop that scans a slice with a map of keys already seen;
  \<^item> \<open>index_where\<close>, the loop that returns the first index satisfying a test;
  \<^item> the collections \<open>policy_simps\<close>, \<open>queue_simps\<close>, \<open>wire_simps\<close> and
    \<open>state_simps\<close> the component proofs simplify with.
\<close>

named_theorems policy_simps "unfolding of the decision tables"
named_theorems queue_simps "characterisations of the queue scans"
named_theorems wire_simps "characterisations of the wire encoders and decoders"
named_theorems state_simps "frame facts of the state-changing operations"

subsection \<open>Basic types\<close>

type_synonym ID = string
type_synonym uint64 = "64 word"

text \<open>
  A Go \<open>time.Time\<close> is an instant counted from its zero value, here in nanoseconds: the zero
  value is \<open>0\<close>. A \<open>time.Duration\<close> is a signed 64-bit number of nanoseconds;
  \<open>Sub\<close> saturates as Go's does.
\<close>

type_synonym time = int
type_synonym duration = int

definition IsZero :: "time \<Rightarrow> bool" where
  "IsZero t \<longleftrightarrow> t = 0"

definition maxDuration :: duration where
  "maxDuration = 2 ^ 63 - 1"

definition minDuration :: duration where
  "minDuration = - (2 ^ 63)"

definition Sub :: "time \<Rightarrow> time \<Rightarrow> duration" where
  "Sub t u = max minDuration (min maxDuration (t - u))"

definition Millisecond :: duration where
  "Millisecond = 1000000"

definition Second :: duration where
  "Second = 1000000000"

definition Minute :: duration where
  "Minute = 60 * Second"

definition Hour :: duration where
  "Hour = 60 * Minute"

lemmas duration_defs = Millisecond_def Second_def Minute_def Hour_def
lemmas duration_bounds = maxDuration_def minDuration_def

lemma Sub_exact: "\<bar>t - u\<bar> \<le> maxDuration \<Longrightarrow> Sub t u = t - u"
  by (auto simp: Sub_def duration_bounds)

lemma Sub_nonneg [simp]: "0 \<le> Sub t u \<longleftrightarrow> u \<le> t"
  by (auto simp: Sub_def duration_bounds)

lemma Sub_less_iff: "0 < d \<Longrightarrow> d \<le> maxDuration \<Longrightarrow> Sub t u < d \<longleftrightarrow> t - u < d"
  by (auto simp: Sub_def duration_bounds)

text \<open>Go's \<open>/\<close> on integers truncates towards zero.\<close>

definition go_div :: "int \<Rightarrow> int \<Rightarrow> int" where
  "go_div a b = sgn a * sgn b * (\<bar>a\<bar> div \<bar>b\<bar>)"

lemma go_div_nonneg [simp]: "0 \<le> a \<Longrightarrow> 0 < b \<Longrightarrow> go_div a b = a div b"
  by (auto simp: go_div_def sgn_if)

lemma go_div_neg: "a \<le> 0 \<Longrightarrow> 0 < b \<Longrightarrow> go_div a b = - (- a div b)"
  by (auto simp: go_div_def sgn_if)

subsection \<open>Decision tables\<close>

text \<open>
  The policy functions of the sources range over a slice of rules and apply the first one whose
  condition holds; the second argument is the value used when no rule applies.
\<close>

fun first_rule :: "(bool \<times> 'a) list \<Rightarrow> 'a \<Rightarrow> 'a" where
  "first_rule [] d = d"
| "first_rule ((b, x) # rs) d = (if b then x else first_rule rs d)"

lemma first_rule_cases:
  "first_rule rs d = x \<Longrightarrow> (True, x) \<in> set rs \<or> ((\<forall>(b, y) \<in> set rs. \<not> b) \<and> x = d)"
  by (induction rs d rule: first_rule.induct) (auto split: if_splits)

subsection \<open>Scans with a set of seen keys\<close>

text \<open>
  The loop \<open>for _, x := range xs { if bad(x) || seen[key(x)] { return false }; seen[key(x)] = true }\<close>,
  returning true at its end.
\<close>

fun seen_all :: "('a \<Rightarrow> 'k) \<Rightarrow> ('a \<Rightarrow> bool) \<Rightarrow> 'k list \<Rightarrow> 'a list \<Rightarrow> bool" where
  "seen_all key ok seen [] = True"
| "seen_all key ok seen (x # xs) =
     (ok x \<and> key x \<notin> set seen \<and> seen_all key ok (key x # seen) xs)"

lemma seen_all_iff:
  "seen_all key ok seen xs \<longleftrightarrow>
     (\<forall>x \<in> set xs. ok x) \<and> distinct (map key xs) \<and> set (map key xs) \<inter> set seen = {}"
  by (induction key ok seen xs rule: seen_all.induct) auto

lemma seen_all_Nil [queue_simps]:
  "seen_all key ok [] xs \<longleftrightarrow> (\<forall>x \<in> set xs. ok x) \<and> distinct (map key xs)"
  by (simp add: seen_all_iff)

subsection \<open>First index\<close>

fun index_where :: "('a \<Rightarrow> bool) \<Rightarrow> 'a list \<Rightarrow> nat option" where
  "index_where p [] = None"
| "index_where p (x # xs) = (if p x then Some 0 else map_option Suc (index_where p xs))"

lemma index_where_Some:
  "index_where p xs = Some i \<Longrightarrow> i < length xs \<and> p (xs ! i) \<and> (\<forall>j < i. \<not> p (xs ! j))"
proof (induction p xs arbitrary: i rule: index_where.induct)
  case (1 p)
  then show ?case by simp
next
  case (2 p x xs)
  show ?case
  proof (cases "p x")
    case True
    with 2 show ?thesis by simp
  next
    case False
    with "2.prems" obtain k where k: "index_where p xs = Some k" "i = Suc k" by auto
    with "2.IH" False have "k < length xs \<and> p (xs ! k) \<and> (\<forall>j < k. \<not> p (xs ! j))" by simp
    with k False show ?thesis by (auto simp: less_Suc_eq_0_disj)
  qed
qed

lemma index_where_None [simp]: "index_where p xs = None \<longleftrightarrow> (\<forall>x \<in> set xs. \<not> p x)"
  by (induction p xs rule: index_where.induct) auto

lemma index_where_ex: "\<exists>x \<in> set xs. p x \<Longrightarrow> \<exists>i. index_where p xs = Some i"
  by (metis index_where_None not_Some_eq)

lemma index_where_distinct:
  assumes "distinct (map f xs)" and "i < length xs"
  shows "index_where (\<lambda>x. f x = f (xs ! i)) xs = Some i"
proof -
  obtain k where k: "index_where (\<lambda>x. f x = f (xs ! i)) xs = Some k"
    using assms(2) index_where_ex [of xs "\<lambda>x. f x = f (xs ! i)"] nth_mem by blast
  then have "k < length xs" and "f (xs ! k) = f (xs ! i)"
    using index_where_Some [OF k] by auto
  with assms have "k = i" by (metis length_map nth_eq_iff_index_eq nth_map)
  with k show ?thesis by simp
qed

subsection \<open>Pointwise comparison of lists\<close>

text \<open>The loop \<open>for i, x := range xs { if x does not match ids[i] { ... } }\<close> as a recursion.\<close>

fun zip_all :: "('a \<Rightarrow> 'b \<Rightarrow> bool) \<Rightarrow> 'a list \<Rightarrow> 'b list \<Rightarrow> bool" where
  "zip_all p [] ys = True"
| "zip_all p (x # xs) [] = False"
| "zip_all p (x # xs) (y # ys) = (p x y \<and> zip_all p xs ys)"

lemma zip_all_iff:
  "zip_all p xs ys \<longleftrightarrow> length xs \<le> length ys \<and> (\<forall>i < length xs. p (xs ! i) (ys ! i))"
  by (induction p xs ys rule: zip_all.induct) (auto simp: less_Suc_eq_0_disj)

lemma zip_all_map_prefix:
  "zip_all (\<lambda>x y. f x = y) xs ys \<longleftrightarrow> prefix (map f xs) ys"
  by (induction "\<lambda>x y. f x = y" xs ys rule: zip_all.induct) auto

subsection \<open>Invariants of runs\<close>

text \<open>
  A component that reacts to inputs one at a time is a step function; a run folds it over the
  inputs. A predicate every step keeps holds after every run, and a value a step never replaces
  once it is set is never replaced by a run.
\<close>

locale stepped_invariant =
  fixes step :: "'e \<Rightarrow> 's \<Rightarrow> 's" and inv :: "'s \<Rightarrow> bool"
  assumes step_inv: "inv s \<Longrightarrow> inv (step e s)"
begin

lemma run_inv: "inv s \<Longrightarrow> inv (fold step es s)"
  by (induction es arbitrary: s) (auto intro: step_inv)

end

locale stepped_latch =
  fixes step :: "'e \<Rightarrow> 's \<Rightarrow> 's" and latch :: "'s \<Rightarrow> 'v option"
  assumes step_latch: "latch s = Some v \<Longrightarrow> latch (step e s) = Some v"
begin

lemma run_latch: "latch s = Some v \<Longrightarrow> latch (fold step es s) = Some v"
  by (induction es arbitrary: s) (auto intro: step_latch)

lemma run_latch_None: "latch (fold step es s) = None \<Longrightarrow> latch s = None"
  using run_latch by (metis not_Some_eq)

text \<open>Every step of a run that ends with the latch open left it open.\<close>

lemma run_open_steps:
  "latch (fold step es s) = None \<Longrightarrow> i \<le> length es \<Longrightarrow> latch (fold step (take i es) s) = None"
proof -
  assume a: "latch (fold step es s) = None"
  have "fold step es s = fold step (drop i es) (fold step (take i es) s)"
    by (metis append_take_drop_id comp_apply fold_append)
  with a show ?thesis using run_latch_None by metis
qed

end

end
