(* ===== verification/Values.thy ===== *)
theory Values
  imports Prelude
begin

section \<open>Values and errors of the HEOS domain\<close>

text \<open>
  The closed vocabularies of \<open>internal/heos/values.go\<close>, the observation token of
  \<open>internal/heos/protocol.go\<close>, the command delivery classes of \<open>internal/heos/client.go\<close> and
  the errors the packages return. Go's string-typed constants become datatypes with one extra
  constructor for every other string, so that \<open>T(s)\<close> conversions stay total and invertible.
\<close>

subsection \<open>Play state\<close>

datatype PlayState =
    PlayStateAbsent
  | PlayStatePlay
  | PlayStatePause
  | PlayStateStop
  | PlayStateUnknown
  | PlayStateOther string

definition PlayState_of :: "string \<Rightarrow> PlayState" where
  "PlayState_of s =
     (if s = [] then PlayStateAbsent
      else if s = ''play'' then PlayStatePlay
      else if s = ''pause'' then PlayStatePause
      else if s = ''stop'' then PlayStateStop
      else if s = ''unknown'' then PlayStateUnknown
      else PlayStateOther s)"

fun PlayState_string :: "PlayState \<Rightarrow> string" where
  "PlayState_string PlayStateAbsent = []"
| "PlayState_string PlayStatePlay = ''play''"
| "PlayState_string PlayStatePause = ''pause''"
| "PlayState_string PlayStateStop = ''stop''"
| "PlayState_string PlayStateUnknown = ''unknown''"
| "PlayState_string (PlayStateOther s) = s"

fun PlayState_Active :: "PlayState \<Rightarrow> bool" where
  "PlayState_Active PlayStatePlay = True"
| "PlayState_Active PlayStatePause = True"
| "PlayState_Active _ = False"

fun PlayState_Known :: "PlayState \<Rightarrow> bool" where
  "PlayState_Known PlayStatePlay = True"
| "PlayState_Known PlayStatePause = True"
| "PlayState_Known PlayStateStop = True"
| "PlayState_Known PlayStateUnknown = True"
| "PlayState_Known _ = False"

fun PlayState_Writable :: "PlayState \<Rightarrow> bool" where
  "PlayState_Writable PlayStatePlay = True"
| "PlayState_Writable PlayStatePause = True"
| "PlayState_Writable PlayStateStop = True"
| "PlayState_Writable _ = False"

lemma PlayState_string_of [simp]: "PlayState_string (PlayState_of s) = s"
  by (simp add: PlayState_of_def)

lemma PlayState_of_string: "PlayState_Known s \<Longrightarrow> PlayState_of (PlayState_string s) = s"
  by (cases s) (auto simp: PlayState_of_def)

lemma PlayState_Writable_Known: "PlayState_Writable s \<Longrightarrow> PlayState_Known s"
  by (cases s) auto

lemma PlayState_Active_Writable: "PlayState_Active s \<Longrightarrow> PlayState_Writable s"
  by (cases s) auto

subsection \<open>Repeat mode\<close>

datatype Repeat =
    RepeatAbsent
  | RepeatOff
  | RepeatOnAll
  | RepeatOnOne
  | RepeatOther string

definition Repeat_of :: "string \<Rightarrow> Repeat" where
  "Repeat_of s =
     (if s = [] then RepeatAbsent
      else if s = ''off'' then RepeatOff
      else if s = ''on_all'' then RepeatOnAll
      else if s = ''on_one'' then RepeatOnOne
      else RepeatOther s)"

fun Repeat_string :: "Repeat \<Rightarrow> string" where
  "Repeat_string RepeatAbsent = []"
| "Repeat_string RepeatOff = ''off''"
| "Repeat_string RepeatOnAll = ''on_all''"
| "Repeat_string RepeatOnOne = ''on_one''"
| "Repeat_string (RepeatOther s) = s"

fun Repeat_Known :: "Repeat \<Rightarrow> bool" where
  "Repeat_Known RepeatOff = True"
| "Repeat_Known RepeatOnAll = True"
| "Repeat_Known RepeatOnOne = True"
| "Repeat_Known _ = False"

lemma Repeat_string_of [simp]: "Repeat_string (Repeat_of s) = s"
  by (simp add: Repeat_of_def)

lemma Repeat_of_string: "Repeat_Known r \<Longrightarrow> Repeat_of (Repeat_string r) = r"
  by (cases r) (auto simp: Repeat_of_def)

subsection \<open>Mutation kinds\<close>

datatype MutationKind =
    MutationKindAbsent
  | MutationKindVolume
  | MutationKindMute
  | MutationKindTransport
  | MutationKindSkip
  | MutationKindMode
  | MutationKindQueue
  | MutationKindRemove

fun MutationKind_string :: "MutationKind \<Rightarrow> string" where
  "MutationKind_string MutationKindAbsent = []"
| "MutationKind_string MutationKindVolume = ''volume''"
| "MutationKind_string MutationKindMute = ''mute''"
| "MutationKind_string MutationKindTransport = ''transport''"
| "MutationKind_string MutationKindSkip = ''skip''"
| "MutationKind_string MutationKindMode = ''mode''"
| "MutationKind_string MutationKindQueue = ''queue''"
| "MutationKind_string MutationKindRemove = ''remove''"

subsection \<open>Observation tokens\<close>

record Token =
  t_Generation :: uint64
  t_Revision :: uint64
  t_Catalog :: uint64
  t_Player :: uint64
  t_Write :: uint64

definition zeroToken :: Token where
  "zeroToken = \<lparr>t_Generation = 0, t_Revision = 0, t_Catalog = 0, t_Player = 0, t_Write = 0\<rparr>"

definition sameGlobal :: "Token \<Rightarrow> Token \<Rightarrow> bool" where
  "sameGlobal a b \<longleftrightarrow>
     a\<lparr>t_Player := 0, t_Write := 0\<rparr> = b\<lparr>t_Player := 0, t_Write := 0\<rparr>"

definition catalogSame :: "Token \<Rightarrow> Token \<Rightarrow> bool" where
  "catalogSame a b \<longleftrightarrow> t_Generation a = t_Generation b \<and> t_Catalog a = t_Catalog b"

definition sameCatalog :: "Token \<Rightarrow> Token \<Rightarrow> bool" where
  "sameCatalog a b \<longleftrightarrow> t_Generation a = t_Generation b \<and> t_Catalog a = t_Catalog b"

lemma sameGlobal_iff [state_simps]:
  "sameGlobal a b \<longleftrightarrow>
     t_Generation a = t_Generation b \<and> t_Revision a = t_Revision b \<and> t_Catalog a = t_Catalog b"
  by (cases a; cases b) (auto simp: sameGlobal_def)

lemma sameGlobal_refl [simp]: "sameGlobal t t"
  by (simp add: sameGlobal_iff)

lemma token_eq_iff:
  "(a :: Token) = b \<longleftrightarrow> sameGlobal a b \<and> t_Player a = t_Player b \<and> t_Write a = t_Write b"
  by (cases a; cases b) (auto simp: sameGlobal_def)

subsection \<open>Delivery and errors\<close>

datatype Delivery = NotSent | Uncertain | Rejected

text \<open>
  One constructor per sentinel error of the packages \<open>heos\<close>, \<open>control\<close>, \<open>journal\<close> and of the
  standard library the sources test for, and one per error type that wraps another:
  \<open>OwnershipError\<close> (\<open>control/diagnostics.go\<close>) with its reason and changed fields,
  \<open>CommandError\<close> (\<open>heos/client.go\<close>), \<open>DeviceError\<close> (\<open>heos/errors.go\<close>) with its code,
  \<open>diagnosticError\<close> (\<open>control/completion_diagnostics.go\<close>) with the cause and its rule, and
  \<open>Wrapped\<close> for \<open>fmt.Errorf\<close> with two \<open>%w\<close> verbs. \<open>OtherError\<close> is an error of the
  operating system or the network.
\<close>

datatype error =
    ErrProtocol | ErrReadOnly | ErrQueueFull | ErrInterrupted | ErrClosed | ErrOffline
  | ErrRejected | ErrConnect | ErrTLS | ErrPinMismatch | ErrIdentity | ErrStale | ErrBounds
  | ErrStaleReference | ErrCatalogFull | ErrIncompleteSource
  | ErrPrecondition | ErrPreconditionRequired | ErrGrouped | ErrOwnership | ErrUnavailable
  | ErrAmbiguous | ErrNotSkippable | errSuperseded | errJournalUnavailable
  | errPlaybackTimelineChanged | errQueueLoadingIncomplete | errBufferedSessionExpired
  | errBufferedCapacity
  | ErrInvalid | ErrNotFound | ErrConflict | ErrBusy | ErrCapacity | ErrExpired | ErrFuture
  | ErrRevision | ErrStaleEpoch | ErrNotInitialized | ErrCommitUncertain
  | DeadlineExceeded | Canceled
  | OwnershipError string "string list"
  | CommandError Delivery error
  | DeviceError int
  | diagnosticError error string
  | Wrapped error error
  | OtherError string

text \<open>\<open>errors.Is\<close>: the error itself or anything its \<open>Unwrap\<close> chain reaches.\<close>

fun errors_Is :: "error \<Rightarrow> error \<Rightarrow> bool" where
  "errors_Is (OwnershipError r fs) t = (OwnershipError r fs = t \<or> ErrOwnership = t)"
| "errors_Is (CommandError d c) t = (CommandError d c = t \<or> errors_Is c t)"
| "errors_Is (DeviceError n) t = (DeviceError n = t \<or> ErrRejected = t)"
| "errors_Is (diagnosticError c r) t = (diagnosticError c r = t \<or> errors_Is c t)"
| "errors_Is (Wrapped a b) t = (Wrapped a b = t \<or> errors_Is a t \<or> errors_Is b t)"
| "errors_Is e t = (e = t)"

text \<open>\<open>errors.As(err, &command)\<close> for the outermost \<open>*heos.CommandError\<close> of the chain.\<close>

fun as_CommandError :: "error \<Rightarrow> (Delivery \<times> error) option" where
  "as_CommandError (CommandError d c) = Some (d, c)"
| "as_CommandError (diagnosticError c r) = as_CommandError c"
| "as_CommandError (Wrapped a b) =
     (case as_CommandError a of Some x \<Rightarrow> Some x | None \<Rightarrow> as_CommandError b)"
| "as_CommandError _ = None"

definition errQueueTransitionTimeout :: error where
  "errQueueTransitionTimeout = OwnershipError ''queue_transition_timeout'' []"

lemma errors_Is_refl [simp]: "errors_Is e e"
  by (cases e) auto

lemma errors_Is_transition_timeout [simp]: "errors_Is errQueueTransitionTimeout ErrOwnership"
  by (simp add: errQueueTransitionTimeout_def)

lemma errors_Is_diagnostic:
  "t \<noteq> diagnosticError c r \<Longrightarrow> errors_Is (diagnosticError c r) t = errors_Is c t"
  by auto

text \<open>A result of a fallible Go function without a value.\<close>

type_synonym 'a result = "error + 'a"

end
