(* ===== verification/Snapshots.thy ===== *)
theory Snapshots
  imports Values
begin

section \<open>Observed device state\<close>

text \<open>
  The data of \<open>internal/heos/observations.go\<close>: players, groups, media, queue pages and the
  snapshot an observer publishes, with the resolution of the configured physical identity.
  A Go pointer that may be nil is an \<open>option\<close>; slices are lists.
\<close>

record Identity =
  i_Key :: string
  i_Serial :: string
  i_Model :: string

record Player =
  p_ID :: ID
  p_Name :: string
  p_Model :: string
  p_Serial :: string
  p_IP :: string
  p_GroupID :: ID

record GroupMember =
  gm_ID :: ID
  gm_Role :: string

record Group =
  g_ID :: ID
  g_Name :: string
  g_Players :: "GroupMember list"

record Media =
  md_Source :: ID
  md_ID :: ID
  md_QueueID :: ID
  md_Song :: string
  md_Album :: string
  md_Artist :: string

record QueuePage =
  q_Items :: "Media list"
  q_Total :: "int option"
  q_Next :: "int option"
  q_Token :: Token

record Playhead =
  ph_PositionMS :: int
  ph_DurationMS :: int
  ph_At :: time
  ph_Source :: ID
  ph_Media :: ID
  ph_Queue :: ID

record Snapshot =
  s_Repeat :: Repeat
  s_Shuffle :: bool
  s_Key :: string
  s_Player :: Player
  s_Groups :: "Group list"
  s_Grouped :: bool
  s_State :: PlayState
  s_Volume :: "int option"
  s_Muted :: "bool option"
  s_Media :: "Media option"
  s_Queue :: QueuePage
  s_ObservedAt :: time
  s_Token :: Token
  s_Stale :: bool
  s_Connected :: bool
  s_Verified :: bool
  s_MediaStale :: bool
  s_MediaUnavailable :: bool
  s_EventUpdated :: bool
  s_Playhead :: "Playhead option"

text \<open>The zero values Go gives these types.\<close>

definition zeroPlayer :: Player where
  "zeroPlayer = \<lparr>p_ID = [], p_Name = [], p_Model = [], p_Serial = [], p_IP = [], p_GroupID = []\<rparr>"

definition zeroQueuePage :: QueuePage where
  "zeroQueuePage = \<lparr>q_Items = [], q_Total = None, q_Next = None, q_Token = zeroToken\<rparr>"

definition zeroSnapshot :: Snapshot where
  "zeroSnapshot = \<lparr>s_Repeat = RepeatAbsent, s_Shuffle = False, s_Key = [], s_Player = zeroPlayer,
     s_Groups = [], s_Grouped = False, s_State = PlayStateAbsent, s_Volume = None, s_Muted = None,
     s_Media = None, s_Queue = zeroQueuePage, s_ObservedAt = 0, s_Token = zeroToken,
     s_Stale = False, s_Connected = False, s_Verified = False, s_MediaStale = False,
     s_MediaUnavailable = False, s_EventUpdated = False, s_Playhead = None\<rparr>"

subsection \<open>Physical identity\<close>

definition ResolveIdentity :: "Player list \<Rightarrow> Identity \<Rightarrow> Player result" where
  "ResolveIdentity players identity =
     (if i_Key identity = [] \<or> i_Serial identity = [] then Inl ErrIdentity
      else case filter (\<lambda>p. p_Serial p = i_Serial identity) players of
             [found] \<Rightarrow>
               if p_ID found = [] \<or> (i_Model identity \<noteq> [] \<and> p_Model found \<noteq> i_Model identity)
               then Inl ErrIdentity
               else if length (filter (\<lambda>p. p_ID p = p_ID found) players) \<noteq> 1 then Inl ErrIdentity
               else Inr found
           | _ \<Rightarrow> Inl ErrIdentity)"

lemma filter_singleton_unique:
  assumes "filter P xs = [x]"
  shows "x \<in> set xs" and "P x" and "\<And>y. y \<in> set xs \<Longrightarrow> P y \<Longrightarrow> y = x"
proof -
  from assms have s: "set (filter P xs) = {x}" by simp
  then show "x \<in> set xs" and "P x" by auto
  show "\<And>y. y \<in> set xs \<Longrightarrow> P y \<Longrightarrow> y = x" using s by auto
qed

lemma filter_length_1:
  assumes "length (filter P xs) = 1" and "x \<in> set xs" and "P x"
  shows "filter P xs = [x]"
proof -
  obtain y where y: "filter P xs = [y]"
    using assms(1) by (auto simp: length_Suc_conv)
  with assms(2,3) show ?thesis using filter_singleton_unique(3) [OF y, of x] by simp
qed

lemma ResolveIdentity_filters:
  assumes "ResolveIdentity players identity = Inr p"
  shows "filter (\<lambda>q. p_Serial q = i_Serial identity) players = [p]"
    and "filter (\<lambda>q. p_ID q = p_ID p) players = [p]" and "p_ID p \<noteq> []"
    and "i_Model identity \<noteq> [] \<longrightarrow> p_Model p = i_Model identity"
proof -
  from assms show f: "filter (\<lambda>q. p_Serial q = i_Serial identity) players = [p]"
    and "p_ID p \<noteq> []" and "i_Model identity \<noteq> [] \<longrightarrow> p_Model p = i_Model identity"
    by (auto simp: ResolveIdentity_def split: if_splits list.splits)
  from assms have n: "length (filter (\<lambda>q. p_ID q = p_ID p) players) = 1"
    by (auto simp: ResolveIdentity_def split: if_splits list.splits)
  have "p \<in> set players" using filter_singleton_unique(1) [OF f] .
  with n show "filter (\<lambda>q. p_ID q = p_ID p) players = [p]" by (rule filter_length_1) simp
qed

text \<open>
  The player an observation is bound to is the only one of the device's list with the
  configured serial number, and the only one with its player ID: a duplicated serial, a duplicated
  or empty player ID, or a model other than the configured one is refused.
\<close>

theorem ResolveIdentity_unambiguous:
  assumes "ResolveIdentity players identity = Inr p"
  shows "filter (\<lambda>q. p_Serial q = i_Serial identity) players = [p] \<and>
         filter (\<lambda>q. p_ID q = p_ID p) players = [p] \<and> p_ID p \<noteq> [] \<and>
         (i_Model identity \<noteq> [] \<longrightarrow> p_Model p = i_Model identity)"
  using ResolveIdentity_filters [OF assms] by simp

theorem ResolveIdentity_unambiguous_witness:
  "let home = zeroPlayer\<lparr>p_ID := ''7'', p_Serial := ''S1'', p_Model := ''Home 150''\<rparr>;
       other = zeroPlayer\<lparr>p_ID := ''8'', p_Serial := ''S2''\<rparr>;
       identity = \<lparr>i_Key = ''kitchen'', i_Serial = ''S1'', i_Model = ''Home 150''\<rparr>
   in ResolveIdentity [other, home] identity = Inr home \<and>
      filter (\<lambda>q. p_ID q = p_ID home) [other, home] = [home]"
proof -
  let ?home = "zeroPlayer\<lparr>p_ID := ''7'', p_Serial := ''S1'', p_Model := ''Home 150''\<rparr>"
  let ?other = "zeroPlayer\<lparr>p_ID := ''8'', p_Serial := ''S2''\<rparr>"
  let ?identity = "\<lparr>i_Key = ''kitchen'', i_Serial = ''S1'', i_Model = ''Home 150''\<rparr>"
  have r: "ResolveIdentity [?other, ?home] ?identity = Inr ?home"
    by (simp add: ResolveIdentity_def zeroPlayer_def)
  then show ?thesis
    using ResolveIdentity_unambiguous [OF r] by (simp add: Let_def)
qed

end
