(* ===== verification/Strings.thy ===== *)
theory Strings
  imports Values "HOL-Library.Char_ord" "HOL-Library.List_Lexorder"
begin

section \<open>Go's string library, as far as the sources use it\<close>

text \<open>
  Byte strings as \<open>char\<close> lists: \<open>strings.Cut\<close>, \<open>Split\<close>, \<open>Join\<close> and \<open>TrimSpace\<close>,
  \<open>strconv.Atoi\<close>, \<open>ParseUint\<close> and \<open>Itoa\<close>, \<open>url.QueryEscape\<close> and \<open>PathUnescape\<close>,
  \<open>utf8.ValidString\<close>, and \<open>url.Values\<close> as an association list. The lemmas are the round
  trips the wire protocol relies on.
\<close>

definition code :: "char \<Rightarrow> nat" where
  "code c = of_char c"

lemma code_less [simp]: "code c < 256"
  by (simp add: code_def)

lemma code_inj [simp]: "code c = code d \<longleftrightarrow> c = d"
  by (simp add: code_def)

lemma char_of_code [simp]: "char_of (code c) = c"
  by (simp add: code_def)

lemma code_char_of: "n < 256 \<Longrightarrow> code (char_of n) = n"
  by (simp add: code_def)

abbreviation CR :: char where "CR \<equiv> CHR 0x0D"
abbreviation LF :: char where "LF \<equiv> CHR 0x0A"
abbreviation NUL :: char where "NUL \<equiv> CHR 0x00"

subsection \<open>Cut, Split and Join\<close>

fun Cut :: "char \<Rightarrow> string \<Rightarrow> string \<times> string \<times> bool" where
  "Cut c [] = ([], [], False)"
| "Cut c (x # xs) =
     (if x = c then ([], xs, True)
      else (case Cut c xs of (a, b, ok) \<Rightarrow> (x # a, b, ok)))"

fun Split :: "char \<Rightarrow> string \<Rightarrow> string list" where
  "Split c [] = [[]]"
| "Split c (x # xs) =
     (if x = c then [] # Split c xs
      else (case Split c xs of [] \<Rightarrow> [[x]] | y # ys \<Rightarrow> (x # y) # ys))"

fun Join :: "string \<Rightarrow> string list \<Rightarrow> string" where
  "Join sep [] = []"
| "Join sep [x] = x"
| "Join sep (x # y # ys) = x @ sep @ Join sep (y # ys)"

lemma Cut_found: "c \<notin> set a \<Longrightarrow> Cut c (a @ c # b) = (a, b, True)"
  by (induction a) auto

lemma Cut_absent: "c \<notin> set a \<Longrightarrow> Cut c a = (a, [], False)"
  by (induction a) auto

lemma Split_not_Nil [simp]: "Split c s \<noteq> []"
  by (cases s) (auto split: list.splits)

lemma Split_absent: "c \<notin> set a \<Longrightarrow> Split c a = [a]"
  by (induction a) auto

lemma Split_append: "c \<notin> set a \<Longrightarrow> Split c (a @ c # b) = a # Split c b"
  by (induction a) auto

lemma Split_Join:
  assumes "\<forall>x \<in> set xs. c \<notin> set x" and "xs \<noteq> []"
  shows "Split c (Join [c] xs) = xs"
  using assms by (induction "[c]" xs rule: Join.induct) (auto simp: Split_absent Split_append)

lemma set_Join: "set (Join sep xs) \<subseteq> set sep \<union> \<Union> (set ` set xs)"
  by (induction sep xs rule: Join.induct) auto

lemma Split_no_sep: "x \<in> set (Split c s) \<Longrightarrow> c \<notin> set x"
  by (induction c s arbitrary: x rule: Split.induct) (auto split: if_splits list.splits)

lemma set_Split: "x \<in> set (Split c s) \<Longrightarrow> set x \<subseteq> set s"
  by (induction c s arbitrary: x rule: Split.induct) (fastforce split: if_splits list.splits)+

lemma Join_Split: "Join [c] (Split c s) = s"
proof (induction c s rule: Split.induct)
  case (2 c x xs)
  then show ?case by (cases "Split c xs"; cases "tl (Split c xs)") auto
qed simp

subsection \<open>Decimal numbers\<close>

definition is_digit :: "char \<Rightarrow> bool" where
  "is_digit c \<longleftrightarrow> 48 \<le> code c \<and> code c \<le> 57"

fun digits_acc :: "nat \<Rightarrow> string \<Rightarrow> nat option" where
  "digits_acc n [] = Some n"
| "digits_acc n (c # cs) = (if is_digit c then digits_acc (10 * n + (code c - 48)) cs else None)"

definition digits_val :: "string \<Rightarrow> nat option" where
  "digits_val s = (if s = [] then None else digits_acc 0 s)"

definition Atoi :: "string \<Rightarrow> int option" where
  "Atoi s =
     (let (neg, body) = (case s of c # cs \<Rightarrow> if c = CHR ''-'' then (True, cs)
                                  else if c = CHR ''+'' then (False, cs) else (False, s)
                          | [] \<Rightarrow> (False, s))
      in case digits_val body of
           None \<Rightarrow> None
         | Some n \<Rightarrow> (let v = (if neg then - int n else int n)
                     in if - (2 ^ 63) \<le> v \<and> v < 2 ^ 63 then Some v else None))"

definition ParseUint :: "string \<Rightarrow> nat option" where
  "ParseUint s =
     (case digits_val s of None \<Rightarrow> None | Some n \<Rightarrow> if n < 2 ^ 64 then Some n else None)"

fun show_nat :: "nat \<Rightarrow> string" where
  "show_nat n = (if n < 10 then [char_of (48 + n)]
                 else show_nat (n div 10) @ [char_of (48 + n mod 10)])"

declare show_nat.simps [simp del]

definition Itoa :: "int \<Rightarrow> string" where
  "Itoa i = (if i < 0 then CHR ''-'' # show_nat (nat (- i)) else show_nat (nat i))"

lemma digit_char:
  assumes "d < 10"
  shows "is_digit (char_of (48 + d))" and "code (char_of (48 + d)) = 48 + d"
  using assms by (auto simp: is_digit_def code_char_of)

lemma digits_acc_append:
  "digits_acc n (s @ [c]) =
     (case digits_acc n s of None \<Rightarrow> None
      | Some m \<Rightarrow> if is_digit c then Some (10 * m + (code c - 48)) else None)"
  by (induction n s rule: digits_acc.induct) auto

lemma show_nat_not_Nil [simp]: "show_nat n \<noteq> []"
  by (subst show_nat.simps) simp

lemma digits_acc_show_nat: "digits_acc 0 (show_nat n) = Some n"
proof (induction n rule: show_nat.induct)
  case (1 n)
  show ?case
  proof (cases "n < 10")
    case True
    then show ?thesis by (simp add: show_nat.simps [of n] digit_char)
  next
    case False
    with 1 have "digits_acc 0 (show_nat (n div 10)) = Some (n div 10)" by simp
    with False show ?thesis
      by (simp add: show_nat.simps [of n] digits_acc_append digit_char)
  qed
qed

lemma digits_val_show_nat [simp]: "digits_val (show_nat n) = Some n"
  by (simp add: digits_val_def digits_acc_show_nat)

lemma show_nat_digits: "c \<in> set (show_nat n) \<Longrightarrow> is_digit c"
proof (induction n rule: show_nat.induct)
  case (1 n)
  show ?case
  proof (cases "n < 10")
    case True
    with 1 show ?thesis by (simp add: show_nat.simps [of n] digit_char)
  next
    case False
    with "1.prems" consider "c \<in> set (show_nat (n div 10))" | "c = char_of (48 + n mod 10)"
      by (auto simp: show_nat.simps [of n])
    then show ?thesis
    proof cases
      case 1
      then show ?thesis using "1.IH" False by blast
    next
      case 2
      then show ?thesis using digit_char(1) [of "n mod 10"] by simp
    qed
  qed
qed

lemma is_digit_not [simp]:
  "\<not> is_digit CHR ''-''" "\<not> is_digit CHR ''+''" "\<not> is_digit CHR '',''" "\<not> is_digit CHR '' ''"
  "\<not> is_digit CHR ''&''" "\<not> is_digit CHR ''=''" "\<not> is_digit CHR ''%''"
  "\<not> is_digit CR" "\<not> is_digit LF" "\<not> is_digit NUL"
  by (simp_all add: is_digit_def code_def)

lemma Itoa_chars: "c \<in> set (Itoa i) \<Longrightarrow> is_digit c \<or> c = CHR ''-''"
  by (auto simp: Itoa_def dest: show_nat_digits split: if_splits)

lemma Atoi_Itoa: "- (2 ^ 63) \<le> i \<Longrightarrow> i < 2 ^ 63 \<Longrightarrow> Atoi (Itoa i) = Some i"
proof (cases "i < 0")
  case True
  then show "- (2 ^ 63) \<le> i \<Longrightarrow> i < 2 ^ 63 \<Longrightarrow> Atoi (Itoa i) = Some i"
    by (simp add: Atoi_def Itoa_def)
next
  case False
  obtain c cs where s: "show_nat (nat i) = c # cs" by (meson neq_Nil_conv show_nat_not_Nil)
  then have "is_digit c" using show_nat_digits [of c "nat i"] by simp
  then have "c \<noteq> CHR ''-''" and "c \<noteq> CHR ''+''" by auto
  moreover have "digits_val (c # cs) = Some (nat i)" using digits_val_show_nat [of "nat i"] s by simp
  ultimately show "- (2 ^ 63) \<le> i \<Longrightarrow> i < 2 ^ 63 \<Longrightarrow> Atoi (Itoa i) = Some i"
    using False by (simp add: Atoi_def Itoa_def s)
qed

subsection \<open>White space\<close>

text \<open>The UTF-8 encodings of the characters \<open>unicode.IsSpace\<close> accepts.\<close>

definition space_encodings :: "string list" where
  "space_encodings =
     [[CHR 0x09], [CHR 0x0A], [CHR 0x0B], [CHR 0x0C], [CHR 0x0D], [CHR 0x20],
      [CHR 0xC2, CHR 0x85], [CHR 0xC2, CHR 0xA0], [CHR 0xE1, CHR 0x9A, CHR 0x80]] @
     map (\<lambda>n. [CHR 0xE2, CHR 0x80, char_of (n::nat)]) [128..<139] @
     [[CHR 0xE2, CHR 0x80, CHR 0xA8], [CHR 0xE2, CHR 0x80, CHR 0xA9],
      [CHR 0xE2, CHR 0x80, CHR 0xAF], [CHR 0xE2, CHR 0x81, CHR 0x9F],
      [CHR 0xE3, CHR 0x80, CHR 0x80]]"

definition strip_one :: "string list \<Rightarrow> string \<Rightarrow> string option" where
  "strip_one spaces s =
     (case filter (\<lambda>e. take (length e) s = e) spaces of
        [] \<Rightarrow> None | e # _ \<Rightarrow> Some (drop (length e) s))"

fun strip_all :: "nat \<Rightarrow> string list \<Rightarrow> string \<Rightarrow> string" where
  "strip_all 0 spaces s = s"
| "strip_all (Suc n) spaces s =
     (case strip_one spaces s of None \<Rightarrow> s | Some r \<Rightarrow> strip_all n spaces r)"

text \<open>
  Every stripped character has at least one byte, so \<open>length s\<close> rounds reach the first
  character that is no space.
\<close>

definition TrimSpace :: "string \<Rightarrow> string" where
  "TrimSpace s =
     (let l = strip_all (length s) space_encodings s
      in rev (strip_all (length l) (map rev space_encodings) (rev l)))"

lemma strip_one_None:
  "strip_one spaces s = None \<longleftrightarrow> (\<forall>e \<in> set spaces. take (length e) s \<noteq> e)"
proof -
  have "strip_one spaces s = None \<longleftrightarrow> filter (\<lambda>e. take (length e) s = e) spaces = []"
    by (simp add: strip_one_def split: list.split)
  then show ?thesis by (simp add: filter_empty_conv)
qed

lemma strip_all_id: "strip_one spaces s = None \<Longrightarrow> strip_all n spaces s = s"
  by (cases n) auto

definition plain_char :: "char \<Rightarrow> bool" where
  "plain_char c \<longleftrightarrow> 33 \<le> code c \<and> code c \<le> 126"

lemma space_encodings_hd:
  "e \<in> set space_encodings \<Longrightarrow> e \<noteq> [] \<and> \<not> plain_char (hd e) \<and> \<not> plain_char (last e)"
proof -
  have mid: "\<not> plain_char (char_of n)" if "128 \<le> n" "n < 139" for n :: nat
    using that by (simp add: plain_char_def code_char_of)
  show "e \<in> set space_encodings \<Longrightarrow> e \<noteq> [] \<and> \<not> plain_char (hd e) \<and> \<not> plain_char (last e)"
    using mid by (auto simp: space_encodings_def plain_char_def code_def)
qed

lemma TrimSpace_plain: "\<forall>c \<in> set s. plain_char c \<Longrightarrow> TrimSpace s = s"
proof -
  assume plain: "\<forall>c \<in> set s. plain_char c"
  have "strip_one space_encodings s = None"
  proof (rule iffD2 [OF strip_one_None], intro ballI notI)
    fix e assume e: "e \<in> set space_encodings" and t: "take (length e) s = e"
    from e have "e \<noteq> []" and h: "\<not> plain_char (hd e)" using space_encodings_hd by auto
    then have "hd e \<in> set s" using t by (metis hd_in_set in_set_takeD)
    with plain h show False by blast
  qed
  moreover have "strip_one (map rev space_encodings) (rev s) = None"
  proof (rule iffD2 [OF strip_one_None], intro ballI notI)
    fix e assume "e \<in> set (map rev space_encodings)" and t: "take (length e) (rev s) = e"
    then obtain e' where e': "e' \<in> set space_encodings" "e = rev e'" by auto
    then have "e \<noteq> []" and h: "\<not> plain_char (hd e)"
      using space_encodings_hd [of e'] by (auto simp: hd_rev)
    then have "hd e \<in> set s" using t by (metis hd_in_set in_set_takeD set_rev)
    with plain h show False by blast
  qed
  ultimately show ?thesis by (simp add: TrimSpace_def strip_all_id)
qed

lemma is_digit_plain: "is_digit c \<Longrightarrow> plain_char c"
  by (simp add: is_digit_def plain_char_def)

lemma TrimSpace_Itoa [simp]: "TrimSpace (Itoa i) = Itoa i"
proof (rule TrimSpace_plain, rule ballI)
  fix c assume "c \<in> set (Itoa i)"
  then have "is_digit c \<or> c = CHR ''-''" by (rule Itoa_chars)
  then show "plain_char c"
    using is_digit_plain by (auto simp: plain_char_def code_def)
qed

subsection \<open>Percent escaping\<close>

definition unreserved :: "char \<Rightarrow> bool" where
  "unreserved c \<longleftrightarrow>
     (let n = code c in (97 \<le> n \<and> n \<le> 122) \<or> (65 \<le> n \<and> n \<le> 90) \<or> (48 \<le> n \<and> n \<le> 57)
        \<or> c = CHR ''-'' \<or> c = CHR ''_'' \<or> c = CHR ''.'' \<or> c = CHR ''~'')"

definition upperhex :: "nat \<Rightarrow> char" where
  "upperhex d = (if d < 10 then char_of (48 + d) else char_of (55 + d))"

definition unhex :: "char \<Rightarrow> nat option" where
  "unhex c =
     (let n = code c in
      if 48 \<le> n \<and> n \<le> 57 then Some (n - 48)
      else if 97 \<le> n \<and> n \<le> 102 then Some (n - 87)
      else if 65 \<le> n \<and> n \<le> 70 then Some (n - 55)
      else None)"

definition escape_char :: "char \<Rightarrow> string" where
  "escape_char c =
     (if unreserved c then [c]
      else if c = CHR '' '' then ''+''
      else [CHR ''%'', upperhex (code c div 16), upperhex (code c mod 16)])"

definition QueryEscape :: "string \<Rightarrow> string" where
  "QueryEscape s = concat (map escape_char s)"

definition ReplacePlus :: "string \<Rightarrow> string" where
  "ReplacePlus s = concat (map (\<lambda>c. if c = CHR ''+'' then ''%20'' else [c]) s)"

fun PathUnescape :: "string \<Rightarrow> string option" where
  "PathUnescape [] = Some []"
| "PathUnescape (c # cs) =
     (if c = CHR ''%'' then
        (case cs of
           a # b # r \<Rightarrow>
             (case (unhex a, unhex b) of
                (Some h, Some l) \<Rightarrow> map_option ((#) (char_of (16 * h + l))) (PathUnescape r)
              | _ \<Rightarrow> None)
         | _ \<Rightarrow> None)
      else map_option ((#) c) (PathUnescape cs))"

lemma upperhex_code: "d < 16 \<Longrightarrow> code (upperhex d) = (if d < 10 then 48 + d else 55 + d)"
  by (simp add: upperhex_def code_char_of)

lemma unhex_upperhex [simp]: "d < 16 \<Longrightarrow> unhex (upperhex d) = Some d"
  by (auto simp: unhex_def upperhex_code Let_def)

lemma upperhex_plain: "d < 16 \<Longrightarrow> unreserved (upperhex d)"
  by (auto simp: unreserved_def upperhex_code Let_def)

lemma unreserved_not [simp]:
  "\<not> unreserved CHR ''%''" "\<not> unreserved CHR ''+''" "\<not> unreserved CHR ''&''"
  "\<not> unreserved CHR ''=''" "\<not> unreserved CHR '',''" "\<not> unreserved CHR '' ''"
  "\<not> unreserved CR" "\<not> unreserved LF" "\<not> unreserved CHR ''?''" "\<not> unreserved CHR ''/''"
  by (simp_all add: unreserved_def code_def)

text \<open>The escape of one byte as it goes on the wire, after \<open>ReplaceAll(.., "+", "%20")\<close>.\<close>

definition wire_escape :: "string \<Rightarrow> string" where
  "wire_escape s = ReplacePlus (QueryEscape s)"

lemma ReplacePlus_append [simp]: "ReplacePlus (a @ b) = ReplacePlus a @ ReplacePlus b"
  by (simp add: ReplacePlus_def)

lemma ReplacePlus_Nil [simp]: "ReplacePlus [] = []"
  by (simp add: ReplacePlus_def)

lemma ReplacePlus_absent: "CHR ''+'' \<notin> set s \<Longrightarrow> ReplacePlus s = s"
  by (induction s) (auto simp: ReplacePlus_def)

lemma wire_escape_Nil [simp]: "wire_escape [] = []"
  by (simp add: wire_escape_def QueryEscape_def)

lemma code_div_mod_16: "code c div 16 < 16" "code c mod 16 < 16"
  using code_less [of c] by (auto simp: less_mult_imp_div_less)

lemma hex_not_plus:
  "upperhex (code c div 16) \<noteq> CHR ''+''" "upperhex (code c mod 16) \<noteq> CHR ''+''"
  using upperhex_plain [OF code_div_mod_16(1)] upperhex_plain [OF code_div_mod_16(2)]
    unreserved_not(2) by metis+

lemma wire_escape_Cons:
  "wire_escape (c # s) =
     (if unreserved c then [c]
      else [CHR ''%'', upperhex (code c div 16), upperhex (code c mod 16)]) @ wire_escape s"
proof -
  have sp: "[CHR ''%'', upperhex (code CHR '' '' div 16), upperhex (code CHR '' '' mod 16)] = ''%20''"
    by code_simp
  have "ReplacePlus (escape_char c) =
      (if unreserved c then [c]
       else [CHR ''%'', upperhex (code c div 16), upperhex (code c mod 16)])"
  proof (cases "c = CHR '' ''")
    case True
    then show ?thesis using sp by (simp add: escape_char_def ReplacePlus_def)
  next
    case False
    then show ?thesis using hex_not_plus [of c]
      by (auto simp: escape_char_def ReplacePlus_def)
  qed
  then show ?thesis by (simp add: wire_escape_def QueryEscape_def)
qed

lemma PathUnescape_wire_escape: "PathUnescape (wire_escape s @ r) = map_option ((@) s) (PathUnescape r)"
proof (induction s)
  case (Cons c s)
  have "char_of (16 * (code c div 16) + code c mod 16) = c"
    by (metis char_of_code div_mult_mod_eq mult.commute)
  moreover have "unreserved c \<Longrightarrow> c \<noteq> CHR ''%''" by auto
  ultimately show ?case using Cons
    by (auto simp: wire_escape_Cons code_div_mod_16 option.map_comp o_def split: option.splits)
qed (simp add: option.map_ident)

lemma set_wire_escape: "c \<in> set (wire_escape s) \<Longrightarrow> unreserved c \<or> c = CHR ''%''"
  by (induction s) (auto simp: wire_escape_Cons upperhex_plain code_div_mod_16 split: if_splits)

subsection \<open>UTF-8\<close>

definition cont_byte :: "char \<Rightarrow> bool" where
  "cont_byte c \<longleftrightarrow> 128 \<le> code c \<and> code c \<le> 191"

definition in_range :: "nat \<Rightarrow> nat \<Rightarrow> char \<Rightarrow> bool" where
  "in_range lo hi c \<longleftrightarrow> lo \<le> code c \<and> code c \<le> hi"

fun utf8_valid :: "string \<Rightarrow> bool" where
  "utf8_valid [] = True"
| "utf8_valid (a # r) =
     (if code a < 128 then utf8_valid r
      else if in_range 194 223 a then
        (case r of b # r' \<Rightarrow> cont_byte b \<and> utf8_valid r' | _ \<Rightarrow> False)
      else if in_range 224 239 a then
        (case r of b # c # r' \<Rightarrow>
             (if code a = 224 then in_range 160 191 b
              else if code a = 237 then in_range 128 159 b else cont_byte b)
             \<and> cont_byte c \<and> utf8_valid r'
         | _ \<Rightarrow> False)
      else if in_range 240 244 a then
        (case r of b # c # d # r' \<Rightarrow>
             (if code a = 240 then in_range 144 191 b
              else if code a = 244 then in_range 128 143 b else cont_byte b)
             \<and> cont_byte c \<and> cont_byte d \<and> utf8_valid r'
         | _ \<Rightarrow> False)
      else False)"

lemma utf8_valid_ascii: "\<forall>c \<in> set s. code c < 128 \<Longrightarrow> utf8_valid s"
  by (induction s) auto

subsection \<open>Query values\<close>

text \<open>\<open>url.Values\<close>: an association list with at most one entry per key.\<close>

type_synonym url_Values = "(string \<times> string list) list"

definition Values_All :: "url_Values \<Rightarrow> string \<Rightarrow> string list" where
  "Values_All v k = (case map_of v k of None \<Rightarrow> [] | Some xs \<Rightarrow> xs)"

definition Values_Get :: "url_Values \<Rightarrow> string \<Rightarrow> string" where
  "Values_Get v k = (case Values_All v k of [] \<Rightarrow> [] | x # _ \<Rightarrow> x)"

definition Values_Has :: "url_Values \<Rightarrow> string \<Rightarrow> bool" where
  "Values_Has v k \<longleftrightarrow> k \<in> fst ` set v"

definition Values_Set :: "url_Values \<Rightarrow> string \<Rightarrow> string \<Rightarrow> url_Values" where
  "Values_Set v k x = filter (\<lambda>(k', _). k' \<noteq> k) v @ [(k, [x])]"

lemma Values_Has_map_of: "Values_Has v k \<longleftrightarrow> map_of v k \<noteq> None"
  by (simp add: Values_Has_def map_of_eq_None_iff)

lemma map_of_Values_Set: "map_of (Values_Set v k x) = (map_of v)(k \<mapsto> [x])"
proof
  fix j
  have "map_of (filter (\<lambda>(k', _). k' \<noteq> k) v) j = (if j = k then None else map_of v j)"
    by (induction v) auto
  then show "map_of (Values_Set v k x) j = ((map_of v)(k \<mapsto> [x])) j"
    by (auto simp: Values_Set_def map_add_def split: option.splits)
qed

lemma Values_Get_Set [simp]:
  "Values_Get (Values_Set v k x) j = (if j = k then x else Values_Get v j)"
  by (simp add: Values_Get_def Values_All_def map_of_Values_Set)

end
