(* ===== verification/Protocol.thy ===== *)
theory Protocol
  imports Strings
begin

section \<open>The HEOS wire protocol\<close>

text \<open>
  \<open>internal/heos/protocol.go\<close> and \<open>internal/heos/queue_removal.go\<close>: percent-decoded text and
  identifiers, command encoding, frame reading, response decoding and the echo check. The JSON
  decoding of a frame (\<open>encoding/json\<close> on the anonymous struct of \<open>decodeResponse\<close>) is the
  argument \<open>unmarshal\<close>. The main facts: a frame is read exactly when the input starts with a
  bounded line without CR or LF terminated by CR LF; an encoded command is one line, whatever its
  arguments hold; and the message parser reads back what the encoder wrote.
\<close>

subsection \<open>Text and identifiers\<close>

definition decodeText :: "string \<Rightarrow> string result" where
  "decodeText s =
     (case PathUnescape s of
        None \<Rightarrow> Inl ErrProtocol
      | Some v \<Rightarrow> if \<not> utf8_valid v \<or> NUL \<in> set v then Inl ErrProtocol else Inr v)"

text \<open>\<open>unquote\<close> stands for \<open>json.Unmarshal\<close> of a JSON string.\<close>

definition Text_UnmarshalJSON :: "(string \<Rightarrow> string option) \<Rightarrow> string \<Rightarrow> string result" where
  "Text_UnmarshalJSON unquote data =
     (case unquote data of None \<Rightarrow> Inl ErrProtocol | Some wire \<Rightarrow> decodeText wire)"

definition ID_UnmarshalJSON :: "(string \<Rightarrow> string option) \<Rightarrow> string \<Rightarrow> ID result" where
  "ID_UnmarshalJSON unquote data =
     (let data = TrimSpace data;
          value = (case data of
              c # _ \<Rightarrow>
                if c = CHR 0x22 then
                  (case unquote data of None \<Rightarrow> Inl (OtherError ''json'') | Some w \<Rightarrow> decodeText w)
                else
                  (let number = (if c = CHR ''-'' then tl data else data)
                   in if number = [] \<or> \<not> list_all is_digit number then Inl ErrProtocol else Inr data)
            | [] \<Rightarrow> Inl ErrProtocol)
      in case value of
           Inl e \<Rightarrow> Inl e
         | Inr v \<Rightarrow> if v = [] \<or> length v > 4096 \<or> NUL \<in> set v then Inl ErrProtocol else Inr v)"

lemma decodeText_Inr: "decodeText s = Inr v \<Longrightarrow> utf8_valid v \<and> NUL \<notin> set v"
  by (auto simp: decodeText_def split: option.splits if_splits)

lemma decodeText_wire_escape [wire_simps]:
  "utf8_valid v \<Longrightarrow> NUL \<notin> set v \<Longrightarrow> decodeText (wire_escape v) = Inr v"
  using PathUnescape_wire_escape [of v "[]"] by (simp add: decodeText_def)

lemma ID_UnmarshalJSON_bounded:
  "ID_UnmarshalJSON unquote data = Inr v \<Longrightarrow> v \<noteq> [] \<and> length v \<le> 4096 \<and> NUL \<notin> set v"
  by (auto simp: ID_UnmarshalJSON_def Let_def split: sum.splits if_splits)

subsection \<open>Ranges and echoes\<close>

definition parseRange :: "string \<Rightarrow> (int \<times> int) result" where
  "parseRange value =
     (case Cut CHR '','' value of (fst_part, snd_part, ok) \<Rightarrow>
        (case (Atoi (TrimSpace fst_part), Atoi (TrimSpace snd_part)) of
           (Some start, Some end) \<Rightarrow>
             if \<not> ok \<or> start < 0 \<or> end < start then Inl ErrProtocol else Inr (start, end)
         | _ \<Rightarrow> Inl ErrProtocol))"

definition showRange :: "int \<Rightarrow> int \<Rightarrow> string" where
  "showRange start end = Itoa start @ '','' @ Itoa end"

definition echo_keys :: "string list" where
  "echo_keys = [''pid'', ''gid'', ''sid'', ''cid'', ''qid'', ''SEQUENCE'']"

definition validateEcho :: "url_Values \<Rightarrow> url_Values \<Rightarrow> unit result" where
  "validateEcho args params =
     (if list_ex (\<lambda>k. Values_Has args k \<and> Values_Has params k \<and> Values_Get args k \<noteq> Values_Get params k)
           echo_keys
      then Inl ErrProtocol
      else if Values_Has args ''range'' \<and> Values_Has params ''range'' then
        (case (parseRange (Values_Get args ''range''), parseRange (Values_Get params ''range'')) of
           (Inr (start, end), Inr (gotStart, gotEnd)) \<Rightarrow>
             if gotStart \<noteq> start \<or> gotEnd > end then Inl ErrProtocol else Inr ()
         | _ \<Rightarrow> Inl ErrProtocol)
      else Inr ())"

lemma Itoa_no_comma: "CHR '','' \<notin> set (Itoa i)"
  using Itoa_chars [of "CHR '',''" i] by auto

lemma parseRange_showRange [wire_simps]:
  assumes "0 \<le> a" and "a \<le> b" and "b < 2 ^ 63"
  shows "parseRange (showRange a b) = Inr (a, b)"
  using assms Cut_found [OF Itoa_no_comma, of a "Itoa b"]
  by (simp add: parseRange_def showRange_def Atoi_Itoa)

lemma parseRange_Inr: "parseRange v = Inr (a, b) \<Longrightarrow> 0 \<le> a \<and> a \<le> b"
  by (auto simp: parseRange_def split: prod.splits option.splits if_splits)

subsection \<open>Queue removal lists\<close>

text \<open>
  \<open>unicode.IsControl\<close> holds of U+0000 to U+001F and U+007F to U+009F; the latter are C2 80 to
  C2 9F in UTF-8.
\<close>

fun has_control :: "string \<Rightarrow> bool" where
  "has_control [] = False"
| "has_control (c # cs) =
     (code c < 32 \<or> code c = 127 \<or>
      (code c = 194 \<and> (case cs of d # _ \<Rightarrow> code d < 160 | [] \<Rightarrow> False)) \<or> has_control cs)"

definition removal_id_ok :: "string \<Rightarrow> bool" where
  "removal_id_ok x \<longleftrightarrow>
     x \<noteq> [] \<and> length x \<le> 4096 \<and> utf8_valid x \<and> CHR '','' \<notin> set x \<and> \<not> has_control x"

definition validateQueueRemoval :: "string list \<Rightarrow> unit result" where
  "validateQueueRemoval ids =
     (if ids = [] \<or> length ids > 1000 then Inl ErrBounds
      else if seen_all (\<lambda>x. x) removal_id_ok [] ids then Inr () else Inl ErrBounds)"

lemma validateQueueRemoval_iff [wire_simps]:
  "validateQueueRemoval ids = Inr () \<longleftrightarrow>
     ids \<noteq> [] \<and> length ids \<le> 1000 \<and> distinct ids \<and> (\<forall>x \<in> set ids. removal_id_ok x)"
  by (auto simp: validateQueueRemoval_def seen_all_Nil)

subsection \<open>Command encoding\<close>

definition Encode :: "url_Values \<Rightarrow> string" where
  "Encode v = Join ''&'' (concat (map (\<lambda>(k, xs). map (\<lambda>x. QueryEscape k @ ''='' @ QueryEscape x) xs)
     (sort_key fst v)))"

fun replace_first :: "string \<Rightarrow> string \<Rightarrow> string \<Rightarrow> string" where
  "replace_first old new [] = (if old = [] then new else [])"
| "replace_first old new (c # cs) =
     (if take (length old) (c # cs) = old then new @ drop (length old) (c # cs)
      else c # replace_first old new cs)"

definition name_char :: "char \<Rightarrow> bool" where
  "name_char c \<longleftrightarrow> (97 \<le> code c \<and> code c \<le> 122) \<or> c = CHR ''_'' \<or> c = CHR ''/''"

definition key_char :: "char \<Rightarrow> bool" where
  "key_char c \<longleftrightarrow> (97 \<le> code c \<and> code c \<le> 122) \<or> (65 \<le> code c \<and> code c \<le> 90) \<or> c = CHR ''_''"

definition args_ok :: "url_Values \<Rightarrow> bool" where
  "args_ok args \<longleftrightarrow> list_all (\<lambda>(k, xs). k \<noteq> [] \<and> length xs = 1 \<and> list_all key_char k) args"

definition removal_query :: "url_Values \<Rightarrow> string \<Rightarrow> string result" where
  "removal_query args query =
     (let ids = Split CHR '','' (Values_Get args ''qid'')
      in case validateQueueRemoval ids of
           Inl e \<Rightarrow> Inl e
         | Inr _ \<Rightarrow>
             Inr (replace_first (''qid='' @ wire_escape (Values_Get args ''qid''))
                    (''qid='' @ Join '','' (map wire_escape ids)) query))"

definition range_query :: "url_Values \<Rightarrow> string \<Rightarrow> string result" where
  "range_query args query =
     (case parseRange (Values_Get args ''range'') of
        Inl e \<Rightarrow> Inl e
      | Inr (start, end) \<Rightarrow>
          (let encoded = ''range='' @ wire_escape (Values_Get args ''range'')
           in Inr (Join ''&'' (map (\<lambda>part. if part = encoded then ''range='' @ showRange start end else part)
                (Split CHR ''&'' query)))))"

definition encodeCommand :: "string \<Rightarrow> url_Values \<Rightarrow> string result" where
  "encodeCommand name args =
     (if name = [] \<or> int (length name) > 128 \<or> \<not> list_all name_char name then Inl ErrProtocol
      else if \<not> args_ok args then Inl ErrProtocol
      else case (if name = ''player/remove_from_queue'' then removal_query args (ReplacePlus (Encode args))
                 else Inr (ReplacePlus (Encode args))) of
             Inl e \<Rightarrow> Inl e
           | Inr query \<Rightarrow>
               (case (if Values_Has args ''range'' then range_query args query else Inr query) of
                  Inl e \<Rightarrow> Inl e
                | Inr query \<Rightarrow>
                    (let wire = ''heos://'' @ name @ ''?'' @ query @ [CR, LF]
                     in if int (length wire) > 16 * 1024 then Inl ErrProtocol else Inr wire)))"

subsection \<open>Frames\<close>

fun readFrame_from :: "nat \<Rightarrow> string \<Rightarrow> string \<Rightarrow> (string \<times> string) result" where
  "readFrame_from limit frame [] =
     (if frame \<noteq> [] then Inl (OtherError ''unexpected EOF'') else Inl (OtherError ''EOF''))"
| "readFrame_from limit frame (b # input) =
     (if b = LF then
        (if length frame < 2 \<or> last frame \<noteq> CR then Inl ErrProtocol
         else Inr (butlast frame, input))
      else if frame \<noteq> [] \<and> last frame = CR then Inl ErrProtocol
      else if (length frame \<ge> limit \<and> b \<noteq> CR) \<or> length frame > limit then Inl ErrProtocol
      else readFrame_from limit (frame @ [b]) input)"

text \<open>The second component of the result is what the buffered reader still holds.\<close>

definition readFrame :: "nat \<Rightarrow> string \<Rightarrow> (string \<times> string) result" where
  "readFrame limit input = readFrame_from limit [] input"

subsection \<open>Responses\<close>

record raw_response =
  raw_Command :: string
  raw_Result :: string
  raw_Message :: string
  raw_Payload :: string
  raw_Options :: string

record Response =
  r_Command :: string
  r_Result :: string
  r_Params :: url_Values
  r_Payload :: string
  r_Options :: string
  r_Event :: bool
  r_Pending :: bool
  r_Token :: Token

fun parsePairs :: "string list \<Rightarrow> url_Values \<Rightarrow> url_Values result" where
  "parsePairs [] params = Inr params"
| "parsePairs (pair # pairs) params =
     (if pair = [] then parsePairs pairs params
      else case Cut CHR ''='' pair of (key, value, _) \<Rightarrow>
        (case (decodeText key, decodeText value) of
           (Inr key, Inr value) \<Rightarrow>
             if key = [] \<or> Values_Has params key then Inl ErrProtocol
             else parsePairs pairs (Values_Set params key value)
         | _ \<Rightarrow> Inl ErrProtocol))"

definition parseMessage :: "string \<Rightarrow> url_Values result" where
  "parseMessage message = parsePairs (Split CHR ''&'' message) []"

definition decodeResponse :: "(string \<Rightarrow> raw_response option) \<Rightarrow> string \<Rightarrow> Response result" where
  "decodeResponse unmarshal frame =
     (if \<not> utf8_valid frame then Inl ErrProtocol
      else case unmarshal frame of
             None \<Rightarrow> Inl ErrProtocol
           | Some raw \<Rightarrow>
               (let command = TrimSpace (raw_Command raw);
                    event = prefix ''event/'' command
                in if command = [] \<or> (\<not> event \<and> raw_Result raw \<noteq> ''success'' \<and> raw_Result raw \<noteq> ''fail'')
                   then Inl ErrProtocol
                   else case parseMessage (raw_Message raw) of
                          Inl e \<Rightarrow> Inl e
                        | Inr params \<Rightarrow>
                            Inr \<lparr>r_Command = command, r_Result = raw_Result raw, r_Params = params,
                              r_Payload = raw_Payload raw, r_Options = raw_Options raw, r_Event = event,
                              r_Pending = prefix ''command under process'' (raw_Message raw),
                              r_Token = zeroToken\<rparr>))"

subsection \<open>Writing\<close>

text \<open>
  \<open>w k p\<close> is what the \<open>k\<close>-th call of the writer reports for the bytes \<open>p\<close>: the number of bytes
  written, at most \<open>length p\<close> as \<open>io.Writer\<close> requires, and an error.
\<close>

function writeAll_from :: "(nat \<Rightarrow> string \<Rightarrow> nat \<times> error option) \<Rightarrow> nat \<Rightarrow> nat \<Rightarrow> string \<Rightarrow> nat \<times> error option" where
  "writeAll_from w k sent p =
     (if p = [] then (sent, None)
      else case w k p of
             (n, Some e) \<Rightarrow> (sent + n, Some e)
           | (n, None) \<Rightarrow>
               if n = 0 then (sent, Some (OtherError ''no progress''))
               else writeAll_from w (Suc k) (sent + n) (drop n p))"
  by pat_completeness auto
termination
  by (relation "measure (\<lambda>(w, k, sent, p). length p)") auto

declare writeAll_from.simps [simp del]

definition writeAll :: "(nat \<Rightarrow> string \<Rightarrow> nat \<times> error option) \<Rightarrow> string \<Rightarrow> nat \<times> error option" where
  "writeAll w p = writeAll_from w 0 0 p"

subsection \<open>What a frame is\<close>

lemma last_neq: "x \<notin> set xs \<Longrightarrow> xs = [] \<or> last xs \<noteq> x"
  using last_in_set by metis

lemma readFrame_from_Inr:
  assumes "readFrame_from limit frame input = Inr (f, rest)" and "LF \<notin> set frame"
    and "CR \<notin> set (butlast frame)" and "length (butlast frame) \<le> limit"
    and "length frame \<le> limit \<or> last frame = CR"
  shows "\<exists>mid. frame @ input = f @ [CR, LF] @ rest \<and> f \<noteq> [] \<and> length f \<le> limit \<and>
               CR \<notin> set f \<and> LF \<notin> set f \<and> input = mid @ rest"
  using assms
proof (induction limit frame input rule: readFrame_from.induct)
  case (1 limit frame)
  then show ?case by (simp split: if_splits)
next
  case (2 limit frame b input)
  show ?case
  proof (cases "b = LF")
    case True
    with "2.prems" have f: "f = butlast frame" "rest = input" "2 \<le> length frame" "last frame = CR"
      by (auto split: if_splits)
    then have "frame = f @ [CR]" by (metis append_butlast_last_id list.size(3) not_numeral_le_zero)
    moreover have "f \<noteq> []" using f \<open>frame = f @ [CR]\<close> by auto
    moreover have "LF \<notin> set f" using "2.prems"(2) f(1) in_set_butlastD by metis
    ultimately show ?thesis using "2.prems" f True by auto
  next
    case False
    with "2.prems" have step: "readFrame_from limit (frame @ [b]) input = Inr (f, rest)"
      and noCR: "frame = [] \<or> last frame \<noteq> CR"
      and len: "\<not> ((length frame \<ge> limit \<and> b \<noteq> CR) \<or> length frame > limit)"
      by (auto split: if_splits)
    from noCR "2.prems"(3) have "CR \<notin> set frame"
      by (cases frame rule: rev_cases) auto
    moreover have "\<exists>mid. (frame @ [b]) @ input = f @ [CR, LF] @ rest \<and> f \<noteq> [] \<and> length f \<le> limit \<and>
               CR \<notin> set f \<and> LF \<notin> set f \<and> input = mid @ rest"
      using "2.IH" [OF False _ _ step] False noCR len "2.prems"(2) calculation by auto
    ultimately show ?thesis by auto
  qed
qed

lemma readFrame_from_complete:
  assumes "CR \<notin> set frame" and "LF \<notin> set frame" and "CR \<notin> set f" and "LF \<notin> set f"
    and "frame @ f \<noteq> []" and "length (frame @ f) \<le> limit"
  shows "readFrame_from limit frame (f @ [CR, LF] @ rest) = Inr (frame @ f, rest)"
  using assms
proof (induction f arbitrary: frame)
  case Nil
  then have "last frame \<noteq> CR" using last_neq [of CR frame] by auto
  with Nil show ?case by (cases frame) auto
next
  case (Cons c f)
  have "frame = [] \<or> last frame \<noteq> CR" using Cons.prems(1) by (rule last_neq)
  moreover have "readFrame_from limit (frame @ [c]) (f @ [CR, LF] @ rest) = Inr ((frame @ [c]) @ f, rest)"
    by (rule Cons.IH) (use Cons.prems in auto)
  ultimately show ?case using Cons.prems by auto
qed

text \<open>
  \<open>readFrame\<close> returns a frame exactly when the input starts with a non-empty line of at most
  \<open>limit\<close> bytes, without CR or LF, terminated by CR LF; what it leaves unread is the rest.
\<close>

theorem readFrame_iff:
  "readFrame limit input = Inr (f, rest) \<longleftrightarrow>
     input = f @ [CR, LF] @ rest \<and> f \<noteq> [] \<and> length f \<le> limit \<and> CR \<notin> set f \<and> LF \<notin> set f"
proof
  assume "readFrame limit input = Inr (f, rest)"
  then show "input = f @ [CR, LF] @ rest \<and> f \<noteq> [] \<and> length f \<le> limit \<and> CR \<notin> set f \<and> LF \<notin> set f"
    using readFrame_from_Inr [of limit "[]" input f rest] by (auto simp: readFrame_def)
next
  assume "input = f @ [CR, LF] @ rest \<and> f \<noteq> [] \<and> length f \<le> limit \<and> CR \<notin> set f \<and> LF \<notin> set f"
  then show "readFrame limit input = Inr (f, rest)"
    using readFrame_from_complete [of "[]" f limit rest] by (simp add: readFrame_def)
qed

subsection \<open>An encoded command is one line\<close>

definition query_char :: "char \<Rightarrow> bool" where
  "query_char c \<longleftrightarrow> unreserved c \<or> c \<in> set ''%&=,''"

lemma query_char_not_line [simp]: "\<not> query_char CR" "\<not> query_char LF"
  by (simp_all add: query_char_def)

lemma set_replace_first: "set (replace_first old new s) \<subseteq> set new \<union> set s"
proof (induction old new s rule: replace_first.induct)
  case (2 old new c cs)
  then show ?case using set_drop_subset [of "length old" "c # cs"] by auto
qed auto

lemma wire_escape_query: "c \<in> set (wire_escape s) \<Longrightarrow> query_char c"
  using set_wire_escape [of c s] by (auto simp: query_char_def)

lemma is_digit_query: "is_digit c \<Longrightarrow> query_char c"
  by (simp add: is_digit_def query_char_def unreserved_def Let_def)

lemma showRange_query: "c \<in> set (showRange a b) \<Longrightarrow> query_char c"
  using Itoa_chars [of c a] Itoa_chars [of c b] is_digit_query [of c]
  by (auto simp: showRange_def query_char_def unreserved_def)

lemma ReplacePlus_Join:
  "CHR ''+'' \<notin> set sep \<Longrightarrow> ReplacePlus (Join sep xs) = Join sep (map ReplacePlus xs)"
  by (induction sep xs rule: Join.induct) (auto simp: ReplacePlus_absent)

definition wire_parts :: "url_Values \<Rightarrow> string list" where
  "wire_parts v =
     concat (map (\<lambda>kv. map (\<lambda>x. wire_escape (fst kv) @ ''='' @ wire_escape x) (snd kv)) (sort_key fst v))"

lemma ReplacePlus_Encode: "ReplacePlus (Encode v) = Join ''&'' (wire_parts v)"
proof -
  have eq: "ReplacePlus (CHR ''='' # x) = CHR ''='' # ReplacePlus x" for x
    by (simp add: ReplacePlus_def)
  show ?thesis
    by (simp add: Encode_def wire_parts_def ReplacePlus_Join map_concat o_def split_beta wire_escape_def eq)
qed

lemma Encode_query: "c \<in> set (ReplacePlus (Encode v)) \<Longrightarrow> query_char c"
proof -
  assume "c \<in> set (ReplacePlus (Encode v))"
  then have "c \<in> set ''&'' \<union> \<Union> (set ` set (wire_parts v))"
    using set_Join [of "''&''" "wire_parts v"] unfolding ReplacePlus_Encode by blast
  then consider "c = CHR ''&''" | p where "p \<in> set (wire_parts v)" "c \<in> set p" by auto
  then show "query_char c"
  proof cases
    case 1
    then show ?thesis by (simp add: query_char_def)
  next
    case 2
    then obtain k x where "p = wire_escape k @ ''='' @ wire_escape x" by (auto simp: wire_parts_def)
    with 2 show ?thesis using wire_escape_query by (auto simp: query_char_def)
  qed
qed

lemma query_char_literals:
  "\<forall>c \<in> set ''qid=''. query_char c" "\<forall>c \<in> set ''range=''. query_char c"
  by (simp_all add: query_char_def unreserved_def code_def)

lemma removal_query_query:
  assumes "removal_query args query = Inr r" and "\<forall>c \<in> set query. query_char c"
  shows "\<forall>c \<in> set r. query_char c"
proof
  fix c assume c: "c \<in> set r"
  let ?ids = "Split CHR '','' (Values_Get args ''qid'')"
  let ?new = "''qid='' @ Join '','' (map wire_escape ?ids)"
  from assms(1) have r: "r = replace_first (''qid='' @ wire_escape (Values_Get args ''qid'')) ?new query"
    by (auto simp: removal_query_def Let_def split: sum.splits)
  with c have "c \<in> set ?new \<or> c \<in> set query" using set_replace_first by blast
  moreover have "query_char c" if "c \<in> set (Join '','' (map wire_escape ?ids))"
  proof -
    from that have "c \<in> set '','' \<or> (\<exists>x \<in> set ?ids. c \<in> set (wire_escape x))"
      using set_Join [of "'',''" "map wire_escape ?ids"] by auto
    then show ?thesis using wire_escape_query by (auto simp: query_char_def)
  qed
  ultimately show "query_char c"
    using assms(2) query_char_literals(1) unfolding set_append by blast
qed

lemma range_query_query:
  assumes "range_query args query = Inr r" and "\<forall>c \<in> set query. query_char c"
  shows "\<forall>c \<in> set r. query_char c"
proof
  fix c assume c: "c \<in> set r"
  from assms(1) obtain a b enc where
    r: "r = Join ''&'' (map (\<lambda>part. if part = enc then ''range='' @ showRange a b else part)
              (Split CHR ''&'' query))"
    by (auto simp: range_query_def Let_def split: sum.splits)
  with c set_Join consider "c = CHR ''&''" | "c \<in> set (''range='' @ showRange a b)"
    | p where "p \<in> set (Split CHR ''&'' query)" "c \<in> set p"
    by (fastforce split: if_splits)
  then show "query_char c"
  proof cases
    case 1
    then show ?thesis by (simp add: query_char_def)
  next
    case 2
    then show ?thesis using showRange_query query_char_literals(2) unfolding set_append by blast
  next
    case 3
    then show ?thesis using assms(2) set_Split by blast
  qed
qed

lemma name_char_not_line: "list_all name_char s \<Longrightarrow> CR \<notin> set s \<and> LF \<notin> set s"
  by (auto simp: list_all_iff name_char_def code_def)

text \<open>
  C22. Whatever text the arguments hold, an encoded command is a single line: the scheme, the
  command name and a query of escaped characters, at most 16 KiB, with the only CR and LF at its
  end. No argument can smuggle a second command to the device.
\<close>

theorem encodeCommand_one_line:
  assumes "encodeCommand name args = Inr wire"
  shows "\<exists>line. wire = line @ [CR, LF] \<and> CR \<notin> set line \<and> LF \<notin> set line \<and>
           prefix (''heos://'' @ name @ ''?'') line \<and> length wire \<le> 16384"
proof -
  let ?base = "ReplacePlus (Encode args)"
  have base: "\<forall>c \<in> set ?base. query_char c" using Encode_query by blast
  from assms obtain q1 q2 where
    q1: "(if name = ''player/remove_from_queue'' then removal_query args ?base else Inr ?base) = Inr q1"
    and q2: "(if Values_Has args ''range'' then range_query args q1 else Inr q1) = Inr q2"
    and wire: "wire = ''heos://'' @ name @ ''?'' @ q2 @ [CR, LF]"
    and len: "length wire \<le> 16384" and name: "list_all name_char name"
    by (auto simp: encodeCommand_def Let_def split: if_splits sum.splits)
  from q1 base have "\<forall>c \<in> set q1. query_char c"
    using removal_query_query by (auto split: if_splits)
  with q2 have "\<forall>c \<in> set q2. query_char c"
    using range_query_query by (auto split: if_splits)
  then have q: "CR \<notin> set q2" "LF \<notin> set q2" using query_char_not_line by blast+
  let ?line = "''heos://'' @ name @ ''?'' @ q2"
  have "CR \<notin> set ?line \<and> LF \<notin> set ?line" using q name_char_not_line [OF name] by auto
  moreover have "prefix (''heos://'' @ name @ ''?'') ?line" by simp
  ultimately show ?thesis using wire len by (intro exI [of _ ?line]) auto
qed

theorem encodeCommand_one_line_witness:
  "\<exists>line. encodeCommand ''player/set_volume'' [(''pid'', [''1'' @ [CR, LF] @ ''x'']), (''level'', [''20''])]
      = Inr (line @ [CR, LF]) \<and> CR \<notin> set line \<and> LF \<notin> set line"
proof -
  let ?args = "[(''pid'', [''1'' @ [CR, LF] @ ''x'']), (''level'', [''20''])]"
  have e: "encodeCommand ''player/set_volume'' ?args
      = Inr (''heos://player/set_volume?level=20&pid=1%0D%0Ax'' @ [CR, LF])"
    by code_simp
  obtain line where "''heos://player/set_volume?level=20&pid=1%0D%0Ax'' @ [CR, LF] = line @ [CR, LF]"
    "CR \<notin> set line" "LF \<notin> set line"
    using encodeCommand_one_line [OF e] by blast
  with e show ?thesis by metis
qed

subsection \<open>The parser reads back what the encoder wrote\<close>

definition plain_value :: "string \<Rightarrow> bool" where
  "plain_value x \<longleftrightarrow> utf8_valid x \<and> NUL \<notin> set x"

lemma wire_escape_not_sep:
  "CHR ''&'' \<notin> set (wire_escape s)" "CHR ''='' \<notin> set (wire_escape s)"
  using set_wire_escape [of "CHR ''&''" s] set_wire_escape [of "CHR ''=''" s] by auto

lemma parsePairs_step:
  assumes "plain_value k" and "k \<noteq> []" and "plain_value x" and "\<not> Values_Has params k"
  shows "parsePairs ((wire_escape k @ ''='' @ wire_escape x) # pairs) params =
           parsePairs pairs (params @ [(k, [x])])"
proof -
  have "Values_Set params k x = params @ [(k, [x])]"
    using assms(4) by (force simp: Values_Set_def Values_Has_def filter_id_conv)
  then show ?thesis
    using assms Cut_found [OF wire_escape_not_sep(2) [of k], of "wire_escape x"]
    by (simp add: plain_value_def decodeText_wire_escape)
qed

lemma parsePairs_parts:
  assumes "\<forall>(k, xs) \<in> set v. \<exists>x. xs = [x] \<and> plain_value k \<and> k \<noteq> [] \<and> plain_value x"
    and "distinct (map fst (params @ v))"
  shows "parsePairs (concat (map (\<lambda>kv. map (\<lambda>x. wire_escape (fst kv) @ ''='' @ wire_escape x) (snd kv)) v)) params
           = Inr (params @ v)"
  using assms
proof (induction v arbitrary: params)
  case (Cons kv v)
  obtain k x where kv: "kv = (k, [x])" and ok: "plain_value k" "k \<noteq> []" "plain_value x"
    using Cons.prems(1) by (cases kv) auto
  have "\<not> Values_Has params k" using Cons.prems(2) kv by (auto simp: Values_Has_def)
  then have "parsePairs ((wire_escape k @ ''='' @ wire_escape x) # pairs) params =
      parsePairs pairs (params @ [(k, [x])])" for pairs
    using ok by (intro parsePairs_step) auto
  moreover have "parsePairs (concat (map (\<lambda>kv. map (\<lambda>x. wire_escape (fst kv) @ ''='' @ wire_escape x) (snd kv)) v))
      (params @ [kv]) = Inr ((params @ [kv]) @ v)"
    by (rule Cons.IH) (use Cons.prems in auto)
  ultimately show ?case by (simp add: kv)
qed simp

lemma key_char_plain: "list_all key_char k \<Longrightarrow> plain_value k"
proof -
  assume k: "list_all key_char k"
  then have "\<forall>c \<in> set k. code c < 128" by (auto simp: list_all_iff key_char_def code_def)
  moreover have "NUL \<notin> set k" using k by (auto simp: list_all_iff key_char_def code_def)
  ultimately show ?thesis by (simp add: plain_value_def utf8_valid_ascii)
qed

text \<open>
  C23. The message parser inverts the argument encoder: parsing the escaped query of arguments the
  encoder accepts (one value per key, keys distinct) gives the same arguments in key order, with
  every value byte restored.
\<close>

theorem parseMessage_Encode:
  assumes "args_ok args" and "args \<noteq> []" and "distinct (map fst args)"
    and "\<forall>(k, xs) \<in> set args. \<forall>x \<in> set xs. plain_value x"
  shows "parseMessage (ReplacePlus (Encode args)) = Inr (sort_key fst args)"
proof -
  let ?v = "sort_key fst args"
  have single: "\<forall>(k, xs) \<in> set ?v. \<exists>x. xs = [x] \<and> plain_value k \<and> k \<noteq> [] \<and> plain_value x"
    using assms(1,4) key_char_plain
    by (fastforce simp: args_ok_def list_all_iff length_Suc_conv)
  have "wire_parts args \<noteq> []"
  proof -
    obtain kv where "kv \<in> set ?v" using assms(2) by (metis last_in_set set_sort)
    moreover from this have "snd kv \<noteq> []" using single by fastforce
    ultimately show ?thesis by (auto simp: wire_parts_def)
  qed
  moreover have "\<forall>p \<in> set (wire_parts args). CHR ''&'' \<notin> set p"
    using wire_escape_not_sep by (auto simp: wire_parts_def)
  ultimately have "Split CHR ''&'' (ReplacePlus (Encode args)) = wire_parts args"
    by (simp add: ReplacePlus_Encode Split_Join)
  moreover have "distinct (map fst ?v)"
    using assms(3) by (metis distinct_map distinct_sort set_sort)
  ultimately show ?thesis
    using parsePairs_parts [of ?v "[]"] single by (simp add: parseMessage_def wire_parts_def)
qed

theorem parseMessage_Encode_witness:
  "parseMessage (ReplacePlus (Encode [(''sid'', [''1024'']), (''cid'', [''a&b=c %'']), (''aid'', [''4''])]))
     = Inr [(''aid'', [''4'']), (''cid'', [''a&b=c %'']), (''sid'', [''1024''])]"
proof -
  let ?args = "[(''sid'', [''1024'']), (''cid'', [''a&b=c %'']), (''aid'', [''4''])]"
  have "args_ok ?args" and "distinct (map fst ?args)"
    and "\<forall>(k, xs) \<in> set ?args. \<forall>x \<in> set xs. plain_value x"
    and "sort_key fst ?args = [(''aid'', [''4'']), (''cid'', [''a&b=c %'']), (''sid'', [''1024''])]"
    by (simp_all add: args_ok_def key_char_def plain_value_def code_def)
  then show ?thesis using parseMessage_Encode [of ?args] by simp
qed

subsection \<open>Partial writes\<close>

lemma writeAll_from_count:
  assumes "\<And>k p. fst (w k p) \<le> length p"
  shows "fst (writeAll_from w k sent p) \<le> sent + length p \<and>
         (snd (writeAll_from w k sent p) = None \<longrightarrow> fst (writeAll_from w k sent p) = sent + length p)"
  using assms
proof (induction w k sent p rule: writeAll_from.induct)
  case (1 w k sent p)
  obtain n e where n: "w k p = (n, e)" by (cases "w k p")
  then have "n \<le> length p" using "1.prems" [of k p] by simp
  show ?case
  proof (cases "p = [] \<or> e \<noteq> None \<or> n = 0")
    case True
    with n \<open>n \<le> length p\<close> show ?thesis
      by (auto simp: writeAll_from.simps [of w k sent p] split: option.splits)
  next
    case False
    with "1.IH" [OF _ n [symmetric] _ _ "1.prems"] n \<open>n \<le> length p\<close> show ?thesis
      by (auto simp: writeAll_from.simps [of w k sent p])
  qed
qed

lemma writeAll_count:
  assumes "\<And>k p. fst (w k p) \<le> length p"
  shows "fst (writeAll w p) \<le> length p"
    and "snd (writeAll w p) = None \<Longrightarrow> fst (writeAll w p) = length p"
  using writeAll_from_count [of w 0 0 p] assms by (auto simp: writeAll_def)

end
