(* ===== verification/Events.thy ===== *)
theory Events
  imports Protocol
begin

section \<open>Device notifications\<close>

text \<open>
  \<open>internal/heos/events.go\<close>: an event is decoded once into validated fields. \<open>Valid\<close> requires
  every field of a known event; partial values are kept as diagnostic evidence only. The Go
  \<open>Event\<close> caches the decoded data; \<open>Event_Data\<close> computes it from the immutable parameters.
\<close>

datatype EventKind =
    EventUnknown | EventSources | EventPlayers | EventGroups | EventState | EventNowPlaying
  | EventProgress | EventPlaybackError | EventQueue | EventVolume | EventRepeat | EventShuffle
  | EventGroupVolume | EventUser

definition event_names :: "(string \<times> EventKind) list" where
  "event_names =
     [(''event/sources_changed'', EventSources), (''event/players_changed'', EventPlayers),
      (''event/groups_changed'', EventGroups), (''event/player_state_changed'', EventState),
      (''event/player_now_playing_changed'', EventNowPlaying),
      (''event/player_now_playing_progress'', EventProgress),
      (''event/player_playback_error'', EventPlaybackError),
      (''event/player_queue_changed'', EventQueue), (''event/player_volume_changed'', EventVolume),
      (''event/repeat_mode_changed'', EventRepeat), (''event/shuffle_mode_changed'', EventShuffle),
      (''event/group_volume_changed'', EventGroupVolume), (''event/user_changed'', EventUser)]"

definition EventKind_of :: "string \<Rightarrow> EventKind" where
  "EventKind_of command = (case map_of event_names command of Some k \<Rightarrow> k | None \<Rightarrow> EventUnknown)"

record EventData =
  d_Kind :: EventKind
  d_Player :: ID
  d_State :: PlayState
  d_Volume :: int
  d_Muted :: bool
  d_Repeat :: Repeat
  d_Shuffle :: bool
  d_HasVolume :: bool
  d_HasMute :: bool
  d_HasShuffle :: bool
  d_HasProgress :: bool
  d_Position :: int
  d_Duration :: int
  d_Valid :: bool

record Event =
  e_Command :: string
  e_Params :: url_Values
  e_Token :: Token
  e_Gap :: bool
  e_GapReason :: string
  e_progressSequence :: uint64

definition event_one :: "url_Values \<Rightarrow> string \<Rightarrow> string" where
  "event_one params key = (if length (Values_All params key) = 1 then Values_Get params key else [])"

definition event_choice :: "url_Values \<Rightarrow> string \<Rightarrow> string list \<Rightarrow> string" where
  "event_choice params key allowed =
     (let value = event_one params key in if value \<in> set allowed then value else [])"

definition emptyEventData :: "EventKind \<Rightarrow> ID \<Rightarrow> EventData" where
  "emptyEventData kind player =
     \<lparr>d_Kind = kind, d_Player = player, d_State = PlayStateAbsent, d_Volume = 0, d_Muted = False,
      d_Repeat = RepeatAbsent, d_Shuffle = False, d_HasVolume = False, d_HasMute = False,
      d_HasShuffle = False, d_HasProgress = False, d_Position = 0, d_Duration = 0, d_Valid = False\<rparr>"

definition decodeStateEvent :: "url_Values \<Rightarrow> EventData \<Rightarrow> EventData" where
  "decodeStateEvent params d =
     (let state = PlayState_of (event_choice params ''state'' [''play'', ''pause'', ''stop'', ''unknown''])
      in d\<lparr>d_State := state, d_Valid := d_Player d \<noteq> [] \<and> state \<noteq> PlayStateAbsent\<rparr>)"

definition decodeProgressEvent :: "url_Values \<Rightarrow> EventData \<Rightarrow> EventData" where
  "decodeProgressEvent params d =
     (case (ParseUint (event_one params ''cur_pos''), ParseUint (event_one params ''duration'')) of
        (Some position, Some dur) \<Rightarrow>
          (let valid = (d_Player d \<noteq> [] \<and> (dur = 0 \<or> position \<le> dur))
           in if valid \<and> position < 2 ^ 63 \<and> dur < 2 ^ 63
              then d\<lparr>d_Valid := valid, d_Position := int position, d_Duration := int dur, d_HasProgress := True\<rparr>
              else d\<lparr>d_Valid := valid\<rparr>)
      | _ \<Rightarrow> d\<lparr>d_Valid := False\<rparr>)"

definition decodeVolumeEvent :: "url_Values \<Rightarrow> EventData \<Rightarrow> EventData" where
  "decodeVolumeEvent params d =
     (let d = (case Atoi (event_one params ''level'') of
                 Some level \<Rightarrow> if 0 \<le> level \<and> level \<le> 100
                               then d\<lparr>d_Volume := level, d_HasVolume := True\<rparr> else d
               | None \<Rightarrow> d);
          mute = event_choice params ''mute'' [''on'', ''off''];
          d = (if mute \<noteq> [] then d\<lparr>d_Muted := (mute = ''on''), d_HasMute := True\<rparr> else d);
          identity = (if d_Kind d = EventGroupVolume then event_one params ''gid'' \<noteq> [] else d_Player d \<noteq> [])
      in d\<lparr>d_Valid := identity \<and> d_HasVolume d \<and> d_HasMute d\<rparr>)"

definition decodeShuffleEvent :: "url_Values \<Rightarrow> EventData \<Rightarrow> EventData" where
  "decodeShuffleEvent params d =
     (let shuffle = event_choice params ''shuffle'' [''on'', ''off''];
          d = (if shuffle \<noteq> [] then d\<lparr>d_Shuffle := (shuffle = ''on''), d_HasShuffle := True\<rparr> else d)
      in d\<lparr>d_Valid := d_Player d \<noteq> [] \<and> d_HasShuffle d\<rparr>)"

definition decodeRepeatEvent :: "url_Values \<Rightarrow> EventData \<Rightarrow> EventData" where
  "decodeRepeatEvent params d =
     (let mode = Repeat_of (event_choice params ''repeat'' [''off'', ''on_one'', ''on_all''])
      in d\<lparr>d_Repeat := mode, d_Valid := d_Player d \<noteq> [] \<and> mode \<noteq> RepeatAbsent\<rparr>)"

definition decodeUserEvent :: "url_Values \<Rightarrow> EventData \<Rightarrow> EventData" where
  "decodeUserEvent params d =
     (let signedIn = (length (Values_All params ''signed_in'') = 1);
          signedOut = (length (Values_All params ''signed_out'') = 1)
      in d\<lparr>d_Valid := (signedIn \<noteq> signedOut) \<and> (\<not> signedIn \<or> event_one params ''un'' \<noteq> [])\<rparr>)"

definition decodeEventData :: "string \<Rightarrow> url_Values \<Rightarrow> EventData" where
  "decodeEventData command params =
     (let d = emptyEventData (EventKind_of command) (event_one params ''pid'')
      in case d_Kind d of
           EventSources \<Rightarrow> d\<lparr>d_Valid := True\<rparr>
         | EventPlayers \<Rightarrow> d\<lparr>d_Valid := True\<rparr>
         | EventGroups \<Rightarrow> d\<lparr>d_Valid := True\<rparr>
         | EventState \<Rightarrow> decodeStateEvent params d
         | EventNowPlaying \<Rightarrow> d\<lparr>d_Valid := d_Player d \<noteq> []\<rparr>
         | EventQueue \<Rightarrow> d\<lparr>d_Valid := d_Player d \<noteq> []\<rparr>
         | EventProgress \<Rightarrow> decodeProgressEvent params d
         | EventPlaybackError \<Rightarrow> d\<lparr>d_Valid := d_Player d \<noteq> [] \<and> event_one params ''error'' \<noteq> []\<rparr>
         | EventVolume \<Rightarrow> decodeVolumeEvent params d
         | EventGroupVolume \<Rightarrow> decodeVolumeEvent params d
         | EventRepeat \<Rightarrow> decodeRepeatEvent params d
         | EventShuffle \<Rightarrow> decodeShuffleEvent params d
         | EventUser \<Rightarrow> decodeUserEvent params d
         | EventUnknown \<Rightarrow> d)"

definition Event_Data :: "Event \<Rightarrow> EventData" where
  "Event_Data e =
     (let d = decodeEventData (e_Command e) (e_Params e)
      in if e_Gap e then d\<lparr>d_Valid := False\<rparr> else d)"

subsection \<open>What a valid event carries\<close>

definition player_event :: "EventKind \<Rightarrow> bool" where
  "player_event k \<longleftrightarrow>
     k \<in> {EventState, EventNowPlaying, EventProgress, EventPlaybackError, EventQueue, EventVolume,
          EventRepeat, EventShuffle}"

definition event_complete :: "EventData \<Rightarrow> bool" where
  "event_complete d \<longleftrightarrow>
     (player_event (d_Kind d) \<longrightarrow> d_Player d \<noteq> []) \<and>
     (d_Kind d = EventState \<longrightarrow> PlayState_Known (d_State d)) \<and>
     (d_Kind d = EventVolume \<longrightarrow> d_HasVolume d \<and> d_HasMute d \<and> 0 \<le> d_Volume d \<and> d_Volume d \<le> 100) \<and>
     (d_Kind d = EventRepeat \<longrightarrow> Repeat_Known (d_Repeat d)) \<and>
     (d_Kind d = EventShuffle \<longrightarrow> d_HasShuffle d) \<and>
     (d_HasProgress d \<longrightarrow> 0 \<le> d_Position d \<and> d_Position d < 2 ^ 63 \<and> 0 \<le> d_Duration d \<and> d_Duration d < 2 ^ 63 \<and>
        (d_Duration d = 0 \<or> d_Position d \<le> d_Duration d))"

lemma event_choice_in: "event_choice params key allowed \<in> insert [] (set allowed)"
  by (simp add: event_choice_def Let_def)

lemma state_choice_known:
  "PlayState_of (event_choice p k [''play'', ''pause'', ''stop'', ''unknown'']) \<noteq> PlayStateAbsent \<Longrightarrow>
     PlayState_Known (PlayState_of (event_choice p k [''play'', ''pause'', ''stop'', ''unknown'']))"
  using event_choice_in [of p k "[''play'', ''pause'', ''stop'', ''unknown'']"]
  by (auto simp: PlayState_of_def)

lemma repeat_choice_known:
  "Repeat_of (event_choice p k [''off'', ''on_one'', ''on_all'']) \<noteq> RepeatAbsent \<Longrightarrow>
     Repeat_Known (Repeat_of (event_choice p k [''off'', ''on_one'', ''on_all'']))"
  using event_choice_in [of p k "[''off'', ''on_one'', ''on_all'']"]
  by (auto simp: Repeat_of_def)

lemmas decode_event_defs =
  decodeStateEvent_def decodeProgressEvent_def decodeVolumeEvent_def decodeShuffleEvent_def
  decodeRepeatEvent_def decodeUserEvent_def emptyEventData_def

lemma decodeEventData_Kind [simp]: "d_Kind (decodeEventData command params) = EventKind_of command"
  by (cases "EventKind_of command")
    (auto simp: decodeEventData_def Let_def decode_event_defs split: option.splits)

lemma decodeEventData_Player [simp]: "d_Player (decodeEventData command params) = event_one params ''pid''"
  by (cases "EventKind_of command")
    (auto simp: decodeEventData_def Let_def decode_event_defs split: option.splits)

lemma Event_Data_Kind [simp]: "d_Kind (Event_Data e) = EventKind_of (e_Command e)"
  by (simp add: Event_Data_def Let_def)

lemma Event_Data_Player [simp]: "d_Player (Event_Data e) = event_one (e_Params e) ''pid''"
  by (simp add: Event_Data_def Let_def)

lemma Event_Data_gap [simp]: "e_Gap e \<Longrightarrow> \<not> d_Valid (Event_Data e)"
  by (simp add: Event_Data_def Let_def)

lemma decodeProgressEvent_complete:
  assumes "\<not> d_HasProgress d" and "d' = decodeProgressEvent params d"
  shows "d_HasProgress d' \<longrightarrow> 0 \<le> d_Position d' \<and> d_Position d' < 2 ^ 63 \<and> 0 \<le> d_Duration d' \<and>
     d_Duration d' < 2 ^ 63 \<and> (d_Duration d' = 0 \<or> d_Position d' \<le> d_Duration d')"
  using assms by (auto simp: decodeProgressEvent_def Let_def of_nat_less_numeral_power_cancel_iff
      split: option.splits)

lemma valid_event_fields:
  assumes "d_Valid (Event_Data e)"
  shows "event_complete (Event_Data e) \<and> \<not> e_Gap e"
proof -
  have gap: "\<not> e_Gap e" using assms by auto
  let ?d = "decodeEventData (e_Command e) (e_Params e)"
  from gap assms have d: "Event_Data e = ?d" "d_Valid ?d" by (auto simp: Event_Data_def Let_def)
  have prog: "d_HasProgress ?d \<longrightarrow> 0 \<le> d_Position ?d \<and> d_Position ?d < 2 ^ 63 \<and> 0 \<le> d_Duration ?d \<and>
     d_Duration ?d < 2 ^ 63 \<and> (d_Duration ?d = 0 \<or> d_Position ?d \<le> d_Duration ?d)"
  proof (cases "EventKind_of (e_Command e) = EventProgress")
    case True
    then show ?thesis
      using decodeProgressEvent_complete
        [of "emptyEventData EventProgress (event_one (e_Params e) ''pid'')" ?d "e_Params e"]
      by (simp add: decodeEventData_def emptyEventData_def)
  next
    case False
    then show ?thesis
      by (cases "EventKind_of (e_Command e)")
        (auto simp: decodeEventData_def Let_def decode_event_defs split: option.splits)
  qed
  have rest: "(player_event (d_Kind ?d) \<longrightarrow> d_Player ?d \<noteq> []) \<and>
     (d_Kind ?d = EventState \<longrightarrow> PlayState_Known (d_State ?d)) \<and>
     (d_Kind ?d = EventVolume \<longrightarrow> d_HasVolume ?d \<and> d_HasMute ?d \<and> 0 \<le> d_Volume ?d \<and> d_Volume ?d \<le> 100) \<and>
     (d_Kind ?d = EventRepeat \<longrightarrow> Repeat_Known (d_Repeat ?d)) \<and>
     (d_Kind ?d = EventShuffle \<longrightarrow> d_HasShuffle ?d)"
    using d(2) state_choice_known repeat_choice_known
    by (cases "EventKind_of (e_Command e)")
      (auto simp: decodeEventData_def Let_def decode_event_defs player_event_def
        split: option.splits if_splits)
  show ?thesis using gap prog rest unfolding event_complete_def d(1) by blast
qed

text \<open>
  A notification that may confirm or change observed state is complete: whenever the decoded
  data of an event is valid, it names its player, its play state or repeat mode is one the device
  is allowed to report, a volume event has both a level within 0 to 100 and a mute value, and a
  reported playhead fits a signed 64-bit millisecond count with the position inside the duration.
  Missing, duplicated or out-of-range fields make the event invalid.
\<close>

theorem valid_event_complete:
  assumes "d_Valid (Event_Data e)"
  shows "event_complete (Event_Data e) \<and> \<not> e_Gap e"
  by (rule valid_event_fields [OF assms])

definition example_event :: "string \<Rightarrow> (string \<times> string) list \<Rightarrow> Token \<Rightarrow> Event" where
  "example_event command params token =
     \<lparr>e_Command = command, e_Params = map (\<lambda>(k, v). (k, [v])) params, e_Token = token, e_Gap = False,
      e_GapReason = [], e_progressSequence = 0\<rparr>"

theorem valid_event_complete_witness:
  "let e = example_event ''event/player_volume_changed'' [(''pid'', ''7''), (''level'', ''35''), (''mute'', ''off'')] zeroToken
   in d_Valid (Event_Data e) \<and> event_complete (Event_Data e) \<and> d_Volume (Event_Data e) = 35"
proof -
  let ?e = "example_event ''event/player_volume_changed'' [(''pid'', ''7''), (''level'', ''35''), (''mute'', ''off'')] zeroToken"
  have v: "d_Valid (Event_Data ?e)" and "d_Volume (Event_Data ?e) = 35" by code_simp+
  then show ?thesis using valid_event_complete [OF v] by (simp add: Let_def)
qed

end
