(* ===== verification/Mutations.thy ===== *)
theory Mutations
  imports Events Snapshots
begin

section \<open>Device commands and rejections\<close>

text \<open>
  \<open>internal/heos/writes.go\<close> (\<open>Mutation\<close> and \<open>Mutation.command\<close>), the catalog item it queues
  (\<open>internal/heos/catalog.go\<close>) and \<open>internal/heos/errors.go\<close>: the closed set of writes, their
  wire form with every bound the code checks, and the classification of a failed reply.
\<close>

record Item =
  it_Name :: string
  it_Source :: ID
  it_ContainerID :: ID
  it_MediaID :: ID
  it_Container :: string
  it_Playable :: string
  it_Type :: string

definition zeroItem :: Item where
  "zeroItem = \<lparr>it_Name = [], it_Source = [], it_ContainerID = [], it_MediaID = [], it_Container = [],
     it_Playable = [], it_Type = []\<rparr>"

definition Item_isSource :: "Item \<Rightarrow> bool" where
  "Item_isSource i \<longleftrightarrow>
     it_Source i \<noteq> [] \<and> it_ContainerID i = [] \<and>
     it_Type i \<in> set [''heos_server'', ''heos_service'', ''dlna_server'', ''music_service'']"

text \<open>The test the sources repeat for a playable track.\<close>

definition playable_track :: "Item \<Rightarrow> bool" where
  "playable_track i \<longleftrightarrow>
     it_Playable i = ''yes'' \<and> it_MediaID i \<noteq> [] \<and> (it_Type i = ''song'' \<or> it_Type i = ''track'')"

record Mutation =
  m_Kind :: MutationKind
  m_Player :: ID
  m_Level :: int
  m_Muted :: bool
  m_State :: PlayState
  m_Direction :: string
  m_Repeat :: Repeat
  m_Shuffle :: bool
  m_Item :: Item
  m_Append :: bool
  m_QueueIDs :: "ID list"

definition zeroMutation :: Mutation where
  "zeroMutation = \<lparr>m_Kind = MutationKindAbsent, m_Player = [], m_Level = 0, m_Muted = False,
     m_State = PlayStateAbsent, m_Direction = [], m_Repeat = RepeatAbsent, m_Shuffle = False,
     m_Item = zeroItem, m_Append = False, m_QueueIDs = []\<rparr>"

definition on_off :: "bool \<Rightarrow> string" where
  "on_off b = (if b then ''on'' else ''off'')"

definition queueCommand :: "Mutation \<Rightarrow> url_Values \<Rightarrow> (string \<times> url_Values) result" where
  "queueCommand m a =
     (let i = m_Item m in
      if it_Source i = [] \<or> it_ContainerID i = [] then Inl ErrBounds
      else if it_Container i \<noteq> ''yes'' \<and> \<not> playable_track i then Inl ErrBounds
      else let a = Values_Set a ''sid'' (it_Source i);
               a = Values_Set a ''cid'' (it_ContainerID i);
               a = Values_Set a ''aid'' (if m_Append m then ''3'' else ''4'');
               a = (if it_Container i \<noteq> ''yes'' then Values_Set a ''mid'' (it_MediaID i) else a)
           in Inr (''browse/add_to_queue'', a))"

definition removeCommand :: "Mutation \<Rightarrow> url_Values \<Rightarrow> (string \<times> url_Values) result" where
  "removeCommand m a =
     (if m_QueueIDs m = [] \<or> length (m_QueueIDs m) > 1000 then Inl ErrBounds
      else case validateQueueRemoval (m_QueueIDs m) of
             Inl e \<Rightarrow> Inl e
           | Inr _ \<Rightarrow> Inr (''player/remove_from_queue'', Values_Set a ''qid'' (Join '','' (m_QueueIDs m))))"

definition Mutation_command :: "Mutation \<Rightarrow> (string \<times> url_Values) result" where
  "Mutation_command m =
     (if m_Player m = [] then Inl ErrBounds
      else let a = [(''pid'', [m_Player m])] in
        case m_Kind m of
          MutationKindVolume \<Rightarrow>
            if m_Level m < 0 \<or> m_Level m > 100 then Inl ErrBounds
            else Inr (''player/set_volume'', Values_Set a ''level'' (Itoa (m_Level m)))
        | MutationKindMute \<Rightarrow> Inr (''player/set_mute'', Values_Set a ''state'' (on_off (m_Muted m)))
        | MutationKindTransport \<Rightarrow>
            if \<not> PlayState_Writable (m_State m) then Inl ErrBounds
            else Inr (''player/set_play_state'', Values_Set a ''state'' (PlayState_string (m_State m)))
        | MutationKindSkip \<Rightarrow>
            if m_Direction m = ''next'' then Inr (''player/play_next'', a)
            else if m_Direction m = ''previous'' then Inr (''player/play_previous'', a)
            else Inl ErrBounds
        | MutationKindMode \<Rightarrow>
            if \<not> Repeat_Known (m_Repeat m) then Inl ErrBounds
            else Inr (''player/set_play_mode'',
                   Values_Set (Values_Set a ''repeat'' (Repeat_string (m_Repeat m))) ''shuffle'' (on_off (m_Shuffle m)))
        | MutationKindQueue \<Rightarrow> queueCommand m a
        | MutationKindRemove \<Rightarrow> removeCommand m a
        | MutationKindAbsent \<Rightarrow> Inl ErrReadOnly)"

subsection \<open>Rejections\<close>

definition device_reasons :: "(int \<times> string) list" where
  "device_reasons =
     [(1, ''unrecognized_command''), (2, ''invalid_id''), (3, ''invalid_arguments''),
      (4, ''data_unavailable''), (5, ''resource_unavailable''), (6, ''invalid_credentials''),
      (7, ''command_not_executed''), (8, ''user_not_logged_in''), (9, ''parameter_out_of_range''),
      (10, ''user_not_found''), (11, ''internal_error''), (12, ''system_error''), (13, ''device_busy''),
      (14, ''cannot_play''), (15, ''option_not_supported''), (16, ''device_queue_full''),
      (17, ''skip_limit_reached'')]"

definition DeviceError_Reason :: "int \<Rightarrow> string" where
  "DeviceError_Reason n = (case map_of device_reasons n of Some r \<Rightarrow> r | None \<Rightarrow> ''unknown'')"

definition rejection :: "Response \<Rightarrow> error" where
  "rejection r =
     (case Atoi (Values_Get (r_Params r) ''eid'') of
        None \<Rightarrow> CommandError Uncertain ErrProtocol
      | Some n \<Rightarrow>
          if n \<le> 0 then CommandError Uncertain ErrProtocol
          else if Values_Has (r_Params r) ''syserrno'' \<and> Atoi (Values_Get (r_Params r) ''syserrno'') = None
          then CommandError Uncertain ErrProtocol
          else CommandError Rejected (DeviceError n))"

subsection \<open>What a command puts on the wire\<close>

lemma rejection_cases:
  "rejection r = CommandError Uncertain ErrProtocol \<or>
     (\<exists>n > 0. rejection r = CommandError Rejected (DeviceError n))"
  by (auto simp: rejection_def split: option.splits)

lemma rejection_Is_Rejected: "errors_Is (rejection r) ErrRejected \<longleftrightarrow> (\<exists>n. rejection r = CommandError Rejected (DeviceError n))"
  using rejection_cases [of r] by auto

lemma Mutation_command_pid:
  assumes "Mutation_command m = Inr (name, args)"
  shows "Values_Get args ''pid'' = m_Player m \<and> m_Player m \<noteq> []"
proof -
  have base: "Values_Get [(''pid'', [m_Player m])] ''pid'' = m_Player m"
    by (simp add: Values_Get_def Values_All_def)
  show ?thesis using assms
    by (cases "m_Kind m")
      (auto simp: Mutation_command_def queueCommand_def removeCommand_def Let_def base
        split: if_splits sum.splits)
qed

lemma Join_not_Nil: "\<forall>x \<in> set xs. x \<noteq> [] \<Longrightarrow> xs \<noteq> [] \<Longrightarrow> Join sep xs \<noteq> []"
  by (cases xs; cases "tl xs") auto

definition command_bounded :: "Mutation \<Rightarrow> string \<Rightarrow> url_Values \<Rightarrow> bool" where
  "command_bounded m name args \<longleftrightarrow>
     Values_Get args ''pid'' = m_Player m \<and> m_Player m \<noteq> [] \<and>
     (m_Kind m = MutationKindVolume \<longrightarrow>
        0 \<le> m_Level m \<and> m_Level m \<le> 100 \<and> Atoi (Values_Get args ''level'') = Some (m_Level m)) \<and>
     (m_Kind m = MutationKindTransport \<longrightarrow>
        PlayState_Writable (m_State m) \<and> PlayState_of (Values_Get args ''state'') = m_State m) \<and>
     (m_Kind m = MutationKindSkip \<longrightarrow> m_Direction m \<in> {''next'', ''previous''}) \<and>
     (m_Kind m = MutationKindMode \<longrightarrow> Repeat_Known (m_Repeat m)) \<and>
     (m_Kind m = MutationKindQueue \<longrightarrow>
        it_Source (m_Item m) \<noteq> [] \<and> it_ContainerID (m_Item m) \<noteq> [] \<and>
        (it_Container (m_Item m) = ''yes'' \<or> playable_track (m_Item m)) \<and>
        Values_Get args ''aid'' = (if m_Append m then ''3'' else ''4'')) \<and>
     (m_Kind m = MutationKindRemove \<longrightarrow>
        distinct (m_QueueIDs m) \<and> length (m_QueueIDs m) \<le> 1000 \<and>
        Split CHR '','' (Values_Get args ''qid'') = m_QueueIDs m) \<and>
     m_Kind m \<noteq> MutationKindAbsent"

lemma removal_ids_split:
  assumes "validateQueueRemoval ids = Inr u"
  shows "Split CHR '','' (Join '','' ids) = ids" and "distinct ids" and "length ids \<le> 1000"
proof -
  from assms have v: "ids \<noteq> []" "length ids \<le> 1000" "distinct ids" "\<forall>x \<in> set ids. removal_id_ok x"
    using validateQueueRemoval_iff [of ids] by auto
  then have "\<forall>x \<in> set ids. CHR '','' \<notin> set x" by (auto simp: removal_id_ok_def)
  with v show "Split CHR '','' (Join '','' ids) = ids" and "distinct ids" and "length ids \<le> 1000"
    by (auto simp: Split_Join)
qed

text \<open>
  C24. Every command the transport builds names a player and respects the device's bounds: the
  volume level is a decimal within 0 to 100 that parses back to the requested level, a transport
  state is one the device accepts as an argument, a skip has a direction, a repeat mode is known, a
  queue request names a source and a container (and a playable track when it is not a container),
  and a removal lists distinct, well-formed queue IDs that the comma list gives back.
\<close>

theorem Mutation_command_bounded:
  assumes "Mutation_command m = Inr (name, args)"
  shows "command_bounded m name args"
proof -
  note pid = Mutation_command_pid [OF assms]
  show ?thesis
  proof (cases "m_Kind m")
    case MutationKindVolume
    then show ?thesis using assms pid
      by (auto simp: command_bounded_def Mutation_command_def Atoi_Itoa split: if_splits)
  next
    case MutationKindTransport
    then show ?thesis using assms pid PlayState_Writable_Known
      by (auto simp: command_bounded_def Mutation_command_def PlayState_of_string split: if_splits)
  next
    case MutationKindQueue
    then show ?thesis using assms pid
      by (auto simp: command_bounded_def Mutation_command_def queueCommand_def Let_def split: if_splits)
  next
    case MutationKindRemove
    then show ?thesis using assms pid removal_ids_split [of "m_QueueIDs m"]
      by (auto simp: command_bounded_def Mutation_command_def removeCommand_def split: if_splits sum.splits)
  qed (use assms pid in \<open>auto simp: command_bounded_def Mutation_command_def Let_def split: if_splits\<close>)
qed

theorem Mutation_command_bounded_witness:
  "let m = zeroMutation\<lparr>m_Kind := MutationKindVolume, m_Player := ''7'', m_Level := 35\<rparr>;
       args = [(''pid'', [''7'']), (''level'', [''35''])]
   in Mutation_command m = Inr (''player/set_volume'', args) \<and> command_bounded m ''player/set_volume'' args"
proof -
  let ?m = "zeroMutation\<lparr>m_Kind := MutationKindVolume, m_Player := ''7'', m_Level := 35\<rparr>"
  let ?args = "[(''pid'', [''7'']), (''level'', [''35''])]"
  have c: "Mutation_command ?m = Inr (''player/set_volume'', ?args)" by code_simp
  then show ?thesis using Mutation_command_bounded [OF c] by (simp add: Let_def)
qed

end
