(* ===== verification/Queues.thy ===== *)
theory Queues
  imports Mutations
begin

section \<open>Queues and snapshot comparison\<close>

text \<open>
  The pure comparisons of \<open>internal/control\<close>: the changed fields of two snapshots
  (\<open>diagnostics.go\<close>), the media and queue tests of \<open>ownership.go\<close>, \<open>confirmation.go\<close>,
  \<open>queue_policy.go\<close>, \<open>queue_start_policy.go\<close>, \<open>queue_append.go\<close>, \<open>queue_remove.go\<close>,
  \<open>skip.go\<close> and \<open>buffered_plan.go\<close>. A map of selected media IDs is a set of IDs. Each test has a
  characterisation in \<open>queue_simps\<close>; the theorems say what an accepted queue guarantees.
\<close>

subsection \<open>Changed fields\<close>

definition changed_fields :: "(string \<times> bool) list \<Rightarrow> string list" where
  "changed_fields fs = map fst (filter snd fs)"

definition stateChanges :: "Snapshot \<Rightarrow> Snapshot \<Rightarrow> string list" where
  "stateChanges a b =
     changed_fields
       [(''repeat'', s_Repeat a \<noteq> s_Repeat b), (''shuffle'', s_Shuffle a \<noteq> s_Shuffle b),
        (''player_identity'', s_Player a \<noteq> s_Player b), (''grouped'', s_Grouped a \<noteq> s_Grouped b),
        (''state'', s_State a \<noteq> s_State b), (''volume'', s_Volume a \<noteq> s_Volume b),
        (''mute'', s_Muted a \<noteq> s_Muted b),
        (''queue_items'', q_Items (s_Queue a) \<noteq> q_Items (s_Queue b)),
        (''queue_total'', q_Total (s_Queue a) \<noteq> q_Total (s_Queue b))] @
     (case (s_Media a, s_Media b) of
        (None, None) \<Rightarrow> []
      | (Some x, Some y) \<Rightarrow>
          changed_fields
            [(''media_source'', md_Source x \<noteq> md_Source y), (''media_id'', md_ID x \<noteq> md_ID y),
             (''media_queue_id'', md_QueueID x \<noteq> md_QueueID y),
             (''media_metadata'', md_Song x \<noteq> md_Song y \<or> md_Album x \<noteq> md_Album y \<or> md_Artist x \<noteq> md_Artist y)]
      | _ \<Rightarrow> [''media_presence''])"

definition sameState :: "Snapshot \<Rightarrow> Snapshot \<Rightarrow> bool" where
  "sameState a b \<longleftrightarrow> stateChanges a b = []"

subsection \<open>Current media\<close>

fun emptyMedia :: "Media option \<Rightarrow> bool" where
  "emptyMedia None = True"
| "emptyMedia (Some m) = (md_Source m = [] \<and> md_ID m = [] \<and> md_QueueID m = [])"

fun queuedMedia :: "QueuePage \<Rightarrow> Media option \<Rightarrow> bool" where
  "queuedMedia q None = False"
| "queuedMedia q (Some m) =
     (md_Source m = ''1024'' \<and> md_ID m \<noteq> [] \<and> md_QueueID m \<noteq> [] \<and>
      list_ex (\<lambda>item. md_QueueID item = md_QueueID m \<and> md_ID item = md_ID m) (q_Items q))"

fun queuedIdentity :: "QueuePage \<Rightarrow> Media option \<Rightarrow> bool" where
  "queuedIdentity q None = False"
| "queuedIdentity q (Some m) =
     (md_Source m = ''1024'' \<and> md_ID m \<noteq> [] \<and> list_ex (\<lambda>item. md_ID item = md_ID m) (q_Items q))"

fun transitionalQueueMedia :: "QueuePage \<Rightarrow> Media option \<Rightarrow> bool" where
  "transitionalQueueMedia q None = False"
| "transitionalQueueMedia q (Some m) =
     (queuedIdentity q (Some m) \<and> md_QueueID m \<noteq> [] \<and>
      (case find (\<lambda>item. md_QueueID item = md_QueueID m) (q_Items q) of
         None \<Rightarrow> False | Some item \<Rightarrow> md_ID item \<noteq> md_ID m))"

definition queueIndex :: "Snapshot \<Rightarrow> int" where
  "queueIndex s =
     (case s_Media s of
        None \<Rightarrow> -1
      | Some m \<Rightarrow>
          (case index_where (\<lambda>item. md_QueueID item = md_QueueID m \<and> md_ID item = md_ID m) (q_Items (s_Queue s)) of
             None \<Rightarrow> -1 | Some i \<Rightarrow> int i))"

subsection \<open>Complete queues\<close>

definition completeQueuePage :: "QueuePage \<Rightarrow> bool" where
  "completeQueuePage q \<longleftrightarrow>
     q_Total q = Some (int (length (q_Items q))) \<and> length (q_Items q) > 0 \<and> q_Next q = None"

definition completeOwnedQueue :: "QueuePage \<Rightarrow> ID set \<Rightarrow> bool" where
  "completeOwnedQueue q members \<longleftrightarrow>
     q_Total q = Some (int (length (q_Items q))) \<and> q_Items q \<noteq> [] \<and> q_Next q = None \<and>
     seen_all md_QueueID (\<lambda>m. md_QueueID m \<noteq> [] \<and> md_ID m \<in> members) [] (q_Items q)"

definition queueExtension :: "QueuePage \<Rightarrow> QueuePage \<Rightarrow> bool" where
  "queueExtension pre full \<longleftrightarrow>
     completeQueuePage full \<and> q_Items pre \<noteq> [] \<and> length (q_Items pre) \<le> length (q_Items full) \<and>
     (q_Total pre = None \<or> q_Total pre = q_Total full) \<and>
     q_Items pre = take (length (q_Items pre)) (q_Items full)"

definition idMembership :: "ID list \<Rightarrow> ID set" where
  "idMembership ids = set ids"

definition orderedQueue :: "QueuePage \<Rightarrow> ID list \<Rightarrow> bool" where
  "orderedQueue q ids \<longleftrightarrow>
     length (q_Items q) = length ids \<and> q_Total q = Some (int (length ids)) \<and> q_Next q = None \<and>
     zip_all (\<lambda>m i. md_ID m = i) (q_Items q) ids \<and>
     seen_all md_QueueID (\<lambda>m. md_QueueID m \<noteq> []) [] (q_Items q)"

definition appendQueueProblem :: "QueuePage \<Rightarrow> QueuePage \<Rightarrow> ID list \<Rightarrow> bool" where
  "appendQueueProblem before after ids \<longleftrightarrow>
     q_Total after \<noteq> Some (int (length (q_Items after))) \<or> q_Next after \<noteq> None \<or>
     length (q_Items after) < length (q_Items before) \<or> length (q_Items after) > length ids \<or>
     \<not> (zip_all (\<lambda>m i. md_ID m = i) (q_Items after) ids \<and>
        seen_all md_QueueID (\<lambda>m. md_QueueID m \<noteq> []) [] (q_Items after) \<and>
        zip_all (\<lambda>o' m. md_QueueID m = md_QueueID o' \<and> md_ID m = md_ID o') (q_Items before) (q_Items after))"

definition removedQueuePrefix :: "QueuePage \<Rightarrow> QueuePage \<Rightarrow> int \<Rightarrow> int \<times> bool" where
  "removedQueuePrefix before after maximum =
     (let removed = int (length (q_Items before)) - int (length (q_Items after)) in
      if removed < 0 \<or> removed > maximum \<or> q_Total after \<noteq> Some (int (length (q_Items after))) \<or> q_Next after \<noteq> None
      then (0, False)
      else if zip_all (\<lambda>item original. md_ID item = md_ID original \<and>
                         (removed = 0 \<longrightarrow> md_QueueID item = md_QueueID original))
                (q_Items after) (drop (nat removed) (q_Items before)) \<and>
              seen_all md_QueueID (\<lambda>m. md_QueueID m \<noteq> []) [] (q_Items after)
      then (removed, True)
      else (0, False))"

subsection \<open>Skips\<close>

definition atSkipBoundary :: "string \<Rightarrow> Snapshot \<Rightarrow> bool" where
  "atSkipBoundary direction s =
     (if s_Repeat s \<noteq> RepeatOff \<or> (direction \<noteq> ''next'' \<and> direction \<noteq> ''previous'') then False
      else if length (q_Items (s_Queue s)) = 1 then True
      else if s_Shuffle s then False
      else let index = queueIndex s in
        if index < 0 then False
        else (direction = ''next'' \<and> index = int (length (q_Items (s_Queue s))) - 1) \<or>
             (direction = ''previous'' \<and> index = 0))"

definition skipAdmissible :: "int option \<Rightarrow> string \<Rightarrow> Snapshot \<Rightarrow> unit result" where
  "skipAdmissible ceiling direction s =
     (case (ceiling, s_Volume s) of
        (Some c, Some v) \<Rightarrow>
          if v > c then Inl ErrBounds
          else if \<not> PlayState_Active (s_State s) \<or> \<not> completeQueuePage (s_Queue s) \<or> \<not> queuedMedia (s_Queue s) (s_Media s)
          then Inl ErrNotSkippable
          else if atSkipBoundary direction s then Inl ErrNotSkippable
          else Inr ()
      | _ \<Rightarrow> Inl ErrBounds)"

definition skipConfirmed :: "Snapshot \<Rightarrow> Snapshot \<Rightarrow> bool" where
  "skipConfirmed before after =
     (case (s_Media before, s_Media after) of
        (Some b, Some a) \<Rightarrow>
          PlayState_Active (s_State after) \<and>
          md_QueueID a \<noteq> [] \<and> md_QueueID a \<noteq> md_QueueID b \<and> queuedMedia (s_Queue before) (Some a) \<and>
          stateChanges (before\<lparr>s_State := s_State after, s_Media := s_Media after\<rparr>) after = []
      | _ \<Rightarrow> False)"

subsection \<open>Owned state\<close>

definition ownedChanges :: "bool \<Rightarrow> Snapshot \<Rightarrow> Snapshot \<Rightarrow> string list" where
  "ownedChanges queueOwned a b =
     (if t_Generation (s_Token a) \<noteq> t_Generation (s_Token b) then [''connection_generation'']
      else let a = (if queueOwned \<and> s_State a = s_State b \<and>
                       ((s_State b = PlayStatePlay \<and> queuedMedia (s_Queue a) (s_Media b)) \<or>
                        (s_State b = PlayStateStop \<and> (emptyMedia (s_Media b) \<or> queuedMedia (s_Queue a) (s_Media b))))
                    then a\<lparr>s_Media := s_Media b\<rparr> else a)
           in stateChanges a b)"

definition ownedState :: "bool \<Rightarrow> Snapshot \<Rightarrow> Snapshot \<Rightarrow> bool" where
  "ownedState queueOwned a b \<longleftrightarrow> ownedChanges queueOwned a b = []"

subsection \<open>Readback comparisons\<close>

definition stoppedReadback :: "Snapshot \<Rightarrow> Snapshot \<Rightarrow> Snapshot" where
  "stoppedReadback before after =
     (if s_State after = PlayStateUnknown \<or> s_State after = PlayStateStop then
        (let b = before\<lparr>s_State := s_State after\<rparr>
         in if emptyMedia (s_Media after) \<or> queuedMedia (s_Queue before) (s_Media after)
            then b\<lparr>s_Media := s_Media after\<rparr> else b)
      else before)"

definition transportMediaReadback :: "Snapshot \<Rightarrow> Snapshot \<Rightarrow> PlayState \<Rightarrow> bool \<Rightarrow> Snapshot" where
  "transportMediaReadback before after target pending =
     (case target of
        PlayStateStop \<Rightarrow> stoppedReadback before after
      | PlayStatePlay \<Rightarrow>
          if queuedMedia (s_Queue before) (s_Media after) then before\<lparr>s_Media := s_Media after\<rparr>
          else if pending \<and> s_State after \<noteq> PlayStatePlay \<and>
                  (emptyMedia (s_Media after) \<or> queuedIdentity (s_Queue before) (s_Media after))
          then before\<lparr>s_Media := s_Media after\<rparr>
          else before
      | _ \<Rightarrow> before)"

definition pendingChanges :: "Snapshot \<Rightarrow> Snapshot \<Rightarrow> Mutation \<Rightarrow> string list" where
  "pendingChanges before after m =
     (if t_Generation (s_Token before) \<noteq> t_Generation (s_Token after) then [''connection_generation'']
      else stateChanges
        (case m_Kind m of
           MutationKindMode \<Rightarrow>
             (let b = (if s_Repeat after = m_Repeat m then before\<lparr>s_Repeat := s_Repeat after\<rparr> else before)
              in if s_Shuffle after = m_Shuffle m then b\<lparr>s_Shuffle := s_Shuffle after\<rparr> else b)
         | MutationKindTransport \<Rightarrow>
             transportMediaReadback
               (if s_State after = PlayStateUnknown then before\<lparr>s_State := s_State after\<rparr> else before)
               after (m_State m) True
         | MutationKindSkip \<Rightarrow>
             (let b = (if PlayState_Known (s_State after) then before\<lparr>s_State := s_State after\<rparr> else before)
              in if emptyMedia (s_Media after) \<or> queuedMedia (s_Queue before) (s_Media after) \<or>
                    transitionalQueueMedia (s_Queue before) (s_Media after)
                 then b\<lparr>s_Media := s_Media after\<rparr> else b)
         | _ \<Rightarrow> before)
        after)"

definition transitionChanges :: "Snapshot \<Rightarrow> Snapshot \<Rightarrow> string list" where
  "transitionChanges before after =
     (if t_Generation (s_Token before) \<noteq> t_Generation (s_Token after) then [''connection_generation'']
      else if s_State after \<notin> {PlayStateStop, PlayStateUnknown, PlayStatePlay} then [''state'']
      else let b = before\<lparr>s_State := s_State after\<rparr>;
               pendingIdentity = (s_State after \<noteq> PlayStatePlay \<and> queuedIdentity (s_Queue before) (s_Media after))
           in stateChanges
                (if emptyMedia (s_Media after) \<or> queuedMedia (s_Queue before) (s_Media after) \<or> pendingIdentity \<or>
                    transitionalQueueMedia (s_Queue before) (s_Media after)
                 then b\<lparr>s_Media := s_Media after\<rparr> else b)
                after)"

fun queueStatePending :: "PlayState \<Rightarrow> PlayState \<Rightarrow> bool \<Rightarrow> bool" where
  "queueStatePending before PlayStatePlay started = True"
| "queueStatePending before PlayStateUnknown started = True"
| "queueStatePending before PlayStateStop started =
     (\<not> started \<and> (before = PlayStateStop \<or> before = PlayStatePause))"
| "queueStatePending before PlayStatePause started = (\<not> started \<and> before = PlayStatePause)"
| "queueStatePending before _ started = False"

definition queueLoadingControls :: "Snapshot \<Rightarrow> Snapshot \<Rightarrow> string list" where
  "queueLoadingControls before after =
     (if t_Generation (s_Token before) \<noteq> t_Generation (s_Token after) then [''connection_generation'']
      else stateChanges
        (before\<lparr>s_State := s_State after, s_Media := s_Media after, s_Queue := s_Queue after\<rparr>) after)"

definition queueLoadingMedia :: "Snapshot \<Rightarrow> Snapshot \<Rightarrow> ID set \<Rightarrow> bool" where
  "queueLoadingMedia before after members =
     (case s_Media after of
        None \<Rightarrow> True
      | Some media \<Rightarrow>
          emptyMedia (Some media) \<or>
          (case s_Media before of
             None \<Rightarrow> False
           | Some old \<Rightarrow> md_Source old = md_Source media \<and> md_ID old = md_ID media) \<or>
          (md_Source media = ''1024'' \<and> md_ID media \<in> members))"

definition queueLoadingItems :: "QueuePage \<Rightarrow> QueuePage \<Rightarrow> ID set \<Rightarrow> bool" where
  "queueLoadingItems before after members =
     (let old = md_ID ` set (q_Items before)
      in list_all (\<lambda>item. md_ID item \<in> old \<or> md_ID item \<in> members) (q_Items after))"

definition queueResultProblem :: "Snapshot \<Rightarrow> ID set \<Rightarrow> bool \<Rightarrow> string" where
  "queueResultProblem s members bounded =
     (if (case s_Media s of
            None \<Rightarrow> True
          | Some m \<Rightarrow> md_Source m \<noteq> ''1024'' \<or> md_ID m = [] \<or> md_QueueID m = [] \<or> md_ID m \<notin> members)
      then ''queue_media_not_selected''
      else if list_ex (\<lambda>track. md_ID track \<notin> members) (q_Items (s_Queue s)) then ''queue_contains_unselected_media''
      else if bounded \<and> \<not> completeOwnedQueue (s_Queue s) members then ''queue_incomplete_or_invalid''
      else if bounded \<and> \<not> queuedMedia (s_Queue s) (s_Media s) then ''queue_media_not_found''
      else [])"

definition bufferedPosition :: "Snapshot \<Rightarrow> ID list \<Rightarrow> nat result" where
  "bufferedPosition s ids =
     (if s_State s \<noteq> PlayStatePlay \<or> \<not> orderedQueue (s_Queue s) ids \<or> \<not> queuedMedia (s_Queue s) (s_Media s)
      then Inl ErrOwnership
      else case s_Media s of
             None \<Rightarrow> Inl ErrOwnership
           | Some m \<Rightarrow>
               (case index_where (\<lambda>item. md_QueueID item = md_QueueID m \<and> md_ID item = md_ID m) (q_Items (s_Queue s)) of
                  None \<Rightarrow> Inl ErrOwnership | Some i \<Rightarrow> Inr i))"

subsection \<open>Characterisations\<close>

definition sameControls :: "Snapshot \<Rightarrow> Snapshot \<Rightarrow> bool" where
  "sameControls a b \<longleftrightarrow>
     s_Repeat a = s_Repeat b \<and> s_Shuffle a = s_Shuffle b \<and> s_Player a = s_Player b \<and>
     s_Grouped a = s_Grouped b \<and> s_Volume a = s_Volume b \<and> s_Muted a = s_Muted b"

definition sameQueue :: "Snapshot \<Rightarrow> Snapshot \<Rightarrow> bool" where
  "sameQueue a b \<longleftrightarrow>
     q_Items (s_Queue a) = q_Items (s_Queue b) \<and> q_Total (s_Queue a) = q_Total (s_Queue b)"

lemma changed_fields_Nil [simp]: "changed_fields fs = [] \<longleftrightarrow> (\<forall>f \<in> set fs. \<not> snd f)"
  by (simp add: changed_fields_def filter_empty_conv)

lemma stateChanges_Nil [queue_simps]:
  "stateChanges a b = [] \<longleftrightarrow>
     sameControls a b \<and> sameQueue a b \<and> s_State a = s_State b \<and> s_Media a = s_Media b"
proof -
  have media: "(case (s_Media a, s_Media b) of
        (None, None) \<Rightarrow> []
      | (Some x, Some y) \<Rightarrow>
          changed_fields
            [(''media_source'', md_Source x \<noteq> md_Source y), (''media_id'', md_ID x \<noteq> md_ID y),
             (''media_queue_id'', md_QueueID x \<noteq> md_QueueID y),
             (''media_metadata'', md_Song x \<noteq> md_Song y \<or> md_Album x \<noteq> md_Album y \<or> md_Artist x \<noteq> md_Artist y)]
      | _ \<Rightarrow> [''media_presence'']) = [] \<longleftrightarrow> s_Media a = s_Media b"
    by (auto split: option.splits)
  show ?thesis
    unfolding stateChanges_def append_is_Nil_conv media
    by (auto simp: sameControls_def sameQueue_def)
qed

lemma queuedMedia_iff [queue_simps]:
  "queuedMedia q media \<longleftrightarrow>
     (\<exists>m. media = Some m \<and> md_Source m = ''1024'' \<and> md_ID m \<noteq> [] \<and> md_QueueID m \<noteq> [] \<and>
          (\<exists>item \<in> set (q_Items q). md_QueueID item = md_QueueID m \<and> md_ID item = md_ID m))"
  by (cases media) (auto simp: list_ex_iff)

lemma orderedQueue_iff [queue_simps]:
  "orderedQueue q ids \<longleftrightarrow>
     map md_ID (q_Items q) = ids \<and> q_Total q = Some (int (length ids)) \<and> q_Next q = None \<and>
     distinct (map md_QueueID (q_Items q)) \<and> [] \<notin> md_QueueID ` set (q_Items q)"
proof -
  have "length (q_Items q) = length ids \<and> zip_all (\<lambda>m i. md_ID m = i) (q_Items q) ids \<longleftrightarrow>
      map md_ID (q_Items q) = ids"
    by (auto simp: zip_all_map_prefix prefix_def)
  then show ?thesis unfolding orderedQueue_def seen_all_Nil by (metis imageE imageI)
qed

lemma completeOwnedQueue_iff [queue_simps]:
  "completeOwnedQueue q members \<longleftrightarrow>
     completeQueuePage q \<and> distinct (map md_QueueID (q_Items q)) \<and>
     [] \<notin> md_QueueID ` set (q_Items q) \<and> md_ID ` set (q_Items q) \<subseteq> members"
  by (auto simp: completeOwnedQueue_def completeQueuePage_def seen_all_Nil image_iff)

text \<open>An occurrence in a queue is a media ID with a queue ID.\<close>

definition occurrence :: "Media \<Rightarrow> ID \<times> ID" where
  "occurrence m = (md_ID m, md_QueueID m)"

lemma occurrence_prefix:
  "zip_all (\<lambda>o' m. md_QueueID m = md_QueueID o' \<and> md_ID m = md_ID o') xs ys \<longleftrightarrow>
     prefix (map occurrence xs) (map occurrence ys)"
proof (induction xs arbitrary: ys)
  case (Cons x xs)
  then show ?case by (cases ys) (auto simp: occurrence_def)
qed simp

lemma appendQueueProblem_iff [queue_simps]:
  "\<not> appendQueueProblem before after ids \<longleftrightarrow>
     q_Total after = Some (int (length (q_Items after))) \<and> q_Next after = None \<and>
     prefix (map occurrence (q_Items before)) (map occurrence (q_Items after)) \<and>
     prefix (map md_ID (q_Items after)) ids \<and>
     distinct (map md_QueueID (q_Items after)) \<and> [] \<notin> md_QueueID ` set (q_Items after)"
  unfolding appendQueueProblem_def occurrence_prefix zip_all_map_prefix seen_all_Nil
  by (auto simp: image_iff dest: prefix_length_le)

text \<open>
  Appending a part to an owned queue. A readback that raises no append problem keeps the whole
  old queue, entry by entry with its queue IDs, and shows a prefix of the planned IDs; a readback
  that is accepted as complete is exactly the old queue followed by the entries of the part in
  plan order, repeats included, with distinct non-empty queue IDs.
\<close>

theorem append_readback_exact:
  assumes "orderedQueue before ids" and "\<not> appendQueueProblem before after (ids @ part)"
  shows "prefix (map occurrence (q_Items before)) (map occurrence (q_Items after)) \<and>
         prefix (map md_ID (q_Items after)) (ids @ part) \<and>
         (orderedQueue after (ids @ part) \<longrightarrow>
           (\<exists>added. map occurrence (q_Items after) = map occurrence (q_Items before) @ map occurrence added \<and>
                    map md_ID added = part \<and> distinct (map md_QueueID (q_Items after)) \<and>
                    [] \<notin> md_QueueID ` set (q_Items after)))"
proof -
  from assms(2) have pre: "prefix (map occurrence (q_Items before)) (map occurrence (q_Items after))"
    and ids: "prefix (map md_ID (q_Items after)) (ids @ part)"
    by (auto simp: appendQueueProblem_iff)
  have "\<exists>added. map occurrence (q_Items after) = map occurrence (q_Items before) @ map occurrence added \<and>
                map md_ID added = part \<and> distinct (map md_QueueID (q_Items after)) \<and>
                [] \<notin> md_QueueID ` set (q_Items after)"
    if fin: "orderedQueue after (ids @ part)"
  proof -
    let ?n = "length (q_Items before)"
    let ?added = "drop ?n (q_Items after)"
    from pre have take: "map occurrence (take ?n (q_Items after)) = map occurrence (q_Items before)"
      by (auto simp: prefix_def take_map [symmetric])
    then have "map occurrence (q_Items after) = map occurrence (q_Items before) @ map occurrence ?added"
      by (metis append_take_drop_id map_append)
    moreover have "map md_ID ?added = part"
      using assms(1) fin by (simp add: orderedQueue_iff drop_map [symmetric] flip: length_map [of md_ID])
    ultimately show ?thesis using fin by (auto simp: orderedQueue_iff)
  qed
  with pre ids show ?thesis by blast
qed

definition example_media :: "string \<Rightarrow> string \<Rightarrow> Media" where
  "example_media mid qid = \<lparr>md_Source = ''1024'', md_ID = mid, md_QueueID = qid, md_Song = [],
     md_Album = [], md_Artist = []\<rparr>"

definition example_page :: "Media list \<Rightarrow> QueuePage" where
  "example_page items = \<lparr>q_Items = items, q_Total = Some (int (length items)), q_Next = None, q_Token = zeroToken\<rparr>"

lemmas example_queue_defs = example_media_def example_page_def

theorem append_readback_exact_witness:
  "let before = example_page [example_media ''a'' ''1'', example_media ''b'' ''2''];
       after = example_page [example_media ''a'' ''1'', example_media ''b'' ''2'', example_media ''a'' ''3'']
   in orderedQueue before [''a'', ''b''] \<and> \<not> appendQueueProblem before after ([''a'', ''b''] @ [''a'']) \<and>
      prefix (map occurrence (q_Items before)) (map occurrence (q_Items after))"
proof -
  let ?before = "example_page [example_media ''a'' ''1'', example_media ''b'' ''2'']"
  let ?after = "example_page [example_media ''a'' ''1'', example_media ''b'' ''2'', example_media ''a'' ''3'']"
  have h: "orderedQueue ?before [''a'', ''b'']" "\<not> appendQueueProblem ?before ?after ([''a'', ''b''] @ [''a''])"
    by (simp_all add: orderedQueue_def appendQueueProblem_def example_queue_defs)
  then show ?thesis using append_readback_exact [OF h] by (simp add: Let_def)
qed

lemma removedQueuePrefix_True:
  assumes "removedQueuePrefix before after maximum = (removed, True)"
  shows "0 \<le> removed" and "removed \<le> maximum"
    and "map md_ID (q_Items after) = drop (nat removed) (map md_ID (q_Items before))"
    and "removed = 0 \<Longrightarrow> map occurrence (q_Items after) = map occurrence (q_Items before)"
    and "distinct (map md_QueueID (q_Items after))" and "[] \<notin> md_QueueID ` set (q_Items after)"
    and "q_Total after = Some (int (length (q_Items after)))" and "q_Next after = None"
proof -
  let ?r = "int (length (q_Items before)) - int (length (q_Items after))"
  from assms have r: "removed = ?r" "0 \<le> ?r" "?r \<le> maximum"
    and z: "zip_all (\<lambda>item original. md_ID item = md_ID original \<and>
              (?r = 0 \<longrightarrow> md_QueueID item = md_QueueID original)) (q_Items after) (drop (nat ?r) (q_Items before))"
    and s: "seen_all md_QueueID (\<lambda>m. md_QueueID m \<noteq> []) [] (q_Items after)"
    and t: "q_Total after = Some (int (length (q_Items after)))" "q_Next after = None"
    by (auto simp: removedQueuePrefix_def Let_def split: if_splits)
  show "0 \<le> removed" and "removed \<le> maximum" using r by auto
  show "q_Total after = Some (int (length (q_Items after)))" and "q_Next after = None" using t by auto
  show "distinct (map md_QueueID (q_Items after))" and "[] \<notin> md_QueueID ` set (q_Items after)"
    using s by (auto simp: seen_all_Nil image_iff)
  have len: "length (drop (nat ?r) (q_Items before)) = length (q_Items after)" using r by auto
  show "map md_ID (q_Items after) = drop (nat removed) (map md_ID (q_Items before))"
    unfolding r(1) drop_map by (rule nth_equalityI) (use len z in \<open>auto simp: zip_all_iff\<close>)
  show "map occurrence (q_Items after) = map occurrence (q_Items before)" if "removed = 0"
    by (rule nth_equalityI) (use that r len z in \<open>auto simp: zip_all_iff occurrence_def\<close>)
qed

text \<open>
  Removing a played prefix. An accepted removal readback is the old sequence of media IDs
  without a prefix of at most the requested length: nothing is reordered, replaced or dropped from
  the middle, and as long as nothing was removed every queue ID is unchanged too.
\<close>

theorem removal_readback_suffix:
  assumes "removedQueuePrefix before after maximum = (removed, True)"
  shows "0 \<le> removed \<and> removed \<le> maximum \<and>
         map md_ID (q_Items before) =
           take (nat removed) (map md_ID (q_Items before)) @ map md_ID (q_Items after) \<and>
         (removed = 0 \<longrightarrow> map occurrence (q_Items after) = map occurrence (q_Items before)) \<and>
         orderedQueue after (drop (nat removed) (map md_ID (q_Items before)))"
proof -
  note r = removedQueuePrefix_True [OF assms]
  have "orderedQueue after (drop (nat removed) (map md_ID (q_Items before)))"
    using r by (simp add: orderedQueue_iff flip: r(3))
  with r show ?thesis by simp
qed

theorem removal_readback_suffix_witness:
  "let before = example_page [example_media ''a'' ''1'', example_media ''b'' ''2'', example_media ''c'' ''3''];
       after = example_page [example_media ''b'' ''1'', example_media ''c'' ''2'']
   in removedQueuePrefix before after 1 = (1, True) \<and> orderedQueue after [''b'', ''c'']"
proof -
  let ?before = "example_page [example_media ''a'' ''1'', example_media ''b'' ''2'', example_media ''c'' ''3'']"
  let ?after = "example_page [example_media ''b'' ''1'', example_media ''c'' ''2'']"
  have h: "removedQueuePrefix ?before ?after 1 = (1, True)"
    by (simp add: removedQueuePrefix_def example_queue_defs)
  then show ?thesis using removal_readback_suffix [OF h] by (simp add: Let_def example_queue_defs)
qed

subsection \<open>Positions\<close>

lemma find_distinct_key:
  assumes "distinct (map f xs)" and "x \<in> set xs"
  shows "find (\<lambda>y. f y = f x) xs = Some x"
  using assms by (induction xs) auto

lemma transitional_not_queued:
  assumes "distinct (map md_QueueID (q_Items q))" and "transitionalQueueMedia q media"
  shows "\<not> queuedMedia q media"
proof
  assume q: "queuedMedia q media"
  then obtain m item where m: "media = Some m"
    and item: "item \<in> set (q_Items q)" "md_QueueID item = md_QueueID m" "md_ID item = md_ID m"
    by (auto simp: queuedMedia_iff)
  have "find (\<lambda>y. md_QueueID y = md_QueueID m) (q_Items q) = Some item"
    using find_distinct_key [OF assms(1) item(1)] item(2) by simp
  with assms(2) m item(3) show False by simp
qed

lemma bufferedPosition_Inr:
  assumes "bufferedPosition s ids = Inr i"
  obtains m where "s_Media s = Some m" and "i < length (q_Items (s_Queue s))"
    and "occurrence (q_Items (s_Queue s) ! i) = occurrence m" and "ids ! i = md_ID m"
    and "s_State s = PlayStatePlay" and "orderedQueue (s_Queue s) ids"
proof -
  from assms obtain m where m: "s_Media s = Some m" and oq: "orderedQueue (s_Queue s) ids"
    and p: "s_State s = PlayStatePlay"
    and i: "index_where (\<lambda>item. md_QueueID item = md_QueueID m \<and> md_ID item = md_ID m) (q_Items (s_Queue s)) = Some i"
    by (auto simp: bufferedPosition_def split: if_splits option.splits)
  note x = index_where_Some [OF i]
  then have "ids ! i = md_ID m" using oq by (auto simp: orderedQueue_iff)
  with that m oq p x show ?thesis by (auto simp: occurrence_def)
qed

lemma bufferedPosition_total:
  assumes "s_State s = PlayStatePlay" and "orderedQueue (s_Queue s) ids" and "queuedMedia (s_Queue s) (s_Media s)"
  shows "\<exists>i. bufferedPosition s ids = Inr i"
proof -
  from assms(3) obtain m where m: "s_Media s = Some m"
    and "\<exists>item \<in> set (q_Items (s_Queue s)). md_QueueID item = md_QueueID m \<and> md_ID item = md_ID m"
    by (auto simp: queuedMedia_iff)
  from index_where_ex [OF this(2)] m assms show ?thesis by (auto simp: bufferedPosition_def)
qed

lemma queueIndex_nonneg: "queuedMedia (s_Queue s) (s_Media s) \<Longrightarrow> 0 \<le> queueIndex s"
  by (auto simp: queueIndex_def queuedMedia_iff split: option.splits)

lemma queueIndex_bound: "queueIndex s < int (length (q_Items (s_Queue s)))"
  by (auto simp: queueIndex_def split: option.splits dest: index_where_Some)

end
