(* ===== verification/Policy.thy ===== *)
theory Policy
  imports Queues
begin

section \<open>Queue decisions\<close>

text \<open>
  \<open>internal/control/queue_policy.go\<close> and \<open>internal/control/queue_start_policy.go\<close>: the pure
  decision tables for an active owned queue (events and observations) and for the confirmation of
  a new queue. A table is a \<open>first_rule\<close> over the rules in source order; a Go error pointer is an
  \<open>error option\<close>. The theorems state what a decision to resume or to confirm guarantees, that a
  transition wait is bounded and never renewed, and which events a policy can absorb.
\<close>

datatype queueAction = queuePass | queueIgnore | queueObserve | queueWait | queueResume | queueRelease

record queuePolicyState =
  qs_Owned :: bool
  qs_Automating :: bool
  qs_ExpectedState :: PlayState
  qs_WaitUntil :: time
  qs_PlaybackUntil :: time

record queueObservationFacts =
  f_Now :: time
  f_Before :: Snapshot
  f_Observed :: Snapshot
  f_Cancellation :: "error option"
  f_Unsafe :: "error option"
  f_Expired :: bool
  f_PendingEvents :: bool

record queueDecision =
  qd_Action :: queueAction
  qd_Rule :: string
  qd_WaitUntil :: time
  qd_Deadline :: time
  qd_Notify :: bool
  qd_Err :: "error option"

definition playbackConfirmationTimeout :: duration where
  "playbackConfirmationTimeout = 12 * Second"

definition minTime :: "time \<Rightarrow> time \<Rightarrow> time" where
  "minTime a b = (if a < b then a else b)"

definition ownershipMismatch :: "string \<Rightarrow> string list \<Rightarrow> error" where
  "ownershipMismatch reason flds = OwnershipError reason flds"

subsection \<open>Events of an active queue\<close>

definition queueEventRules ::
  "queuePolicyState \<Rightarrow> EventData \<Rightarrow> (bool \<times> (string \<times> queueAction \<times> bool)) list" where
  "queueEventRules state data =
     (let waiting = \<not> IsZero (qs_WaitUntil state);
          play = (d_Kind data = EventState \<and> d_State data = PlayStatePlay);
          transition = (d_Kind data = EventState \<and> qs_Automating state \<and>
                        (d_State data = PlayStateStop \<or> d_State data = PlayStateUnknown))
      in [(\<not> qs_Owned state, (''queue_not_owned'', queuePass, False)),
          (d_Kind data = EventNowPlaying, (''media_notification'', queueObserve, True)),
          (play \<and> qs_ExpectedState state \<noteq> PlayStatePlay, (''unexpected_play'', queuePass, waiting)),
          (play \<and> waiting, (''play_requires_observation'', queueObserve, True)),
          (play, (''play_unchanged'', queueIgnore, False)),
          (transition \<and> waiting, (''transport_already_pending'', queueIgnore, False)),
          (transition, (''transport_transition'', queueWait, True))])"

definition decideQueueEvent :: "queuePolicyState \<Rightarrow> Event \<Rightarrow> time \<Rightarrow> queueDecision" where
  "decideQueueEvent state event now =
     (case first_rule (queueEventRules state (Event_Data event)) (''event_not_attributed'', queuePass, False) of
        (name, action, notify) \<Rightarrow>
          \<lparr>qd_Action = action, qd_Rule = name,
           qd_WaitUntil = (if action = queueWait then now + playbackConfirmationTimeout else qs_WaitUntil state),
           qd_Deadline = 0, qd_Notify = notify, qd_Err = None\<rparr>)"

subsection \<open>Observations of an active queue\<close>

definition queueActive :: "queuePolicyState \<Rightarrow> bool" where
  "queueActive state \<longleftrightarrow> qs_Owned state \<and> qs_Automating state \<and> qs_ExpectedState state = PlayStatePlay"

definition observationPendingState :: "queueObservationFacts \<Rightarrow> bool" where
  "observationPendingState f \<longleftrightarrow>
     s_State (f_Observed f) = PlayStateStop \<or> s_State (f_Observed f) = PlayStateUnknown \<or>
     (s_State (f_Observed f) = PlayStatePlay \<and>
      transitionalQueueMedia (s_Queue (f_Before f)) (s_Media (f_Observed f)))"

definition observationWaitUntil :: "queuePolicyState \<Rightarrow> queueObservationFacts \<Rightarrow> time" where
  "observationWaitUntil state f =
     (if queueActive state \<and> observationPendingState f \<and> IsZero (qs_WaitUntil state)
      then f_Now f + playbackConfirmationTimeout else qs_WaitUntil state)"

definition observationDeadline :: "queuePolicyState \<Rightarrow> queueObservationFacts \<Rightarrow> time" where
  "observationDeadline state f =
     (if \<not> IsZero (qs_PlaybackUntil state)
      then minTime (observationWaitUntil state f) (qs_PlaybackUntil state)
      else observationWaitUntil state f)"

definition queueObservationRules ::
  "queuePolicyState \<Rightarrow> queueObservationFacts \<Rightarrow> (bool \<times> (string \<times> queueAction \<times> error option)) list" where
  "queueObservationRules state f =
     (let active = queueActive state;
          waitUntil = observationWaitUntil state f;
          flds = transitionChanges (f_Before f) (f_Observed f);
          changed = (if active \<and> \<not> IsZero waitUntil \<and> flds \<noteq> []
                     then Some (ownershipMismatch ''queue_transition_changed'' flds) else None)
      in [(\<not> active, (''outside_active_queue'', queuePass, None)),
          (IsZero waitUntil, (''no_transition'', queuePass, None)),
          (f_Expired f \<or> \<not> f_Now f < observationDeadline state f,
             (''transition_timeout'', queueRelease, Some errQueueTransitionTimeout)),
          (f_Cancellation f \<noteq> None, (''operation_cancelled'', queueRelease, f_Cancellation f)),
          (f_Unsafe f \<noteq> None, (''observation_unsafe'', queueRelease, f_Unsafe f)),
          (changed \<noteq> None, (''queue_controls_changed'', queueRelease, changed)),
          (s_State (f_Observed f) = PlayStatePlay \<and>
             queuedMedia (s_Queue (f_Before f)) (s_Media (f_Observed f)) \<and> \<not> f_PendingEvents f,
             (''play_confirmed'', queueResume, None)),
          (f_PendingEvents f, (''events_pending'', queueWait, None)),
          (s_State (f_Observed f) \<noteq> PlayStatePlay, (''transport_pending'', queueWait, None))])"

definition decideQueueObservation :: "queuePolicyState \<Rightarrow> queueObservationFacts \<Rightarrow> queueDecision" where
  "decideQueueObservation state f =
     (case first_rule (queueObservationRules state f) (''media_pending'', queueWait, None) of
        (name, action, err) \<Rightarrow>
          \<lparr>qd_Action = action, qd_Rule = name,
           qd_WaitUntil = (if action = queueResume then 0 else observationWaitUntil state f),
           qd_Deadline = observationDeadline state f, qd_Notify = False, qd_Err = err\<rparr>)"

subsection \<open>Confirmation of a new queue\<close>

datatype queueStartPhase = queueNotStarting | queueAwaitingPlay | queuePlayObserved

datatype queueStartAction = queueStartWait | queueStartConfirm | queueStartAbort

record queueStartFacts =
  sf_Now :: time
  sf_Deadline :: time
  sf_Phase :: queueStartPhase
  sf_Bounded :: bool
  sf_Members :: "ID set"
  sf_Before :: Snapshot
  sf_Observed :: Snapshot
  sf_Cancellation :: "error option"
  sf_Unsafe :: "error option"
  sf_PendingEvents :: bool

record queueStartDecision =
  sd_Action :: queueStartAction
  sd_Rule :: string
  sd_Err :: "error option"

definition startUnresolved :: "queueStartFacts \<Rightarrow> bool" where
  "startUnresolved f \<longleftrightarrow>
     sf_Phase f = queueAwaitingPlay \<and> s_State (sf_Observed f) = PlayStateUnknown \<and>
     (case s_Media (sf_Observed f) of None \<Rightarrow> False | Some m \<Rightarrow> md_Source m = ''1024'' \<and> md_ID m \<noteq> []) \<and>
     \<not> queueLoadingMedia (sf_Before f) (sf_Observed f) (sf_Members f) \<and>
     completeOwnedQueue (s_Queue (sf_Observed f)) (sf_Members f)"

definition queueStartRules ::
  "queueStartFacts \<Rightarrow> (bool \<times> (string \<times> queueStartAction \<times> error option \<times> string list)) list" where
  "queueStartRules f =
     (let before = sf_Before f; observed = sf_Observed f;
          controls = queueLoadingControls before observed;
          mediaAllowed = queueLoadingMedia before observed (sf_Members f);
          unresolved = startUnresolved f
      in [(sf_Phase f = queueNotStarting, (''queue_start_inactive'', queueStartAbort, Some ErrOwnership, [])),
          (\<not> sf_Now f < sf_Deadline f, (''queue_start_timeout'', queueStartAbort, Some DeadlineExceeded, [])),
          (sf_Cancellation f \<noteq> None, (''operation_cancelled'', queueStartAbort, sf_Cancellation f, [])),
          (sf_Unsafe f \<noteq> None, (''observation_unsafe'', queueStartAbort, sf_Unsafe f, [])),
          (controls \<noteq> [], (''queue_controls_changed'', queueStartAbort, None, controls)),
          (\<not> queueStatePending (s_State before) (s_State observed) (sf_Phase f = queuePlayObserved),
             (''queue_state_changed'', queueStartAbort, None, [''state''])),
          (\<not> queueLoadingItems (s_Queue before) (s_Queue observed) (sf_Members f),
             (''queue_items_changed'', queueStartAbort, None, [''queue_items''])),
          (\<not> mediaAllowed \<and> \<not> unresolved, (''queue_media_changed'', queueStartAbort, None, [''media''])),
          (s_State observed = PlayStatePlay \<and> queueResultProblem observed (sf_Members f) (sf_Bounded f) = [] \<and>
             \<not> sf_PendingEvents f, (''queue_start_confirmed'', queueStartConfirm, None, [])),
          (sf_PendingEvents f, (''events_pending'', queueStartWait, None, [])),
          (unresolved, (''loading_media_pending'', queueStartWait, None, []))])"

definition decideQueueStart :: "queueStartFacts \<Rightarrow> queueStartDecision" where
  "decideQueueStart f =
     (case first_rule (queueStartRules f) (''queue_loading'', queueStartWait, None, []) of
        (name, action, err, flds) \<Rightarrow>
          \<lparr>sd_Action = action, sd_Rule = name,
           sd_Err = (if flds \<noteq> [] then Some (ownershipMismatch ''pending_readback_changed'' flds) else err)\<rparr>)"

lemmas policy_defs [policy_simps] =
  decideQueueEvent_def queueEventRules_def decideQueueObservation_def queueObservationRules_def
  decideQueueStart_def queueStartRules_def Let_def

subsection \<open>Events\<close>

lemma decideQueueEvent_absorbed:
  assumes "qd_Action (decideQueueEvent state event now) \<noteq> queuePass"
  shows "qs_Owned state"
    and "d_Kind (Event_Data event) = EventNowPlaying \<or> d_Kind (Event_Data event) = EventState"
    and "d_Kind (Event_Data event) = EventState \<Longrightarrow>
           d_State (Event_Data event) \<in> {PlayStatePlay, PlayStateStop, PlayStateUnknown}"
    and "d_Kind (Event_Data event) = EventState \<Longrightarrow> d_State (Event_Data event) \<noteq> PlayStatePlay \<Longrightarrow>
           qs_Automating state"
  using assms by (auto simp: policy_simps split: if_splits)

lemma decideQueueEvent_WaitUntil:
  "qd_WaitUntil (decideQueueEvent state event now) =
     (if qd_Action (decideQueueEvent state event now) = queueWait
      then now + playbackConfirmationTimeout else qs_WaitUntil state)"
  by (simp add: decideQueueEvent_def split: prod.splits)

lemma decideQueueEvent_wait:
  "qd_Action (decideQueueEvent state event now) = queueWait \<Longrightarrow> IsZero (qs_WaitUntil state)"
  by (auto simp: policy_simps split: if_splits)

subsection \<open>Observations\<close>

lemma observation_resume_iff:
  "qd_Action (decideQueueObservation state f) = queueResume \<longleftrightarrow>
     queueActive state \<and> \<not> IsZero (observationWaitUntil state f) \<and> \<not> f_Expired f \<and>
     f_Now f < observationDeadline state f \<and> f_Cancellation f = None \<and> f_Unsafe f = None \<and>
     transitionChanges (f_Before f) (f_Observed f) = [] \<and>
     s_State (f_Observed f) = PlayStatePlay \<and>
     queuedMedia (s_Queue (f_Before f)) (s_Media (f_Observed f)) \<and> \<not> f_PendingEvents f"
  by (auto simp: policy_simps split: if_splits)

lemma observation_pass_iff:
  "qd_Action (decideQueueObservation state f) = queuePass \<longleftrightarrow>
     \<not> queueActive state \<or> IsZero (observationWaitUntil state f)"
  by (auto simp: policy_simps split: if_splits)

lemma observation_WaitUntil:
  "qd_WaitUntil (decideQueueObservation state f) =
     (if qd_Action (decideQueueObservation state f) = queueResume then 0 else observationWaitUntil state f)"
  by (simp add: decideQueueObservation_def split: prod.splits)

lemma observation_Deadline [simp]:
  "qd_Deadline (decideQueueObservation state f) = observationDeadline state f"
  by (simp add: decideQueueObservation_def split: prod.splits)

lemma observation_wait_before_deadline:
  "qd_Action (decideQueueObservation state f) = queueWait \<Longrightarrow>
     queueActive state \<and> \<not> f_Expired f \<and> f_Now f < observationDeadline state f"
  by (auto simp: policy_simps split: if_splits)

lemma observationDeadline_le:
  "observationDeadline state f \<le> observationWaitUntil state f"
  "\<not> IsZero (qs_PlaybackUntil state) \<Longrightarrow> observationDeadline state f \<le> qs_PlaybackUntil state"
  by (auto simp: observationDeadline_def minTime_def)

lemma transitionChanges_Nil:
  "transitionChanges a b = [] \<Longrightarrow>
     t_Generation (s_Token a) = t_Generation (s_Token b) \<and> sameControls a b \<and> sameQueue a b"
  by (auto simp: transitionChanges_def Let_def stateChanges_Nil sameControls_def sameQueue_def split: if_splits)

text \<open>
  C15. Ownership of playback is only confirmed on evidence. A decision to resume after a track
  transition is taken exactly when an owned, automated playback is waiting, its deadline has not
  passed, nothing cancelled it, the observation is safe and every event is covered, the device plays
  an entry whose media ID and queue ID form a pair of the owned queue, and the connection, the
  queue and every control are unchanged; it ends the wait.
\<close>

theorem resume_only_on_exact_evidence:
  assumes "qd_Action (decideQueueObservation state f) = queueResume"
  shows "qs_Owned state \<and> qs_Automating state \<and> qs_ExpectedState state = PlayStatePlay \<and>
         f_Now f < qd_Deadline (decideQueueObservation state f) \<and> \<not> f_Expired f \<and>
         f_Cancellation f = None \<and> f_Unsafe f = None \<and> \<not> f_PendingEvents f \<and>
         s_State (f_Observed f) = PlayStatePlay \<and>
         (\<exists>m item. s_Media (f_Observed f) = Some m \<and> item \<in> set (q_Items (s_Queue (f_Before f))) \<and>
            occurrence item = occurrence m \<and> md_Source m = ''1024'' \<and> md_QueueID m \<noteq> []) \<and>
         t_Generation (s_Token (f_Before f)) = t_Generation (s_Token (f_Observed f)) \<and>
         sameControls (f_Before f) (f_Observed f) \<and> sameQueue (f_Before f) (f_Observed f) \<and>
         qd_WaitUntil (decideQueueObservation state f) = 0"
proof -
  from assms have r: "queueActive state" "\<not> f_Expired f" "f_Now f < observationDeadline state f"
    "f_Cancellation f = None" "f_Unsafe f = None" "s_State (f_Observed f) = PlayStatePlay"
    "queuedMedia (s_Queue (f_Before f)) (s_Media (f_Observed f))" "\<not> f_PendingEvents f"
    and t: "transitionChanges (f_Before f) (f_Observed f) = []"
    by (auto simp: observation_resume_iff)
  have "\<exists>m item. s_Media (f_Observed f) = Some m \<and> item \<in> set (q_Items (s_Queue (f_Before f))) \<and>
            occurrence item = occurrence m \<and> md_Source m = ''1024'' \<and> md_QueueID m \<noteq> []"
    using r(7) by (auto simp: queuedMedia_iff occurrence_def)
  then show ?thesis using r assms transitionChanges_Nil [OF t]
    by (simp add: queueActive_def observation_WaitUntil)
qed

definition example_snapshot :: "PlayState \<Rightarrow> Media option \<Rightarrow> QueuePage \<Rightarrow> Snapshot" where
  "example_snapshot state media queue =
     zeroSnapshot\<lparr>s_State := state, s_Media := media, s_Queue := queue, s_Volume := Some 20, s_Muted := Some False,
       s_Repeat := RepeatOff, s_Connected := True, s_Verified := True, s_ObservedAt := 1,
       s_Player := zeroPlayer\<lparr>p_ID := ''7'', p_Serial := ''S1''\<rparr>\<rparr>"

definition example_queue :: QueuePage where
  "example_queue = example_page [example_media ''a'' ''1'', example_media ''b'' ''2'']"

definition example_policy :: queuePolicyState where
  "example_policy = \<lparr>qs_Owned = True, qs_Automating = True, qs_ExpectedState = PlayStatePlay,
     qs_WaitUntil = 12000000005, qs_PlaybackUntil = 0\<rparr>"

definition example_facts :: queueObservationFacts where
  "example_facts =
     \<lparr>f_Now = 10, f_Before = example_snapshot PlayStatePlay (Some (example_media ''a'' ''1'')) example_queue,
      f_Observed = example_snapshot PlayStatePlay (Some (example_media ''b'' ''2'')) example_queue,
      f_Cancellation = None, f_Unsafe = None, f_Expired = False, f_PendingEvents = False\<rparr>"

lemmas example_policy_defs =
  example_policy_def example_facts_def example_snapshot_def example_queue_def example_page_def
  example_media_def zeroSnapshot_def zeroPlayer_def zeroToken_def

theorem resume_only_on_exact_evidence_witness:
  "qd_Action (decideQueueObservation example_policy example_facts) = queueResume \<and>
   qd_WaitUntil (decideQueueObservation example_policy example_facts) = 0 \<and>
   sameQueue (f_Before example_facts) (f_Observed example_facts)"
proof -
  have r: "qd_Action (decideQueueObservation example_policy example_facts) = queueResume"
    by code_simp
  then show ?thesis using resume_only_on_exact_evidence [OF r] by simp
qed

subsection \<open>Bounded waits\<close>

text \<open>
  The caller keeps the wait deadline of every decision (\<open>r.queueWait = d.WaitUntil\<close> in
  \<open>acceptQueueEvent\<close> and \<open>queueObservationDecision\<close>). A policy run interleaves events and
  observations.
\<close>

fun policy_step :: "queuePolicyState \<Rightarrow> (Event \<times> time) + queueObservationFacts \<Rightarrow> queueDecision" where
  "policy_step st (Inl (e, now)) = decideQueueEvent st e now"
| "policy_step st (Inr f) = decideQueueObservation st f"

fun policy_run ::
  "queuePolicyState \<Rightarrow> ((Event \<times> time) + queueObservationFacts) list \<Rightarrow> queuePolicyState \<times> queueDecision list" where
  "policy_run st [] = (st, [])"
| "policy_run st (x # xs) =
     (let d = policy_step st x; (st', ds) = policy_run (st\<lparr>qs_WaitUntil := qd_WaitUntil d\<rparr>) xs
      in (st', d # ds))"

lemma policy_step_keeps_wait:
  assumes "\<not> IsZero (qs_WaitUntil st)" and "qd_Action (policy_step st x) \<noteq> queueResume"
  shows "qd_WaitUntil (policy_step st x) = qs_WaitUntil st"
proof (cases x)
  case (Inl a)
  then obtain e now where a: "x = Inl (e, now)" by (cases a) auto
  then show ?thesis
    using assms decideQueueEvent_wait [of st e now] by (auto simp: decideQueueEvent_WaitUntil)
next
  case (Inr f)
  with assms show ?thesis by (auto simp: observation_WaitUntil observationWaitUntil_def)
qed

lemma policy_run_keeps_wait:
  assumes "\<not> IsZero (qs_WaitUntil st)" and "policy_run st xs = (st', ds)"
    and "\<forall>d \<in> set ds. qd_Action d \<noteq> queueResume"
  shows "st' = st"
  using assms
proof (induction xs arbitrary: st ds)
  case (Cons x xs)
  obtain ds' where run: "policy_run (st\<lparr>qs_WaitUntil := qd_WaitUntil (policy_step st x)\<rparr>) xs = (st', ds')"
    and ds: "ds = policy_step st x # ds'"
    using Cons.prems(2) by (auto simp: Let_def split: prod.splits)
  have "qd_WaitUntil (policy_step st x) = qs_WaitUntil st"
    using Cons.prems(1,3) ds by (intro policy_step_keeps_wait) auto
  then have "st\<lparr>qs_WaitUntil := qd_WaitUntil (policy_step st x)\<rparr> = st" by simp
  with run ds Cons.prems show ?case by (intro Cons.IH [of st ds']) auto
qed simp

text \<open>
  C19. A track-transition wait is bounded and cannot be renewed. Once a wait has a deadline, no
  sequence of events and observations other than a confirmed resume moves it, and the first
  observation made at or after that deadline (or at or after the end of the playback window, if
  that is earlier) releases ownership with the transition timeout, whatever else it shows: the
  timeout takes precedence over a cancellation, an unsafe reading and a changed control.
\<close>

theorem transition_wait_bounded:
  assumes "queueActive st" and "\<not> IsZero (qs_WaitUntil st)"
    and "policy_run st xs = (st', ds)" and "\<forall>d \<in> set ds. qd_Action d \<noteq> queueResume"
    and "qs_WaitUntil st \<le> f_Now f \<or> (\<not> IsZero (qs_PlaybackUntil st) \<and> qs_PlaybackUntil st \<le> f_Now f)"
  shows "qs_WaitUntil st' = qs_WaitUntil st \<and>
         qd_Action (decideQueueObservation st' f) = queueRelease \<and>
         qd_Err (decideQueueObservation st' f) = Some errQueueTransitionTimeout"
proof -
  have st: "st' = st" using policy_run_keeps_wait [OF assms(2,3,4)] .
  have "\<not> f_Now f < observationDeadline st f"
    using assms(2,5) by (auto simp: observationDeadline_def observationWaitUntil_def minTime_def)
  then show ?thesis
    using assms(1,2) st by (simp add: policy_simps observationWaitUntil_def)
qed

theorem transition_wait_bounded_witness:
  "qd_Action (decideQueueObservation (fst (policy_run example_policy
      [Inr (example_facts\<lparr>f_Observed := example_snapshot PlayStateStop None example_queue\<rparr>)]))
      (example_facts\<lparr>f_Now := 12000000005\<rparr>)) = queueRelease"
proof -
  let ?x = "Inr (example_facts\<lparr>f_Observed := example_snapshot PlayStateStop None example_queue\<rparr>)"
  obtain st' ds where run: "policy_run example_policy [?x] = (st', ds)" by (cases "policy_run example_policy [?x]")
  have "map qd_Action (snd (policy_run example_policy [?x])) = [queueWait]" by code_simp
  then have "map qd_Action ds = [queueWait]" using run by simp
  then have nores: "\<forall>d \<in> set ds. qd_Action d \<noteq> queueResume" by auto
  have a: "queueActive example_policy" "\<not> IsZero (qs_WaitUntil example_policy)"
    "qs_WaitUntil example_policy \<le> f_Now (example_facts\<lparr>f_Now := 12000000005\<rparr>)" by code_simp+
  show ?thesis
    using transition_wait_bounded [OF a(1,2) run nores] a(3) run by (metis fst_conv)
qed

subsection \<open>What an event can be attributed to\<close>

text \<open>
  The queue policy absorbs only transport and media notifications of an owned queue. Pause, a
  volume, repeat, shuffle, queue or group change, and any event while no queue is owned are left to
  ownership revocation; Stop and unknown are absorbed only while automation or loading runs.
\<close>

theorem queue_policy_absorbs:
  assumes "qd_Action (decideQueueEvent state event now) \<noteq> queuePass"
  shows "qs_Owned state \<and>
         (d_Kind (Event_Data event) = EventNowPlaying \<or>
          (d_Kind (Event_Data event) = EventState \<and> d_State (Event_Data event) = PlayStatePlay \<and>
             qs_ExpectedState state = PlayStatePlay) \<or>
          (d_Kind (Event_Data event) = EventState \<and> qs_Automating state \<and>
             d_State (Event_Data event) \<in> {PlayStateStop, PlayStateUnknown}))"
  using assms by (auto simp: policy_simps split: if_splits)

theorem queue_policy_absorbs_witness:
  "let e = example_event ''event/player_state_changed'' [(''pid'', ''7''), (''state'', ''stop'')] zeroToken
   in qd_Action (decideQueueEvent (example_policy\<lparr>qs_WaitUntil := 0\<rparr>) e 5) = queueWait \<and>
      qs_Owned (example_policy\<lparr>qs_WaitUntil := 0\<rparr>)"
proof -
  let ?e = "example_event ''event/player_state_changed'' [(''pid'', ''7''), (''state'', ''stop'')] zeroToken"
  let ?s = "example_policy\<lparr>qs_WaitUntil := 0\<rparr>"
  have w: "qd_Action (decideQueueEvent ?s ?e 5) = queueWait" by code_simp
  then have "qd_Action (decideQueueEvent ?s ?e 5) \<noteq> queuePass" by simp
  from queue_policy_absorbs [OF this] w show ?thesis by (simp add: Let_def)
qed

subsection \<open>Initial confirmation\<close>

lemma queueResultProblem_Nil:
  assumes "queueResultProblem s members bounded = []"
  shows "\<exists>m. s_Media s = Some m \<and> md_Source m = ''1024'' \<and> md_QueueID m \<noteq> [] \<and> md_ID m \<in> members"
    and "md_ID ` set (q_Items (s_Queue s)) \<subseteq> members"
    and "bounded \<Longrightarrow> completeOwnedQueue (s_Queue s) members \<and> queuedMedia (s_Queue s) (s_Media s)"
  using assms by (auto simp: queueResultProblem_def list_ex_iff split: if_splits option.splits)

lemma decideQueueStart_confirm:
  assumes "sd_Action (decideQueueStart f) = queueStartConfirm"
  shows "sf_Phase f \<noteq> queueNotStarting" and "sf_Now f < sf_Deadline f"
    and "sf_Cancellation f = None" and "sf_Unsafe f = None"
    and "queueLoadingControls (sf_Before f) (sf_Observed f) = []"
    and "s_State (sf_Observed f) = PlayStatePlay"
    and "queueResultProblem (sf_Observed f) (sf_Members f) (sf_Bounded f) = []"
    and "\<not> sf_PendingEvents f"
  using assms by (auto simp: policy_simps split: if_splits)

lemma queueLoadingControls_Nil:
  "queueLoadingControls a b = [] \<Longrightarrow>
     t_Generation (s_Token a) = t_Generation (s_Token b) \<and> sameControls a b"
  by (auto simp: queueLoadingControls_def stateChanges_Nil sameControls_def split: if_splits)

text \<open>
  A new queue becomes owned only when the requested result is observed. A queue start is
  confirmed only before its fixed deadline, without cancellation or uncovered events, on a safe
  observation of the same connection with unchanged controls, playing a local track that belongs to
  the selection, in a queue that holds nothing but selected media; for bounded playback that queue
  is complete, its queue IDs are distinct and the playing media ID and queue ID are one of its
  entries.
\<close>

theorem start_confirms_requested_queue:
  assumes "sd_Action (decideQueueStart f) = queueStartConfirm"
  shows "sf_Now f < sf_Deadline f \<and> sf_Cancellation f = None \<and> sf_Unsafe f = None \<and> \<not> sf_PendingEvents f \<and>
         t_Generation (s_Token (sf_Before f)) = t_Generation (s_Token (sf_Observed f)) \<and>
         sameControls (sf_Before f) (sf_Observed f) \<and> s_State (sf_Observed f) = PlayStatePlay \<and>
         (\<exists>m. s_Media (sf_Observed f) = Some m \<and> md_Source m = ''1024'' \<and> md_ID m \<in> sf_Members f) \<and>
         md_ID ` set (q_Items (s_Queue (sf_Observed f))) \<subseteq> sf_Members f \<and>
         (sf_Bounded f \<longrightarrow>
            completeQueuePage (s_Queue (sf_Observed f)) \<and>
            distinct (map md_QueueID (q_Items (s_Queue (sf_Observed f)))) \<and>
            queuedMedia (s_Queue (sf_Observed f)) (s_Media (sf_Observed f)))"
proof -
  note c = decideQueueStart_confirm [OF assms]
  show ?thesis
    using c queueLoadingControls_Nil [OF c(5)] queueResultProblem_Nil [OF c(7)]
    by (auto simp: completeOwnedQueue_iff)
qed

definition example_start :: queueStartFacts where
  "example_start =
     \<lparr>sf_Now = 10, sf_Deadline = 20, sf_Phase = queueAwaitingPlay, sf_Bounded = True, sf_Members = {''a'', ''b''},
      sf_Before = example_snapshot PlayStateStop None zeroQueuePage,
      sf_Observed = example_snapshot PlayStatePlay (Some (example_media ''a'' ''1'')) example_queue,
      sf_Cancellation = None, sf_Unsafe = None, sf_PendingEvents = False\<rparr>"

theorem start_confirms_requested_queue_witness:
  "sd_Action (decideQueueStart example_start) = queueStartConfirm \<and>
   completeQueuePage (s_Queue (sf_Observed example_start))"
proof -
  have c: "sd_Action (decideQueueStart example_start) = queueStartConfirm" by code_simp
  then show ?thesis
    using start_confirms_requested_queue [OF c] by (simp add: example_start_def)
qed

text \<open>
  The loading allowance ends with the first Play: once Play has been seen for a new queue, an
  observed Stop or Pause aborts the confirmation as an intervention, with a changed play state,
  unless an earlier rule (timeout, cancellation, unsafe or changed controls) already aborts it.
\<close>

theorem start_aborts_on_stop_after_play:
  assumes "sf_Phase f = queuePlayObserved"
    and "s_State (sf_Observed f) = PlayStateStop \<or> s_State (sf_Observed f) = PlayStatePause"
  shows "sd_Action (decideQueueStart f) = queueStartAbort"
  using assms by (auto simp: policy_simps)

theorem start_aborts_on_stop_after_play_witness:
  "sd_Action (decideQueueStart (example_start\<lparr>sf_Phase := queuePlayObserved,
     sf_Observed := example_snapshot PlayStateStop None example_queue\<rparr>)) = queueStartAbort"
  by (rule start_aborts_on_stop_after_play) (simp_all add: example_snapshot_def)

end
