(* ===== verification/Commands.thy ===== *)
theory Commands
  imports Policy
begin

section \<open>Coordinator commands\<close>

text \<open>
  The policy input of \<open>internal/control\<close>: \<open>Command\<close> (\<open>coordinator.go\<close>), \<open>Automation\<close>
  (\<open>automation.go\<close>), \<open>BufferedPlayback\<close> (\<open>buffered_plan.go\<close>) and \<open>playbackPart\<close>
  (\<open>playback_plan.go\<close>), their validators, the owner fence of \<open>expected_owner.go\<close>, and the device
  safety checks of \<open>coordinator.go\<close> on the configured player of \<open>internal/config\<close>. A nil slice
  is \<open>None\<close> where the sources distinguish it from an empty one.
\<close>

datatype CommandKind =
    CommandKindAbsent | CommandKindVolume | CommandKindMute | CommandKindTransport
  | CommandKindSkip | CommandKindPlayback | CommandKindStop | CommandKindCancel

fun CommandKind_string :: "CommandKind \<Rightarrow> string" where
  "CommandKind_string CommandKindAbsent = []"
| "CommandKind_string CommandKindVolume = ''volume''"
| "CommandKind_string CommandKindMute = ''mute''"
| "CommandKind_string CommandKindTransport = ''transport''"
| "CommandKind_string CommandKindSkip = ''skip''"
| "CommandKind_string CommandKindPlayback = ''playback''"
| "CommandKind_string CommandKindStop = ''stop''"
| "CommandKind_string CommandKindCancel = ''cancel''"

record Automation =
  a_TargetLevel :: int
  a_RampSeconds :: int
  a_DurationSeconds :: int
  a_FadeSeconds :: int

record BufferedPlayback =
  b_PartTracks :: "int list"
  b_RefillThreshold :: int
  b_MaxQueueTracks :: int
  b_RetainPrevious :: int
  b_MaxSessionSeconds :: int

record Command =
  c_Kind :: CommandKind
  c_Level :: int
  c_Muted :: bool
  c_State :: PlayState
  c_Direction :: string
  c_Takeover :: bool
  c_ExpectedOwner :: string
  c_ItemRef :: string
  c_ItemRefs :: "string list option"
  c_Shuffle :: bool
  c_Repeat :: Repeat
  c_Mode :: string
  c_FadeSeconds :: int
  c_Target :: string
  c_Automation :: "Automation option"
  c_Buffered :: "BufferedPlayback option"

definition zeroCommand :: Command where
  "zeroCommand = \<lparr>c_Kind = CommandKindAbsent, c_Level = 0, c_Muted = False, c_State = PlayStateAbsent,
     c_Direction = [], c_Takeover = False, c_ExpectedOwner = [], c_ItemRef = [], c_ItemRefs = None,
     c_Shuffle = False, c_Repeat = RepeatAbsent, c_Mode = [], c_FadeSeconds = 0, c_Target = [],
     c_Automation = None, c_Buffered = None\<rparr>"

definition MaxBrowsePages :: nat where "MaxBrowsePages = 100"
definition MaxBrowseItems :: int where "MaxBrowseItems = 10000"
definition maxPlaybackParts :: nat where "maxPlaybackParts = 32"
definition maxBufferedParts :: nat where "maxBufferedParts = 256"

lemmas command_limits =
  MaxBrowsePages_def MaxBrowseItems_def maxPlaybackParts_def maxBufferedParts_def

lemma MaxBrowseItems_nonneg [simp]: "0 \<le> MaxBrowseItems"
  by (simp add: MaxBrowseItems_def)

subsection \<open>Validators\<close>

definition Automation_validate :: "Automation \<Rightarrow> Command \<Rightarrow> int option \<Rightarrow> unit result" where
  "Automation_validate a cmd ceiling =
     (if c_Kind cmd \<noteq> CommandKindPlayback \<or> c_Repeat cmd \<noteq> RepeatOff \<or>
         (case ceiling of None \<Rightarrow> True | Some c \<Rightarrow> a_TargetLevel a < c_Level cmd \<or> a_TargetLevel a > c) \<or>
         a_TargetLevel a > 100 \<or> a_DurationSeconds a < 1 \<or> a_DurationSeconds a > 7200 \<or>
         a_FadeSeconds a < 0 \<or> a_FadeSeconds a > 60 \<or> a_FadeSeconds a \<ge> a_DurationSeconds a \<or>
         a_RampSeconds a < 0 \<or> a_RampSeconds a > a_DurationSeconds a - a_FadeSeconds a
      then Inl ErrBounds else Inr ())"

text \<open>The loop over \<open>PartTracks\<close> with its running total.\<close>

fun part_tracks_ok :: "int \<Rightarrow> int \<Rightarrow> int list \<Rightarrow> bool" where
  "part_tracks_ok limit tot [] = True"
| "part_tracks_ok limit tot (n # ns) =
     (1 \<le> n \<and> n \<le> limit \<and> tot + n \<le> MaxBrowseItems \<and> part_tracks_ok limit (tot + n) ns)"

definition BufferedPlayback_validate :: "BufferedPlayback \<Rightarrow> Command \<Rightarrow> unit result" where
  "BufferedPlayback_validate b cmd =
     (if c_Kind cmd \<noteq> CommandKindPlayback \<or> c_ItemRefs cmd = None \<or> c_Repeat cmd \<noteq> RepeatOff \<or> c_Shuffle cmd \<or>
         length (b_PartTracks b) \<noteq> length (the (c_ItemRefs cmd)) \<or>
         b_RefillThreshold b < 1 \<or> b_RefillThreshold b > 100 \<or>
         b_MaxQueueTracks b < 2 \<or> b_MaxQueueTracks b > 1000 \<or>
         b_RetainPrevious b < 0 \<or> b_RetainPrevious b > 100 \<or>
         b_MaxSessionSeconds b < 1 \<or> b_MaxSessionSeconds b > 86400
      then Inl ErrBounds
      else if (case c_Automation cmd of None \<Rightarrow> False | Some a \<Rightarrow> a_DurationSeconds a > b_MaxSessionSeconds b)
      then Inl ErrBounds
      else if part_tracks_ok (b_MaxQueueTracks b - b_RefillThreshold b - b_RetainPrevious b - 1) 0 (b_PartTracks b)
      then Inr () else Inl ErrBounds)"

definition validatePlaybackSelection :: "Command \<Rightarrow> unit result" where
  "validatePlaybackSelection cmd =
     (if \<not> Repeat_Known (c_Repeat cmd) \<or> (c_ItemRef cmd \<noteq> []) = (c_ItemRefs cmd \<noteq> None) \<or>
         length (c_ItemRef cmd) > 256
      then Inl ErrBounds
      else case c_ItemRefs cmd of
             None \<Rightarrow> if c_Buffered cmd \<noteq> None then Inl ErrBounds else Inr ()
           | Some refs \<Rightarrow>
               case (case c_Buffered cmd of None \<Rightarrow> Inr () | Some b \<Rightarrow> BufferedPlayback_validate b cmd) of
                 Inl e \<Rightarrow> Inl e
               | Inr _ \<Rightarrow>
                   let limit = (if c_Buffered cmd \<noteq> None then maxBufferedParts else maxPlaybackParts)
                   in if refs = [] \<or> length refs > limit \<or> c_Shuffle cmd then Inl ErrBounds
                      else if list_ex (\<lambda>ref. ref = [] \<or> length ref > 256) refs then Inl ErrBounds
                      else Inr ())"

definition validateExpectedOwner :: "Command \<Rightarrow> unit result" where
  "validateExpectedOwner cmd =
     (if c_ExpectedOwner cmd = [] then Inr ()
      else if \<not> c_Takeover cmd \<or> length (c_ExpectedOwner cmd) > 128 then Inl ErrBounds
      else if c_Kind cmd \<in> {CommandKindPlayback, CommandKindVolume, CommandKindMute, CommandKindTransport}
      then Inr () else Inl ErrBounds)"

subsection \<open>Playback parts\<close>

record playbackPart =
  pt_Item :: Item
  pt_IDs :: "ID list option"
  pt_Count :: int
  pt_CatalogToken :: Token

definition part_ids :: "playbackPart \<Rightarrow> ID list" where
  "part_ids p = (case pt_IDs p of None \<Rightarrow> [] | Some ids \<Rightarrow> ids)"

definition trackCount :: "playbackPart \<Rightarrow> int" where
  "trackCount p = (if pt_Count p > 0 then pt_Count p else int (length (part_ids p)))"

definition planPartTracks :: "playbackPart list \<Rightarrow> int list" where
  "planPartTracks parts = map trackCount parts"

subsection \<open>Device safety\<close>

record config_Player =
  cp_WritesEnabled :: bool
  cp_Key :: string
  cp_Address :: string
  cp_FingerprintSHA256 :: string
  cp_Serial :: string
  cp_Model :: string
  cp_VolumeCeiling :: "int option"

definition deviceObservationSafety :: "config_Player \<Rightarrow> Snapshot \<Rightarrow> error option" where
  "deviceObservationSafety p s =
     (if \<not> cp_WritesEnabled p then Some ErrReadOnly
      else if \<not> s_Verified s \<or> s_Stale s \<or> \<not> s_Connected s \<or> p_ID (s_Player s) = [] \<or>
              p_Serial (s_Player s) \<noteq> cp_Serial p \<or> s_Volume s = None \<or> s_Muted s = None
      then Some ErrUnavailable
      else if s_Grouped s then Some ErrGrouped
      else if cp_VolumeCeiling p = None then Some ErrReadOnly
      else None)"

definition deviceSafety :: "config_Player \<Rightarrow> Snapshot \<Rightarrow> error option" where
  "deviceSafety p s =
     (case deviceObservationSafety p s of
        Some e \<Rightarrow> Some e
      | None \<Rightarrow> if \<not> PlayState_Writable (s_State s) then Some ErrUnavailable else None)"

definition mutationSafety :: "config_Player \<Rightarrow> Snapshot \<Rightarrow> bool \<Rightarrow> error option" where
  "mutationSafety p s skip =
     (if \<not> skip \<or> s_State s \<noteq> PlayStateUnknown then deviceSafety p s
      else case deviceObservationSafety p s of Some e \<Rightarrow> Some e | None \<Rightarrow> Some ErrNotSkippable)"

text \<open>What a snapshot that passed a safety check is.\<close>

definition writable_target :: "config_Player \<Rightarrow> Snapshot \<Rightarrow> bool" where
  "writable_target p s \<longleftrightarrow>
     cp_WritesEnabled p \<and> cp_VolumeCeiling p \<noteq> None \<and> s_Verified s \<and> \<not> s_Stale s \<and> s_Connected s \<and>
     p_ID (s_Player s) \<noteq> [] \<and> p_Serial (s_Player s) = cp_Serial p \<and> s_Volume s \<noteq> None \<and> s_Muted s \<noteq> None \<and>
     \<not> s_Grouped s"

lemma deviceObservationSafety_None [policy_simps]:
  "deviceObservationSafety p s = None \<longleftrightarrow> writable_target p s"
  by (auto simp: deviceObservationSafety_def writable_target_def)

lemma deviceSafety_None [policy_simps]:
  "deviceSafety p s = None \<longleftrightarrow> writable_target p s \<and> PlayState_Writable (s_State s)"
  using deviceObservationSafety_None [of p s] by (auto simp: deviceSafety_def split: option.splits)

lemma mutationSafety_None [policy_simps]:
  "mutationSafety p s skip = None \<longleftrightarrow> writable_target p s \<and> PlayState_Writable (s_State s)"
  by (auto simp: mutationSafety_def deviceSafety_None split: option.splits)

lemma mutationSafety_skip_error:
  "mutationSafety p s skip = Some ErrNotSkippable \<Longrightarrow> skip \<and> s_State s = PlayStateUnknown \<and> writable_target p s"
  by (auto simp: mutationSafety_def deviceSafety_def deviceObservationSafety_def writable_target_def
      split: option.splits if_splits)

subsection \<open>Validated policies\<close>

definition automation_ok :: "Automation \<Rightarrow> int \<Rightarrow> int \<Rightarrow> bool" where
  "automation_ok a level ceiling \<longleftrightarrow>
     level \<le> a_TargetLevel a \<and> a_TargetLevel a \<le> ceiling \<and> a_TargetLevel a \<le> 100 \<and>
     1 \<le> a_DurationSeconds a \<and> a_DurationSeconds a \<le> 7200 \<and> 0 \<le> a_FadeSeconds a \<and> a_FadeSeconds a \<le> 60 \<and>
     a_FadeSeconds a < a_DurationSeconds a \<and> 0 \<le> a_RampSeconds a \<and>
     a_RampSeconds a + a_FadeSeconds a \<le> a_DurationSeconds a"

lemma Automation_validate_Inr:
  "Automation_validate a cmd ceiling = Inr () \<longleftrightarrow>
     c_Kind cmd = CommandKindPlayback \<and> c_Repeat cmd = RepeatOff \<and>
     (\<exists>c. ceiling = Some c \<and> automation_ok a (c_Level cmd) c)"
  by (auto simp: Automation_validate_def automation_ok_def split: option.splits)

lemma part_tracks_ok_iff:
  "part_tracks_ok limit tot ns \<Longrightarrow> (\<forall>n \<in> set ns. 1 \<le> n \<and> n \<le> limit)"
  by (induction limit tot ns rule: part_tracks_ok.induct) auto

lemma part_tracks_ok_total:
  "part_tracks_ok limit tot ns \<Longrightarrow> tot \<le> MaxBrowseItems \<Longrightarrow> tot + sum_list ns \<le> MaxBrowseItems"
  by (induction limit tot ns rule: part_tracks_ok.induct) auto

definition buffered_ok :: "BufferedPlayback \<Rightarrow> bool" where
  "buffered_ok b \<longleftrightarrow>
     1 \<le> b_RefillThreshold b \<and> b_RefillThreshold b \<le> 100 \<and> 2 \<le> b_MaxQueueTracks b \<and> b_MaxQueueTracks b \<le> 1000 \<and>
     0 \<le> b_RetainPrevious b \<and> b_RetainPrevious b \<le> 100 \<and>
     1 \<le> b_MaxSessionSeconds b \<and> b_MaxSessionSeconds b \<le> 86400 \<and>
     (\<forall>n \<in> set (b_PartTracks b). 1 \<le> n \<and> n \<le> b_MaxQueueTracks b - b_RefillThreshold b - b_RetainPrevious b - 1) \<and>
     sum_list (b_PartTracks b) \<le> MaxBrowseItems"

lemma BufferedPlayback_validate_Inr:
  assumes "BufferedPlayback_validate b cmd = Inr ()"
  shows "buffered_ok b" and "\<exists>refs. c_ItemRefs cmd = Some refs \<and> length (b_PartTracks b) = length refs"
    and "c_Repeat cmd = RepeatOff" and "\<not> c_Shuffle cmd"
  using assms part_tracks_ok_iff [of "b_MaxQueueTracks b - b_RefillThreshold b - b_RetainPrevious b - 1" 0 "b_PartTracks b"]
    part_tracks_ok_total [of "b_MaxQueueTracks b - b_RefillThreshold b - b_RetainPrevious b - 1" 0 "b_PartTracks b"]
  by (auto simp: BufferedPlayback_validate_def buffered_ok_def split: if_splits option.splits)

subsection \<open>The capacity of a buffered queue\<close>

text \<open>
  The arithmetic of \<open>bufferedStep\<close> once the current position is known: nothing to do, append the
  next part, remove a prefix first, or the capacity error.
\<close>

datatype bufferedAction = bufferedIdle | bufferedAppend | bufferedPrune int | bufferedStuck

definition bufferedRefill :: "BufferedPlayback \<Rightarrow> int \<Rightarrow> int \<Rightarrow> bool" where
  "bufferedRefill policy resident position \<longleftrightarrow> \<not> resident - position - 1 > b_RefillThreshold policy"

definition bufferedRoom :: "BufferedPlayback \<Rightarrow> int \<Rightarrow> int \<Rightarrow> int \<Rightarrow> bufferedAction" where
  "bufferedRoom policy resident position count =
     (if resident + count > b_MaxQueueTracks policy
      then let remove = position - b_RetainPrevious policy
           in if remove \<le> 0 \<or> resident - remove + count > b_MaxQueueTracks policy then bufferedStuck
              else bufferedPrune remove
      else bufferedAppend)"

definition bufferedAct :: "BufferedPlayback \<Rightarrow> int \<Rightarrow> int \<Rightarrow> int \<Rightarrow> bufferedAction" where
  "bufferedAct policy resident position count =
     (if bufferedRefill policy resident position then bufferedRoom policy resident position count
      else bufferedIdle)"

text \<open>The resident track count after a step, with the new position of the current entry.\<close>

fun bufferedApply :: "bufferedAction \<Rightarrow> int \<Rightarrow> int \<Rightarrow> int \<Rightarrow> int \<times> int" where
  "bufferedApply bufferedAppend resident position count = (resident + count, position)"
| "bufferedApply (bufferedPrune n) resident position count = (resident - n, position - n)"
| "bufferedApply _ resident position count = (resident, position)"

lemma bufferedAct_not_stuck:
  assumes "buffered_ok b" and "count \<in> set (b_PartTracks b)"
  shows "bufferedAct b resident position count \<noteq> bufferedStuck"
proof -
  have "count \<le> b_MaxQueueTracks b - b_RefillThreshold b - b_RetainPrevious b - 1"
    using assms by (auto simp: buffered_ok_def)
  then show ?thesis
    by (auto simp: bufferedAct_def bufferedRefill_def bufferedRoom_def Let_def)
qed

text \<open>
  A validated buffered playback can always make room for its next part: while the native queue
  holds at most the configured maximum and the current entry is one of its entries, a maintenance
  step never reports the capacity error, leaves the queue within the maximum, removes only entries
  more than the retained number behind the current one, and when it has to remove a prefix, the
  next step at the same entry appends the part.
\<close>

theorem buffered_capacity:
  assumes "BufferedPlayback_validate b cmd = Inr ()" and "count \<in> set (b_PartTracks b)"
    and "0 \<le> position" and "position < resident" and "resident \<le> b_MaxQueueTracks b"
    and "bufferedApply (bufferedAct b resident position count) resident position count = (resident', position')"
  shows "bufferedAct b resident position count \<noteq> bufferedStuck \<and>
         resident' \<le> b_MaxQueueTracks b \<and> 0 \<le> position' \<and> position' < resident' \<and>
         (\<forall>n. bufferedAct b resident position count = bufferedPrune n \<longrightarrow>
            0 < n \<and> b_RetainPrevious b \<le> position' \<and> bufferedAct b resident' position' count = bufferedAppend)"
proof -
  have b: "buffered_ok b" using assms(1) by (rule BufferedPlayback_validate_Inr)
  then have "0 \<le> b_RetainPrevious b" "count \<le> b_MaxQueueTracks b - b_RefillThreshold b - b_RetainPrevious b - 1"
    "1 \<le> count" using assms(2) by (auto simp: buffered_ok_def)
  then show ?thesis using assms(3-6) bufferedAct_not_stuck [OF b assms(2), of resident position]
    by (auto simp: bufferedAct_def bufferedRefill_def bufferedRoom_def Let_def split: if_splits)
qed

definition example_buffered :: BufferedPlayback where
  "example_buffered = \<lparr>b_PartTracks = [3, 4], b_RefillThreshold = 1, b_MaxQueueTracks = 8,
     b_RetainPrevious = 2, b_MaxSessionSeconds = 3600\<rparr>"

definition example_playback :: Command where
  "example_playback = zeroCommand\<lparr>c_Kind := CommandKindPlayback, c_Level := 10, c_Repeat := RepeatOff,
     c_ItemRefs := Some [''r1'', ''r2''], c_Buffered := Some example_buffered\<rparr>"

theorem buffered_capacity_witness:
  "validatePlaybackSelection example_playback = Inr () \<and>
   bufferedAct example_buffered 7 6 4 = bufferedPrune 4 \<and> bufferedAct example_buffered 3 2 4 = bufferedAppend"
proof -
  have v: "BufferedPlayback_validate example_buffered example_playback = Inr ()"
    and m: "(4::int) \<in> set (b_PartTracks example_buffered)" "(7::int) \<le> b_MaxQueueTracks example_buffered"
    and a: "bufferedApply (bufferedAct example_buffered 7 6 4) 7 6 4 = (3, 2)"
    and p: "validatePlaybackSelection example_playback = Inr ()" "bufferedAct example_buffered 7 6 4 = bufferedPrune 4"
    by code_simp+
  have "bufferedAct example_buffered 3 2 4 = bufferedAppend"
    using buffered_capacity [OF v m(1) _ _ m(2) a] p(2) by simp
  with p show ?thesis by simp
qed

end
