(* ===== verification/Envelope.thy ===== *)
theory Envelope
  imports Commands
begin

section \<open>Volume envelopes\<close>

text \<open>
  The level arithmetic of \<open>automate\<close> (\<open>internal/control/automation.go\<close>) and of the stop and
  cancel fade of \<open>execute\<close> (\<open>internal/control/execution.go\<close>). Durations are nanosecond counts;
  \<open>go_div\<close> is Go's truncating division. \<open>envelope\<close> is one tick of the loop: the level and the
  phase computed from the elapsed time, the last confirmed level and the level the fade began at.
  The products are bounded, so Go's 64-bit arithmetic is exact.
\<close>

definition duration_of :: "Automation \<Rightarrow> duration" where
  "duration_of a = a_DurationSeconds a * Second"

definition ramp_of :: "Automation \<Rightarrow> duration" where
  "ramp_of a = a_RampSeconds a * Second"

definition fade_of :: "Automation \<Rightarrow> duration" where
  "fade_of a = a_FadeSeconds a * Second"

lemmas envelope_durations = duration_of_def ramp_of_def fade_of_def

definition envelope :: "Automation \<Rightarrow> int \<Rightarrow> int \<Rightarrow> int \<Rightarrow> duration \<Rightarrow> int \<times> string \<times> int" where
  "envelope a initial lst fadeFrom elapsed =
     (let dur = duration_of a; ramp = ramp_of a; fade = fade_of a in
      if elapsed \<ge> dur then (if fade > 0 then 0 else lst, ''stopping'', fadeFrom)
      else if fade > 0 \<and> elapsed \<ge> dur - fade then
        (let fr = (if fadeFrom < 0 then lst else fadeFrom)
         in (fr - go_div ((elapsed - (dur - fade)) * fr) fade, ''fading'', fr))
      else if ramp > 0 \<and> elapsed < ramp then
        (initial + go_div (elapsed * (a_TargetLevel a - initial)) ramp, ''ramping'', fadeFrom)
      else (a_TargetLevel a, ''playing'', fadeFrom))"

text \<open>One level of the stop or cancel fade.\<close>

definition fadeLevel :: "int \<Rightarrow> int \<Rightarrow> duration \<Rightarrow> int" where
  "fadeLevel start fadeSeconds elapsed = max 0 (start - go_div (elapsed * start) (fadeSeconds * Second))"

text \<open>The persisted elapsed seconds of the progress record.\<close>

definition elapsedSeconds :: "Automation \<Rightarrow> duration \<Rightarrow> int" where
  "elapsedSeconds a elapsed = go_div (min elapsed (duration_of a)) Second"

subsection \<open>Interpolation\<close>

lemma interpolate_bounds:
  assumes "0 \<le> (x::int)" and "x \<le> n" and "0 < n" and "0 \<le> d"
  shows "0 \<le> x * d div n \<and> x * d div n \<le> d"
proof -
  have "x * d \<le> n * d" using assms by (simp add: mult_right_mono)
  then have "x * d div n \<le> n * d div n" using assms(3) by (rule zdiv_mono1)
  moreover have "n * d div n = d" using assms by simp
  ultimately show ?thesis using assms by (simp add: pos_imp_zdiv_nonneg_iff)
qed

lemma interpolate_mono:
  assumes "(x::int) \<le> y" and "0 < n" and "0 \<le> d"
  shows "x * d div n \<le> y * d div n"
  using assms by (simp add: zdiv_mono1 mult_right_mono)

lemma Second_pos [simp]: "0 < Second"
  by (simp add: Second_def)

lemma automation_durations:
  assumes "automation_ok a level ceiling"
  shows "0 < duration_of a" "0 \<le> ramp_of a" "0 \<le> fade_of a" "ramp_of a \<le> duration_of a - fade_of a"
    "duration_of a \<le> 7200 * Second" "fade_of a \<le> 60 * Second"
proof -
  have "a_RampSeconds a * Second \<le> (a_DurationSeconds a - a_FadeSeconds a) * Second"
    using assms by (intro mult_right_mono) (auto simp: automation_ok_def Second_def)
  then show "ramp_of a \<le> duration_of a - fade_of a" by (simp add: envelope_durations left_diff_distrib)
qed (use assms in \<open>auto simp: automation_ok_def envelope_durations Second_def\<close>)

text \<open>The level before the fade, and the level of a fade that began at \<open>from\<close>.\<close>

definition rampLevel :: "Automation \<Rightarrow> int \<Rightarrow> duration \<Rightarrow> int" where
  "rampLevel a initial t =
     (if t < ramp_of a then initial + t * (a_TargetLevel a - initial) div ramp_of a else a_TargetLevel a)"

definition fadingLevel :: "Automation \<Rightarrow> int \<Rightarrow> duration \<Rightarrow> int" where
  "fadingLevel a fr t = fr - (t - (duration_of a - fade_of a)) * fr div fade_of a"

lemma rampLevel_bounds:
  assumes "0 \<le> t" and "initial \<le> a_TargetLevel a"
  shows "initial \<le> rampLevel a initial t \<and> rampLevel a initial t \<le> a_TargetLevel a"
  using assms interpolate_bounds [of t "ramp_of a" "a_TargetLevel a - initial"]
  by (auto simp: rampLevel_def)

lemma rampLevel_mono:
  assumes "0 \<le> t" and "t \<le> u" and "initial \<le> a_TargetLevel a"
  shows "rampLevel a initial t \<le> rampLevel a initial u"
  using assms rampLevel_bounds [of t initial a] interpolate_mono [of t u "ramp_of a" "a_TargetLevel a - initial"]
  by (auto simp: rampLevel_def)

lemma fadingLevel_bounds:
  assumes "duration_of a - fade_of a \<le> t" and "t \<le> duration_of a" and "0 < fade_of a" and "0 \<le> fr"
  shows "0 \<le> fadingLevel a fr t \<and> fadingLevel a fr t \<le> fr"
  using assms interpolate_bounds [of "t - (duration_of a - fade_of a)" "fade_of a" fr]
  by (simp add: fadingLevel_def)

lemma fadingLevel_antimono:
  assumes "t \<le> u" and "0 < fade_of a" and "0 \<le> fr"
  shows "fadingLevel a fr u \<le> fadingLevel a fr t"
  using assms interpolate_mono [of "t - (duration_of a - fade_of a)" "u - (duration_of a - fade_of a)" "fade_of a" fr]
  by (simp add: fadingLevel_def)

text \<open>The products of the two interpolations fit a signed 64-bit duration.\<close>

lemma envelope_products_fit:
  assumes ok: "automation_ok a initial ceiling" and i: "0 \<le> initial"
  shows "0 \<le> t \<Longrightarrow> t < ramp_of a \<Longrightarrow> t * (a_TargetLevel a - initial) \<le> maxDuration"
    and "0 \<le> t \<Longrightarrow> t < fade_of a \<Longrightarrow> 0 \<le> fr \<Longrightarrow> fr \<le> a_TargetLevel a \<Longrightarrow> t * fr \<le> maxDuration"
proof -
  have d: "ramp_of a \<le> 7200 * Second" "fade_of a \<le> 60 * Second" "a_TargetLevel a \<le> 100" "initial \<le> a_TargetLevel a"
    using automation_durations [OF ok] ok by (auto simp: automation_ok_def)
  have fit: "x * y \<le> maxDuration" if "0 \<le> x" "x \<le> 7200 * Second" "0 \<le> y" "y \<le> 100" for x y :: int
    using mult_mono [of x "7200 * Second" y 100] that by (simp add: Second_def maxDuration_def)
  show "0 \<le> t \<Longrightarrow> t < ramp_of a \<Longrightarrow> t * (a_TargetLevel a - initial) \<le> maxDuration"
    by (rule fit) (use d i in linarith)+
  show "0 \<le> t \<Longrightarrow> t < fade_of a \<Longrightarrow> 0 \<le> fr \<Longrightarrow> fr \<le> a_TargetLevel a \<Longrightarrow> t * fr \<le> maxDuration"
    by (rule fit) (use d in \<open>auto simp: Second_def\<close>)
qed

subsection \<open>One tick\<close>

text \<open>
  The invariant of the loop's local state at time \<open>t\<close>: the last confirmed level is within
  \<open>0..target\<close>; before the fade it has not passed the ramp; during the fade it has not fallen
  below the current level of the fade.
\<close>

definition level_inv :: "Automation \<Rightarrow> int \<Rightarrow> duration \<Rightarrow> int \<Rightarrow> int \<Rightarrow> bool" where
  "level_inv a initial t lst fadeFrom \<longleftrightarrow>
     0 \<le> t \<and> 0 \<le> lst \<and> lst \<le> a_TargetLevel a \<and> fadeFrom \<le> a_TargetLevel a \<and>
     (t < duration_of a - fade_of a \<longrightarrow> fadeFrom < 0 \<and> lst \<le> rampLevel a initial t) \<and>
     (0 \<le> fadeFrom \<longrightarrow> 0 < fade_of a \<and> lst \<le> fadeFrom \<and> (t < duration_of a \<longrightarrow> fadingLevel a fadeFrom t \<le> lst))"

lemma envelope_stopping:
  "elapsed \<ge> duration_of a \<Longrightarrow>
     envelope a initial lst fadeFrom elapsed = (if fade_of a > 0 then 0 else lst, ''stopping'', fadeFrom)"
  by (simp add: envelope_def Let_def)

lemma envelope_fading:
  assumes "elapsed < duration_of a" and "fade_of a > 0" and "elapsed \<ge> duration_of a - fade_of a"
    and "fr = (if fadeFrom < 0 then lst else fadeFrom)" and "0 \<le> fr"
  shows "envelope a initial lst fadeFrom elapsed = (fadingLevel a fr elapsed, ''fading'', fr)"
  using assms by (auto simp: envelope_def Let_def fadingLevel_def)

lemma envelope_before_fade:
  assumes "automation_ok a initial ceiling" and "elapsed < duration_of a - fade_of a" and "0 \<le> elapsed"
  shows "envelope a initial lst fadeFrom elapsed =
           (rampLevel a initial elapsed, if elapsed < ramp_of a then ''ramping'' else ''playing'', fadeFrom)"
  using assms automation_durations [OF assms(1)]
  by (auto simp: envelope_def Let_def rampLevel_def automation_ok_def)

definition rising :: "string \<Rightarrow> bool" where
  "rising phase \<longleftrightarrow> phase = ''ramping'' \<or> phase = ''playing''"

text \<open>The phase is a function of the elapsed time alone; \<open>phase_rank\<close> is its position in the playback.\<close>

definition phase_at :: "Automation \<Rightarrow> duration \<Rightarrow> string" where
  "phase_at a t =
     (if t \<ge> duration_of a then ''stopping''
      else if fade_of a > 0 \<and> t \<ge> duration_of a - fade_of a then ''fading''
      else if ramp_of a > 0 \<and> t < ramp_of a then ''ramping'' else ''playing'')"

definition phase_rank :: "string \<Rightarrow> nat" where
  "phase_rank phase =
     (if phase = ''ramping'' then 0 else if phase = ''playing'' then 1 else if phase = ''fading'' then 2 else 3)"

lemma envelope_phase: "envelope a initial lst fadeFrom t = (level, phase, fadeFrom') \<Longrightarrow> phase = phase_at a t"
  by (auto simp: envelope_def phase_at_def Let_def split: if_splits)

lemma phase_rank_mono:
  assumes "automation_ok a level ceiling" and "t \<le> u"
  shows "phase_rank (phase_at a t) \<le> phase_rank (phase_at a u)"
  using assms(2) automation_durations [OF assms(1)] by (auto simp: phase_at_def phase_rank_def)

lemma envelope_tick:
  assumes ok: "automation_ok a initial ceiling" and i: "0 \<le> initial"
    and inv: "level_inv a initial t lst fadeFrom" and tu: "t \<le> u"
    and r: "envelope a initial lst fadeFrom u = (level, phase, fadeFrom')"
  shows "0 \<le> level \<and> level \<le> a_TargetLevel a" (is ?bounds)
    and "if rising phase then lst \<le> level else level \<le> lst" (is ?mono)
    and "level_inv a initial u level fadeFrom'" (is ?written)
    and "level_inv a initial u lst fadeFrom'" (is ?skipped)
proof -
  note d = automation_durations [OF ok]
  have it: "initial \<le> a_TargetLevel a" using ok by (simp add: automation_ok_def)
  have u0: "0 \<le> u" "0 \<le> t" using inv tu by (auto simp: level_inv_def)
  consider (stop) "u \<ge> duration_of a" | (fade) "u < duration_of a" "u \<ge> duration_of a - fade_of a"
    | (pre) "u < duration_of a - fade_of a" by linarith
  then have "?bounds \<and> ?mono \<and> ?written \<and> ?skipped"
  proof cases
    case stop
    then have e: "level = (if fade_of a > 0 then 0 else lst)" "phase = ''stopping''" "fadeFrom' = fadeFrom"
      using r by (simp_all add: envelope_stopping)
    have "\<not> u < duration_of a - fade_of a" "\<not> u < duration_of a" using stop d(3) by linarith+
    then show ?thesis using e inv u0 by (simp add: level_inv_def rising_def)
  next
    case fade
    then have f0: "0 < fade_of a" by linarith
    define f where "f = (if fadeFrom < 0 then lst else fadeFrom)"
    have f: "0 \<le> f" "lst \<le> f" "f \<le> a_TargetLevel a" using inv by (auto simp: f_def level_inv_def)
    have e: "level = fadingLevel a f u" "phase = ''fading''" "fadeFrom' = f"
      using r envelope_fading [OF fade(1) f0 fade(2) f_def f(1)] by auto
    have b: "0 \<le> level" "level \<le> f" using fadingLevel_bounds [OF fade(2) _ f0 f(1)] fade e by auto
    have le: "level \<le> lst"
    proof (cases "fadeFrom < 0")
      case True
      then show ?thesis using b f_def by simp
    next
      case False
      then have "fadingLevel a f t \<le> lst" using inv fade tu by (auto simp: f_def level_inv_def)
      then show ?thesis using fadingLevel_antimono [OF tu f0 f(1)] e by simp
    qed
    show ?thesis using b le f f0 e inv fade u0
      by (auto simp: level_inv_def rising_def)
  next
    case pre
    then have e: "level = rampLevel a initial u" "fadeFrom' = fadeFrom"
      "phase = (if u < ramp_of a then ''ramping'' else ''playing'')"
      using r envelope_before_fade [OF ok pre u0(1), of lst fadeFrom] by auto
    have l: "lst \<le> rampLevel a initial t" "fadeFrom < 0" "0 \<le> lst" "lst \<le> a_TargetLevel a"
      using inv pre tu by (auto simp: level_inv_def)
    have m: "lst \<le> level" using l(1) rampLevel_mono [OF u0(2) tu it] e(1) by simp
    have b: "0 \<le> level" "level \<le> a_TargetLevel a" using rampLevel_bounds [OF u0(1) it] i e(1) by simp_all
    have "rising phase" using e(3) by (simp add: rising_def)
    moreover have "fadeFrom' < 0" "fadeFrom' \<le> a_TargetLevel a" using l e(2) by linarith+
    ultimately show ?thesis using m b l u0 e(1) by (simp add: level_inv_def)
  qed
  then show ?bounds ?mono ?written ?skipped by auto
qed

subsection \<open>A whole playback\<close>

text \<open>
  A run of the loop: the ticks with their elapsed times, each saying whether its volume write was
  confirmed or skipped because the timeline advanced (\<open>errPlaybackTimelineChanged\<close>). The result
  lists every phase with the last confirmed level and the level the tick asks for.
\<close>

fun envelope_run ::
  "Automation \<Rightarrow> int \<Rightarrow> int \<Rightarrow> int \<Rightarrow> (duration \<times> bool) list \<Rightarrow> (string \<times> int \<times> int) list" where
  "envelope_run a initial lst fadeFrom [] = []"
| "envelope_run a initial lst fadeFrom ((t, confirmed) # ts) =
     (case envelope a initial lst fadeFrom t of (level, phase, fadeFrom') \<Rightarrow>
        (phase, lst, level) # envelope_run a initial (if confirmed then level else lst) fadeFrom' ts)"

definition safe_tick :: "Automation \<Rightarrow> string \<times> int \<times> int \<Rightarrow> bool" where
  "safe_tick a x \<longleftrightarrow> (case x of (phase, lst, level) \<Rightarrow>
     0 \<le> level \<and> level \<le> a_TargetLevel a \<and> (if rising phase then lst \<le> level else level \<le> lst))"

lemma envelope_run_phases:
  "map fst (envelope_run a initial lst fadeFrom ts) = map (phase_at a \<circ> fst) ts"
  by (induction a initial lst fadeFrom ts rule: envelope_run.induct)
    (auto split: prod.splits dest: envelope_phase)

lemma envelope_run_safe:
  assumes "automation_ok a initial ceiling" and "0 \<le> initial" and "level_inv a initial t lst fadeFrom"
    and "sorted (t # map fst ts)"
  shows "list_all (safe_tick a) (envelope_run a initial lst fadeFrom ts)"
  using assms
proof (induction a initial lst fadeFrom ts arbitrary: t rule: envelope_run.induct)
  case (2 a initial lst fadeFrom u confirmed ts)
  obtain level phase ff where r: "envelope a initial lst fadeFrom u = (level, phase, ff)"
    by (metis prod_cases3)
  have tu: "t \<le> u" "sorted (u # map fst ts)" using "2.prems" by auto
  note tick = envelope_tick [OF "2.prems"(1-3) tu(1) r]
  have inv: "level_inv a initial u (if confirmed then level else lst) ff" using tick(3,4) by simp
  show ?case using tick(1,2) "2.IH" [OF r [symmetric] refl "2.prems"(1,2) inv tu(2)] r
    by (simp add: safe_tick_def)
qed simp

lemma sorted_map_mono:
  assumes "sorted xs" and "\<And>x y. x \<le> y \<Longrightarrow> f x \<le> (f y :: nat)"
  shows "sorted (map f (xs :: int list))"
  using assms by (induction xs) auto

text \<open>
  C25. A volume envelope that passed validation is safe at every tick, whatever the delays between
  ticks and whichever writes are skipped: every level asked for is between 0 and the target level,
  so never above the configured ceiling; the phases only move forward through ramping, playing,
  fading and stopping; a level never falls while ramping or playing and never rises once the fade
  has begun; and with a fade the last level before Stop is 0.
\<close>

theorem envelope_safe:
  assumes "Automation_validate a cmd (Some ceiling) = Inr ()" and "0 \<le> c_Level cmd"
    and "sorted (0 # map fst ticks)"
  shows "(\<forall>(phase, lst, level) \<in> set (envelope_run a (c_Level cmd) (c_Level cmd) (-1) ticks).
            0 \<le> level \<and> level \<le> a_TargetLevel a \<and> level \<le> ceiling \<and> level \<le> 100 \<and>
            (if rising phase then lst \<le> level else level \<le> lst)) \<and>
         sorted (map (phase_rank \<circ> fst) (envelope_run a (c_Level cmd) (c_Level cmd) (-1) ticks)) \<and>
         (\<forall>lst fadeFrom t. duration_of a \<le> t \<and> 0 < fade_of a \<longrightarrow>
            fst (envelope a (c_Level cmd) lst fadeFrom t) = 0)"
proof -
  have ok: "automation_ok a (c_Level cmd) ceiling" using assms(1) by (simp add: Automation_validate_Inr)
  have "c_Level cmd \<le> rampLevel a (c_Level cmd) 0"
    using rampLevel_bounds [of 0 "c_Level cmd" a] ok by (simp add: automation_ok_def)
  then have inv: "level_inv a (c_Level cmd) 0 (c_Level cmd) (-1)"
    using ok assms(2) by (simp add: level_inv_def automation_ok_def)
  have "a_TargetLevel a \<le> ceiling" "a_TargetLevel a \<le> 100" using ok by (auto simp: automation_ok_def)
  then have "\<forall>(phase, lst, level) \<in> set (envelope_run a (c_Level cmd) (c_Level cmd) (-1) ticks).
      0 \<le> level \<and> level \<le> a_TargetLevel a \<and> level \<le> ceiling \<and> level \<le> 100 \<and>
      (if rising phase then lst \<le> level else level \<le> lst)"
    using envelope_run_safe [OF ok assms(2) inv assms(3)]
    by (fastforce simp: list_all_iff safe_tick_def)
  moreover have "sorted (map (phase_rank \<circ> fst) (envelope_run a (c_Level cmd) (c_Level cmd) (-1) ticks))"
    using sorted_map_mono [of "map fst ticks" "phase_rank \<circ> phase_at a"] phase_rank_mono [OF ok] assms(3)
      envelope_run_phases [of a "c_Level cmd" "c_Level cmd" "-1" ticks]
    by (simp add: comp_assoc flip: map_map)
  ultimately show ?thesis by (simp add: envelope_stopping)
qed

definition example_automation :: Automation where
  "example_automation =
     \<lparr>a_TargetLevel = 30, a_RampSeconds = 10, a_DurationSeconds = 60, a_FadeSeconds = 20\<rparr>"

definition example_automated :: Command where
  "example_automated = zeroCommand\<lparr>c_Kind := CommandKindPlayback, c_Level := 10, c_Repeat := RepeatOff,
     c_Automation := Some example_automation\<rparr>"

definition example_ticks :: "(duration \<times> bool) list" where
  "example_ticks = [(0, True), (5000000000, True), (30000000000, False), (45000000000, True), (61000000000, True)]"

theorem envelope_safe_witness:
  "envelope_run example_automation 10 10 (-1) example_ticks =
     [(''ramping'', 10, 10), (''ramping'', 10, 20), (''playing'', 20, 30), (''fading'', 20, 15), (''stopping'', 15, 0)] \<and>
   sorted (map (phase_rank \<circ> fst) (envelope_run example_automation 10 10 (-1) example_ticks))"
proof -
  have v: "Automation_validate example_automation example_automated (Some 35) = Inr ()"
    and s: "sorted (0 # map fst example_ticks)" and l: "c_Level example_automated = 10"
    and e: "envelope_run example_automation 10 10 (-1) example_ticks =
     [(''ramping'', 10, 10), (''ramping'', 10, 20), (''playing'', 20, 30), (''fading'', 20, 15), (''stopping'', 15, 0)]"
    by code_simp+
  show ?thesis using envelope_safe [OF v _ s] e unfolding l by simp
qed

subsection \<open>Stop and cancel fades\<close>

text \<open>
  The fade loop keeps the last written level and writes a level only when it is lower. \<open>fade_run\<close>
  lists the levels written at the given elapsed times, up to the first one past the fade.
\<close>

fun fade_run :: "int \<Rightarrow> int \<Rightarrow> int \<Rightarrow> duration list \<Rightarrow> int list" where
  "fade_run start fadeSeconds lst [] = []"
| "fade_run start fadeSeconds lst (t # ts) =
     (let level = fadeLevel start fadeSeconds t;
          writes = (if level < lst then [level] else []);
          lst' = (if level < lst then level else lst)
      in writes @ (if t \<ge> fadeSeconds * Second then [] else fade_run start fadeSeconds lst' ts))"

lemma fadeLevel_bounds: "0 \<le> start \<Longrightarrow> 0 \<le> t \<Longrightarrow> 0 < n \<Longrightarrow> 0 \<le> fadeLevel start n t \<and> fadeLevel start n t \<le> start"
  by (simp add: fadeLevel_def pos_imp_zdiv_nonneg_iff)

lemma fadeLevel_end:
  assumes "0 \<le> start" and "0 < n" and "n * Second \<le> t"
  shows "fadeLevel start n t = 0"
proof -
  have n: "0 < n * Second" using assms by simp
  then have "start * (n * Second) div (n * Second) \<le> t * start div (n * Second)"
    using assms by (intro zdiv_mono1) (auto simp: mult.commute mult_left_mono)
  moreover have "start * (n * Second) div (n * Second) = start"
    by (rule nonzero_mult_div_cancel_right) (use n in linarith)
  ultimately have "start \<le> t * start div (n * Second)" by linarith
  moreover have "0 \<le> t * start" using assms n by (intro mult_nonneg_nonneg) linarith+
  ultimately show ?thesis using n by (simp add: fadeLevel_def)
qed

lemma fade_run_step:
  "fade_run start n lst (t # ts) =
     (if fadeLevel start n t < lst then [fadeLevel start n t] else []) @
     (if t \<ge> n * Second then [] else fade_run start n (min lst (fadeLevel start n t)) ts)"
  by (simp add: Let_def min_def)

lemma fade_run_descends:
  assumes "0 \<le> start" and "0 < n" and "\<forall>t \<in> set ts. 0 \<le> t"
  shows "(\<forall>l \<in> set (fade_run start n lst ts). 0 \<le> l \<and> l < lst \<and> l \<le> start) \<and>
         sorted_wrt (>) (fade_run start n lst ts)"
  using assms(3)
proof (induction ts arbitrary: lst)
  case (Cons t ts)
  let ?l = "fadeLevel start n t"
  have b: "0 \<le> ?l" "?l \<le> start" using Cons.prems assms fadeLevel_bounds [of start t n] by auto
  have ih: "\<forall>l \<in> set (fade_run start n (min lst ?l) ts). 0 \<le> l \<and> l < min lst ?l \<and> l \<le> start"
    "sorted_wrt (>) (fade_run start n (min lst ?l) ts)"
    using Cons.IH [of "min lst ?l"] Cons.prems by (auto simp del: min_less_iff_conj)
  show ?case unfolding fade_run_step using b ih
    by (cases "?l < lst"; cases "t \<ge> n * Second") (simp_all, force+)
qed simp

lemma fade_run_ends:
  assumes "0 \<le> start" and "0 < n" and "\<exists>t \<in> set ts. n * Second \<le> t" and "\<forall>t \<in> set ts. 0 \<le> t" and "0 < lst"
  shows "fade_run start n lst ts \<noteq> [] \<and> List.last (fade_run start n lst ts) = 0"
  using assms(3-5)
proof (induction ts arbitrary: lst)
  case (Cons t ts)
  let ?l = "fadeLevel start n t"
  show ?case
  proof (cases "n * Second \<le> t")
    case True
    then have "?l = 0" using fadeLevel_end assms by blast
    then show ?thesis unfolding fade_run_step using True Cons.prems by simp
  next
    case False
    then have ex: "\<exists>u \<in> set ts. n * Second \<le> u" using Cons.prems by auto
    have b: "0 \<le> ?l" using Cons.prems assms fadeLevel_bounds [of start t n] by auto
    show ?thesis
    proof (cases "?l = 0")
      case True
      have "fade_run start n 0 ts = []"
        using fade_run_descends [OF assms(1,2), of ts 0] Cons.prems
        by (cases "fade_run start n 0 ts") fastforce+
      then show ?thesis unfolding fade_run_step using True False Cons.prems by (simp add: min_def)
    next
      case nz: False
      have "fade_run start n (min lst ?l) ts \<noteq> [] \<and> List.last (fade_run start n (min lst ?l) ts) = 0"
        using Cons.IH [OF ex] Cons.prems nz b by simp
      then show ?thesis unfolding fade_run_step using False by simp
    qed
  qed
qed simp

text \<open>
  A stop with a fade only lowers the volume: the levels written are strictly decreasing, between
  0 and just below the level it started from, and when the loop has run past the fade time the last
  one is 0, before Stop is sent. The level products stay within Go's 64-bit range for a day of ticks.
\<close>

theorem stop_fade_descends:
  assumes "0 < start" and "start \<le> 100" and "1 \<le> fadeSeconds" and "\<forall>t \<in> set ticks. 0 \<le> t \<and> t \<le> 24 * Hour"
    and "\<exists>t \<in> set ticks. fadeSeconds * Second \<le> t"
  shows "sorted_wrt (>) (fade_run start fadeSeconds start ticks) \<and>
         (\<forall>l \<in> set (fade_run start fadeSeconds start ticks). 0 \<le> l \<and> l < start) \<and>
         fade_run start fadeSeconds start ticks \<noteq> [] \<and> List.last (fade_run start fadeSeconds start ticks) = 0 \<and>
         (\<forall>t \<in> set ticks. t * start \<le> maxDuration)"
proof -
  have p: "0 \<le> start" "0 < fadeSeconds" "\<forall>t \<in> set ticks. 0 \<le> t" using assms by auto
  have "t * start \<le> maxDuration" if "t \<in> set ticks" for t
  proof -
    have "t * start \<le> (24 * Hour) * 100" using that assms by (intro mult_mono) (auto simp: duration_defs)
    then show ?thesis by (simp add: duration_defs maxDuration_def)
  qed
  then show ?thesis
    using fade_run_descends [OF p, of start] fade_run_ends [OF p(1,2) assms(5) p(3) assms(1)] by simp
qed

theorem stop_fade_descends_witness:
  "fade_run 20 2 20 [0, 1000000000, 1500000000, 2100000000] = [10, 5, 0] \<and>
   List.last (fade_run 20 2 20 [0, 1000000000, 1500000000, 2100000000]) = 0"
proof -
  have e: "fade_run 20 2 20 [0, 1000000000, 1500000000, 2100000000] = [10, 5, 0]" by code_simp
  have "List.last (fade_run 20 2 20 [0, 1000000000, 1500000000, 2100000000]) = 0"
    using stop_fade_descends [of 20 2 "[0, 1000000000, 1500000000, 2100000000]"]
    by (simp add: duration_defs del: fade_run.simps)
  with e show ?thesis by (rule conjI)
qed

end
