(* ===== verification/Attribution.thy ===== *)
theory Attribution
  imports Envelope
begin

section \<open>Event attribution\<close>

text \<open>
  \<open>internal/control/events.go\<close>, \<open>scalar_confirmation.go\<close> and the locked parts of
  \<open>observation.go\<close>, \<open>ownership.go\<close>, \<open>confirmation.go\<close> and \<open>completion_diagnostics.go\<close>: the
  state of an operation's worker (\<open>execution\<close>), the synchronous event callback that attributes each
  device notification to the operation's own commands or revokes its ownership, the expectations a
  command registers, and the confirmation of scalar commands by notifications. Every function here
  runs under \<open>execution.mu\<close>, so a notification is one atomic step. \<open>x_cause\<close> is
  \<open>context.Cause(r.ctx)\<close>; the one-slot wake channel is a boolean; the expectations map a
  notification name to its pending parameter lists.
\<close>

record PlaybackProgress =
  pp_PlaybackStartedAt :: time
  pp_StopAt :: time
  pp_ElapsedSeconds :: int
  pp_Level :: int

record QueueLoadingProgress =
  ql_Mode :: string
  ql_BufferedTracks :: "int option"
  ql_RemainingTracks :: "int option"
  ql_CurrentIndex :: "int option"
  ql_PrunedTracks :: "int option"
  ql_SessionExpiresAt :: "time option"
  ql_TotalParts :: int
  ql_ConfirmedParts :: int
  ql_TotalTracks :: int
  ql_ConfirmedTracks :: int

record bufferedPlayback =
  bp_policy :: BufferedPlayback
  bp_expires :: time
  bp_pruned :: int

record scalarConfirmation =
  sc_command :: Mutation
  sc_observed :: Snapshot
  sc_volumeSeen :: bool
  sc_repeatSeen :: bool
  sc_shuffleSeen :: bool

type_synonym expectation = "(string \<times> string) list"

record execution =
  x_cause :: "error option"
  x_phase :: string
  x_expected :: Snapshot
  x_events :: "string \<Rightarrow> expectation list"
  x_inflight :: bool
  x_uncertain :: bool
  x_unconfirmed :: bool
  x_rejectedWrite :: bool
  x_buffered :: "bufferedPlayback option"
  x_parts :: "playbackPart list"
  x_ordered :: "ID list option"
  x_queueLoading :: "QueueLoadingProgress option"
  x_loading :: bool
  x_playbackStarted :: time
  x_appendUntil :: time
  x_members :: "ID set"
  x_confirmed :: int
  x_playbackDeadline :: time
  x_progress :: "PlaybackProgress option"
  x_bounded :: bool
  x_queueOwned :: bool
  x_queueStart :: queueStartPhase
  x_scalar :: "scalarConfirmation option"
  x_queueWait :: time
  x_automating :: bool
  x_keepExpectations :: bool
  x_wake :: bool
  x_eventRevision :: uint64
  x_observedRevision :: uint64
  x_lastReadAttempt :: time
  x_lastRead :: time
  x_observedAt :: time

text \<open>A new worker, as \<open>Submit\<close> builds it from the admitted snapshot.\<close>

definition newExecution :: "Snapshot \<Rightarrow> ID set \<Rightarrow> execution" where
  "newExecution s members =
     \<lparr>x_cause = None, x_phase = [], x_expected = s, x_events = (\<lambda>_. []), x_inflight = False,
      x_uncertain = False, x_unconfirmed = False, x_rejectedWrite = False, x_buffered = None, x_parts = [],
      x_ordered = None, x_queueLoading = None, x_loading = False, x_playbackStarted = 0, x_appendUntil = 0,
      x_members = members, x_confirmed = 0, x_playbackDeadline = 0, x_progress = None, x_bounded = False,
      x_queueOwned = False, x_queueStart = queueNotStarting, x_scalar = None, x_queueWait = 0,
      x_automating = False, x_keepExpectations = False, x_wake = False, x_eventRevision = 0,
      x_observedRevision = 0, x_lastReadAttempt = 0, x_lastRead = 0, x_observedAt = 0\<rparr>"

definition stateEvent :: string where "stateEvent = ''event/player_state_changed''"
definition nowPlayingEvent :: string where "nowPlayingEvent = ''event/player_now_playing_changed''"
definition queueEvent :: string where "queueEvent = ''event/player_queue_changed''"
definition volumeEvent :: string where "volumeEvent = ''event/player_volume_changed''"
definition repeatEvent :: string where "repeatEvent = ''event/repeat_mode_changed''"
definition shuffleEvent :: string where "shuffleEvent = ''event/shuffle_mode_changed''"

lemmas event_name_defs =
  stateEvent_def nowPlayingEvent_def queueEvent_def volumeEvent_def repeatEvent_def shuffleEvent_def

subsection \<open>Wake hints and cancellation\<close>

definition signal :: "execution \<Rightarrow> execution" where
  "signal r = r\<lparr>x_wake := True\<rparr>"

definition notifyObservation :: "execution \<Rightarrow> execution" where
  "notifyObservation r = signal (r\<lparr>x_eventRevision := x_eventRevision r + 1\<rparr>)"

definition observationPending :: "execution \<Rightarrow> bool" where
  "observationPending r \<longleftrightarrow> x_eventRevision r \<noteq> x_observedRevision r"

text \<open>\<open>context.CancelCauseFunc\<close>: only the first cause is kept.\<close>

definition cancel_run :: "error \<Rightarrow> execution \<Rightarrow> execution" where
  "cancel_run e r = (case x_cause r of None \<Rightarrow> r\<lparr>x_cause := Some e\<rparr> | Some _ \<Rightarrow> r)"

subsection \<open>Scalar evidence\<close>

record DiagnosticScalars =
  ds_State :: "string option"
  ds_Volume :: "int option"
  ds_Muted :: "bool option"
  ds_Repeat :: "string option"
  ds_Shuffle :: "bool option"
  ds_Grouped :: "bool option"

definition zeroScalars :: DiagnosticScalars where
  "zeroScalars = \<lparr>ds_State = None, ds_Volume = None, ds_Muted = None, ds_Repeat = None, ds_Shuffle = None, ds_Grouped = None\<rparr>"

definition scalarChanged :: "'a option \<Rightarrow> 'a option \<Rightarrow> bool" where
  "scalarChanged expected observed \<longleftrightarrow>
     (case (expected, observed) of (Some a, Some b) \<Rightarrow> a \<noteq> b | _ \<Rightarrow> False)"

definition scalarChanges :: "DiagnosticScalars \<Rightarrow> DiagnosticScalars \<Rightarrow> string list" where
  "scalarChanges expected observed =
     changed_fields
       [(''state'', scalarChanged (ds_State expected) (ds_State observed)),
        (''volume'', scalarChanged (ds_Volume expected) (ds_Volume observed)),
        (''mute'', scalarChanged (ds_Muted expected) (ds_Muted observed)),
        (''repeat'', scalarChanged (ds_Repeat expected) (ds_Repeat observed)),
        (''shuffle'', scalarChanged (ds_Shuffle expected) (ds_Shuffle observed))]"

definition snapshotScalars :: "Snapshot \<Rightarrow> DiagnosticScalars" where
  "snapshotScalars s =
     \<lparr>ds_State = (if PlayState_Known (s_State s) then Some (PlayState_string (s_State s)) else None),
      ds_Volume = (case s_Volume s of Some v \<Rightarrow> if 0 \<le> v \<and> v \<le> 100 then Some v else None | None \<Rightarrow> None),
      ds_Muted = s_Muted s,
      ds_Repeat = (if Repeat_Known (s_Repeat s) then Some (Repeat_string (s_Repeat s)) else None),
      ds_Shuffle = Some (s_Shuffle s), ds_Grouped = Some (s_Grouped s)\<rparr>"

definition eventScalars :: "Event \<Rightarrow> DiagnosticScalars option \<times> string list" where
  "eventScalars e =
     (let data = Event_Data e;
          r = (case d_Kind data of
                 EventState \<Rightarrow> if d_State data \<noteq> PlayStateAbsent
                               then (zeroScalars\<lparr>ds_State := Some (PlayState_string (d_State data))\<rparr>, [''state''])
                               else (zeroScalars, [])
               | EventVolume \<Rightarrow>
                   (zeroScalars\<lparr>ds_Volume := (if d_HasVolume data then Some (d_Volume data) else None),
                                ds_Muted := (if d_HasMute data then Some (d_Muted data) else None)\<rparr>,
                    (if d_HasVolume data then [''volume''] else []) @ (if d_HasMute data then [''mute''] else []))
               | EventRepeat \<Rightarrow> if d_Repeat data \<noteq> RepeatAbsent
                               then (zeroScalars\<lparr>ds_Repeat := Some (Repeat_string (d_Repeat data))\<rparr>, [''repeat''])
                               else (zeroScalars, [])
               | EventShuffle \<Rightarrow> if d_HasShuffle data
                               then (zeroScalars\<lparr>ds_Shuffle := Some (d_Shuffle data)\<rparr>, [''shuffle''])
                               else (zeroScalars, [])
               | EventQueue \<Rightarrow> (zeroScalars, [''queue_items''])
               | EventGroups \<Rightarrow> (zeroScalars, [''grouped''])
               | _ \<Rightarrow> (zeroScalars, []))
      in case r of (v, flds) \<Rightarrow>
           (if ds_State v = None \<and> ds_Volume v = None \<and> ds_Muted v = None \<and> ds_Repeat v = None \<and> ds_Shuffle v = None
            then None else Some v, flds))"

subsection \<open>Scalar confirmation\<close>

definition scalarMutation :: "Mutation \<Rightarrow> bool" where
  "scalarMutation m \<longleftrightarrow> m_Kind m = MutationKindVolume \<or> m_Kind m = MutationKindMute \<or> m_Kind m = MutationKindMode"

definition newScalarConfirmation :: "Mutation \<Rightarrow> Snapshot \<Rightarrow> scalarConfirmation" where
  "newScalarConfirmation m before =
     (let p = \<lparr>sc_command = m, sc_observed = before, sc_volumeSeen = False, sc_repeatSeen = False, sc_shuffleSeen = False\<rparr>
      in case m_Kind m of
           MutationKindVolume \<Rightarrow> p\<lparr>sc_volumeSeen := s_Volume before = Some (m_Level m) \<and> s_Muted before = Some False\<rparr>
         | MutationKindMute \<Rightarrow> p\<lparr>sc_volumeSeen := s_Muted before = Some (m_Muted m)\<rparr>
         | MutationKindMode \<Rightarrow> p\<lparr>sc_repeatSeen := s_Repeat before = m_Repeat m, sc_shuffleSeen := s_Shuffle before = m_Shuffle m\<rparr>
         | _ \<Rightarrow> p)"

definition scalar_ready :: "scalarConfirmation \<Rightarrow> bool" where
  "scalar_ready p =
     (if m_Kind (sc_command p) = MutationKindMode then sc_repeatSeen p \<and> sc_shuffleSeen p else sc_volumeSeen p)"

definition scalar_result :: "scalarConfirmation \<Rightarrow> Snapshot \<Rightarrow> Snapshot" where
  "scalar_result p s =
     (if m_Kind (sc_command p) = MutationKindMode
      then s\<lparr>s_Repeat := s_Repeat (sc_observed p), s_Shuffle := s_Shuffle (sc_observed p)\<rparr>
      else s\<lparr>s_Volume := s_Volume (sc_observed p), s_Muted := s_Muted (sc_observed p)\<rparr>)\<lparr>s_EventUpdated := True\<rparr>"

definition confirmedVolumeEvent :: "Event \<Rightarrow> Snapshot \<Rightarrow> bool" where
  "confirmedVolumeEvent e expected =
     (let data = Event_Data e in
      d_Kind data = EventVolume \<and> d_Valid data \<and> s_Volume expected = Some (d_Volume data) \<and>
      s_Muted expected = Some (d_Muted data))"

text \<open>The three cases of \<open>acceptScalarEvent\<close> return the new confirmation, or whether it is accepted unchanged.\<close>

definition scalarWant :: "Mutation \<Rightarrow> Snapshot \<Rightarrow> Snapshot" where
  "scalarWant m expected =
     (if m_Kind m = MutationKindVolume then expected\<lparr>s_Volume := Some (m_Level m)\<rparr>
      else expected\<lparr>s_Muted := Some (m_Muted m)\<rparr>)"

definition acceptVolume :: "Event \<Rightarrow> Snapshot \<Rightarrow> scalarConfirmation \<Rightarrow> bool + scalarConfirmation" where
  "acceptVolume e expected p =
     (let m = sc_command p;
          want = scalarWant m expected;
          cleared = want\<lparr>s_Muted := Some False\<rparr>;
          unmuted = (\<not> confirmedVolumeEvent e want \<and> m_Kind m = MutationKindVolume \<and> s_Muted expected = Some True);
          want = (if unmuted then cleared else want)
      in if \<not> confirmedVolumeEvent e want then Inl (\<not> sc_volumeSeen p \<and> confirmedVolumeEvent e expected)
         else if sc_volumeSeen p \<and> \<not> confirmedVolumeEvent e (sc_observed p) then Inl False
         else Inr (p\<lparr>sc_observed := (sc_observed p)\<lparr>s_Volume := s_Volume want, s_Muted := s_Muted want\<rparr>,
                     sc_volumeSeen := True\<rparr>))"

definition acceptRepeat :: "EventData \<Rightarrow> Snapshot \<Rightarrow> scalarConfirmation \<Rightarrow> bool + scalarConfirmation" where
  "acceptRepeat data expected p =
     (if d_Repeat data \<noteq> m_Repeat (sc_command p)
      then Inl (\<not> sc_repeatSeen p \<and> d_Repeat data = s_Repeat expected)
      else Inr (p\<lparr>sc_observed := (sc_observed p)\<lparr>s_Repeat := d_Repeat data\<rparr>, sc_repeatSeen := True\<rparr>))"

definition acceptShuffle :: "EventData \<Rightarrow> Snapshot \<Rightarrow> scalarConfirmation \<Rightarrow> bool + scalarConfirmation" where
  "acceptShuffle data expected p =
     (if d_Shuffle data \<noteq> m_Shuffle (sc_command p)
      then Inl (\<not> sc_shuffleSeen p \<and> d_Shuffle data = s_Shuffle expected)
      else Inr (p\<lparr>sc_observed := (sc_observed p)\<lparr>s_Shuffle := d_Shuffle data\<rparr>, sc_shuffleSeen := True\<rparr>))"

definition scalarDecision :: "Event \<Rightarrow> execution \<Rightarrow> bool + scalarConfirmation" where
  "scalarDecision e r =
     (let data = Event_Data e in
      case d_Kind data of
        EventVolume \<Rightarrow>
          (case x_scalar r of
             Some p \<Rightarrow> if m_Kind (sc_command p) = MutationKindMode
                       then Inl (confirmedVolumeEvent e (x_expected r)) else acceptVolume e (x_expected r) p
           | None \<Rightarrow> Inl (confirmedVolumeEvent e (x_expected r)))
      | EventRepeat \<Rightarrow>
          (case x_scalar r of
             Some p \<Rightarrow> if m_Kind (sc_command p) \<noteq> MutationKindMode
                       then Inl (d_Repeat data = s_Repeat (x_expected r)) else acceptRepeat data (x_expected r) p
           | None \<Rightarrow> Inl (d_Repeat data = s_Repeat (x_expected r)))
      | EventShuffle \<Rightarrow>
          (case x_scalar r of
             Some p \<Rightarrow> if m_Kind (sc_command p) \<noteq> MutationKindMode
                       then Inl (d_Shuffle data = s_Shuffle (x_expected r)) else acceptShuffle data (x_expected r) p
           | None \<Rightarrow> Inl (d_Shuffle data = s_Shuffle (x_expected r)))
      | _ \<Rightarrow> Inl False)"

definition acceptScalarEvent :: "Event \<Rightarrow> execution \<Rightarrow> bool \<times> execution" where
  "acceptScalarEvent e r =
     (if \<not> d_Valid (Event_Data e) then (False, r)
      else case scalarDecision e r of
             Inl ok \<Rightarrow> (ok, r)
           | Inr p \<Rightarrow> (True, let r' = r\<lparr>x_scalar := Some p\<rparr> in if scalar_ready p then signal r' else r'))"

subsection \<open>Expected notifications\<close>

definition remove_nth :: "nat \<Rightarrow> 'a list \<Rightarrow> 'a list" where
  "remove_nth i xs = take i xs @ drop (Suc i) xs"

definition expectation_matches :: "EventData \<Rightarrow> expectation \<Rightarrow> bool" where
  "expectation_matches data want \<longleftrightarrow> list_all (\<lambda>(k, v). k = ''state'' \<and> PlayState_string (d_State data) = v) want"

text \<open>The body of the loop of \<open>acceptExpectedEvent\<close> for the first expectation that matches.\<close>

definition acceptMatched :: "Event \<Rightarrow> nat \<Rightarrow> execution \<Rightarrow> execution" where
  "acceptMatched e i r =
     (let data = Event_Data e;
          kind = d_Kind data;
          r = (if kind \<in> {EventState, EventNowPlaying, EventQueue} then notifyObservation r else r);
          r = (if kind \<noteq> EventNowPlaying \<and> \<not> x_keepExpectations r
               then r\<lparr>x_events := (x_events r)(e_Command e := remove_nth i (x_events r (e_Command e)))\<rparr> else r)
      in if kind = EventState \<and> d_State data = PlayStatePlay \<and> \<not> x_keepExpectations r
         then r\<lparr>x_events := (x_events r)(e_Command e := []),
                x_queueStart := (if x_queueStart r \<noteq> queueNotStarting then queuePlayObserved else x_queueStart r)\<rparr>
         else r)"

definition acceptExpectedEvent :: "Event \<Rightarrow> execution \<Rightarrow> bool \<times> execution" where
  "acceptExpectedEvent e r =
     (let data = Event_Data e in
      if \<not> d_Valid data then (False, r)
      else if d_Kind data \<in> {EventVolume, EventRepeat, EventShuffle} then acceptScalarEvent e r
      else case index_where (expectation_matches data) (x_events r (e_Command e)) of
             None \<Rightarrow> (False, r)
           | Some i \<Rightarrow>
               if x_queueStart r = queueAwaitingPlay \<and> d_Kind data = EventState \<and> d_State data = PlayStateStop
               then (True, r)
               else (True, acceptMatched e i r))"

definition run_policy :: "execution \<Rightarrow> queuePolicyState" where
  "run_policy r =
     \<lparr>qs_Owned = x_queueOwned r, qs_Automating = x_automating r \<or> x_loading r,
      qs_ExpectedState = s_State (x_expected r), qs_WaitUntil = x_queueWait r, qs_PlaybackUntil = 0\<rparr>"

definition acceptQueueEvent :: "time \<Rightarrow> Event \<Rightarrow> execution \<Rightarrow> bool \<times> execution" where
  "acceptQueueEvent now e r =
     (let d = decideQueueEvent (run_policy r) e now;
          r = r\<lparr>x_queueWait := qd_WaitUntil d\<rparr>;
          r = (if qd_Notify d then notifyObservation r else r)
      in (qd_Action d \<noteq> queuePass, r))"

subsection \<open>The event callback\<close>

definition eventOwnershipError :: "Event \<Rightarrow> Snapshot \<Rightarrow> error" where
  "eventOwnershipError e expected =
     (if e_Gap e then OwnershipError ''event_gap'' []
      else case eventScalars e of
             (None, flds) \<Rightarrow> OwnershipError ''unexpected_event'' flds
           | (Some v, _) \<Rightarrow> OwnershipError ''unexpected_event'' (scalarChanges (snapshotScalars expected) v))"

definition revoke :: "Event \<Rightarrow> execution \<Rightarrow> execution" where
  "revoke e r =
     cancel_run (eventOwnershipError e (x_expected r))
       (if x_inflight r then r\<lparr>x_uncertain := True\<rparr> else r)"

definition foreign_event :: "Event \<Rightarrow> Snapshot \<Rightarrow> bool" where
  "foreign_event e expected \<longleftrightarrow>
     (let data = Event_Data e in
      \<not> e_Gap e \<and> d_Player data \<noteq> [] \<and> d_Player data \<noteq> p_ID (s_Player expected) \<and> player_event (d_Kind data))"

definition progress_event :: "Event \<Rightarrow> bool" where
  "progress_event e \<longleftrightarrow> \<not> e_Gap e \<and> d_Kind (Event_Data e) = EventProgress \<and> d_Valid (Event_Data e)"

definition target_event :: "Event \<Rightarrow> Snapshot \<Rightarrow> bool" where
  "target_event e expected \<longleftrightarrow>
     \<not> e_Gap e \<and> t_Generation (e_Token e) = t_Generation (s_Token expected) \<and>
     t_Revision (e_Token e) = t_Revision (s_Token expected) \<and> t_Catalog (e_Token e) = t_Catalog (s_Token expected) \<and>
     d_Valid (Event_Data e) \<and> d_Player (Event_Data e) = p_ID (s_Player expected)"

definition acceptEvent :: "time \<Rightarrow> Event \<Rightarrow> execution \<Rightarrow> bool \<times> execution" where
  "acceptEvent now e r =
     (if \<not> target_event e (x_expected r) then (False, r)
      else case acceptExpectedEvent e r of
             (True, r') \<Rightarrow> (True, r')
           | (False, r') \<Rightarrow> acceptQueueEvent now e r')"

definition execution_event :: "time \<Rightarrow> Event \<Rightarrow> execution \<Rightarrow> execution" where
  "execution_event now e r =
     (if foreign_event e (x_expected r) \<or> progress_event e then r
      else case acceptEvent now e r of
             (True, r') \<Rightarrow> r'\<lparr>x_expected := (x_expected r')\<lparr>s_Token := e_Token e\<rparr>\<rparr>
           | (False, r') \<Rightarrow> revoke e r')"

subsection \<open>Expectations of a command\<close>

definition add_expectation :: "string \<Rightarrow> expectation \<Rightarrow> execution \<Rightarrow> execution" where
  "add_expectation name params r =
     (let lst = x_events r name;
          lst = (if length lst \<ge> 4 then tl lst else lst)
      in r\<lparr>x_events := (x_events r)(name := lst @ [params])\<rparr>)"

definition expect_volume :: "Mutation \<Rightarrow> execution \<Rightarrow> execution" where
  "expect_volume m r =
     (let volume = (m_Kind m = MutationKindVolume);
          level = (if volume then m_Level m else the (s_Volume (x_expected r)));
          muted = (if volume then the (s_Muted (x_expected r)) else m_Muted m);
          r = add_expectation volumeEvent [(''level'', Itoa level), (''mute'', on_off muted)] r
      in if volume \<and> muted then add_expectation volumeEvent [(''level'', Itoa level), (''mute'', ''off'')] r else r)"

definition expect_state :: "PlayState \<Rightarrow> execution \<Rightarrow> execution" where
  "expect_state st = add_expectation stateEvent [(''state'', PlayState_string st)]"

definition expect_queue :: "Mutation \<Rightarrow> execution \<Rightarrow> execution" where
  "expect_queue m r =
     (if m_Append m then add_expectation queueEvent [] (r\<lparr>x_keepExpectations := True\<rparr>)
      else let r = add_expectation nowPlayingEvent [] (add_expectation queueEvent [] (r\<lparr>x_queueStart := queueAwaitingPlay\<rparr>));
               r = (if s_State (x_expected r) = PlayStateStop \<or> s_State (x_expected r) = PlayStatePause
                    then expect_state PlayStateStop r else r)
           in expect_state PlayStatePlay r)"

definition expect :: "Mutation \<Rightarrow> execution \<Rightarrow> execution" where
  "expect m r =
     (let r = r\<lparr>x_queueStart := queueNotStarting,
                x_scalar := (if scalarMutation m then Some (newScalarConfirmation m (x_expected r)) else None),
                x_keepExpectations := False\<rparr>
      in case m_Kind m of
           MutationKindVolume \<Rightarrow> expect_volume m r
         | MutationKindMute \<Rightarrow> expect_volume m r
         | MutationKindTransport \<Rightarrow> add_expectation nowPlayingEvent [] (expect_state (m_State m) r)
         | MutationKindSkip \<Rightarrow>
             expect_state PlayStatePause (expect_state PlayStatePlay (expect_state PlayStateUnknown
               (expect_state PlayStateStop (add_expectation nowPlayingEvent [] (r\<lparr>x_keepExpectations := True\<rparr>)))))
         | MutationKindMode \<Rightarrow>
             add_expectation shuffleEvent [(''shuffle'', on_off (m_Shuffle m))]
               (add_expectation repeatEvent [(''repeat'', Repeat_string (m_Repeat m))] r)
         | MutationKindRemove \<Rightarrow>
             add_expectation nowPlayingEvent [] (add_expectation queueEvent [] (r\<lparr>x_keepExpectations := True\<rparr>))
         | MutationKindQueue \<Rightarrow> expect_queue m r
         | MutationKindAbsent \<Rightarrow> r)"

text \<open>Confirmation closes a command's acknowledgement window (the end of \<open>writeOnce\<close>).\<close>

definition close_window :: "execution \<Rightarrow> execution" where
  "close_window r = r\<lparr>x_events := (\<lambda>_. []), x_queueStart := queueNotStarting, x_scalar := None, x_keepExpectations := False\<rparr>"

definition observeQueueState :: "PlayState \<Rightarrow> execution \<Rightarrow> execution" where
  "observeQueueState st r =
     (if st = PlayStatePlay
      then r\<lparr>x_queueStart := queuePlayObserved,
             x_events := (x_events r)(stateEvent :=
               filter (\<lambda>want. map_of want ''state'' \<noteq> Some (PlayState_string PlayStateStop)) (x_events r stateEvent))\<rparr>
      else r)"

subsection \<open>Frames\<close>

lemma signal_frame [state_simps]:
  "x_cause (signal r) = x_cause r" "x_expected (signal r) = x_expected r" "x_scalar (signal r) = x_scalar r"
  "x_events (signal r) = x_events r" "x_inflight (signal r) = x_inflight r" "x_uncertain (signal r) = x_uncertain r"
  "x_queueStart (signal r) = x_queueStart r" "x_queueOwned (signal r) = x_queueOwned r" "x_queueWait (signal r) = x_queueWait r"
  by (simp_all add: signal_def)

lemma notifyObservation_frame [state_simps]:
  "x_cause (notifyObservation r) = x_cause r" "x_expected (notifyObservation r) = x_expected r"
  "x_scalar (notifyObservation r) = x_scalar r" "x_events (notifyObservation r) = x_events r"
  "x_inflight (notifyObservation r) = x_inflight r" "x_uncertain (notifyObservation r) = x_uncertain r"
  "x_queueStart (notifyObservation r) = x_queueStart r" "x_queueOwned (notifyObservation r) = x_queueOwned r"
  "x_queueWait (notifyObservation r) = x_queueWait r" "x_keepExpectations (notifyObservation r) = x_keepExpectations r"
  by (simp_all add: notifyObservation_def signal_def)

text \<open>What no accepted or revoking notification changes.\<close>

definition attribution_frame :: "execution \<Rightarrow> execution \<Rightarrow> bool" where
  "attribution_frame r r' \<longleftrightarrow>
     x_expected r' = x_expected r \<and> x_cause r' = x_cause r \<and> x_inflight r' = x_inflight r \<and>
     x_uncertain r' = x_uncertain r \<and> x_queueOwned r' = x_queueOwned r"

lemma attribution_frame_refl [simp]: "attribution_frame r r"
  by (simp add: attribution_frame_def)

lemma acceptScalarEvent_frame: "acceptScalarEvent e r = (b, r') \<Longrightarrow> attribution_frame r r'"
  by (auto simp: acceptScalarEvent_def attribution_frame_def state_simps Let_def split: sum.splits if_splits)

lemma acceptScalarEvent_False: "acceptScalarEvent e r = (False, r') \<Longrightarrow> r' = r"
  by (auto simp: acceptScalarEvent_def split: sum.splits if_splits)

lemma acceptMatched_frame: "attribution_frame r (acceptMatched e i r)"
  by (simp add: acceptMatched_def attribution_frame_def state_simps Let_def)

lemma acceptExpectedEvent_frame: "acceptExpectedEvent e r = (b, r') \<Longrightarrow> attribution_frame r r'"
  by (auto simp: acceptExpectedEvent_def Let_def acceptMatched_frame intro: acceptScalarEvent_frame
      split: option.splits if_splits)

lemma acceptQueueEvent_frame: "acceptQueueEvent now e r = (b, r') \<Longrightarrow> attribution_frame r r'"
  by (auto simp: acceptQueueEvent_def attribution_frame_def Let_def state_simps split: if_splits)

lemma acceptEvent_frame: "acceptEvent now e r = (b, r') \<Longrightarrow> attribution_frame r r'"
  using acceptExpectedEvent_frame acceptQueueEvent_frame
  by (fastforce simp: acceptEvent_def attribution_frame_def split: prod.splits bool.splits if_splits)

lemma revoke_cause: "x_cause (revoke e r) = (case x_cause r of None \<Rightarrow> Some (eventOwnershipError e (x_expected r)) | Some c \<Rightarrow> Some c)"
  by (simp add: revoke_def cancel_run_def split: option.splits)

lemma revoke_uncertain [simp]: "x_uncertain (revoke e r) \<longleftrightarrow> x_uncertain r \<or> x_inflight r"
  by (simp add: revoke_def cancel_run_def split: option.splits)

lemma eventOwnershipError_Is [simp]: "errors_Is (eventOwnershipError e s) ErrOwnership"
  by (simp add: eventOwnershipError_def split: prod.splits option.splits)

subsection \<open>Every notification is attributed or revokes\<close>

definition attributed :: "Event \<Rightarrow> Snapshot \<Rightarrow> bool" where
  "attributed e expected \<longleftrightarrow> foreign_event e expected \<or> progress_event e \<or> target_event e expected"

lemma execution_event_cases:
  obtains (ignored) "foreign_event e (x_expected r) \<or> progress_event e" "execution_event now e r = r"
  | (accepted) r' where "target_event e (x_expected r)" "acceptEvent now e r = (True, r')" "attribution_frame r r'"
      "execution_event now e r = r'\<lparr>x_expected := (x_expected r)\<lparr>s_Token := e_Token e\<rparr>\<rparr>"
  | (revoked) r' where "acceptEvent now e r = (False, r')" "attribution_frame r r'" "execution_event now e r = revoke e r'"
proof (cases "foreign_event e (x_expected r) \<or> progress_event e")
  case True
  then show ?thesis using ignored by (simp add: execution_event_def)
next
  case n: False
  obtain b r' where a: "acceptEvent now e r = (b, r')" by fastforce
  have f: "attribution_frame r r'" using a by (rule acceptEvent_frame)
  show ?thesis
  proof (cases b)
    case True
    then have "target_event e (x_expected r)" using a by (auto simp: acceptEvent_def split: if_splits)
    then show ?thesis using accepted [of r'] a f n True by (simp add: execution_event_def attribution_frame_def)
  next
    case False
    then show ?thesis using revoked [of r'] a f n by (simp add: execution_event_def)
  qed
qed

lemma execution_event_cause:
  "x_cause r = Some c \<Longrightarrow> x_cause (execution_event now e r) = Some c"
  by (rule execution_event_cases [of e r now]) (auto simp: attribution_frame_def revoke_cause)

lemma execution_event_open:
  assumes "x_cause (execution_event now e r) = None"
  shows "attributed e (x_expected r)"
    and "\<exists>tok. x_expected (execution_event now e r) = (x_expected r)\<lparr>s_Token := tok\<rparr> \<and> sameGlobal tok (s_Token (x_expected r))"
    and "x_uncertain (execution_event now e r) = x_uncertain r"
    and "x_queueOwned (execution_event now e r) = x_queueOwned r"
proof -
  have same: "(x_expected r)\<lparr>s_Token := s_Token (x_expected r)\<rparr> = x_expected r" by simp
  have "attributed e (x_expected r) \<and>
    (\<exists>tok. x_expected (execution_event now e r) = (x_expected r)\<lparr>s_Token := tok\<rparr> \<and> sameGlobal tok (s_Token (x_expected r))) \<and>
    x_uncertain (execution_event now e r) = x_uncertain r \<and> x_queueOwned (execution_event now e r) = x_queueOwned r"
  proof (rule execution_event_cases [of e r now])
    assume "foreign_event e (x_expected r) \<or> progress_event e" "execution_event now e r = r"
    then show ?thesis using same by (auto simp: attributed_def intro: exI [of _ "s_Token (x_expected r)"])
  next
    fix r' assume "target_event e (x_expected r)" "attribution_frame r r'"
      "execution_event now e r = r'\<lparr>x_expected := (x_expected r)\<lparr>s_Token := e_Token e\<rparr>\<rparr>"
    then show ?thesis
      by (auto simp: attributed_def attribution_frame_def target_event_def sameGlobal_iff intro!: exI [of _ "e_Token e"])
  next
    fix r' assume "attribution_frame r r'" "execution_event now e r = revoke e r'"
    then show ?thesis using assms by (simp add: revoke_cause split: option.splits)
  qed
  then show "attributed e (x_expected r)"
    and "\<exists>tok. x_expected (execution_event now e r) = (x_expected r)\<lparr>s_Token := tok\<rparr> \<and> sameGlobal tok (s_Token (x_expected r))"
    and "x_uncertain (execution_event now e r) = x_uncertain r"
    and "x_queueOwned (execution_event now e r) = x_queueOwned r" by blast+
qed

text \<open>The callback over a sequence of notifications with the times they arrive at.\<close>

abbreviation event_step :: "time \<times> Event \<Rightarrow> execution \<Rightarrow> execution" where
  "event_step te r \<equiv> execution_event (fst te) (snd te) r"

interpretation revocation: stepped_latch event_step x_cause
  by unfold_locales (rule execution_event_cause)

lemma attributed_token:
  "sameGlobal tok (s_Token s) \<Longrightarrow> attributed e (s\<lparr>s_Token := tok\<rparr>) = attributed e s"
  by (auto simp: attributed_def foreign_event_def target_event_def Let_def sameGlobal_iff)

lemma run_open:
  assumes "x_cause (fold event_step es r) = None"
  shows "(\<forall>te \<in> set es. attributed (snd te) (x_expected r)) \<and>
         (\<exists>tok. x_expected (fold event_step es r) = (x_expected r)\<lparr>s_Token := tok\<rparr> \<and> sameGlobal tok (s_Token (x_expected r))) \<and>
         x_uncertain (fold event_step es r) = x_uncertain r"
  using assms
proof (induction es arbitrary: r)
  case Nil
  show ?case by (auto intro: exI [of _ "s_Token (x_expected r)"])
next
  case (Cons te es)
  let ?r = "event_step te r"
  have open1: "x_cause ?r = None" using Cons.prems revocation.run_latch_None by simp
  note one = execution_event_open [OF open1]
  obtain tok where tok: "x_expected ?r = (x_expected r)\<lparr>s_Token := tok\<rparr>" "sameGlobal tok (s_Token (x_expected r))"
    using one(2) by blast
  have ih: "\<forall>te \<in> set es. attributed (snd te) (x_expected r)" "x_uncertain (fold event_step es ?r) = x_uncertain r"
    using Cons.IH [of ?r] Cons.prems tok attributed_token [OF tok(2)] one(3) by auto
  obtain tok' where "x_expected (fold event_step es ?r) = (x_expected r)\<lparr>s_Token := tok'\<rparr>" "sameGlobal tok' tok"
    using Cons.IH [of ?r] Cons.prems tok(1) by auto
  then show ?case using ih one(1) tok(2) by (auto simp: sameGlobal_iff)
qed


definition example_run :: execution where
  "example_run = newExecution (example_snapshot PlayStatePlay (Some (example_media ''a'' ''1'')) example_queue) {}"

definition example_gap :: Event where
  "example_gap = (example_event [] [] zeroToken)\<lparr>e_Gap := True\<rparr>"

definition example_events :: "(time \<times> Event) list" where
  "example_events =
     [(1, example_event volumeEvent [(''pid'', ''9''), (''level'', ''35''), (''mute'', ''off'')] zeroToken),
      (2, example_event volumeEvent [(''pid'', ''7''), (''level'', ''20''), (''mute'', ''off'')] zeroToken)]"


subsection \<open>Scalar confirmation is sound\<close>

text \<open>What a pending scalar command has seen agrees with what it asked for.\<close>

definition scalar_sound :: "scalarConfirmation \<Rightarrow> bool" where
  "scalar_sound p \<longleftrightarrow>
     (let m = sc_command p; s = sc_observed p in
      (m_Kind m = MutationKindVolume \<and> sc_volumeSeen p \<longrightarrow> s_Volume s = Some (m_Level m) \<and> s_Muted s \<noteq> None) \<and>
      (m_Kind m = MutationKindMute \<and> sc_volumeSeen p \<longrightarrow> s_Muted s = Some (m_Muted m)) \<and>
      (m_Kind m = MutationKindMode \<longrightarrow> (sc_repeatSeen p \<longrightarrow> s_Repeat s = m_Repeat m) \<and> (sc_shuffleSeen p \<longrightarrow> s_Shuffle s = m_Shuffle m)))"

lemma newScalarConfirmation_sound: "scalarMutation m \<Longrightarrow> scalar_sound (newScalarConfirmation m s)"
  by (auto simp: scalarMutation_def scalar_sound_def newScalarConfirmation_def Let_def)

lemma newScalarConfirmation_command [simp]: "sc_command (newScalarConfirmation m s) = m"
  by (simp add: newScalarConfirmation_def Let_def split: MutationKind.splits)

lemma acceptVolume_sound:
  assumes "acceptVolume e s p = Inr p'" and "m_Kind (sc_command p) \<noteq> MutationKindMode" and "scalarMutation (sc_command p)"
  shows "sc_command p' = sc_command p \<and> scalar_sound p'"
  using assms
  by (auto simp: acceptVolume_def Let_def scalar_sound_def scalarWant_def scalarMutation_def confirmedVolumeEvent_def
      split: if_splits)

lemma scalarDecision_sound:
  assumes "scalarDecision e r = Inr p'" and "x_scalar r = Some p" and "scalar_sound p" and "scalarMutation (sc_command p)"
  shows "sc_command p' = sc_command p \<and> scalar_sound p'"
  using assms acceptVolume_sound [of e "x_expected r" p p']
  by (auto simp: scalarDecision_def Let_def acceptRepeat_def acceptShuffle_def scalar_sound_def
      split: EventKind.splits if_splits)

text \<open>A worker with the pending scalar command \<open>m\<close>.\<close>

definition scalar_pending :: "Mutation \<Rightarrow> execution \<Rightarrow> bool" where
  "scalar_pending m r \<longleftrightarrow> (\<exists>p. x_scalar r = Some p \<and> sc_command p = m \<and> scalar_sound p)"

lemma acceptScalarEvent_pending:
  assumes "scalarMutation m" and "scalar_pending m r" and "acceptScalarEvent e r = (b, r')"
  shows "scalar_pending m r'"
proof -
  obtain p where p: "x_scalar r = Some p" "sc_command p = m" "scalar_sound p"
    using assms(2) by (auto simp: scalar_pending_def)
  show ?thesis
  proof (cases "scalarDecision e r")
    case (Inl ok)
    then show ?thesis using assms by (auto simp: acceptScalarEvent_def split: if_splits)
  next
    case (Inr p')
    then have "sc_command p' = m \<and> scalar_sound p'" using scalarDecision_sound p assms(1) by metis
    then show ?thesis using Inr assms(2,3)
      by (auto simp: acceptScalarEvent_def scalar_pending_def Let_def state_simps split: if_splits)
  qed
qed

lemma acceptMatched_scalar [simp]: "x_scalar (acceptMatched e i r) = x_scalar r"
  by (simp add: acceptMatched_def Let_def state_simps)

lemma acceptExpectedEvent_pending:
  "scalarMutation m \<Longrightarrow> scalar_pending m r \<Longrightarrow> acceptExpectedEvent e r = (b, r') \<Longrightarrow> scalar_pending m r'"
  using acceptScalarEvent_pending
  by (auto simp: acceptExpectedEvent_def Let_def scalar_pending_def split: option.splits if_splits) blast+

lemma acceptQueueEvent_scalar: "acceptQueueEvent now e r = (b, r') \<Longrightarrow> x_scalar r' = x_scalar r"
  by (auto simp: acceptQueueEvent_def Let_def state_simps split: if_splits)

lemma revoke_scalar [simp]: "x_scalar (revoke e r) = x_scalar r"
  by (simp add: revoke_def cancel_run_def split: option.splits)

lemma acceptEvent_pending:
  assumes "scalarMutation m" and "scalar_pending m r" and "acceptEvent now e r = (b, r')"
  shows "scalar_pending m r'"
proof (cases "target_event e (x_expected r)")
  case False
  then show ?thesis using assms by (simp add: acceptEvent_def)
next
  case True
  obtain b1 r1 where a: "acceptExpectedEvent e r = (b1, r1)" by fastforce
  have "scalar_pending m r1" using acceptExpectedEvent_pending [OF assms(1,2) a] .
  then show ?thesis using assms(3) a True acceptQueueEvent_scalar [of now e r1]
    by (cases b1) (auto simp: acceptEvent_def scalar_pending_def)
qed

lemma execution_event_pending:
  assumes "scalarMutation m" and "scalar_pending m r"
  shows "scalar_pending m (execution_event now e r)"
proof (rule execution_event_cases [of e r now])
  fix r' assume "acceptEvent now e r = (True, r')"
    "execution_event now e r = r'\<lparr>x_expected := (x_expected r)\<lparr>s_Token := e_Token e\<rparr>\<rparr>"
  then show ?thesis using acceptEvent_pending [OF assms] by (simp add: scalar_pending_def)
next
  fix r' assume "acceptEvent now e r = (False, r')" "execution_event now e r = revoke e r'"
  then show ?thesis using acceptEvent_pending [OF assms] by (simp add: scalar_pending_def)
qed (use assms in simp)

lemma add_expectation_frame [simp]:
  "x_scalar (add_expectation n ps r) = x_scalar r" "x_expected (add_expectation n ps r) = x_expected r"
  "x_queueStart (add_expectation n ps r) = x_queueStart r" "x_keepExpectations (add_expectation n ps r) = x_keepExpectations r"
  "x_cause (add_expectation n ps r) = x_cause r" "x_queueOwned (add_expectation n ps r) = x_queueOwned r"
  "x_inflight (add_expectation n ps r) = x_inflight r"
  by (simp_all add: add_expectation_def Let_def)

lemma expect_scalar:
  "scalarMutation m \<Longrightarrow> x_scalar (expect m r) = Some (newScalarConfirmation m (x_expected r))"
  by (auto simp: expect_def scalarMutation_def expect_volume_def Let_def)

lemma expect_pending: "scalarMutation m \<Longrightarrow> scalar_pending m (expect m r)"
  using expect_scalar newScalarConfirmation_sound by (auto simp: scalar_pending_def)

interpretation scalar_events: stepped_invariant event_step "\<lambda>r. scalarMutation m \<and> scalar_pending m r" for m
  by unfold_locales (blast intro: execution_event_pending)

text \<open>The requested values, as the confirmed snapshot reports them.\<close>

definition scalar_confirmed :: "Mutation \<Rightarrow> Snapshot \<Rightarrow> bool" where
  "scalar_confirmed m s \<longleftrightarrow>
     (m_Kind m = MutationKindVolume \<longrightarrow> s_Volume s = Some (m_Level m)) \<and>
     (m_Kind m = MutationKindMute \<longrightarrow> s_Muted s = Some (m_Muted m)) \<and>
     (m_Kind m = MutationKindMode \<longrightarrow> s_Repeat s = m_Repeat m \<and> s_Shuffle s = m_Shuffle m)"

text \<open>
  A scalar command is reported confirmed only on evidence for the value it asked for: whatever
  notifications arrive after the command registers its expectation, once the pending confirmation is
  ready, the snapshot it yields has exactly the requested volume, mute, or repeat and shuffle values,
  and leaves every other control as expected.
\<close>

theorem scalar_ready_sound:
  assumes "scalarMutation m" and "x_scalar (fold event_step es (expect m r)) = Some p" and "scalar_ready p"
  shows "scalar_confirmed m (scalar_result p s) \<and> s_EventUpdated (scalar_result p s) \<and>
         s_State (scalar_result p s) = s_State s \<and> s_Queue (scalar_result p s) = s_Queue s \<and>
         s_Media (scalar_result p s) = s_Media s \<and> s_ObservedAt (scalar_result p s) = s_ObservedAt s"
proof -
  have "scalar_pending m (fold event_step es (expect m r))"
    using scalar_events.run_inv [of m "expect m r" es] assms(1) expect_pending by blast
  then have "sc_command p = m" "scalar_sound p" using assms(2) by (auto simp: scalar_pending_def)
  then show ?thesis using assms(1,3)
    by (auto simp: scalar_ready_def scalar_sound_def scalar_confirmed_def scalar_result_def scalarMutation_def Let_def
        split: if_splits)
qed

definition example_volume :: "int \<Rightarrow> Mutation" where
  "example_volume level = zeroMutation\<lparr>m_Kind := MutationKindVolume, m_Player := ''7'', m_Level := level\<rparr>"

definition example_volume_event :: "string \<Rightarrow> Event" where
  "example_volume_event level =
     example_event volumeEvent [(''pid'', ''7''), (''level'', level), (''mute'', ''off'')] zeroToken"

theorem scalar_ready_sound_witness:
  "s_Volume (scalar_result (the (x_scalar (fold event_step [(5, example_volume_event ''35'')] (expect (example_volume 35) example_run))))
      (x_expected example_run)) = Some 35"
proof -
  let ?r = "fold event_step [(5, example_volume_event ''35'')] (expect (example_volume 35) example_run)"
  have m: "scalarMutation (example_volume 35)" and r: "scalar_ready (the (x_scalar ?r))" and n: "x_scalar ?r \<noteq> None"
    by code_simp+
  have sp: "x_scalar ?r = Some (the (x_scalar ?r))" using n by (rule option.collapse [symmetric])
  have k: "m_Kind (example_volume 35) = MutationKindVolume" "m_Level (example_volume 35) = 35" by code_simp+
  show ?thesis using conjunct1 [OF scalar_ready_sound [OF m sp r, of "x_expected example_run"]]
    unfolding scalar_confirmed_def k by simp
qed

subsection \<open>Reversals\<close>

lemma valid_event_state:
  assumes "d_Valid (Event_Data e)" and "d_Kind (Event_Data e) = EventState"
  shows "PlayState_Known (d_State (Event_Data e))"
proof -
  have k: "EventKind_of (e_Command e) = EventState" and g: "\<not> e_Gap e" using assms by auto
  have d: "Event_Data e = decodeStateEvent (e_Params e) (emptyEventData EventState (event_one (e_Params e) ''pid''))"
    using g by (simp add: Event_Data_def decodeEventData_def Let_def k emptyEventData_def)
  show ?thesis using assms(1) state_choice_known unfolding d
    by (simp add: decodeStateEvent_def Let_def)
qed

lemma acceptQueueEvent_kinds:
  assumes "d_Kind (Event_Data e) \<noteq> EventNowPlaying" and "d_Kind (Event_Data e) \<noteq> EventState"
  shows "\<exists>r'. acceptQueueEvent now e r = (False, r')"
  using decideQueueEvent_absorbed(2) [of "run_policy r" e now] assms
  by (auto simp: acceptQueueEvent_def Let_def)

lemma not_accepted_revokes:
  assumes "\<not> foreign_event e (x_expected r)" and "\<not> progress_event e" and "acceptEvent now e r = (False, r')"
  shows "x_cause (execution_event now e r) \<noteq> None"
  using assms by (simp add: execution_event_def revoke_cause split: option.splits)

lemma target_not_foreign: "target_event e s \<Longrightarrow> \<not> foreign_event e s"
  by (auto simp: target_event_def foreign_event_def Let_def)

text \<open>
  Once a pending volume or mute command has seen its value, a different value is a reversal by
  someone else, not an old acknowledgement: the next valid volume notification of this player that
  reports any other volume or mute than the one seen cancels the worker. Likewise for the repeat and
  the shuffle value of a pending play mode command.
\<close>

theorem scalar_reversal_revokes:
  assumes "target_event e (x_expected r)" and "x_scalar r = Some p" and "scalarMutation (sc_command p)"
    and "(m_Kind (sc_command p) \<noteq> MutationKindMode \<and> d_Kind (Event_Data e) = EventVolume \<and> sc_volumeSeen p \<and>
            (s_Volume (sc_observed p), s_Muted (sc_observed p)) \<noteq> (Some (d_Volume (Event_Data e)), Some (d_Muted (Event_Data e)))) \<or>
         (m_Kind (sc_command p) = MutationKindMode \<and> d_Kind (Event_Data e) = EventRepeat \<and> sc_repeatSeen p \<and>
            d_Repeat (Event_Data e) \<noteq> m_Repeat (sc_command p)) \<or>
         (m_Kind (sc_command p) = MutationKindMode \<and> d_Kind (Event_Data e) = EventShuffle \<and> sc_shuffleSeen p \<and>
            d_Shuffle (Event_Data e) \<noteq> m_Shuffle (sc_command p))"
  shows "x_cause (execution_event now e r) \<noteq> None"
proof -
  have "scalarDecision e r = Inl False"
    using assms(2-4)
    by (auto simp: scalarDecision_def Let_def acceptVolume_def acceptRepeat_def acceptShuffle_def confirmedVolumeEvent_def)
  then have "acceptExpectedEvent e r = (False, r)"
    using assms(1,4) by (auto simp: acceptExpectedEvent_def acceptScalarEvent_def target_event_def Let_def)
  moreover obtain r' where "acceptQueueEvent now e r = (False, r')"
    using acceptQueueEvent_kinds [of e now r] assms(4) by auto
  ultimately have "acceptEvent now e r = (False, r')" using assms(1) by (simp add: acceptEvent_def)
  moreover have "\<not> progress_event e" using assms(4) by (auto simp: progress_event_def)
  ultimately show ?thesis using not_accepted_revokes target_not_foreign [OF assms(1)] by blast
qed

definition example_seen :: execution where
  "example_seen = execution_event 5 (example_volume_event ''35'') (expect (example_volume 35) example_run)"

theorem scalar_reversal_revokes_witness:
  "x_cause example_seen = None \<and> x_cause (execution_event 6 (example_volume_event ''20'') example_seen) \<noteq> None"
proof -
  have t: "target_event (example_volume_event ''20'') (x_expected example_seen)"
    and s: "x_scalar example_seen \<noteq> None" and m: "scalarMutation (sc_command (the (x_scalar example_seen)))"
    and c: "x_cause example_seen = None"
    and p: "m_Kind (sc_command (the (x_scalar example_seen))) \<noteq> MutationKindMode"
      "d_Kind (Event_Data (example_volume_event ''20'')) = EventVolume" "sc_volumeSeen (the (x_scalar example_seen))"
      "(s_Volume (sc_observed (the (x_scalar example_seen))), s_Muted (sc_observed (the (x_scalar example_seen)))) \<noteq>
       (Some (d_Volume (Event_Data (example_volume_event ''20''))), Some (d_Muted (Event_Data (example_volume_event ''20''))))"
    by code_simp+
  have sp: "x_scalar example_seen = Some (the (x_scalar example_seen))" using s by (rule option.collapse [symmetric])
  show ?thesis using c scalar_reversal_revokes [OF t sp m, of 6] p by blast
qed

subsection \<open>The one-way boundary of a new queue\<close>

text \<open>
  Steps of the confirmation of a new queue: a notification, or a read that observed a play state
  (\<open>observeQueueState\<close> in \<open>queueStartObservation\<close>).
\<close>

datatype start_step = StartEvent time Event | StartRead PlayState

fun start_apply :: "start_step \<Rightarrow> execution \<Rightarrow> execution" where
  "start_apply (StartEvent now e) r = execution_event now e r"
| "start_apply (StartRead st) r = observeQueueState st r"

definition stop_expected :: "execution \<Rightarrow> bool" where
  "stop_expected r \<longleftrightarrow> (\<exists>want \<in> set (x_events r stateEvent). want \<noteq> [(''state'', ''play'')])"

definition boundary_inv :: "execution \<Rightarrow> bool" where
  "boundary_inv r \<longleftrightarrow>
     (x_queueStart r = queueAwaitingPlay \<or> x_queueStart r = queuePlayObserved \<and> \<not> stop_expected r) \<and>
     \<not> x_keepExpectations r \<and>
     set (x_events r stateEvent) \<subseteq> {[(''state'', ''stop'')], [(''state'', ''play'')]}"

lemma set_remove_nth: "set (remove_nth i xs) \<subseteq> set xs"
  by (auto simp: remove_nth_def dest: in_set_takeD in_set_dropD)

lemma EventState_command: "EventKind_of c = EventState \<longleftrightarrow> c = stateEvent"
  by (auto simp: EventKind_of_def event_names_def stateEvent_def split: if_splits)

lemma boundary_inv_cong:
  "x_queueStart r' = x_queueStart r \<Longrightarrow> x_keepExpectations r' = x_keepExpectations r \<Longrightarrow>
   x_events r' stateEvent = x_events r stateEvent \<Longrightarrow> boundary_inv r' = boundary_inv r"
  by (simp add: boundary_inv_def stop_expected_def)

lemma acceptScalarEvent_boundary: "boundary_inv r \<Longrightarrow> acceptScalarEvent e r = (b, r') \<Longrightarrow> boundary_inv r'"
  by (auto simp: acceptScalarEvent_def Let_def signal_def boundary_inv_def stop_expected_def split: sum.splits if_splits)

lemma acceptQueueEvent_boundary: "boundary_inv r \<Longrightarrow> acceptQueueEvent now e r = (b, r') \<Longrightarrow> boundary_inv r'"
  by (auto simp: acceptQueueEvent_def Let_def notifyObservation_def signal_def boundary_inv_def stop_expected_def
      split: if_splits)

lemma revoke_boundary: "boundary_inv r \<Longrightarrow> boundary_inv (revoke e r)"
  by (rule boundary_inv_cong [THEN iffD2]) (simp_all add: revoke_def cancel_run_def split: option.splits)

lemma acceptMatched_boundary:
  assumes "boundary_inv r"
  shows "boundary_inv (acceptMatched e i r)"
proof (cases "EventKind_of (e_Command e) = EventState")
  case False
  then have "e_Command e \<noteq> stateEvent" by (simp add: EventState_command)
  then show ?thesis using False assms
    by (intro boundary_inv_cong [THEN iffD2, OF _ _ _ assms]) (auto simp: acceptMatched_def Let_def notifyObservation_def signal_def)
next
  case True
  then have c: "e_Command e = stateEvent" by (simp add: EventState_command)
  show ?thesis using assms True set_remove_nth [of i "x_events r stateEvent"]
    by (auto simp: acceptMatched_def Let_def notifyObservation_def signal_def c boundary_inv_def stop_expected_def)
qed

lemma acceptExpectedEvent_boundary: "boundary_inv r \<Longrightarrow> acceptExpectedEvent e r = (b, r') \<Longrightarrow> boundary_inv r'"
  using acceptScalarEvent_boundary acceptMatched_boundary
  by (fastforce simp: acceptExpectedEvent_def Let_def split: option.splits if_splits)

lemma acceptEvent_boundary:
  assumes "boundary_inv r" and "acceptEvent now e r = (b, r')"
  shows "boundary_inv r'"
proof (cases "target_event e (x_expected r)")
  case True
  obtain b1 r1 where a: "acceptExpectedEvent e r = (b1, r1)" by fastforce
  have "boundary_inv r1" using acceptExpectedEvent_boundary [OF assms(1) a] .
  then show ?thesis using assms(2) a True acceptQueueEvent_boundary [of r1 now e b r']
    by (cases b1) (auto simp: acceptEvent_def)
qed (use assms in \<open>simp add: acceptEvent_def\<close>)

lemma execution_event_boundary:
  assumes "boundary_inv r"
  shows "boundary_inv (execution_event now e r)"
proof (rule execution_event_cases [of e r now])
  fix r' assume "acceptEvent now e r = (True, r')"
    "execution_event now e r = r'\<lparr>x_expected := (x_expected r)\<lparr>s_Token := e_Token e\<rparr>\<rparr>"
  then show ?thesis using acceptEvent_boundary [OF assms] by (simp add: boundary_inv_def stop_expected_def)
next
  fix r' assume "acceptEvent now e r = (False, r')" "execution_event now e r = revoke e r'"
  then show ?thesis using acceptEvent_boundary [OF assms] revoke_boundary by simp
qed (use assms in simp)

lemma observeQueueState_boundary: "boundary_inv r \<Longrightarrow> boundary_inv (observeQueueState st r)"
  by (auto simp: observeQueueState_def boundary_inv_def stop_expected_def)

interpretation queue_start: stepped_invariant start_apply boundary_inv
proof
  fix r s assume "boundary_inv r"
  then show "boundary_inv (start_apply s r)"
    by (cases s) (auto intro: execution_event_boundary observeQueueState_boundary)
qed

lemma expect_queue_boundary:
  assumes "m_Kind m = MutationKindQueue" and "\<not> m_Append m" and "x_events r stateEvent = []"
  shows "boundary_inv (expect m r)"
  using assms
  by (auto simp: expect_def expect_queue_def expect_state_def add_expectation_def Let_def boundary_inv_def
      event_name_defs)

text \<open>
  Starting a new queue has a one-way boundary. The queue command tolerates a loading Stop only
  until Play: after any interleaving of notifications and reads in which Play has been observed
  (by either), and before the queue is confirmed as owned, a notification that this player
  stopped, paused or became unknown cancels the worker, however many loading notifications came
  before.
\<close>

theorem stop_after_play_revokes:
  assumes "m_Kind m = MutationKindQueue" and "\<not> m_Append m" and "x_events r stateEvent = []"
    and "r' = fold start_apply steps (expect m r)" and "x_queueStart r' = queuePlayObserved" and "\<not> x_queueOwned r'"
    and "target_event e (x_expected r')" and "d_Kind (Event_Data e) = EventState" and "d_State (Event_Data e) \<noteq> PlayStatePlay"
  shows "x_cause (execution_event now e r') \<noteq> None"
proof -
  have inv: "boundary_inv r'" using queue_start.run_inv expect_queue_boundary [OF assms(1-3)] assms(4) by simp
  have c: "e_Command e = stateEvent" using assms(8) EventState_command by simp
  have "PlayState_string (d_State (Event_Data e)) \<noteq> ''play''"
  proof
    assume a: "PlayState_string (d_State (Event_Data e)) = ''play''"
    have "PlayState_Known (d_State (Event_Data e))"
      using valid_event_state [of e] assms(7,8) by (simp add: target_event_def)
    then have "PlayState_of (PlayState_string (d_State (Event_Data e))) = d_State (Event_Data e)" by (rule PlayState_of_string)
    with a assms(9) show False by (simp add: PlayState_of_def)
  qed
  then have iw: "index_where (expectation_matches (Event_Data e)) (x_events r' (e_Command e)) = None"
    using inv assms(5) c by (auto simp: boundary_inv_def stop_expected_def expectation_matches_def)
  have "acceptExpectedEvent e r' = (False, r')"
    unfolding acceptExpectedEvent_def Let_def iw using assms(8) by simp
  moreover obtain r1 where "acceptQueueEvent now e r' = (False, r1)"
    using assms(6) by (auto simp: acceptQueueEvent_def run_policy_def policy_simps)
  ultimately have "acceptEvent now e r' = (False, r1)" using assms(7) by (simp add: acceptEvent_def)
  moreover have "\<not> progress_event e" using assms(8) by (simp add: progress_event_def)
  ultimately show ?thesis using not_accepted_revokes target_not_foreign [OF assms(7)] by blast
qed

definition example_queue_start :: execution where
  "example_queue_start =
     fold start_apply
       [StartEvent 1 (example_event stateEvent [(''pid'', ''7''), (''state'', ''stop'')] zeroToken),
        StartEvent 2 (example_event nowPlayingEvent [(''pid'', ''7'')] zeroToken), StartRead PlayStatePlay]
       (expect (zeroMutation\<lparr>m_Kind := MutationKindQueue\<rparr>)
         (example_run\<lparr>x_expected := example_snapshot PlayStateStop None example_queue\<rparr>))"

theorem stop_after_play_revokes_witness:
  "x_cause example_queue_start = None \<and>
   x_cause (execution_event 9 (example_event stateEvent [(''pid'', ''7''), (''state'', ''stop'')] zeroToken) example_queue_start) \<noteq> None"
proof -
  let ?e = "example_event stateEvent [(''pid'', ''7''), (''state'', ''stop'')] zeroToken"
  have c: "x_cause example_queue_start = None" and p: "x_queueStart example_queue_start = queuePlayObserved"
    and o: "\<not> x_queueOwned example_queue_start" and t: "target_event ?e (x_expected example_queue_start)"
    and k: "d_Kind (Event_Data ?e) = EventState" "d_State (Event_Data ?e) \<noteq> PlayStatePlay"
    and m: "m_Kind (zeroMutation\<lparr>m_Kind := MutationKindQueue\<rparr>) = MutationKindQueue"
      "\<not> m_Append (zeroMutation\<lparr>m_Kind := MutationKindQueue\<rparr>)"
      "x_events (example_run\<lparr>x_expected := example_snapshot PlayStateStop None example_queue\<rparr>) stateEvent = []"
    by (code_simp, code_simp, code_simp, code_simp, code_simp, code_simp, code_simp, code_simp, code_simp)
  show ?thesis
    using c stop_after_play_revokes [OF m example_queue_start_def p o t k] by blast
qed

end
