(* ===== verification/Readback.thy ===== *)
theory Readback
  imports Attribution
begin

section \<open>Readback decisions of a worker\<close>

text \<open>
  The decisions a worker takes under \<open>execution.mu\<close> on a complete readback, in
  \<open>internal/control\<close>: the transition gate (\<open>queueObservationDecision\<close>), the confirmation of a new
  queue (\<open>queueStartObservation\<close>), of an append (\<open>appendObservation\<close>), of a removal
  (\<open>removeObservation\<close>) and of a skip (\<open>acceptSkipReadback\<close>), the final admission of a removal
  (\<open>removalAllowed\<close>) and the progress of a buffered queue. \<open>cause\<close> is the cause of the context
  the caller waits under; \<open>None\<close> is a nil error.
\<close>

subsection \<open>Captured decisions\<close>

fun has_diagnostic :: "error \<Rightarrow> bool" where
  "has_diagnostic (diagnosticError c r) = True"
| "has_diagnostic (CommandError d c) = has_diagnostic c"
| "has_diagnostic (Wrapped a b) = (has_diagnostic a \<or> has_diagnostic b)"
| "has_diagnostic _ = False"

text \<open>\<open>errors.As(err, &ownership)\<close>: the first ownership error of the chain.\<close>

fun as_OwnershipError :: "error \<Rightarrow> (string \<times> string list) option" where
  "as_OwnershipError (OwnershipError r fs) = Some (r, fs)"
| "as_OwnershipError (diagnosticError c r) = as_OwnershipError c"
| "as_OwnershipError (CommandError d c) = as_OwnershipError c"
| "as_OwnershipError (Wrapped a b) =
     (case as_OwnershipError a of Some x \<Rightarrow> Some x | None \<Rightarrow> as_OwnershipError b)"
| "as_OwnershipError _ = None"

text \<open>
  Whether \<open>evidenceFor\<close> yields evidence with a detection time: a captured decision has one, and of
  the ownership errors those the event callback made.
\<close>

definition evidence_detected :: "error \<Rightarrow> bool" where
  "evidence_detected e \<longleftrightarrow>
     has_diagnostic e \<or>
     (case as_OwnershipError e of Some (reason, _) \<Rightarrow> reason = ''event_gap'' \<or> reason = ''unexpected_event'' | None \<Rightarrow> False)"

definition captureDecision :: "error option \<Rightarrow> string \<Rightarrow> error option" where
  "captureDecision err rule =
     (case err of
        None \<Rightarrow> None
      | Some e \<Rightarrow> if evidence_detected e then Some e else Some (diagnosticError e rule))"

lemma captureDecision_Is:
  "captureDecision (Some e) rule = Some e' \<Longrightarrow> errors_Is e t \<Longrightarrow> errors_Is e' t"
  by (auto simp: captureDecision_def split: if_splits)

subsection \<open>Coverage of events by a read\<close>

text \<open>
  A complete read at the exact current token, with a player revision past the one before the
  command, covers every event the callback has seen.
\<close>

definition cover_events :: "Snapshot \<Rightarrow> Snapshot \<Rightarrow> execution \<Rightarrow> execution" where
  "cover_events before after r =
     (if \<not> s_EventUpdated after \<and> s_Token after = s_Token (x_expected r) \<and>
         t_Player (s_Token after) > t_Player (s_Token before)
      then r\<lparr>x_observedRevision := x_eventRevision r\<rparr> else r)"

subsection \<open>Transition gate\<close>

definition queueObservationDecision ::
  "config_Player \<Rightarrow> time \<Rightarrow> error option \<Rightarrow> Snapshot \<Rightarrow> Snapshot \<Rightarrow> execution \<Rightarrow> queueDecision \<times> execution" where
  "queueObservationDecision p now cause before fresh r =
     (let d = decideQueueObservation
                \<lparr>qs_Owned = x_queueOwned r, qs_Automating = x_automating r \<or> x_loading r,
                 qs_ExpectedState = s_State before, qs_WaitUntil = x_queueWait r,
                 qs_PlaybackUntil = x_playbackDeadline r\<rparr>
                \<lparr>f_Now = now, f_Before = before, f_Observed = fresh, f_Cancellation = x_cause r,
                 f_Unsafe = deviceObservationSafety p fresh,
                 f_Expired = (case cause of None \<Rightarrow> False | Some c \<Rightarrow> errors_Is c errQueueTransitionTimeout),
                 f_PendingEvents = observationPending r\<rparr>;
          d' = (if qd_Action d = queueRelease then d\<lparr>qd_Err := captureDecision (qd_Err d) (qd_Rule d)\<rparr> else d)
      in (d', r\<lparr>x_queueWait := qd_WaitUntil d\<rparr>))"

subsection \<open>Confirmation of a new queue\<close>

definition queueStartObservation ::
  "config_Player \<Rightarrow> time \<Rightarrow> error option \<Rightarrow> Snapshot \<Rightarrow> Snapshot \<Rightarrow> time \<Rightarrow> execution \<Rightarrow> queueStartDecision \<times> execution" where
  "queueStartObservation p now cause before after deadline r =
     (let r = cover_events before after (observeQueueState (s_State after) r);
          d = decideQueueStart
                \<lparr>sf_Now = now, sf_Deadline = deadline, sf_Phase = x_queueStart r, sf_Bounded = x_bounded r,
                 sf_Members = x_members r, sf_Before = before, sf_Observed = after, sf_Cancellation = cause,
                 sf_Unsafe = deviceObservationSafety p after, sf_PendingEvents = observationPending r\<rparr>;
          d = (case x_ordered r of
                 Some ids \<Rightarrow>
                   if sd_Action d = queueStartConfirm \<and> \<not> orderedQueue (s_Queue after) ids
                   then if appendQueueProblem zeroQueuePage (s_Queue after) ids
                        then \<lparr>sd_Action = queueStartAbort, sd_Rule = ''queue_order_changed'',
                              sd_Err = Some (ownershipMismatch ''pending_readback_changed'' [''queue_items''])\<rparr>
                        else \<lparr>sd_Action = queueStartWait, sd_Rule = ''queue_order_pending'', sd_Err = None\<rparr>
                   else d
               | None \<Rightarrow> d)
      in (if sd_Action d = queueStartAbort then d\<lparr>sd_Err := captureDecision (sd_Err d) (sd_Rule d)\<rparr> else d, r))"

definition queueResultProblem_run :: "Snapshot \<Rightarrow> execution \<Rightarrow> string" where
  "queueResultProblem_run s r =
     (case x_ordered r of
        Some ids \<Rightarrow> if \<not> orderedQueue (s_Queue s) ids then ''queue_incomplete_or_invalid''
                    else queueResultProblem s (x_members r) (x_bounded r)
      | None \<Rightarrow> queueResultProblem s (x_members r) (x_bounded r))"

definition queueResultMatches :: "Snapshot \<Rightarrow> execution \<Rightarrow> bool" where
  "queueResultMatches s r \<longleftrightarrow> queueResultProblem_run s r = []"

subsection \<open>Append and removal\<close>

definition pendingMismatch :: "string list \<Rightarrow> error" where
  "pendingMismatch flds = ownershipMismatch ''pending_readback_changed'' flds"

text \<open>The checks that precede the media test in \<open>appendObservation\<close> and \<open>removeObservation\<close>.\<close>

definition loadingGuard ::
  "config_Player \<Rightarrow> time \<Rightarrow> error option \<Rightarrow> Snapshot \<Rightarrow> Snapshot \<Rightarrow> execution \<Rightarrow> error option" where
  "loadingGuard p now cause before after r =
     (case cause of
        Some e \<Rightarrow> Some e
      | None \<Rightarrow>
          if \<not> IsZero (x_queueWait r) \<and> \<not> now < x_queueWait r then Some errQueueTransitionTimeout
          else case deviceObservationSafety p after of
                 Some e \<Rightarrow> Some e
               | None \<Rightarrow> if queueLoadingControls before after \<noteq> []
                         then Some (pendingMismatch (queueLoadingControls before after)) else None)"

definition loadingState :: "PlayState \<Rightarrow> bool" where
  "loadingState st \<longleftrightarrow> st = PlayStatePlay \<or> st = PlayStateStop \<or> st = PlayStateUnknown"

definition appendConfirmed :: "Snapshot \<Rightarrow> execution \<Rightarrow> bool" where
  "appendConfirmed after r \<longleftrightarrow>
     s_State after = PlayStatePlay \<and> queuedMedia (s_Queue after) (s_Media after) \<and>
     orderedQueue (s_Queue after) (case x_ordered r of None \<Rightarrow> [] | Some ids \<Rightarrow> ids) \<and> \<not> observationPending r"

definition appendObservation ::
  "config_Player \<Rightarrow> time \<Rightarrow> error option \<Rightarrow> Snapshot \<Rightarrow> Snapshot \<Rightarrow> execution \<Rightarrow> bool result \<times> execution" where
  "appendObservation p now cause before after r =
     (case loadingGuard p now cause before after r of
        Some e \<Rightarrow> (Inl e, r)
      | None \<Rightarrow>
          if appendQueueProblem (s_Queue before) (s_Queue after) (case x_ordered r of None \<Rightarrow> [] | Some ids \<Rightarrow> ids)
          then (Inl (pendingMismatch [''queue_items'']), r)
          else if \<not> loadingState (s_State after) then (Inl (pendingMismatch [''state'']), r)
          else let valid = queuedMedia (s_Queue after) (s_Media after);
                   pending = (emptyMedia (s_Media after) \<or> transitionalQueueMedia (s_Queue after) (s_Media after) \<or>
                              (s_State after \<noteq> PlayStatePlay \<and> queuedIdentity (s_Queue after) (s_Media after)))
               in if \<not> valid \<and> \<not> pending then (Inl (pendingMismatch [''media'']), r)
                  else let r = cover_events before after r
                       in if appendConfirmed after r
                          then (Inr True, r\<lparr>x_queueWait := 0, x_events := (x_events r)(queueEvent := [])\<rparr>)
                          else (Inr False, r))"

definition sameOccurrence :: "Snapshot \<Rightarrow> nat \<Rightarrow> bool" where
  "sameOccurrence after i \<longleftrightarrow>
     (case s_Media after of
        None \<Rightarrow> False
      | Some m \<Rightarrow> md_ID m = md_ID (q_Items (s_Queue after) ! i) \<and> md_QueueID m = md_QueueID (q_Items (s_Queue after) ! i))"

definition removeObservation ::
  "config_Player \<Rightarrow> time \<Rightarrow> error option \<Rightarrow> Snapshot \<Rightarrow> Snapshot \<Rightarrow> int \<Rightarrow> execution \<Rightarrow> bool result \<times> execution" where
  "removeObservation p now cause before after n r =
     (case loadingGuard p now cause before after r of
        Some e \<Rightarrow> (Inl e, r)
      | None \<Rightarrow>
          (case removedQueuePrefix (s_Queue before) (s_Queue after) n of
             (removed, False) \<Rightarrow> (Inl (pendingMismatch [''queue_items'']), r)
           | (removed, True) \<Rightarrow>
               let position = queueIndex before in
               if \<not> queuedMedia (s_Queue before) (s_Media before) \<or> position < removed \<or>
                  position - removed \<ge> int (length (q_Items (s_Queue after)))
               then (Inl (pendingMismatch [''media'']), r)
               else if \<not> loadingState (s_State after) then (Inl (pendingMismatch [''state'']), r)
               else let valid = queuedMedia (s_Queue after) (s_Media after);
                        pending = (emptyMedia (s_Media after) \<or> transitionalQueueMedia (s_Queue after) (s_Media after) \<or>
                                   queuedMedia (s_Queue before) (s_Media after))
                    in if \<not> valid \<and> \<not> pending then (Inl (pendingMismatch [''media'']), r)
                       else let r = cover_events before after r
                            in if removed = n \<and> appendConfirmed after r \<and> sameOccurrence after (nat (position - removed))
                               then (Inr True, r\<lparr>x_queueWait := 0,
                                       x_events := (x_events r)(queueEvent := [], nowPlayingEvent := [])\<rparr>)
                               else (Inr False, r)))"

text \<open>The last index of a matching element; the scan of \<open>removalAllowed\<close> does not stop early.\<close>

definition last_index_where :: "('a \<Rightarrow> bool) \<Rightarrow> 'a list \<Rightarrow> int" where
  "last_index_where p xs =
     (case index_where p (rev xs) of None \<Rightarrow> -1 | Some i \<Rightarrow> int (length xs) - 1 - int i)"

definition removalAllowed :: "Snapshot \<Rightarrow> Mutation \<Rightarrow> execution \<Rightarrow> bool" where
  "removalAllowed s m r =
     (case (x_buffered r, s_Media s) of
        (Some b, Some media) \<Rightarrow>
          let n = length (m_QueueIDs m); items = q_Items (s_Queue s) in
          s_State s = PlayStatePlay \<and> queuedMedia (s_Queue s) (Some media) \<and> n \<noteq> 0 \<and> n < length items \<and>
          zip_all (\<lambda>item qid. md_QueueID item = qid) (take n items) (m_QueueIDs m) \<and>
          last_index_where (\<lambda>item. md_QueueID item = md_QueueID media \<and> md_ID item = md_ID media) items - int n
            \<ge> b_RetainPrevious (bp_policy b)
      | _ \<Rightarrow> False)"

subsection \<open>Skip\<close>

definition skipMutation :: Mutation where
  "skipMutation = zeroMutation\<lparr>m_Kind := MutationKindSkip\<rparr>"

definition acceptSkipReadback :: "error option \<Rightarrow> Snapshot \<Rightarrow> Snapshot \<Rightarrow> execution \<Rightarrow> bool result \<times> execution" where
  "acceptSkipReadback cause before after r =
     (case cause of
        Some e \<Rightarrow> (Inl e, r)
      | None \<Rightarrow>
          if pendingChanges before after skipMutation \<noteq> []
          then (Inl (pendingMismatch (pendingChanges before after skipMutation)), r)
          else let r = cover_events before after r
               in if observationPending r \<or> \<not> skipConfirmed before after then (Inr False, r)
                  else (Inr True, r\<lparr>x_events := (\<lambda>_. []), x_keepExpectations := False\<rparr>))"

subsection \<open>Buffered progress\<close>

definition moreParts :: "execution \<Rightarrow> bool" where
  "moreParts r =
     (case x_queueLoading r of None \<Rightarrow> False | Some q \<Rightarrow> ql_ConfirmedParts q < int (length (x_parts r)))"

definition bufferedProgress :: "bufferedPlayback \<Rightarrow> int \<Rightarrow> int \<Rightarrow> QueueLoadingProgress \<Rightarrow> bool \<times> QueueLoadingProgress" where
  "bufferedProgress b resident position p =
     (let remaining = resident - position - 1; current = bp_pruned b + position; pruned = bp_pruned b in
      (ql_BufferedTracks p \<noteq> Some resident \<or> ql_RemainingTracks p \<noteq> Some remaining \<or>
       ql_CurrentIndex p \<noteq> Some current \<or> ql_PrunedTracks p \<noteq> Some pruned,
       p\<lparr>ql_Mode := ''buffered'', ql_BufferedTracks := Some resident, ql_RemainingTracks := Some remaining,
         ql_CurrentIndex := Some current, ql_PrunedTracks := Some pruned,
         ql_SessionExpiresAt := (if IsZero (bp_expires b) then ql_SessionExpiresAt p else Some (bp_expires b))\<rparr>))"

definition updateBufferedProgress :: "execution \<Rightarrow> bool result \<times> execution" where
  "updateBufferedProgress r =
     (case x_buffered r of
        None \<Rightarrow> (Inr False, r)
      | Some b \<Rightarrow>
          (case bufferedPosition (x_expected r) (case x_ordered r of None \<Rightarrow> [] | Some ids \<Rightarrow> ids) of
             Inl e \<Rightarrow> (Inl e, r)
           | Inr position \<Rightarrow>
               (case bufferedProgress b (int (length (q_Items (s_Queue (x_expected r))))) (int position) (the (x_queueLoading r)) of
                  (changed, p') \<Rightarrow> (Inr changed, r\<lparr>x_queueLoading := Some p'\<rparr>))))"

subsection \<open>Facts shared by the confirmations\<close>

abbreviation ordered_ids :: "execution \<Rightarrow> ID list" where
  "ordered_ids r \<equiv> (case x_ordered r of None \<Rightarrow> [] | Some ids \<Rightarrow> ids)"

lemma cover_events_frame [state_simps]:
  "x_ordered (cover_events before after r) = x_ordered r" "x_events (cover_events before after r) = x_events r"
  "x_members (cover_events before after r) = x_members r" "x_bounded (cover_events before after r) = x_bounded r"
  "x_expected (cover_events before after r) = x_expected r" "x_queueStart (cover_events before after r) = x_queueStart r"
  by (simp_all add: cover_events_def)

lemma observationPending_frame [simp]:
  "observationPending (r\<lparr>x_queueWait := w\<rparr>) = observationPending r"
  "observationPending (r\<lparr>x_events := es\<rparr>) = observationPending r"
  "observationPending (r\<lparr>x_keepExpectations := k\<rparr>) = observationPending r"
  by (simp_all add: observationPending_def)

lemma queueLoadingControls_iff:
  "queueLoadingControls before after = [] \<longleftrightarrow>
     t_Generation (s_Token before) = t_Generation (s_Token after) \<and> sameControls before after"
  by (auto simp: queueLoadingControls_def stateChanges_Nil sameControls_def sameQueue_def)

lemma loadingGuard_None:
  "loadingGuard p now cause before after r = None \<longleftrightarrow>
     cause = None \<and> (x_queueWait r = 0 \<or> now < x_queueWait r) \<and> writable_target p after \<and>
     t_Generation (s_Token before) = t_Generation (s_Token after) \<and> sameControls before after"
  using deviceObservationSafety_None [of p after] queueLoadingControls_iff [of before after]
  by (auto simp: loadingGuard_def IsZero_def split: option.splits)

text \<open>What every confirmed readback of a running queue shares.\<close>

definition confirmed_loading :: "config_Player \<Rightarrow> Snapshot \<Rightarrow> Snapshot \<Rightarrow> execution \<Rightarrow> bool" where
  "confirmed_loading p before after r \<longleftrightarrow>
     writable_target p after \<and> t_Generation (s_Token before) = t_Generation (s_Token after) \<and>
     sameControls before after \<and> s_State after = PlayStatePlay \<and> queuedMedia (s_Queue after) (s_Media after) \<and>
     orderedQueue (s_Queue after) (ordered_ids r)"

lemma appendObservation_True:
  assumes "appendObservation p now cause before after r = (Inr True, r')"
  shows "confirmed_loading p before after r" and "cause = None"
    and "\<not> appendQueueProblem (s_Queue before) (s_Queue after) (ordered_ids r)"
    and "\<not> observationPending r'" and "x_events r' queueEvent = []" and "x_queueWait r' = 0"
  using assms
  by (auto simp: appendObservation_def loadingGuard_None confirmed_loading_def appendConfirmed_def Let_def state_simps
      split: option.splits if_splits)

lemma removeObservation_True:
  assumes "removeObservation p now cause before after n r = (Inr True, r')"
  shows "confirmed_loading p before after r" and "cause = None"
    and "removedQueuePrefix (s_Queue before) (s_Queue after) n = (n, True)"
    and "n \<le> queueIndex before" and "queueIndex before - n < int (length (q_Items (s_Queue after)))"
    and "sameOccurrence after (nat (queueIndex before - n))"
    and "queuedMedia (s_Queue before) (s_Media before)"
    and "\<not> observationPending r'" and "x_events r' queueEvent = []" and "x_events r' nowPlayingEvent = []" and "x_queueWait r' = 0"
  using assms
  by (auto simp: removeObservation_def loadingGuard_None confirmed_loading_def appendConfirmed_def Let_def state_simps
      split: option.splits if_splits prod.splits bool.splits)

text \<open>
  An append is confirmed only when the queue is exactly what was planned: while the operation is
  not cancelled and its transition wait has not expired, on the same connection and with unchanged
  controls, the device plays an entry of a queue whose media IDs are the whole ordered plan, which
  still begins with every old entry under its old queue ID, and every event seen is covered by the
  read. Confirming closes the attribution of queue notifications, so a later one revokes.
\<close>

theorem append_confirms_plan:
  assumes "appendObservation p now cause before after r = (Inr True, r')"
  shows "confirmed_loading p before after r \<and> cause = None \<and>
         map md_ID (q_Items (s_Queue after)) = ordered_ids r \<and>
         prefix (map occurrence (q_Items (s_Queue before))) (map occurrence (q_Items (s_Queue after))) \<and>
         distinct (map md_QueueID (q_Items (s_Queue after))) \<and>
         \<not> observationPending r' \<and> x_events r' queueEvent = [] \<and> x_queueWait r' = 0"
proof -
  note a = appendObservation_True [OF assms]
  from a(1) have o: "orderedQueue (s_Queue after) (ordered_ids r)" by (simp add: confirmed_loading_def)
  from a(3) have "prefix (map occurrence (q_Items (s_Queue before))) (map occurrence (q_Items (s_Queue after)))"
    by (simp add: appendQueueProblem_iff)
  with a o show ?thesis by (simp add: orderedQueue_iff)
qed

definition example_player :: config_Player where
  "example_player = \<lparr>cp_WritesEnabled = True, cp_Key = ''kitchen'', cp_Address = [], cp_FingerprintSHA256 = [],
     cp_Serial = ''S1'', cp_Model = [], cp_VolumeCeiling = Some 40\<rparr>"

definition example_playing :: "Media \<Rightarrow> Media list \<Rightarrow> Snapshot" where
  "example_playing m items = example_snapshot PlayStatePlay (Some m) (example_page items)"

theorem append_confirms_plan_witness:
  "let before = example_playing (example_media ''a'' ''1'') [example_media ''a'' ''1''];
       after = example_playing (example_media ''a'' ''1'') [example_media ''a'' ''1'', example_media ''b'' ''2''];
       r = (newExecution before {''a'', ''b''})\<lparr>x_ordered := Some [''a'', ''b'']\<rparr>
   in confirmed_loading example_player before after r \<and> map md_ID (q_Items (s_Queue after)) = ordered_ids r"
proof -
  let ?before = "example_playing (example_media ''a'' ''1'') [example_media ''a'' ''1'']"
  let ?after = "example_playing (example_media ''a'' ''1'') [example_media ''a'' ''1'', example_media ''b'' ''2'']"
  let ?r = "(newExecution ?before {''a'', ''b''})\<lparr>x_ordered := Some [''a'', ''b'']\<rparr>"
  have c: "fst (appendObservation example_player 5 None ?before ?after ?r) = Inr True" by code_simp
  obtain r' where "appendObservation example_player 5 None ?before ?after ?r = (Inr True, r')"
    using c by (metis prod.collapse)
  then show ?thesis using append_confirms_plan by (simp add: Let_def)
qed

subsection \<open>Removal keeps the current occurrence\<close>

lemma queueIndex_at:
  assumes "orderedQueue (s_Queue s) ids" and "sameOccurrence s i" and "i < length (q_Items (s_Queue s))"
  shows "queueIndex s = int i"
proof -
  obtain m where m: "s_Media s = Some m" "md_ID m = md_ID (q_Items (s_Queue s) ! i)"
    "md_QueueID m = md_QueueID (q_Items (s_Queue s) ! i)"
    using assms(2) by (auto simp: sameOccurrence_def split: option.splits)
  have d: "distinct (map (\<lambda>x. (md_QueueID x, md_ID x)) (q_Items (s_Queue s)))"
    using assms(1) by (auto simp: orderedQueue_iff distinct_map inj_on_def)
  have "index_where (\<lambda>x. (md_QueueID x, md_ID x) = (md_QueueID (q_Items (s_Queue s) ! i), md_ID (q_Items (s_Queue s) ! i)))
          (q_Items (s_Queue s)) = Some i"
    using index_where_distinct [OF d assms(3)] by simp
  then show ?thesis using m by (simp add: queueIndex_def)
qed

text \<open>
  A removal is confirmed only when playback was uninterrupted: exactly the requested number of
  entries is gone from the front, the rest is the ordered plan, the device still plays, and the
  current entry is the same occurrence as before, moved forward by the number removed, even when
  the device renumbered the queue IDs and the same track occurs more than once.
\<close>

theorem removal_keeps_occurrence:
  assumes "removeObservation p now cause before after n r = (Inr True, r')"
  shows "confirmed_loading p before after r \<and> cause = None \<and> 0 \<le> n \<and>
         map md_ID (q_Items (s_Queue after)) = drop (nat n) (map md_ID (q_Items (s_Queue before))) \<and>
         map md_ID (q_Items (s_Queue after)) = ordered_ids r \<and>
         queueIndex after = queueIndex before - n \<and> \<not> observationPending r'"
proof -
  note a = removeObservation_True [OF assms]
  have o: "orderedQueue (s_Queue after) (ordered_ids r)" using a(1) by (simp add: confirmed_loading_def)
  note q = removedQueuePrefix_True [OF a(3)]
  have n: "0 \<le> n" using q by simp
  have i: "nat (queueIndex before - n) < length (q_Items (s_Queue after))" using a(4,5) by linarith
  have "queueIndex after = int (nat (queueIndex before - n))" using queueIndex_at [OF o a(6) i] .
  then have "queueIndex after = queueIndex before - n" using a(4) by simp
  then show ?thesis using a q o n by (simp add: orderedQueue_iff drop_map)
qed

theorem removal_keeps_occurrence_witness:
  "let a1 = example_media ''a'' ''1''; b2 = example_media ''b'' ''2''; a3 = example_media ''a'' ''3'';
       before = example_playing a3 [a1, b2, a3];
       after = example_playing (example_media ''a'' ''2'') [example_media ''b'' ''1'', example_media ''a'' ''2''];
       r = (newExecution before {''a'', ''b''})\<lparr>x_ordered := Some [''b'', ''a'']\<rparr>
   in queueIndex before = 2 \<and> queueIndex after = queueIndex before - 1"
proof -
  let ?before = "example_playing (example_media ''a'' ''3'') [example_media ''a'' ''1'', example_media ''b'' ''2'', example_media ''a'' ''3'']"
  let ?after = "example_playing (example_media ''a'' ''2'') [example_media ''b'' ''1'', example_media ''a'' ''2'']"
  let ?r = "(newExecution ?before {''a'', ''b''})\<lparr>x_ordered := Some [''b'', ''a'']\<rparr>"
  have c: "fst (removeObservation example_player 5 None ?before ?after 1 ?r) = Inr True" and q: "queueIndex ?before = 2" by code_simp+
  obtain r' where "removeObservation example_player 5 None ?before ?after 1 ?r = (Inr True, r')"
    using c by (metis prod.collapse)
  then show ?thesis using removal_keeps_occurrence q by (simp add: Let_def)
qed

subsection \<open>Removal never reaches the current entry\<close>

lemma last_index_where_eq:
  assumes "index_where p xs = Some i" and "\<And>j. j < length xs \<Longrightarrow> p (xs ! j) \<Longrightarrow> j = i"
  shows "last_index_where p xs = int i"
proof -
  have i: "i < length xs" "p (xs ! i)" using index_where_Some [OF assms(1)] by auto
  then have "\<exists>x \<in> set (rev xs). p x" by auto
  from index_where_ex [OF this] obtain k where k: "index_where p (rev xs) = Some k" by (rule exE)
  have kp: "k < length xs" "p (rev xs ! k)" using index_where_Some [OF k] by simp_all
  then have "length xs - Suc k = i" using assms(2) [of "length xs - Suc k"] by (simp add: rev_nth)
  then show ?thesis using k kp(1) by (simp add: last_index_where_def)
qed

lemma zip_all_take:
  assumes "zip_all (\<lambda>x y. f x = y) (take (length ys) xs) ys" and "length ys \<le> length xs"
  shows "map f (take (length ys) xs) = ys"
proof -
  have "prefix (map f (take (length ys) xs)) ys" using assms(1) by (simp only: zip_all_map_prefix)
  then show ?thesis using assms(2) prefix_length_less [of "map f (take (length ys) xs)" ys]
    by (auto simp: strict_prefix_def)
qed

lemma removalAllowed_D:
  assumes "removalAllowed s m r"
  obtains b media where "x_buffered r = Some b" "s_Media s = Some media" "s_State s = PlayStatePlay"
    "queuedMedia (s_Queue s) (Some media)" "m_QueueIDs m \<noteq> []" "length (m_QueueIDs m) < length (q_Items (s_Queue s))"
    "map md_QueueID (take (length (m_QueueIDs m)) (q_Items (s_Queue s))) = m_QueueIDs m"
    "last_index_where (\<lambda>item. md_QueueID item = md_QueueID media \<and> md_ID item = md_ID media) (q_Items (s_Queue s))
       - int (length (m_QueueIDs m)) \<ge> b_RetainPrevious (bp_policy b)"
proof -
  let ?n = "length (m_QueueIDs m)"
  from assms obtain b media where h: "x_buffered r = Some b" "s_Media s = Some media" "s_State s = PlayStatePlay"
    "queuedMedia (s_Queue s) (Some media)" "m_QueueIDs m \<noteq> []" "?n < length (q_Items (s_Queue s))"
    "zip_all (\<lambda>item qid. md_QueueID item = qid) (take ?n (q_Items (s_Queue s))) (m_QueueIDs m)"
    "last_index_where (\<lambda>item. md_QueueID item = md_QueueID media \<and> md_ID item = md_ID media) (q_Items (s_Queue s))
       - int ?n \<ge> b_RetainPrevious (bp_policy b)"
    by (auto simp: removalAllowed_def Let_def simp del: queuedMedia.simps split: option.splits)
  have "map md_QueueID (take ?n (q_Items (s_Queue s))) = m_QueueIDs m"
    using zip_all_take [OF h(7)] h(6) by simp
  with h show ?thesis using that by blast
qed

text \<open>
  The last check before a removal is sent protects what is playing: in a queue with the ordered
  plan's identities, an allowed removal names exactly the queue IDs of the first entries, in order,
  and leaves the current entry with at least the configured number of entries before it. It is only
  allowed while the device plays a known entry of that queue.
\<close>

theorem removal_spares_current:
  assumes "removalAllowed s m r" and "orderedQueue (s_Queue s) ids" and "x_buffered r = Some b"
  shows "map md_QueueID (take (length (m_QueueIDs m)) (q_Items (s_Queue s))) = m_QueueIDs m \<and>
         0 < length (m_QueueIDs m) \<and>
         queueIndex s - int (length (m_QueueIDs m)) \<ge> b_RetainPrevious (bp_policy b) \<and>
         s_State s = PlayStatePlay \<and> queuedMedia (s_Queue s) (s_Media s)"
proof -
  obtain b' media where b': "x_buffered r = Some b'" and h: "s_Media s = Some media" "s_State s = PlayStatePlay"
    "queuedMedia (s_Queue s) (Some media)" "m_QueueIDs m \<noteq> []"
    "map md_QueueID (take (length (m_QueueIDs m)) (q_Items (s_Queue s))) = m_QueueIDs m"
    "last_index_where (\<lambda>item. md_QueueID item = md_QueueID media \<and> md_ID item = md_ID media) (q_Items (s_Queue s))
       - int (length (m_QueueIDs m)) \<ge> b_RetainPrevious (bp_policy b')"
    by (rule removalAllowed_D [OF assms(1)])
  have "b' = b" using b' assms(3) by simp
  let ?p = "\<lambda>item. md_QueueID item = md_QueueID media \<and> md_ID item = md_ID media"
  have "\<exists>x \<in> set (q_Items (s_Queue s)). ?p x" using h(3) by (auto simp: queuedMedia_iff simp del: queuedMedia.simps)
  from index_where_ex [OF this] obtain i where i: "index_where ?p (q_Items (s_Queue s)) = Some i" by (rule exE)
  have d: "distinct (map md_QueueID (q_Items (s_Queue s)))" using assms(2) by (simp add: orderedQueue_iff)
  have u: "j = i" if "j < length (q_Items (s_Queue s))" "?p (q_Items (s_Queue s) ! j)" for j
    using that index_where_Some [OF i] d by (metis length_map nth_eq_iff_index_eq nth_map)
  have "last_index_where ?p (q_Items (s_Queue s)) = int i" using last_index_where_eq [OF i u] .
  moreover have "queueIndex s = int i" using i h(1) by (simp add: queueIndex_def)
  ultimately show ?thesis using h \<open>b' = b\<close> by (simp del: queuedMedia.simps)
qed

definition example_buffered_run :: execution where
  "example_buffered_run = example_run\<lparr>x_buffered := Some \<lparr>bp_policy = example_buffered, bp_expires = 0, bp_pruned = 0\<rparr>\<rparr>"

theorem removal_spares_current_witness:
  "let s = example_playing (example_media ''d'' ''4'')
             [example_media ''a'' ''1'', example_media ''b'' ''2'', example_media ''c'' ''3'', example_media ''d'' ''4''];
       m = zeroMutation\<lparr>m_Kind := MutationKindRemove, m_QueueIDs := [''1'']\<rparr>
   in removalAllowed s m example_buffered_run \<and> queueIndex s - 1 \<ge> 2"
proof -
  let ?s = "example_playing (example_media ''d'' ''4'')
             [example_media ''a'' ''1'', example_media ''b'' ''2'', example_media ''c'' ''3'', example_media ''d'' ''4'']"
  let ?m = "zeroMutation\<lparr>m_Kind := MutationKindRemove, m_QueueIDs := [''1'']\<rparr>"
  have a: "removalAllowed ?s ?m example_buffered_run" and o: "orderedQueue (s_Queue ?s) [''a'', ''b'', ''c'', ''d'']"
    by code_simp+
  have b: "x_buffered example_buffered_run = Some \<lparr>bp_policy = example_buffered, bp_expires = 0, bp_pruned = 0\<rparr>"
    by (simp add: example_buffered_run_def)
  show ?thesis using a removal_spares_current [OF a o b] by (simp add: Let_def example_buffered_def)
qed

subsection \<open>Skips and new queues\<close>

lemma acceptSkipReadback_True:
  assumes "acceptSkipReadback cause before after r = (Inr True, r')"
  shows "cause = None" and "skipConfirmed before after" and "\<not> observationPending r'"
    and "x_events r' = (\<lambda>_. [])" and "\<not> x_keepExpectations r'"
  using assms by (auto simp: acceptSkipReadback_def Let_def split: option.splits if_splits)

text \<open>
  A skip is confirmed only by a different current entry of the same queue: the device plays or is
  paused on an entry with another queue ID whose pair of IDs belongs to the queue from before the
  command, the queue and every control are unchanged, and all events are covered. Confirming closes
  the transition allowance, so that a later Stop is no longer attributed to the skip.
\<close>

theorem skip_confirms_new_entry:
  assumes "acceptSkipReadback cause before after r = (Inr True, r')"
  shows "cause = None \<and> PlayState_Active (s_State after) \<and> sameControls before after \<and> sameQueue before after \<and>
         queuedMedia (s_Queue before) (s_Media after) \<and>
         map_option md_QueueID (s_Media after) \<noteq> map_option md_QueueID (s_Media before) \<and>
         \<not> observationPending r' \<and> (\<forall>name. x_events r' name = [])"
  using acceptSkipReadback_True [OF assms]
  by (auto simp: skipConfirmed_def Let_def stateChanges_Nil sameControls_def sameQueue_def split: option.splits)

theorem skip_confirms_new_entry_witness:
  "let before = example_playing (example_media ''a'' ''1'') [example_media ''a'' ''1'', example_media ''b'' ''2''];
       after = example_playing (example_media ''b'' ''2'') [example_media ''a'' ''1'', example_media ''b'' ''2'']
   in sameQueue before after \<and> queuedMedia (s_Queue before) (s_Media after)"
proof -
  let ?before = "example_playing (example_media ''a'' ''1'') [example_media ''a'' ''1'', example_media ''b'' ''2'']"
  let ?after = "example_playing (example_media ''b'' ''2'') [example_media ''a'' ''1'', example_media ''b'' ''2'']"
  have c: "fst (acceptSkipReadback None ?before ?after example_run) = Inr True" by code_simp
  obtain r' where r: "acceptSkipReadback None ?before ?after example_run = (Inr True, r')"
    using c by (metis prod.collapse)
  show ?thesis using skip_confirms_new_entry [OF r] unfolding Let_def by blast
qed

lemma queueStartObservation_confirm:
  assumes "queueStartObservation p now cause before after deadline r = (d, r')" and "sd_Action d = queueStartConfirm"
  shows "s_State after = PlayStatePlay" and "queueResultProblem after (x_members r') (x_bounded r') = []"
    and "\<not> observationPending r'" and "now < deadline" and "cause = None" and "writable_target p after"
    and "queueLoadingControls before after = []" and "\<And>ids. x_ordered r' = Some ids \<Longrightarrow> orderedQueue (s_Queue after) ids"
proof -
  define r1 where "r1 = cover_events before after (observeQueueState (s_State after) r)"
  define f where "f = \<lparr>sf_Now = now, sf_Deadline = deadline, sf_Phase = x_queueStart r1, sf_Bounded = x_bounded r1,
                 sf_Members = x_members r1, sf_Before = before, sf_Observed = after, sf_Cancellation = cause,
                 sf_Unsafe = deviceObservationSafety p after, sf_PendingEvents = observationPending r1\<rparr>"
  have r': "r' = r1" and c: "sd_Action (decideQueueStart f) = queueStartConfirm"
    and o: "\<And>ids. x_ordered r1 = Some ids \<Longrightarrow> orderedQueue (s_Queue after) ids"
    using assms by (auto simp: queueStartObservation_def Let_def r1_def f_def split: option.splits if_splits)
  show "s_State after = PlayStatePlay" and "queueResultProblem after (x_members r') (x_bounded r') = []"
    and "\<not> observationPending r'" and "now < deadline" and "cause = None" and "writable_target p after"
    and "queueLoadingControls before after = []"
    using decideQueueStart_confirm [OF c] r' by (auto simp: f_def deviceObservationSafety_None)
  show "\<And>ids. x_ordered r' = Some ids \<Longrightarrow> orderedQueue (s_Queue after) ids" using o r' by simp
qed

end
