(* ===== verification/Journal.thy ===== *)
theory Journal
  imports Values Strings "HOL-Library.Char_ord" "HOL-Library.List_Lexorder" "HOL-Library.Product_Lexorder"
begin

section \<open>The operation journal\<close>

text \<open>
  \<open>internal/journal/operation.go\<close> and \<open>operations.go\<close> with the SQL of
  \<open>internal/journal/queries\<close> and the constraints of \<open>internal/journal/migrations\<close>. The database
  is a record of its tables; each table is a list of rows, and a statement is a function on it. A
  mutation locks the one control row first, so a transaction is one atomic step: an error leaves the
  database unchanged (rollback). A \<open>Store\<close> is one controller process with its epoch. What the
  standard library computes on JSON documents and SHA-256 digests is the argument \<open>codec\<close>; the new
  random identifier and the clock are arguments; a COMMIT whose reply is lost is an input.
\<close>

datatype JState =
    Accepted | Running | Succeeded | Failed | Cancelled | Released | Interrupted | OpUncertain

fun terminal :: "JState \<Rightarrow> bool" where
  "terminal Accepted = False"
| "terminal Running = False"
| "terminal _ = True"

record Request =
  rq_Principal :: string
  rq_Method :: string
  rq_Endpoint :: string
  rq_Key :: string
  rq_Player :: string
  rq_IfMatch :: string
  rq_Body :: string

record Proposal =
  pr_OwnerID :: string
  pr_ReplaceUncertain :: bool
  pr_ReplaceID :: string
  pr_ReplaceRevision :: int
  pr_Kind :: string
  pr_DeviceKey :: string
  pr_ConfigRevision :: string
  pr_EffectiveArguments :: string
  pr_NotBefore :: time
  pr_NotAfter :: time

record Operation =
  o_ID :: string
  o_Kind :: string
  o_Player :: string
  o_DeviceKey :: string
  o_Principal :: string
  o_Epoch :: string
  o_State :: JState
  o_Revision :: int
  o_Phase :: string
  o_ConfigRevision :: string
  o_EffectiveArguments :: string
  o_SelectedAlbum :: "string option"
  o_Progress :: string
  o_Outcome :: string
  o_ErrorCode :: string
  o_ScheduledFor :: time
  o_NotAfter :: time
  o_CreatedAt :: time
  o_UpdatedAt :: time
  o_StartedAt :: "time option"
  o_FinishedAt :: "time option"

record Update =
  u_State :: JState
  u_Phase :: string
  u_Progress :: "string option"
  u_Outcome :: "string option"
  u_ErrorCode :: string

record Admission =
  ad_Operation :: Operation
  ad_Created :: bool
  ad_RecoveredCommit :: bool

text \<open>Rows of \<open>idempotency_records\<close> and \<open>device_reservations\<close>.\<close>

record idempotency =
  ir_Principal :: string
  ir_Method :: string
  ir_Endpoint :: string
  ir_Key :: string
  ir_RequestHash :: string
  ir_OperationID :: string
  ir_ExpiresAt :: time

record reservation =
  rv_DeviceKey :: string
  rv_OperationID :: string
  rv_Epoch :: string

record journal_db =
  j_epoch :: string
  j_ready :: bool
  j_operations :: "Operation list"
  j_requests :: "idempotency list"
  j_reservations :: "reservation list"

record Store =
  st_epoch :: string
  st_initialized :: bool
  st_previousEpoch :: "string option"
  st_maxOperations :: nat

text \<open>
  The JSON and digest functions the journal calls: the canonical form of an object (or its
  rejection), the digest of a canonical request, the outcome of an interrupted command, and the
  annotation of an outcome with the reason and phase of its completion.
\<close>

record codec =
  k_canonical :: "string \<Rightarrow> string result"
  k_digest :: "string \<Rightarrow> string \<Rightarrow> string \<Rightarrow> string"
  k_interrupted :: "string \<Rightarrow> string result"
  k_diagnostics :: "string \<Rightarrow> string \<Rightarrow> string \<Rightarrow> time \<Rightarrow> string result"

definition Retention :: duration where "Retention = 7 * 24 * Hour"
definition MaxBatch :: nat where "MaxBatch = 100"
definition MaxJSONBytes :: nat where "MaxJSONBytes = 16 * 1024"

subsection \<open>Requests\<close>

definition textWithin :: "string \<Rightarrow> nat \<Rightarrow> bool" where
  "textWithin s maximum \<longleftrightarrow> s \<noteq> [] \<and> length s \<le> maximum \<and> NUL \<notin> set s"

definition request_valid :: "Request \<Rightarrow> bool" where
  "request_valid r \<longleftrightarrow>
     textWithin (rq_Principal r) 256 \<and> textWithin (rq_Key r) 256 \<and> textWithin (rq_Player r) 256 \<and>
     textWithin (rq_Endpoint r) 1024 \<and> hd (rq_Endpoint r) = CHR ''/'' \<and>
     CHR ''?'' \<notin> set (rq_Endpoint r) \<and> CHR ''#'' \<notin> set (rq_Endpoint r) \<and> length (rq_IfMatch r) \<le> 256 \<and>
     rq_Method r \<in> {''POST'', ''PUT'', ''DELETE'', ''PATCH''}"

definition fingerprint :: "codec \<Rightarrow> Request \<Rightarrow> string result" where
  "fingerprint k r =
     (if \<not> request_valid r then Inl ErrInvalid
      else case k_canonical k (rq_Body r) of
             Inl e \<Rightarrow> Inl e
           | Inr body \<Rightarrow> Inr (k_digest k (rq_Player r) (rq_IfMatch r) body))"

subsection \<open>Statements\<close>

definition same_request :: "Request \<Rightarrow> idempotency \<Rightarrow> bool" where
  "same_request r i \<longleftrightarrow>
     ir_Principal i = rq_Principal r \<and> ir_Method i = rq_Method r \<and> ir_Endpoint i = rq_Endpoint r \<and> ir_Key i = rq_Key r"

definition LookupRequest :: "journal_db \<Rightarrow> Request \<Rightarrow> idempotency option" where
  "LookupRequest db r = find (same_request r) (j_requests db)"

definition GetOperation :: "journal_db \<Rightarrow> string \<Rightarrow> Operation option" where
  "GetOperation db ident = find (\<lambda>x. o_ID x = ident) (j_operations db)"

definition reserved :: "journal_db \<Rightarrow> string \<Rightarrow> bool" where
  "reserved db ident \<longleftrightarrow> list_ex (\<lambda>v. rv_OperationID v = ident) (j_reservations db)"

definition ActiveOperation :: "journal_db \<Rightarrow> string \<Rightarrow> Operation option" where
  "ActiveOperation db player = find (\<lambda>x. reserved db (o_ID x) \<and> o_Player x = player) (j_operations db)"

definition update_operations :: "(Operation \<Rightarrow> bool) \<Rightarrow> (Operation \<Rightarrow> Operation) \<Rightarrow> journal_db \<Rightarrow> journal_db" where
  "update_operations p f db = db\<lparr>j_operations := map (\<lambda>x. if p x then f x else x) (j_operations db)\<rparr>"

definition transition_row :: "Update \<Rightarrow> time \<Rightarrow> Operation \<Rightarrow> Operation" where
  "transition_row u now x =
     x\<lparr>o_State := u_State u, o_Revision := o_Revision x + 1, o_Phase := u_Phase u, o_Progress := the (u_Progress u),
       o_Outcome := the (u_Outcome u), o_ErrorCode := u_ErrorCode u, o_UpdatedAt := now,
       o_StartedAt := (if u_State u = Running
                       then (case o_StartedAt x of None \<Rightarrow> Some now | Some t \<Rightarrow> Some t) else o_StartedAt x),
       o_FinishedAt := (if u_State u = Accepted \<or> u_State u = Running then None else Some now)\<rparr>"

definition transition_match :: "string \<Rightarrow> int \<Rightarrow> string \<Rightarrow> Operation \<Rightarrow> bool" where
  "transition_match ident revision epoch x \<longleftrightarrow>
     o_ID x = ident \<and> o_Revision x = revision \<and> o_Epoch x = epoch \<and> o_FinishedAt x = None"

definition TransitionOperation ::
  "string \<Rightarrow> int \<Rightarrow> string \<Rightarrow> Update \<Rightarrow> time \<Rightarrow> journal_db \<Rightarrow> (Operation \<times> journal_db) option" where
  "TransitionOperation ident revision epoch u now db =
     (case find (transition_match ident revision epoch) (j_operations db) of
        None \<Rightarrow> None
      | Some x \<Rightarrow> Some (transition_row u now x,
                  update_operations (transition_match ident revision epoch) (transition_row u now) db))"

definition ReleaseReservations :: "string list \<Rightarrow> journal_db \<Rightarrow> journal_db" where
  "ReleaseReservations ids db =
     db\<lparr>j_reservations := filter (\<lambda>v. rv_OperationID v \<notin> set ids) (j_reservations db)\<rparr>"

definition ExtendRetention :: "string list \<Rightarrow> time \<Rightarrow> journal_db \<Rightarrow> journal_db" where
  "ExtendRetention ids expires db =
     db\<lparr>j_requests := map (\<lambda>i. if ir_OperationID i \<in> set ids
                               then i\<lparr>ir_ExpiresAt := max (ir_ExpiresAt i) expires\<rparr> else i) (j_requests db)\<rparr>"

definition finish_ops :: "string list \<Rightarrow> time \<Rightarrow> journal_db \<Rightarrow> journal_db" where
  "finish_ops ids now db = ExtendRetention ids (now + Retention) (ReleaseReservations ids db)"

definition active :: "Store \<Rightarrow> journal_db \<Rightarrow> unit result" where
  "active st db =
     (if \<not> st_initialized st \<or> \<not> j_ready db then Inl ErrNotInitialized
      else if j_epoch db \<noteq> st_epoch st then Inl ErrStaleEpoch
      else Inr ())"

subsection \<open>Reads\<close>

definition lookup_hash :: "journal_db \<Rightarrow> Request \<Rightarrow> string \<Rightarrow> Operation result" where
  "lookup_hash db r hash =
     (case LookupRequest db r of
        None \<Rightarrow> Inl ErrNotFound
      | Some i \<Rightarrow>
          if ir_RequestHash i \<noteq> hash then Inl ErrConflict
          else case GetOperation db (ir_OperationID i) of
                 None \<Rightarrow> Inl (OtherError ''no rows'')
               | Some x \<Rightarrow> Inr x)"

definition Lookup :: "codec \<Rightarrow> journal_db \<Rightarrow> Request \<Rightarrow> Operation result" where
  "Lookup k db r = (case fingerprint k r of Inl e \<Rightarrow> Inl e | Inr hash \<Rightarrow> lookup_hash db r hash)"

definition Get :: "journal_db \<Rightarrow> string \<Rightarrow> Operation result" where
  "Get db ident = (case GetOperation db ident of None \<Rightarrow> Inl ErrNotFound | Some x \<Rightarrow> Inr x)"

definition Active :: "journal_db \<Rightarrow> string \<Rightarrow> Operation result" where
  "Active db player = (case ActiveOperation db player of None \<Rightarrow> Inl ErrNotFound | Some x \<Rightarrow> Inr x)"

definition Ready :: "Store \<Rightarrow> journal_db \<Rightarrow> unit result" where
  "Ready st db =
     (if \<not> st_initialized st then Inl ErrNotInitialized
      else if j_epoch db \<noteq> st_epoch st \<or> \<not> j_ready db then Inl ErrStaleEpoch
      else Inr ())"

subsection \<open>Admission\<close>

definition operation_kinds :: "string list" where
  "operation_kinds = [''alarm'', ''playback'', ''volume'', ''mute'', ''transport'', ''skip'', ''stop'', ''cancel'']"

definition handoffUpdate :: "codec \<Rightarrow> Operation \<Rightarrow> Proposal \<Rightarrow> time \<Rightarrow> Update result" where
  "handoffUpdate k old pr now =
     (case (if pr_ReplaceUncertain pr then k_interrupted k (o_Outcome old) else Inr (o_Outcome old)) of
        Inl e \<Rightarrow> Inl e
      | Inr outcome \<Rightarrow>
          let cancel = (pr_Kind pr = ''cancel'');
              st = (if cancel then Running else if pr_ReplaceUncertain pr then OpUncertain else Released);
              phase = (if cancel then ''cancelling'' else ''superseded'');
              reason = (if cancel then ''cancellation_requested'' else ''superseded'')
          in case k_diagnostics k outcome reason (o_Phase old) now of
               Inl e \<Rightarrow> Inl e
             | Inr annotated \<Rightarrow>
                 Inr \<lparr>u_State = st, u_Phase = phase, u_Progress = Some (o_Progress old), u_Outcome = Some annotated,
                      u_ErrorCode = (if pr_ReplaceUncertain pr then ''command_interrupted'' else [])\<rparr>)"

text \<open>The checks of a proposal that do not read the database.\<close>

definition proposal_check :: "codec \<Rightarrow> Proposal \<Rightarrow> time \<Rightarrow> string result" where
  "proposal_check k pr now =
     (if \<not> textWithin (pr_DeviceKey pr) 256 \<or> \<not> textWithin (pr_ConfigRevision pr) 256 then Inl ErrInvalid
      else if pr_Kind pr \<notin> set operation_kinds then Inl ErrInvalid
      else case k_canonical k (pr_EffectiveArguments pr) of
             Inl e \<Rightarrow> Inl e
           | Inr effective \<Rightarrow>
               if IsZero (pr_NotBefore pr) \<or> \<not> pr_NotAfter pr > pr_NotBefore pr then Inl ErrInvalid
               else if now < pr_NotBefore pr then Inl ErrFuture
               else if \<not> now < pr_NotAfter pr then Inl ErrExpired
               else Inr effective)"

definition owner_check :: "Store \<Rightarrow> journal_db \<Rightarrow> Request \<Rightarrow> Proposal \<Rightarrow> unit result" where
  "owner_check st db r pr =
     (if pr_OwnerID pr = [] then Inr ()
      else if pr_Kind pr \<noteq> ''skip'' \<or> pr_ReplaceID pr \<noteq> [] \<or> pr_ReplaceRevision pr \<noteq> 0 \<or> pr_ReplaceUncertain pr then Inl ErrInvalid
      else case ActiveOperation db (rq_Player r) of
             None \<Rightarrow> Inl ErrRevision
           | Some owner \<Rightarrow>
               if o_ID owner \<noteq> pr_OwnerID pr \<or> o_DeviceKey owner \<noteq> pr_DeviceKey pr \<or> o_Epoch owner \<noteq> st_epoch st \<or>
                  o_Kind owner \<noteq> ''playback'' \<or> o_Principal owner \<noteq> rq_Principal r \<or> o_FinishedAt owner \<noteq> None
               then Inl ErrRevision else Inr ())"

definition handoff :: "codec \<Rightarrow> Store \<Rightarrow> journal_db \<Rightarrow> Request \<Rightarrow> Proposal \<Rightarrow> time \<Rightarrow> journal_db result" where
  "handoff k st db r pr now =
     (if pr_ReplaceID pr = [] then Inr db
      else case ActiveOperation db (rq_Player r) of
             None \<Rightarrow> Inl ErrRevision
           | Some old \<Rightarrow>
               if o_ID old \<noteq> pr_ReplaceID pr \<or> o_DeviceKey old \<noteq> pr_DeviceKey pr \<or> o_Revision old \<noteq> pr_ReplaceRevision pr
               then Inl ErrRevision
               else case handoffUpdate k old pr now of
                      Inl e \<Rightarrow> Inl e
                    | Inr u \<Rightarrow>
                        (case TransitionOperation (o_ID old) (o_Revision old) (st_epoch st) u now db of
                           None \<Rightarrow> Inl (OtherError ''no rows'')
                         | Some (_, db') \<Rightarrow> Inr (finish_ops [o_ID old] now db')))"

definition new_operation :: "string \<Rightarrow> Store \<Rightarrow> Request \<Rightarrow> Proposal \<Rightarrow> string \<Rightarrow> time \<Rightarrow> Operation" where
  "new_operation ident st r pr effective now =
     \<lparr>o_ID = ident, o_Kind = pr_Kind pr, o_Player = rq_Player r, o_DeviceKey = pr_DeviceKey pr,
      o_Principal = rq_Principal r, o_Epoch = st_epoch st, o_State = Accepted, o_Revision = 1, o_Phase = [],
      o_ConfigRevision = pr_ConfigRevision pr, o_EffectiveArguments = effective, o_SelectedAlbum = None,
      o_Progress = ''{}'', o_Outcome = ''{}'', o_ErrorCode = [], o_ScheduledFor = pr_NotBefore pr,
      o_NotAfter = pr_NotAfter pr, o_CreatedAt = now, o_UpdatedAt = now, o_StartedAt = None, o_FinishedAt = None\<rparr>"

definition new_request :: "string \<Rightarrow> Request \<Rightarrow> string \<Rightarrow> time \<Rightarrow> idempotency" where
  "new_request ident r hash now =
     \<lparr>ir_Principal = rq_Principal r, ir_Method = rq_Method r, ir_Endpoint = rq_Endpoint r, ir_Key = rq_Key r,
      ir_RequestHash = hash, ir_OperationID = ident, ir_ExpiresAt = now + Retention\<rparr>"

text \<open>The three inserts; a duplicate primary key fails the transaction.\<close>

definition insert_operation :: "Operation \<Rightarrow> journal_db \<Rightarrow> journal_db result" where
  "insert_operation x db =
     (if GetOperation db (o_ID x) \<noteq> None then Inl (OtherError ''duplicate operation'')
      else Inr (db\<lparr>j_operations := j_operations db @ [x]\<rparr>))"

definition insert_request :: "idempotency \<Rightarrow> journal_db \<Rightarrow> journal_db result" where
  "insert_request i db =
     (if list_ex (\<lambda>x. ir_OperationID x = ir_OperationID i) (j_requests db) then Inl (OtherError ''duplicate request'')
      else Inr (db\<lparr>j_requests := j_requests db @ [i]\<rparr>))"

definition reserve_device :: "reservation \<Rightarrow> journal_db \<Rightarrow> journal_db result" where
  "reserve_device v db =
     (if list_ex (\<lambda>x. rv_DeviceKey x = rv_DeviceKey v) (j_reservations db) then Inl ErrBusy
      else if reserved db (rv_OperationID v) then Inl (OtherError ''duplicate reservation'')
      else Inr (db\<lparr>j_reservations := j_reservations db @ [v]\<rparr>))"

definition insert_all ::
  "Operation \<Rightarrow> idempotency \<Rightarrow> bool \<Rightarrow> journal_db \<Rightarrow> journal_db result" where
  "insert_all x i owned db =
     (case insert_operation x db of
        Inl e \<Rightarrow> Inl e
      | Inr db \<Rightarrow>
          (case insert_request i db of
             Inl e \<Rightarrow> Inl e
           | Inr db \<Rightarrow>
               if owned then Inr db
               else reserve_device \<lparr>rv_DeviceKey = o_DeviceKey x, rv_OperationID = o_ID x, rv_Epoch = o_Epoch x\<rparr> db))"

text \<open>
  The transaction of \<open>Admit\<close> up to its COMMIT: an earlier operation for the same request, or the
  inserted operation with the new database.
\<close>

definition admit_tx ::
  "codec \<Rightarrow> Store \<Rightarrow> journal_db \<Rightarrow> Request \<Rightarrow> Proposal \<Rightarrow> string \<Rightarrow> time \<Rightarrow> string \<Rightarrow> (Operation + Operation \<times> journal_db) result" where
  "admit_tx k st db r pr hash now ident =
     (case lookup_hash db r hash of
        Inr previous \<Rightarrow> Inr (Inl previous)
      | Inl e \<Rightarrow>
          if \<not> errors_Is e ErrNotFound then Inl e
          else case active st db of
                 Inl e \<Rightarrow> Inl e
               | Inr _ \<Rightarrow>
                   (case proposal_check k pr now of
                      Inl e \<Rightarrow> Inl e
                    | Inr effective \<Rightarrow>
                        if length (j_operations db) \<ge> st_maxOperations st then Inl ErrCapacity
                        else case owner_check st db r pr of
                               Inl e \<Rightarrow> Inl e
                             | Inr _ \<Rightarrow>
                                 (case handoff k st db r pr now of
                                    Inl e \<Rightarrow> Inl e
                                  | Inr db' \<Rightarrow>
                                      let x = new_operation ident st r pr effective now in
                                      (case insert_all x (new_request ident r hash now) (pr_OwnerID pr \<noteq> []) db' of
                                         Inl e \<Rightarrow> Inl e
                                       | Inr db'' \<Rightarrow> Inr (Inr (x, db''))))))"

text \<open>
  What happened to a COMMIT: it was acknowledged; its reply was lost after it was applied; or it
  was aborted. After a lost or failed reply the code resolves the request against the database as
  other transactions have left it, or fails to read it.
\<close>

datatype commit =
    CommitOK
  | CommitLost "journal_db \<Rightarrow> journal_db" bool
  | CommitAborted "journal_db \<Rightarrow> journal_db" bool

definition resolve_commit :: "Store \<Rightarrow> Request \<Rightarrow> string \<Rightarrow> string \<Rightarrow> bool \<Rightarrow> journal_db \<Rightarrow> Admission result" where
  "resolve_commit st r hash ident readable db =
     (if \<not> readable then Inl (Wrapped ErrCommitUncertain (OtherError ''lookup''))
      else case lookup_hash db r hash of
             Inl e \<Rightarrow> Inl (Wrapped ErrCommitUncertain e)
           | Inr resolved \<Rightarrow>
               Inr \<lparr>ad_Operation = resolved,
                    ad_Created = (j_epoch db = st_epoch st \<and> j_ready db \<and> o_ID resolved = ident \<and>
                                  o_Epoch resolved = st_epoch st \<and> o_State resolved = Accepted),
                    ad_RecoveredCommit = True\<rparr>)"

definition Admit ::
  "codec \<Rightarrow> Store \<Rightarrow> Request \<Rightarrow> Proposal \<Rightarrow> time \<Rightarrow> string \<Rightarrow> commit \<Rightarrow> journal_db \<Rightarrow> Admission result \<times> journal_db" where
  "Admit k st r pr now ident c db =
     (case fingerprint k r of
        Inl e \<Rightarrow> (Inl e, db)
      | Inr hash \<Rightarrow>
          (case admit_tx k st db r pr hash now ident of
             Inl e \<Rightarrow> (Inl e, db)
           | Inr (Inl previous) \<Rightarrow>
               (Inr \<lparr>ad_Operation = previous, ad_Created = False, ad_RecoveredCommit = False\<rparr>, db)
           | Inr (Inr (x, db')) \<Rightarrow>
               (case c of
                  CommitOK \<Rightarrow> (Inr \<lparr>ad_Operation = x, ad_Created = True, ad_RecoveredCommit = False\<rparr>, db')
                | CommitLost others readable \<Rightarrow>
                    (resolve_commit st r hash ident readable (others db'), others db')
                | CommitAborted others readable \<Rightarrow>
                    (resolve_commit st r hash ident readable (others db), others db))))"

subsection \<open>Transitions, selection, recovery and retention\<close>

text \<open>The COMMIT of a transaction that is not resolved: acknowledged, applied with its reply lost, or aborted.\<close>

datatype ack = Acked | ReplyLost | Aborted

definition commit_with :: "ack \<Rightarrow> string \<Rightarrow> 'a \<Rightarrow> journal_db \<Rightarrow> journal_db \<Rightarrow> 'a result \<times> journal_db" where
  "commit_with c what v db db' =
     (if c = Acked then Inr v else Inl (Wrapped ErrCommitUncertain (OtherError what)),
      if c = Aborted then db else db')"

definition normalize_json :: "codec \<Rightarrow> string option \<Rightarrow> string result" where
  "normalize_json k raw = k_canonical k (case raw of None \<Rightarrow> ''{}'' | Some s \<Rightarrow> s)"

definition Transition ::
  "codec \<Rightarrow> Store \<Rightarrow> string \<Rightarrow> int \<Rightarrow> Update \<Rightarrow> time \<Rightarrow> ack \<Rightarrow> journal_db \<Rightarrow> Operation result \<times> journal_db" where
  "Transition k st ident revision u now c db =
     (if revision < 1 \<or> length (u_Phase u) > 128 \<or> length (u_ErrorCode u) > 128 \<or>
         (u_State u \<noteq> Running \<and> \<not> terminal (u_State u))
      then (Inl ErrInvalid, db)
      else case normalize_json k (u_Progress u) of
             Inl e \<Rightarrow> (Inl e, db)
           | Inr progress \<Rightarrow>
               (case normalize_json k (u_Outcome u) of
                  Inl e \<Rightarrow> (Inl e, db)
                | Inr outcome \<Rightarrow>
                    (case active st db of
                       Inl e \<Rightarrow> (Inl e, db)
                     | Inr _ \<Rightarrow>
                         (case TransitionOperation ident revision (st_epoch st)
                                 (u\<lparr>u_Progress := Some progress, u_Outcome := Some outcome\<rparr>) now db of
                            None \<Rightarrow> (Inl ErrRevision, db)
                          | Some (x, db') \<Rightarrow>
                              commit_with c ''transition'' x db
                                (if terminal (u_State u) then finish_ops [ident] now db' else db')))))"

definition select_match :: "string \<Rightarrow> int \<Rightarrow> string \<Rightarrow> Operation \<Rightarrow> bool" where
  "select_match ident revision epoch x \<longleftrightarrow>
     transition_match ident revision epoch x \<and> o_SelectedAlbum x = None"

definition select_row :: "string \<Rightarrow> time \<Rightarrow> Operation \<Rightarrow> Operation" where
  "select_row album now x =
     x\<lparr>o_SelectedAlbum := Some album, o_Revision := o_Revision x + 1, o_UpdatedAt := now\<rparr>"

definition SelectAlbum ::
  "Store \<Rightarrow> string \<Rightarrow> int \<Rightarrow> string \<Rightarrow> time \<Rightarrow> ack \<Rightarrow> journal_db \<Rightarrow> Operation result \<times> journal_db" where
  "SelectAlbum st ident revision album now c db =
     (if \<not> textWithin album 1024 \<or> revision < 1 then (Inl ErrInvalid, db)
      else case active st db of
             Inl e \<Rightarrow> (Inl e, db)
           | Inr _ \<Rightarrow>
               (case find (select_match ident revision (st_epoch st)) (j_operations db) of
                  None \<Rightarrow> (Inl ErrRevision, db)
                | Some x \<Rightarrow>
                    commit_with c ''select album'' (select_row album now x) db
                      (update_operations (select_match ident revision (st_epoch st)) (select_row album now) db)))"

definition interrupt_row :: "(Operation \<Rightarrow> string) \<Rightarrow> time \<Rightarrow> Operation \<Rightarrow> Operation" where
  "interrupt_row outcome now x =
     x\<lparr>o_State := OpUncertain, o_Phase := ''restart'', o_ErrorCode := ''process_interrupted'', o_Outcome := outcome x,
       o_Revision := o_Revision x + 1, o_UpdatedAt := now, o_FinishedAt := Some now\<rparr>"

definition interruptible :: "string \<Rightarrow> Operation \<Rightarrow> bool" where
  "interruptible epoch x \<longleftrightarrow> o_Epoch x \<noteq> epoch \<and> o_FinishedAt x = None"

definition interrupt_ids :: "string \<Rightarrow> journal_db \<Rightarrow> string list" where
  "interrupt_ids epoch db =
     take MaxBatch (sort (map o_ID (filter (interruptible epoch) (j_operations db))))"

definition InterruptBatch :: "(Operation \<Rightarrow> string) \<Rightarrow> string \<Rightarrow> time \<Rightarrow> journal_db \<Rightarrow> string list \<times> journal_db" where
  "InterruptBatch outcome epoch now db =
     (let ids = interrupt_ids epoch db
      in (ids, update_operations (\<lambda>x. o_ID x \<in> set ids) (interrupt_row outcome now) db))"

text \<open>The statements of one recovery batch; the result says whether it was the last one.\<close>

definition recoverTx :: "(Operation \<Rightarrow> string) \<Rightarrow> time \<Rightarrow> string \<Rightarrow> journal_db \<Rightarrow> bool \<times> journal_db" where
  "recoverTx outcome now epoch db =
     (case InterruptBatch outcome epoch now (db\<lparr>j_epoch := epoch, j_ready := False\<rparr>) of
        (ids, db') \<Rightarrow>
          let finished = (length ids < MaxBatch); db'' = finish_ops ids now db'
          in (finished, if finished then db''\<lparr>j_ready := True\<rparr> else db''))"

definition recoverBatch ::
  "(Operation \<Rightarrow> string) \<Rightarrow> time \<Rightarrow> ack \<Rightarrow> Store \<Rightarrow> journal_db \<Rightarrow> bool result \<times> Store \<times> journal_db" where
  "recoverBatch outcome now c st db =
     (let st' = (if st_previousEpoch st = None then st\<lparr>st_previousEpoch := Some (j_epoch db)\<rparr> else st) in
      if Some (j_epoch db) \<noteq> st_previousEpoch st' \<and> j_epoch db \<noteq> st_epoch st' then (Inl ErrStaleEpoch, st', db)
      else case recoverTx outcome now (st_epoch st') db of
             (finished, db') \<Rightarrow>
               (case commit_with c ''recovery'' finished db db' of (res, db'') \<Rightarrow> (res, st', db'')))"

definition Prune_ids :: "time \<Rightarrow> nat \<Rightarrow> journal_db \<Rightarrow> string list" where
  "Prune_ids now limit db =
     take limit (map snd (sort (map (\<lambda>x. (the (o_FinishedAt x), o_ID x))
       (filter (\<lambda>x. (case o_FinishedAt x of None \<Rightarrow> False | Some t \<Rightarrow> t \<le> now - Retention) \<and>
                     \<not> list_ex (\<lambda>i. ir_OperationID i = o_ID x \<and> ir_ExpiresAt i > now) (j_requests db) \<and>
                     \<not> reserved db (o_ID x)) (j_operations db)))))"

definition PruneOperations :: "time \<Rightarrow> nat \<Rightarrow> journal_db \<Rightarrow> string list \<times> journal_db" where
  "PruneOperations now limit db =
     (let ids = Prune_ids now limit db
      in (ids, db\<lparr>j_operations := filter (\<lambda>x. o_ID x \<notin> set ids) (j_operations db),
                 j_requests := filter (\<lambda>i. ir_OperationID i \<notin> set ids) (j_requests db)\<rparr>))"

definition Prune :: "Store \<Rightarrow> nat \<Rightarrow> time \<Rightarrow> ack \<Rightarrow> journal_db \<Rightarrow> nat result \<times> journal_db" where
  "Prune st limit now c db =
     (if limit < 1 \<or> limit > MaxBatch then (Inl ErrInvalid, db)
      else case active st db of
             Inl e \<Rightarrow> (Inl e, db)
           | Inr _ \<Rightarrow>
               (case PruneOperations now limit db of
                  (ids, db') \<Rightarrow> commit_with c ''retention'' (length ids) db db'))"

subsection \<open>Well-formed journals\<close>

definition request_key :: "idempotency \<Rightarrow> string \<times> string \<times> string \<times> string" where
  "request_key i = (ir_Principal i, ir_Method i, ir_Endpoint i, ir_Key i)"

text \<open>
  The constraints of the schema and what the transactions add to them: a reservation refers to an
  unfinished operation of its device and epoch, and once the journal is ready every unfinished
  operation belongs to the current epoch.
\<close>

definition reservation_ok :: "Operation list \<Rightarrow> reservation \<Rightarrow> bool" where
  "reservation_ok ops v \<longleftrightarrow>
     (\<exists>x \<in> set ops. o_ID x = rv_OperationID v \<and> o_DeviceKey x = rv_DeviceKey v \<and> o_Epoch x = rv_Epoch v \<and> o_FinishedAt x = None)"

definition operation_ok :: "Operation \<Rightarrow> bool" where
  "operation_ok x \<longleftrightarrow> terminal (o_State x) = (o_FinishedAt x \<noteq> None) \<and> 1 \<le> o_Revision x"

definition journal_wf :: "journal_db \<Rightarrow> bool" where
  "journal_wf db \<longleftrightarrow>
     distinct (map o_ID (j_operations db)) \<and>
     distinct (map rv_DeviceKey (j_reservations db)) \<and> distinct (map rv_OperationID (j_reservations db)) \<and>
     (\<forall>v \<in> set (j_reservations db). reservation_ok (j_operations db) v) \<and>
     distinct (map request_key (j_requests db)) \<and> distinct (map ir_OperationID (j_requests db)) \<and>
     (\<forall>i \<in> set (j_requests db). ir_OperationID i \<in> o_ID ` set (j_operations db)) \<and>
     (\<forall>x \<in> set (j_operations db). operation_ok x) \<and>
     (j_ready db \<longrightarrow> (\<forall>x \<in> set (j_operations db). o_FinishedAt x = None \<longrightarrow> o_Epoch x = j_epoch db))"

text \<open>A row update that keeps the identity of the row and its consistency.\<close>

definition row_update_ok :: "(Operation \<Rightarrow> Operation) \<Rightarrow> Operation \<Rightarrow> bool" where
  "row_update_ok f x \<longleftrightarrow>
     o_ID (f x) = o_ID x \<and> o_DeviceKey (f x) = o_DeviceKey x \<and> o_Epoch (f x) = o_Epoch x \<and>
     (operation_ok x \<longrightarrow> operation_ok (f x)) \<and> (o_FinishedAt (f x) = None \<longrightarrow> o_FinishedAt x = None)"

lemma finish_ops_fields [simp]:
  "j_operations (finish_ops ids now db) = j_operations db" "j_epoch (finish_ops ids now db) = j_epoch db"
  "j_ready (finish_ops ids now db) = j_ready db"
  "j_reservations (finish_ops ids now db) = filter (\<lambda>v. rv_OperationID v \<notin> set ids) (j_reservations db)"
  by (simp_all add: finish_ops_def ExtendRetention_def ReleaseReservations_def)

lemma finish_ops_requests:
  "map request_key (j_requests (finish_ops ids now db)) = map request_key (j_requests db)"
  "map ir_OperationID (j_requests (finish_ops ids now db)) = map ir_OperationID (j_requests db)"
  "map ir_RequestHash (j_requests (finish_ops ids now db)) = map ir_RequestHash (j_requests db)"
  by (auto simp: finish_ops_def ExtendRetention_def ReleaseReservations_def request_key_def)

lemma finish_ops_Nil [simp]: "finish_ops [] now db = db"
  by (simp add: finish_ops_def ExtendRetention_def ReleaseReservations_def)

lemma update_operations_fields [simp]:
  "j_requests (update_operations p f db) = j_requests db" "j_reservations (update_operations p f db) = j_reservations db"
  "j_epoch (update_operations p f db) = j_epoch db" "j_ready (update_operations p f db) = j_ready db"
  by (simp_all add: update_operations_def)

lemma update_operations_ops:
  "j_operations (update_operations p f db) = map (\<lambda>x. if p x then f x else x) (j_operations db)"
  by (simp add: update_operations_def)

lemma request_ops_image:
  "(\<forall>i \<in> set rs. ir_OperationID i \<in> A) \<longleftrightarrow> set (map ir_OperationID rs) \<subseteq> A"
  by auto

lemma update_ids:
  assumes "\<forall>x \<in> set ops. p x \<longrightarrow> row_update_ok f x"
  shows "map o_ID (map (\<lambda>x. if p x then f x else x) ops) = map o_ID ops"
  using assms by (auto simp: row_update_ok_def)

lemma journal_wf_update:
  assumes wf: "journal_wf db" and ok: "\<forall>x \<in> set (j_operations db). p x \<longrightarrow> row_update_ok f x"
    and fin: "\<forall>x \<in> set (j_operations db). p x \<longrightarrow> o_FinishedAt (f x) \<noteq> None \<longrightarrow> o_ID x \<in> set ids"
  shows "journal_wf (finish_ops ids now (update_operations p f db))"
proof -
  define ops' where "ops' = map (\<lambda>x. if p x then f x else x) (j_operations db)"
  have ops': "j_operations (finish_ops ids now (update_operations p f db)) = ops'"
    by (simp add: update_operations_ops ops'_def)
  have ids: "map o_ID ops' = map o_ID (j_operations db)" unfolding ops'_def using ok by (rule update_ids)
  have img: "o_ID ` set ops' = o_ID ` set (j_operations db)" using ids by (metis set_map)
  have res: "reservation_ok ops' v" if v: "v \<in> set (j_reservations db)" "rv_OperationID v \<notin> set ids" for v
  proof -
    obtain x where x: "x \<in> set (j_operations db)" "o_ID x = rv_OperationID v" "o_DeviceKey x = rv_DeviceKey v"
      "o_Epoch x = rv_Epoch v" "o_FinishedAt x = None"
      using wf v(1) by (auto simp: journal_wf_def reservation_ok_def)
    then have "o_FinishedAt (if p x then f x else x) = None" using fin v(2) by auto
    moreover have "(if p x then f x else x) \<in> set ops'" using x(1) by (auto simp: ops'_def)
    ultimately show ?thesis using x ok unfolding reservation_ok_def row_update_ok_def by (metis (full_types))
  qed
  have "\<forall>x \<in> set ops'. operation_ok x"
    using wf ok by (auto simp: journal_wf_def row_update_ok_def ops'_def)
  moreover have "j_ready db \<longrightarrow> (\<forall>x \<in> set ops'. o_FinishedAt x = None \<longrightarrow> o_Epoch x = j_epoch db)"
    using wf ok by (auto simp: journal_wf_def row_update_ok_def ops'_def)
  ultimately show ?thesis
    using wf res unfolding journal_wf_def request_ops_image finish_ops_requests ops'
    by (simp add: ids img distinct_map_filter)
qed

subsection \<open>Every transaction keeps the journal well-formed\<close>

lemma transition_row_ok:
  assumes "o_FinishedAt x = None" and "u_State u = Running \<or> terminal (u_State u)"
  shows "row_update_ok (transition_row u now) x"
  using assms by (cases "u_State u") (auto simp: row_update_ok_def transition_row_def operation_ok_def)

lemma transition_row_finished:
  "o_FinishedAt (transition_row u now x) \<noteq> None \<Longrightarrow> terminal (u_State u)"
  by (cases "u_State u") (auto simp: transition_row_def)

lemma TransitionOperation_Some:
  assumes "TransitionOperation ident revision epoch u now db = Some (x, db')"
  obtains y where "y \<in> set (j_operations db)" "transition_match ident revision epoch y" "x = transition_row u now y"
    "db' = update_operations (transition_match ident revision epoch) (transition_row u now) db"
  using assms by (auto simp: TransitionOperation_def find_Some_iff split: option.splits) (metis nth_mem)

lemma TransitionOperation_wf:
  assumes "journal_wf db" and "TransitionOperation ident revision epoch u now db = Some (x, db')"
    and "u_State u = Running \<or> terminal (u_State u)" and "terminal (u_State u) \<longrightarrow> ident \<in> set ids"
  shows "journal_wf (finish_ops ids t db')"
proof (rule TransitionOperation_Some [OF assms(2)])
  assume db': "db' = update_operations (transition_match ident revision epoch) (transition_row u now) db"
  show ?thesis unfolding db'
    by (rule journal_wf_update [OF assms(1)])
      (use assms(3,4) transition_row_ok transition_row_finished in \<open>auto simp: transition_match_def\<close>)
qed

lemma handoffUpdate_state:
  "handoffUpdate k old pr now = Inr u \<Longrightarrow> u_State u = Running \<or> terminal (u_State u)"
  by (auto simp: handoffUpdate_def Let_def split: sum.splits if_splits)

lemma handoff_cases:
  assumes "handoff k st db r pr now = Inr db'"
  obtains "pr_ReplaceID pr = []" "db' = db"
  | old u x db1 where "ActiveOperation db (rq_Player r) = Some old" "o_ID old = pr_ReplaceID pr"
      "handoffUpdate k old pr now = Inr u"
      "TransitionOperation (o_ID old) (o_Revision old) (st_epoch st) u now db = Some (x, db1)"
      "db' = finish_ops [o_ID old] now db1"
  using assms by (auto simp: handoff_def split: if_splits option.splits sum.splits)

lemma handoff_frame:
  assumes "handoff k st db r pr now = Inr db'"
  shows "j_epoch db' = j_epoch db" and "j_ready db' = j_ready db"
    and "map request_key (j_requests db') = map request_key (j_requests db)"
    and "map o_ID (j_operations db') = map o_ID (j_operations db)"
proof -
  have "j_epoch db' = j_epoch db \<and> j_ready db' = j_ready db \<and>
    map request_key (j_requests db') = map request_key (j_requests db) \<and> map o_ID (j_operations db') = map o_ID (j_operations db)"
    using assms
  proof (cases rule: handoff_cases)
    case (2 old u x db1)
    from 2(4) show ?thesis
    proof (rule TransitionOperation_Some)
      assume "db1 = update_operations (transition_match (o_ID old) (o_Revision old) (st_epoch st)) (transition_row u now) db"
      then show ?thesis using 2(5) update_ids [of "j_operations db" "transition_match (o_ID old) (o_Revision old) (st_epoch st)" "transition_row u now"]
          transition_row_ok handoffUpdate_state [OF 2(3)]
        by (auto simp: finish_ops_requests update_operations_ops transition_match_def simp del: map_map)
    qed
  qed simp
  then show "j_epoch db' = j_epoch db" and "j_ready db' = j_ready db"
    and "map request_key (j_requests db') = map request_key (j_requests db)"
    and "map o_ID (j_operations db') = map o_ID (j_operations db)" by auto
qed

lemma handoff_wf:
  assumes "journal_wf db" and "handoff k st db r pr now = Inr db'"
  shows "journal_wf db'"
  using assms(2)
proof (cases rule: handoff_cases)
  case (2 old u x db1)
  then show ?thesis using TransitionOperation_wf [OF assms(1) 2(4) handoffUpdate_state [OF 2(3)]] by simp
qed (use assms(1) in simp)

lemma LookupRequest_None:
  "LookupRequest db r = None \<longleftrightarrow> (rq_Principal r, rq_Method r, rq_Endpoint r, rq_Key r) \<notin> set (map request_key (j_requests db))"
  by (force simp: LookupRequest_def find_None_iff same_request_def request_key_def image_iff)

lemma GetOperation_None: "GetOperation db ident = None \<longleftrightarrow> ident \<notin> set (map o_ID (j_operations db))"
  by (auto simp: GetOperation_def find_None_iff)

lemma lookup_hash_NotFound: "lookup_hash db r hash = Inl e \<Longrightarrow> errors_Is e ErrNotFound \<Longrightarrow> LookupRequest db r = None"
  by (auto simp: lookup_hash_def split: option.splits if_splits)

lemma insert_all_Inr:
  assumes "insert_all x i owned db = Inr db'"
  shows "GetOperation db (o_ID x) = None" and "j_operations db' = j_operations db @ [x]" and "j_requests db' = j_requests db @ [i]"
    and "j_epoch db' = j_epoch db" and "j_ready db' = j_ready db"
    and "j_reservations db' = (if owned then j_reservations db
           else j_reservations db @ [\<lparr>rv_DeviceKey = o_DeviceKey x, rv_OperationID = o_ID x, rv_Epoch = o_Epoch x\<rparr>])"
    and "\<not> owned \<Longrightarrow> o_DeviceKey x \<notin> rv_DeviceKey ` set (j_reservations db)"
    and "\<not> owned \<Longrightarrow> o_ID x \<notin> rv_OperationID ` set (j_reservations db)"
    and "ir_OperationID i \<notin> ir_OperationID ` set (j_requests db)"
  using assms
  by (auto simp: insert_all_def insert_operation_def insert_request_def reserve_device_def reserved_def list_ex_iff
      split: if_splits sum.splits)

lemma reservation_ok_mono: "reservation_ok ops v \<Longrightarrow> set ops \<subseteq> set ops' \<Longrightarrow> reservation_ok ops' v"
  by (auto simp: reservation_ok_def)

lemma insert_all_wf:
  assumes wf: "journal_wf db" and ins: "insert_all x i owned db = Inr db'"
    and key: "request_key i \<notin> set (map request_key (j_requests db))" and ident: "ir_OperationID i = o_ID x"
    and x: "operation_ok x" "o_FinishedAt x = None" "o_Epoch x = j_epoch db"
  shows "journal_wf db'"
proof -
  note n = insert_all_Inr [OF ins]
  have "o_ID x \<notin> set (map o_ID (j_operations db))" using n(1) by (simp add: GetOperation_None)
  moreover have "reservation_ok (j_operations db') v" if "v \<in> set (j_reservations db')" for v
    using that wf n(2,6) x(2)
    by (auto simp: journal_wf_def reservation_ok_def split: if_splits)
  ultimately show ?thesis using wf key ident x n(2-9)
    by (auto simp: journal_wf_def)
qed

lemma admit_tx_cases:
  assumes "admit_tx k st db r pr hash now ident = Inr (Inr (x, db'))"
  obtains effective db1 where "LookupRequest db r = None" "active st db = Inr ()" "proposal_check k pr now = Inr effective"
    "length (j_operations db) < st_maxOperations st" "owner_check st db r pr = Inr ()" "handoff k st db r pr now = Inr db1"
    "x = new_operation ident st r pr effective now"
    "insert_all x (new_request ident r hash now) (pr_OwnerID pr \<noteq> []) db1 = Inr db'"
  using assms lookup_hash_NotFound
  by (auto simp: admit_tx_def Let_def split: sum.splits if_splits)

lemma new_request_key:
  "request_key (new_request ident r hash now) = (rq_Principal r, rq_Method r, rq_Endpoint r, rq_Key r)"
  by (simp add: request_key_def new_request_def)

lemma active_Inr: "active st db = Inr () \<longleftrightarrow> st_initialized st \<and> j_ready db \<and> j_epoch db = st_epoch st"
  by (auto simp: active_def)

lemma admit_tx_wf:
  assumes "journal_wf db" and "admit_tx k st db r pr hash now ident = Inr (Inr (x, db'))"
  shows "journal_wf db'"
  using assms(2)
proof (rule admit_tx_cases)
  fix effective db1
  assume a: "LookupRequest db r = None" "active st db = Inr ()" "handoff k st db r pr now = Inr db1"
    "x = new_operation ident st r pr effective now"
    "insert_all x (new_request ident r hash now) (pr_OwnerID pr \<noteq> []) db1 = Inr db'"
  note f = handoff_frame [OF a(3)]
  have key: "request_key (new_request ident r hash now) \<notin> set (map request_key (j_requests db1))"
    using a(1) unfolding new_request_key f(3) LookupRequest_None .
  show ?thesis
    by (rule insert_all_wf [OF handoff_wf [OF assms(1) a(3)] a(5) key])
      (use a(2,4) f(1) in \<open>auto simp: active_Inr new_operation_def operation_ok_def new_request_def\<close>)
qed

lemma Admit_db:
  "snd (Admit k st r pr now ident CommitOK db) = db \<or>
   (\<exists>hash x. fingerprint k r = Inr hash \<and> admit_tx k st db r pr hash now ident = Inr (Inr (x, snd (Admit k st r pr now ident CommitOK db))))"
  by (auto simp: Admit_def split: sum.splits)

lemma Admit_wf: "journal_wf db \<Longrightarrow> journal_wf (snd (Admit k st r pr now ident CommitOK db))"
  using Admit_db [of k st r pr now ident db] admit_tx_wf by metis

lemma commit_with_db [simp]: "snd (commit_with c what v db db') = (if c = Aborted then db else db')"
  by (simp add: commit_with_def)

lemma Transition_cases:
  obtains (unchanged) "snd (Transition k st ident revision u now c db) = db"
  | (changed) u' x db' where "active st db = Inr ()" "u_State u' = u_State u" "u_State u = Running \<or> terminal (u_State u)"
      "TransitionOperation ident revision (st_epoch st) u' now db = Some (x, db')"
      "snd (Transition k st ident revision u now c db) = finish_ops (if terminal (u_State u) then [ident] else []) now db'"
proof (cases "snd (Transition k st ident revision u now c db) = db")
  case False
  then obtain progress outcome x db' where
    "active st db = Inr ()" "u_State u = Running \<or> terminal (u_State u)"
    "TransitionOperation ident revision (st_epoch st) (u\<lparr>u_Progress := Some progress, u_Outcome := Some outcome\<rparr>) now db = Some (x, db')"
    "snd (Transition k st ident revision u now c db) = (if terminal (u_State u) then finish_ops [ident] now db' else db')"
    by (auto simp: Transition_def split: sum.splits option.splits prod.splits if_splits)
  then show ?thesis using changed [of "u\<lparr>u_Progress := Some progress, u_Outcome := Some outcome\<rparr>" x db'] by auto
qed (rule unchanged)

lemma Transition_wf: "journal_wf db \<Longrightarrow> journal_wf (snd (Transition k st ident revision u now c db))"
proof (cases k st ident revision u now c db rule: Transition_cases)
  case (changed u' x db')
  assume "journal_wf db"
  then show ?thesis using TransitionOperation_wf [OF _ changed(4)] changed by auto
qed simp

lemma select_row_ok: "row_update_ok (select_row album now) x"
  by (auto simp: row_update_ok_def select_row_def operation_ok_def)

lemma SelectAlbum_db:
  "snd (SelectAlbum st ident revision album now c db) = db \<or>
   active st db = Inr () \<and>
   snd (SelectAlbum st ident revision album now c db) =
     update_operations (select_match ident revision (st_epoch st)) (select_row album now) db"
  by (auto simp: SelectAlbum_def split: sum.splits option.splits)

lemma SelectAlbum_wf: "journal_wf db \<Longrightarrow> journal_wf (snd (SelectAlbum st ident revision album now c db))"
proof -
  assume wf: "journal_wf db"
  have "journal_wf (finish_ops [] now (update_operations (select_match ident revision (st_epoch st)) (select_row album now) db))"
    by (rule journal_wf_update [OF wf]) (auto simp: select_row_ok select_match_def transition_match_def select_row_def)
  then show ?thesis using SelectAlbum_db [of st ident revision album now c db] wf by auto
qed

lemma interrupt_row_ok: "row_update_ok (interrupt_row outcome now) x"
  by (auto simp: row_update_ok_def interrupt_row_def operation_ok_def)

lemma interrupt_ids_frame [simp]:
  "interrupt_ids e (db\<lparr>j_epoch := a\<rparr>) = interrupt_ids e db" "interrupt_ids e (db\<lparr>j_ready := b\<rparr>) = interrupt_ids e db"
  by (simp_all add: interrupt_ids_def)

abbreviation recovered :: "(Operation \<Rightarrow> string) \<Rightarrow> time \<Rightarrow> string \<Rightarrow> journal_db \<Rightarrow> journal_db" where
  "recovered outcome now epoch db \<equiv> snd (recoverTx outcome now epoch db)"

lemma recoverTx_fields:
  "fst (recoverTx outcome now epoch db) = (length (interrupt_ids epoch db) < MaxBatch)"
  "j_epoch (recovered outcome now epoch db) = epoch"
  "j_ready (recovered outcome now epoch db) = (length (interrupt_ids epoch db) < MaxBatch)"
  "j_operations (recovered outcome now epoch db) =
     map (\<lambda>x. if o_ID x \<in> set (interrupt_ids epoch db) then interrupt_row outcome now x else x) (j_operations db)"
  by (simp_all add: recoverTx_def InterruptBatch_def Let_def update_operations_ops)

lemma recoverBatch_db:
  "snd (snd (recoverBatch outcome now c st db)) = db \<or>
   snd (snd (recoverBatch outcome now c st db)) = recovered outcome now (st_epoch st) db"
  by (auto simp: recoverBatch_def commit_with_def Let_def split: prod.splits)

lemma recoverBatch_Inr:
  assumes "recoverBatch outcome now c st db = (Inr finished, st', db')"
  shows "db' = recovered outcome now (st_epoch st) db" and "finished = (length (interrupt_ids (st_epoch st) db) < MaxBatch)"
    and "st_epoch st' = st_epoch st" and "st_initialized st' = st_initialized st"
proof -
  have "db' = recovered outcome now (st_epoch st) db \<and> finished = fst (recoverTx outcome now (st_epoch st) db) \<and>
    st_epoch st' = st_epoch st \<and> st_initialized st' = st_initialized st"
    using assms by (auto simp: recoverBatch_def commit_with_def Let_def split: prod.splits if_splits)
  then show "db' = recovered outcome now (st_epoch st) db" and "finished = (length (interrupt_ids (st_epoch st) db) < MaxBatch)"
    and "st_epoch st' = st_epoch st" and "st_initialized st' = st_initialized st" by (auto simp: recoverTx_fields)
qed

lemma interrupt_ids_all:
  assumes "length (interrupt_ids epoch db) < MaxBatch" and "x \<in> set (j_operations db)" and "interruptible epoch x"
  shows "o_ID x \<in> set (interrupt_ids epoch db)"
proof -
  let ?s = "sort (map o_ID (filter (interruptible epoch) (j_operations db)))"
  have "length ?s \<le> MaxBatch" using assms(1) by (simp add: interrupt_ids_def min_def split: if_splits)
  then have "interrupt_ids epoch db = ?s" by (simp add: interrupt_ids_def)
  then show ?thesis using assms(2,3) by auto
qed

lemma recovered_unfinished:
  assumes "length (interrupt_ids epoch db) < MaxBatch" and "y \<in> set (j_operations (recovered outcome now epoch db))"
    and "o_FinishedAt y = None"
  shows "o_Epoch y = epoch"
proof -
  obtain x where x: "x \<in> set (j_operations db)" "y = (if o_ID x \<in> set (interrupt_ids epoch db) then interrupt_row outcome now x else x)"
    using assms(2) by (auto simp: recoverTx_fields)
  then have "o_ID x \<notin> set (interrupt_ids epoch db)" "y = x"
    using assms(3) by (auto simp: interrupt_row_def split: if_splits)
  then show ?thesis using interrupt_ids_all [OF assms(1) x(1)] assms(3) by (auto simp: interruptible_def)
qed

lemma journal_wf_ready:
  "journal_wf db \<Longrightarrow> (\<And>x. x \<in> set (j_operations db) \<Longrightarrow> o_FinishedAt x = None \<Longrightarrow> o_Epoch x = j_epoch db) \<Longrightarrow>
   journal_wf (db\<lparr>j_ready := True\<rparr>)"
  by (simp add: journal_wf_def)

lemma recovered_wf:
  assumes "journal_wf db"
  shows "journal_wf (recovered outcome now epoch db)"
proof -
  let ?ids = "interrupt_ids epoch db"
  let ?base = "db\<lparr>j_epoch := epoch, j_ready := False\<rparr>"
  let ?db = "finish_ops ?ids now (update_operations (\<lambda>x. o_ID x \<in> set ?ids) (interrupt_row outcome now) ?base)"
  have "journal_wf ?base" using assms by (simp add: journal_wf_def)
  then have wf: "journal_wf ?db"
    by (rule journal_wf_update) (auto simp: interrupt_row_ok)
  have r: "recovered outcome now epoch db = (if length ?ids < MaxBatch then ?db\<lparr>j_ready := True\<rparr> else ?db)"
    by (simp add: recoverTx_def InterruptBatch_def Let_def)
  show ?thesis
  proof (cases "length ?ids < MaxBatch")
    case True
    have "journal_wf (?db\<lparr>j_ready := True\<rparr>)"
      by (rule journal_wf_ready [OF wf]) (use recovered_unfinished [OF True, of _ outcome now] True r in simp)
    then show ?thesis using True r by simp
  next
    case False
    then show ?thesis using wf r by simp
  qed
qed

lemma recoverBatch_wf: "journal_wf db \<Longrightarrow> journal_wf (snd (snd (recoverBatch outcome now c st db)))"
  using recoverBatch_db [of outcome now c st db] recovered_wf by metis

lemma Prune_ids_ok:
  assumes "ident \<in> set (Prune_ids now limit db)"
  shows "\<exists>x \<in> set (j_operations db). o_ID x = ident \<and> (\<exists>t. o_FinishedAt x = Some t \<and> t \<le> now - Retention)"
    and "\<forall>i \<in> set (j_requests db). ir_OperationID i = ident \<longrightarrow> ir_ExpiresAt i \<le> now"
    and "\<forall>v \<in> set (j_reservations db). rv_OperationID v \<noteq> ident"
proof -
  from assms obtain x where x: "ident = o_ID x" "x \<in> set (j_operations db)"
    "case o_FinishedAt x of None \<Rightarrow> False | Some t \<Rightarrow> t \<le> now - Retention"
    "\<not> list_ex (\<lambda>i. ir_OperationID i = o_ID x \<and> ir_ExpiresAt i > now) (j_requests db)" "\<not> reserved db (o_ID x)"
    by (auto simp: Prune_ids_def dest!: in_set_takeD)
  then show "\<exists>x \<in> set (j_operations db). o_ID x = ident \<and> (\<exists>t. o_FinishedAt x = Some t \<and> t \<le> now - Retention)"
    by (intro bexI [of _ x]) (auto split: option.splits)
  show "\<forall>i \<in> set (j_requests db). ir_OperationID i = ident \<longrightarrow> ir_ExpiresAt i \<le> now"
    and "\<forall>v \<in> set (j_reservations db). rv_OperationID v \<noteq> ident"
    using x by (auto simp: reserved_def list_ex_iff not_less)
qed

definition pruned :: "time \<Rightarrow> nat \<Rightarrow> journal_db \<Rightarrow> journal_db" where
  "pruned now limit db = snd (PruneOperations now limit db)"

lemma pruned_fields [simp]:
  "j_epoch (pruned now limit db) = j_epoch db" "j_ready (pruned now limit db) = j_ready db"
  "j_reservations (pruned now limit db) = j_reservations db"
  "j_operations (pruned now limit db) = filter (\<lambda>x. o_ID x \<notin> set (Prune_ids now limit db)) (j_operations db)"
  "j_requests (pruned now limit db) = filter (\<lambda>i. ir_OperationID i \<notin> set (Prune_ids now limit db)) (j_requests db)"
  by (simp_all add: pruned_def PruneOperations_def Let_def)

lemma pruned_wf:
  assumes "journal_wf db"
  shows "journal_wf (pruned now limit db)"
proof -
  have "reservation_ok (j_operations (pruned now limit db)) v" if v: "v \<in> set (j_reservations db)" for v
  proof -
    obtain x where "x \<in> set (j_operations db)" "o_ID x = rv_OperationID v" "o_DeviceKey x = rv_DeviceKey v"
      "o_Epoch x = rv_Epoch v" "o_FinishedAt x = None"
      using assms v by (auto simp: journal_wf_def reservation_ok_def)
    moreover have "rv_OperationID v \<notin> set (Prune_ids now limit db)" using Prune_ids_ok(3) v by blast
    ultimately show ?thesis by (auto simp: reservation_ok_def)
  qed
  moreover have "\<forall>i \<in> set (j_requests (pruned now limit db)). ir_OperationID i \<in> o_ID ` set (j_operations (pruned now limit db))"
  proof
    fix i assume "i \<in> set (j_requests (pruned now limit db))"
    then have i: "i \<in> set (j_requests db)" "ir_OperationID i \<notin> set (Prune_ids now limit db)" by auto
    then obtain x where "x \<in> set (j_operations db)" "o_ID x = ir_OperationID i"
      using assms unfolding journal_wf_def image_iff by metis
    with i show "ir_OperationID i \<in> o_ID ` set (j_operations (pruned now limit db))" by force
  qed
  ultimately show ?thesis using assms
    by (auto simp: journal_wf_def distinct_map_filter)
qed

lemma Prune_db:
  "snd (Prune st limit now c db) = db \<or> active st db = Inr () \<and> snd (Prune st limit now c db) = pruned now limit db"
  by (auto simp: Prune_def pruned_def split: sum.splits prod.splits)

lemma Prune_wf: "journal_wf db \<Longrightarrow> journal_wf (snd (Prune st limit now c db))"
  using Prune_db [of st limit now c db] pruned_wf by metis

subsection \<open>Reachable journals\<close>

text \<open>
  The transactions of any number of controller processes, in any order. A lost COMMIT reply changes
  nothing more than an acknowledged one, so an admission commits or is a no-op here.
\<close>

inductive jstep :: "journal_db \<Rightarrow> journal_db \<Rightarrow> bool" where
  step_admit: "jstep db (snd (Admit k st r pr now ident CommitOK db))"
| step_transition: "jstep db (snd (Transition k st ident revision u now c db))"
| step_select: "jstep db (snd (SelectAlbum st ident revision album now c db))"
| step_recover: "jstep db (snd (snd (recoverBatch outcome now c st db)))"
| step_prune: "jstep db (snd (Prune st limit now c db))"

inductive_cases jstepE: "jstep db db'"

definition empty_journal :: journal_db where
  "empty_journal = \<lparr>j_epoch = [], j_ready = False, j_operations = [], j_requests = [], j_reservations = []\<rparr>"

inductive journal_reachable :: "journal_db \<Rightarrow> bool" where
  reachable_empty: "journal_reachable empty_journal"
| reachable_step: "journal_reachable db \<Longrightarrow> jstep db db' \<Longrightarrow> journal_reachable db'"

lemma jstep_wf: "jstep db db' \<Longrightarrow> journal_wf db \<Longrightarrow> journal_wf db'"
  by (elim jstepE) (simp_all add: Admit_wf Transition_wf SelectAlbum_wf recoverBatch_wf Prune_wf)

lemma empty_journal_wf: "journal_wf empty_journal"
  by (simp add: journal_wf_def empty_journal_def)

lemma reachable_wf: "journal_reachable db \<Longrightarrow> journal_wf db"
  by (induction rule: journal_reachable.induct) (auto intro: jstep_wf empty_journal_wf)

subsection \<open>What the journal promises\<close>

text \<open>
  C17. A device has at most one owner. In every journal the transactions of any number of controller
  processes can reach, two reservations never share a device or an operation, a reservation always
  belongs to an unfinished operation of that device, and once the journal is ready every unfinished
  operation, so every owner, belongs to the current controller epoch.
\<close>

theorem one_owner_per_device:
  assumes "journal_reachable db"
  shows "distinct (map rv_DeviceKey (j_reservations db)) \<and> distinct (map rv_OperationID (j_reservations db)) \<and>
         (\<forall>v \<in> set (j_reservations db). \<exists>x \<in> set (j_operations db).
            o_ID x = rv_OperationID v \<and> o_DeviceKey x = rv_DeviceKey v \<and> \<not> terminal (o_State x) \<and>
            (j_ready db \<longrightarrow> o_Epoch x = j_epoch db)) \<and>
         (j_ready db \<longrightarrow> (\<forall>x \<in> set (j_operations db). \<not> terminal (o_State x) \<longrightarrow> o_Epoch x = j_epoch db))"
proof -
  have wf: "journal_wf db" using assms by (rule reachable_wf)
  have "\<exists>x \<in> set (j_operations db). o_ID x = rv_OperationID v \<and> o_DeviceKey x = rv_DeviceKey v \<and>
      \<not> terminal (o_State x) \<and> (j_ready db \<longrightarrow> o_Epoch x = j_epoch db)" if v: "v \<in> set (j_reservations db)" for v
  proof -
    obtain x where "x \<in> set (j_operations db)" "o_ID x = rv_OperationID v" "o_DeviceKey x = rv_DeviceKey v" "o_FinishedAt x = None"
      using wf v unfolding journal_wf_def reservation_ok_def by blast
    moreover from this have "\<not> terminal (o_State x)" "j_ready db \<longrightarrow> o_Epoch x = j_epoch db"
      using wf by (auto simp: journal_wf_def operation_ok_def)
    ultimately show ?thesis by blast
  qed
  then show ?thesis using wf by (auto simp: journal_wf_def operation_ok_def)
qed

text \<open>Example processes, requests and documents.\<close>

definition example_codec :: codec where
  "example_codec = \<lparr>k_canonical = Inr, k_digest = (\<lambda>a b c. a @ b @ c), k_interrupted = Inr, k_diagnostics = (\<lambda>s a b t. Inr s)\<rparr>"

definition example_store :: Store where
  "example_store = \<lparr>st_epoch = ''e1'', st_initialized = True, st_previousEpoch = Some [], st_maxOperations = 5\<rparr>"

definition example_request :: "string \<Rightarrow> Request" where
  "example_request key = \<lparr>rq_Principal = ''ann'', rq_Method = ''POST'', rq_Endpoint = ''/v1'', rq_Key = key,
     rq_Player = ''kitchen'', rq_IfMatch = [], rq_Body = ''{}''\<rparr>"

definition example_proposal :: Proposal where
  "example_proposal = \<lparr>pr_OwnerID = [], pr_ReplaceUncertain = False, pr_ReplaceID = [], pr_ReplaceRevision = 0,
     pr_Kind = ''volume'', pr_DeviceKey = ''S1'', pr_ConfigRevision = ''c'', pr_EffectiveArguments = ''{}'',
     pr_NotBefore = 10, pr_NotAfter = 20\<rparr>"

definition example_ready :: journal_db where
  "example_ready = snd (snd (recoverBatch (\<lambda>_. ''{}'') 1 Acked (example_store\<lparr>st_initialized := False\<rparr>) empty_journal))"

definition example_admitted :: journal_db where
  "example_admitted = snd (Admit example_codec example_store (example_request ''k1'') example_proposal 15 ''op1'' CommitOK example_ready)"

lemma example_admitted_reachable: "journal_reachable example_admitted"
  unfolding example_admitted_def example_ready_def
  by (intro reachable_step [OF _ step_admit] reachable_step [OF _ step_recover] reachable_empty)

theorem one_owner_per_device_witness:
  "map rv_DeviceKey (j_reservations example_admitted) = [''S1''] \<and>
   list_all (\<lambda>v. list_ex (\<lambda>x. o_ID x = rv_OperationID v) (j_operations example_admitted)) (j_reservations example_admitted)"
proof -
  have "map rv_DeviceKey (j_reservations example_admitted) = [''S1'']" by code_simp
  then show ?thesis using one_owner_per_device [OF example_admitted_reachable]
    by (auto simp: list_all_iff list_ex_iff)
qed

subsection \<open>How rows change\<close>

definition row_step :: "Operation \<Rightarrow> Operation \<Rightarrow> bool" where
  "row_step x y \<longleftrightarrow>
     y = x \<or>
     (o_FinishedAt x = None \<and> o_ID y = o_ID x \<and> o_DeviceKey y = o_DeviceKey x \<and> o_Epoch y = o_Epoch x \<and>
      o_Principal y = o_Principal x \<and> o_Player y = o_Player x \<and> o_Kind y = o_Kind x \<and>
      o_EffectiveArguments y = o_EffectiveArguments x \<and> o_Revision y = o_Revision x + 1 \<and>
      (o_SelectedAlbum x \<noteq> None \<longrightarrow> o_SelectedAlbum y = o_SelectedAlbum x))"

text \<open>
  A step of the operations table: every row comes from an old one by at most one revision, or has a
  new identifier; a row disappears only when it was finished.
\<close>

definition table_step :: "Operation list \<Rightarrow> Operation list \<Rightarrow> bool" where
  "table_step ops ops' \<longleftrightarrow>
     (\<forall>y \<in> set ops'. (\<exists>x \<in> set ops. row_step x y) \<or> o_ID y \<notin> o_ID ` set ops) \<and>
     (\<forall>x \<in> set ops. o_FinishedAt x = None \<longrightarrow> (\<exists>y \<in> set ops'. row_step x y))"

lemma row_step_refl [simp]: "row_step x x"
  by (simp add: row_step_def)

lemma row_step_ID: "row_step x y \<Longrightarrow> o_ID y = o_ID x"
  by (auto simp: row_step_def)

lemma table_step_refl [simp]: "table_step ops ops"
  using row_step_refl unfolding table_step_def by blast

lemma table_step_map: "\<forall>x \<in> set ops. row_step x (g x) \<Longrightarrow> table_step ops (map g ops)"
  by (auto simp: table_step_def)

lemma table_step_append:
  assumes "table_step ops ops'" and "o_ID z \<notin> o_ID ` set ops"
  shows "table_step ops (ops' @ [z])"
  using assms by (auto simp: table_step_def)

lemma table_step_filter:
  "\<forall>x \<in> set ops. \<not> p x \<longrightarrow> o_FinishedAt x \<noteq> None \<Longrightarrow> table_step ops (filter p ops)"
  using row_step_refl unfolding table_step_def set_filter by blast

lemma transition_row_step: "transition_match ident revision epoch x \<Longrightarrow> row_step x (transition_row u now x)"
  by (simp add: row_step_def transition_match_def transition_row_def)

lemma TransitionOperation_step:
  assumes "TransitionOperation ident revision epoch u now db = Some (x, db')"
  shows "table_step (j_operations db) (j_operations db')"
proof (rule TransitionOperation_Some [OF assms])
  assume "db' = update_operations (transition_match ident revision epoch) (transition_row u now) db"
  then show ?thesis by (auto simp: update_operations_ops transition_row_step intro!: table_step_map)
qed

lemma handoff_step:
  assumes "handoff k st db r pr now = Inr db'"
  shows "table_step (j_operations db) (j_operations db')"
  using assms by (cases rule: handoff_cases) (auto dest: TransitionOperation_step)

lemma admit_tx_step:
  assumes "admit_tx k st db r pr hash now ident = Inr (Inr (x, db'))"
  shows "table_step (j_operations db) (j_operations db')" and "j_operations db' \<noteq> []"
    and "length (j_operations db') \<le> st_maxOperations st"
proof -
  have "table_step (j_operations db) (j_operations db') \<and> j_operations db' \<noteq> [] \<and> length (j_operations db') \<le> st_maxOperations st"
    using assms
  proof (rule admit_tx_cases)
    fix effective db1
    assume h: "handoff k st db r pr now = Inr db1" and c: "length (j_operations db) < st_maxOperations st"
      and i: "insert_all x (new_request ident r hash now) (pr_OwnerID pr \<noteq> []) db1 = Inr db'"
    note n = insert_all_Inr [OF i] and f = handoff_frame [OF h]
    have "o_ID x \<notin> set (map o_ID (j_operations db))" using n(1) unfolding GetOperation_None f(4) .
    then have "o_ID x \<notin> o_ID ` set (j_operations db)" by simp
    moreover have "length (j_operations db1) = length (j_operations db)" using f(4) by (metis length_map)
    ultimately show ?thesis using n(2) c table_step_append [OF handoff_step [OF h]] by simp
  qed
  then show "table_step (j_operations db) (j_operations db')" and "j_operations db' \<noteq> []"
    and "length (j_operations db') \<le> st_maxOperations st" by auto
qed

lemma interrupt_step:
  assumes "journal_wf db"
  shows "table_step (j_operations db) (j_operations (recovered outcome now epoch db))"
proof -
  have "row_step x (interrupt_row outcome now x)" if x: "x \<in> set (j_operations db)" "o_ID x \<in> set (interrupt_ids epoch db)" for x
  proof -
    obtain z where z: "z \<in> set (j_operations db)" "interruptible epoch z" "o_ID z = o_ID x"
      using x(2) by (auto simp: interrupt_ids_def dest!: in_set_takeD)
    have "inj_on o_ID (set (j_operations db))" using assms by (simp add: journal_wf_def distinct_map)
    then have "z = x" using z x(1) by (auto dest: inj_onD)
    then show ?thesis using z(2) by (simp add: row_step_def interrupt_row_def interruptible_def)
  qed
  then show ?thesis by (auto simp: recoverTx_fields intro!: table_step_map)
qed

lemma prune_step:
  assumes "journal_wf db"
  shows "table_step (j_operations db) (j_operations (pruned now limit db))"
proof -
  have "o_FinishedAt x \<noteq> None" if x: "x \<in> set (j_operations db)" "o_ID x \<in> set (Prune_ids now limit db)" for x
  proof -
    obtain z where z: "z \<in> set (j_operations db)" "o_ID z = o_ID x" "o_FinishedAt z \<noteq> None"
      using Prune_ids_ok(1) [OF x(2)] by auto
    have "inj_on o_ID (set (j_operations db))" using assms by (simp add: journal_wf_def distinct_map)
    then have "z = x" using z x(1) by (auto dest: inj_onD)
    then show ?thesis using z(3) by simp
  qed
  then show ?thesis by (auto intro!: table_step_filter)
qed

lemma jstep_table:
  assumes "jstep db db'" and "journal_wf db"
  shows "table_step (j_operations db) (j_operations db')"
  using assms(1)
proof cases
  case (step_admit k st r pr now ident)
  then show ?thesis using Admit_db [of k st r pr now ident db] admit_tx_step(1) by fastforce
next
  case (step_transition k st ident revision u now c)
  show ?thesis
  proof (cases k st ident revision u now c db rule: Transition_cases)
    case unchanged
    then show ?thesis using step_transition by simp
  next
    case (changed u' x db1)
    then show ?thesis using step_transition TransitionOperation_step [OF changed(4)] by simp
  qed
next
  case (step_select st ident revision album now c)
  have "row_step x (select_row album now x)" if "select_match ident revision (st_epoch st) x" for x
    using that by (simp add: row_step_def select_row_def select_match_def transition_match_def)
  then show ?thesis using step_select SelectAlbum_db [of st ident revision album now c db]
    by (auto simp: update_operations_ops intro!: table_step_map)
next
  case (step_recover outcome now c st)
  then show ?thesis using recoverBatch_db [of outcome now c st db] interrupt_step [OF assms(2)] by auto
next
  case (step_prune st limit now c)
  then show ?thesis using Prune_db [of st limit now c db] prune_step [OF assms(2)] by auto
qed

lemma table_step_row:
  assumes "journal_wf db" and "table_step (j_operations db) ops'" and "x \<in> set (j_operations db)" and "y \<in> set ops'"
    and "o_ID y = o_ID x"
  shows "row_step x y"
proof -
  have "o_ID y \<in> o_ID ` set (j_operations db)" using assms(3,5) by auto
  then obtain z where z: "z \<in> set (j_operations db)" "row_step z y" using assms(2,4) by (auto simp: table_step_def)
  have "inj_on o_ID (set (j_operations db))" using assms(1) by (simp add: journal_wf_def distinct_map)
  then have "z = x" using z assms(3,5) row_step_ID [OF z(2)] by (auto dest: inj_onD)
  then show ?thesis using z(2) by simp
qed

text \<open>
  C31. Operations change only forward. In any step of a reachable journal a row keeps its identity,
  owner and arguments: a finished operation never changes again, an unfinished one keeps its row and
  advances by at most one revision, a selected album is never replaced, and only finished
  operations are ever removed.
\<close>

theorem terminal_operations_immutable:
  assumes "journal_reachable db" and "jstep db db'" and "x \<in> set (j_operations db)"
  shows "(terminal (o_State x) \<longrightarrow> (\<forall>y \<in> set (j_operations db'). o_ID y = o_ID x \<longrightarrow> y = x)) \<and>
         (\<not> terminal (o_State x) \<longrightarrow> (\<exists>y \<in> set (j_operations db'). o_ID y = o_ID x)) \<and>
         (\<forall>y \<in> set (j_operations db'). o_ID y = o_ID x \<longrightarrow>
            (y = x \<or> o_Revision y = o_Revision x + 1) \<and> o_Principal y = o_Principal x \<and> o_Epoch y = o_Epoch x \<and>
            o_EffectiveArguments y = o_EffectiveArguments x \<and>
            (o_SelectedAlbum x \<noteq> None \<longrightarrow> o_SelectedAlbum y = o_SelectedAlbum x))"
proof -
  have wf: "journal_wf db" using assms(1) by (rule reachable_wf)
  note t = jstep_table [OF assms(2) wf]
  have row: "row_step x y" if "y \<in> set (j_operations db')" "o_ID y = o_ID x" for y
    using table_step_row [OF wf t assms(3) that] .
  have fin: "terminal (o_State x) = (o_FinishedAt x \<noteq> None)"
    using wf assms(3) by (auto simp: journal_wf_def operation_ok_def)
  have keep: "o_FinishedAt x = None \<longrightarrow> (\<exists>y \<in> set (j_operations db'). o_ID y = o_ID x)"
    using t assms(3) row_step_ID unfolding table_step_def by blast
  show ?thesis using row fin keep by (auto simp: row_step_def)
qed

definition example_finished :: journal_db where
  "example_finished = snd (Transition example_codec example_store ''op1'' 1
     \<lparr>u_State = Succeeded, u_Phase = ''complete'', u_Progress = None, u_Outcome = None, u_ErrorCode = []\<rparr> 16 Acked example_admitted)"

theorem terminal_operations_immutable_witness:
  "\<exists>x \<in> set (j_operations example_finished). o_State x = Succeeded \<and> o_Revision x = 2 \<and>
     filter (\<lambda>y. o_ID y = o_ID x \<and> y \<noteq> x) (j_operations (snd (Transition example_codec example_store ''op1'' 2
       \<lparr>u_State = Failed, u_Phase = [], u_Progress = None, u_Outcome = None, u_ErrorCode = []\<rparr> 17 Acked example_finished))) = []"
proof -
  have r: "journal_reachable example_finished" unfolding example_finished_def
    by (rule reachable_step [OF example_admitted_reachable step_transition])
  have "map (\<lambda>x. (o_State x, o_Revision x)) (j_operations example_finished) = [(Succeeded, 2)]" by code_simp
  then obtain x where x: "x \<in> set (j_operations example_finished)" "o_State x = Succeeded" "o_Revision x = 2" by auto
  show ?thesis using terminal_operations_immutable [OF r step_transition x(1)] x
    by (auto simp: filter_empty_conv)
qed

subsection \<open>Idempotent admission\<close>

definition request_view :: "idempotency \<Rightarrow> (string \<times> string \<times> string \<times> string) \<times> string \<times> string" where
  "request_view i = (request_key i, ir_RequestHash i, ir_OperationID i)"

definition record_of :: "Request \<Rightarrow> string \<Rightarrow> string \<Rightarrow> (string \<times> string \<times> string \<times> string) \<times> string \<times> string" where
  "record_of r hash ident = ((rq_Principal r, rq_Method r, rq_Endpoint r, rq_Key r), hash, ident)"

lemma finish_ops_view: "map request_view (j_requests (finish_ops ids now db)) = map request_view (j_requests db)"
  by (auto simp: finish_ops_def ExtendRetention_def ReleaseReservations_def request_view_def request_key_def)

text \<open>A record disappears only together with its operation.\<close>

definition records_kept :: "journal_db \<Rightarrow> journal_db \<Rightarrow> bool" where
  "records_kept db db' \<longleftrightarrow>
     (\<forall>i \<in> set (j_requests db). ir_OperationID i \<in> o_ID ` set (j_operations db') \<longrightarrow>
        request_view i \<in> set (map request_view (j_requests db')))"

lemma records_kept_eq: "map request_view (j_requests db) = map request_view (j_requests db') \<Longrightarrow> records_kept db db'"
  unfolding records_kept_def by (metis image_eqI set_map)

lemma TransitionOperation_requests:
  "TransitionOperation ident revision epoch u now db = Some (x, db') \<Longrightarrow> j_requests db' = j_requests db"
  by (auto simp: TransitionOperation_def split: option.splits)

lemma handoff_requests:
  "handoff k st db r pr now = Inr db' \<Longrightarrow> map request_view (j_requests db') = map request_view (j_requests db)"
  by (erule handoff_cases) (auto simp: finish_ops_view dest: TransitionOperation_requests)

lemma admit_tx_requests:
  assumes "admit_tx k st db r pr hash now ident = Inr (Inr (x, db'))"
  shows "map request_view (j_requests db') = map request_view (j_requests db) @ [record_of r hash ident]"
    and "o_ID x = ident" and "ident \<in> o_ID ` set (j_operations db')" and "o_State x = Accepted"
proof -
  have "map request_view (j_requests db') = map request_view (j_requests db) @ [record_of r hash ident] \<and>
    o_ID x = ident \<and> ident \<in> o_ID ` set (j_operations db') \<and> o_State x = Accepted"
    using assms
  proof (rule admit_tx_cases)
    fix effective db1
    assume a: "handoff k st db r pr now = Inr db1" "x = new_operation ident st r pr effective now"
      "insert_all x (new_request ident r hash now) (pr_OwnerID pr \<noteq> []) db1 = Inr db'"
    show ?thesis using insert_all_Inr(2,3) [OF a(3)] handoff_requests [OF a(1)] a(2)
      by (auto simp: request_view_def record_of_def new_request_key) (simp_all add: new_request_def new_operation_def)
  qed
  then show "map request_view (j_requests db') = map request_view (j_requests db) @ [record_of r hash ident]"
    and "o_ID x = ident" and "ident \<in> o_ID ` set (j_operations db')" and "o_State x = Accepted" by auto
qed

lemma jstep_records: "jstep db db' \<Longrightarrow> records_kept db db'"
proof (erule jstepE)
  fix k st r pr now ident
  show "db' = snd (Admit k st r pr now ident CommitOK db) \<Longrightarrow> records_kept db db'"
    using Admit_db [of k st r pr now ident db] admit_tx_requests(1)
    by (fastforce simp: records_kept_def)
next
  fix k st ident revision u now c
  show "db' = snd (Transition k st ident revision u now c db) \<Longrightarrow> records_kept db db'"
  proof (cases k st ident revision u now c db rule: Transition_cases)
    case (changed u' x db1)
    then show "db' = snd (Transition k st ident revision u now c db) \<Longrightarrow> records_kept db db'"
      using TransitionOperation_requests [OF changed(4)] by (auto intro!: records_kept_eq simp: finish_ops_view)
  qed (auto intro: records_kept_eq)
next
  fix st ident revision album now c
  show "db' = snd (SelectAlbum st ident revision album now c db) \<Longrightarrow> records_kept db db'"
    using SelectAlbum_db [of st ident revision album now c db] by (auto intro!: records_kept_eq)
next
  fix outcome now c and st :: Store
  have "map request_view (j_requests (recovered outcome now (st_epoch st) db)) = map request_view (j_requests db)"
    by (simp add: recoverTx_def InterruptBatch_def Let_def finish_ops_view)
  then show "db' = snd (snd (recoverBatch outcome now c st db)) \<Longrightarrow> records_kept db db'"
    using recoverBatch_db [of outcome now c st db] by (auto intro!: records_kept_eq)
next
  fix st limit now c
  show "db' = snd (Prune st limit now c db) \<Longrightarrow> records_kept db db'"
    using Prune_db [of st limit now c db] by (auto simp: records_kept_def)
qed

text \<open>A journal that holds the record of a request and its operation answers the request with it.\<close>

definition answers :: "Request \<Rightarrow> string \<Rightarrow> string \<Rightarrow> journal_db \<Rightarrow> bool" where
  "answers r hash ident db \<longleftrightarrow>
     journal_wf db \<and> record_of r hash ident \<in> set (map request_view (j_requests db)) \<and> ident \<in> o_ID ` set (j_operations db)"

lemma answers_lookup:
  assumes "answers r hash ident db"
  shows "\<exists>x \<in> set (j_operations db). o_ID x = ident \<and> lookup_hash db r hash = Inr x"
proof -
  from assms obtain i where i: "i \<in> set (j_requests db)" "request_view i = record_of r hash ident"
    by (auto simp: answers_def)
  have key: "request_key i = (rq_Principal r, rq_Method r, rq_Endpoint r, rq_Key r)"
    and h: "ir_RequestHash i = hash" "ir_OperationID i = ident"
    using i(2) by (auto simp: request_view_def record_of_def)
  have "request_key i \<in> set (map request_key (j_requests db))" using i(1) by simp
  then have "LookupRequest db r \<noteq> None" unfolding key LookupRequest_None by blast
  then obtain j where j: "LookupRequest db r = Some j" by blast
  then have "j \<in> set (j_requests db)" "same_request r j"
    by (auto simp: LookupRequest_def find_Some_iff)
  then have "j \<in> set (j_requests db)" "request_key j = request_key i"
    using key by (auto simp: same_request_def request_key_def)
  moreover have "inj_on request_key (set (j_requests db))" using assms by (simp add: answers_def journal_wf_def distinct_map)
  ultimately have "j = i" using i(1) by (auto dest: inj_onD)
  have "GetOperation db ident \<noteq> None" using assms by (auto simp: GetOperation_None answers_def)
  then obtain x where x: "GetOperation db ident = Some x" by blast
  then have "x \<in> set (j_operations db)" "o_ID x = ident" by (auto simp: GetOperation_def find_Some_iff)
  then show ?thesis using x j \<open>j = i\<close> h by (auto simp: lookup_hash_def)
qed

lemma answers_step:
  assumes "answers r hash ident db" and "jstep db db'" and "ident \<in> o_ID ` set (j_operations db')"
  shows "answers r hash ident db'"
proof -
  obtain i where i: "i \<in> set (j_requests db)" "request_view i = record_of r hash ident"
    using assms(1) by (auto simp: answers_def)
  then have "ir_OperationID i = ident" by (simp add: request_view_def record_of_def)
  then have "record_of r hash ident \<in> set (map request_view (j_requests db'))"
    using jstep_records [OF assms(2)] i assms(3) unfolding records_kept_def by metis
  then show ?thesis using assms jstep_wf [OF assms(2)] by (simp add: answers_def)
qed

text \<open>Steps that do not prune the operation \<open>ident\<close>.\<close>

definition keeping :: "string \<Rightarrow> journal_db \<Rightarrow> journal_db \<Rightarrow> bool" where
  "keeping ident db db' \<longleftrightarrow> jstep db db' \<and> ident \<in> o_ID ` set (j_operations db')"

lemma answers_steps: "(keeping ident)\<^sup>*\<^sup>* db db' \<Longrightarrow> answers r hash ident db \<Longrightarrow> answers r hash ident db'"
  by (induction rule: rtranclp_induct) (auto simp: keeping_def intro: answers_step)

lemma Admit_created:
  assumes "Admit k st r pr now ident CommitOK db = (Inr a, db')" and "ad_Created a" and "journal_wf db"
  shows "\<exists>hash. fingerprint k r = Inr hash \<and> answers r hash ident db' \<and> o_ID (ad_Operation a) = ident"
proof -
  obtain hash x where h: "fingerprint k r = Inr hash" "admit_tx k st db r pr hash now ident = Inr (Inr (x, db'))" "ad_Operation a = x"
    using assms(1,2) by (auto simp: Admit_def split: sum.splits)
  have "answers r hash ident db'"
    using admit_tx_wf [OF assms(3) h(2)] admit_tx_requests [OF h(2)] by (simp add: answers_def)
  then show ?thesis using h admit_tx_requests(2) [OF h(2)] by blast
qed

text \<open>
  C32. Admission is idempotent. After an operation was created for a request, the same request
  resolves to that operation in every later journal, whatever transactions of whatever processes ran
  in between, as long as the operation itself has not been pruned: a lookup finds it, and a repeated
  admission returns it, is not marked as created (so it is not dispatched a second time) and changes
  nothing, even if the journal is not ready or belongs to another epoch.
\<close>

theorem admission_idempotent:
  assumes "journal_reachable db" and "Admit k st r pr now ident CommitOK db = (Inr a, db')" and "ad_Created a"
    and "(keeping ident)\<^sup>*\<^sup>* db' db''"
  shows "(\<exists>x. Lookup k db'' r = Inr x \<and> o_ID x = o_ID (ad_Operation a)) \<and>
         (\<exists>b. Admit k st2 r pr2 now2 ident2 c db'' = (Inr b, db'') \<and> \<not> ad_Created b \<and> o_ID (ad_Operation b) = o_ID (ad_Operation a))"
proof -
  obtain hash where h: "fingerprint k r = Inr hash" "answers r hash ident db'" "o_ID (ad_Operation a) = ident"
    using Admit_created [OF assms(2,3) reachable_wf [OF assms(1)]] by blast
  obtain x where x: "o_ID x = ident" "lookup_hash db'' r hash = Inr x"
    using answers_lookup [OF answers_steps [OF assms(4) h(2)]] by blast
  then have "Lookup k db'' r = Inr x" using h(1) by (simp add: Lookup_def)
  moreover have "Admit k st2 r pr2 now2 ident2 c db'' =
      (Inr \<lparr>ad_Operation = x, ad_Created = False, ad_RecoveredCommit = False\<rparr>, db'')"
    using h(1) x(2) by (simp add: Admit_def admit_tx_def)
  ultimately show ?thesis using x(1) h(3) by auto
qed

theorem admission_idempotent_witness:
  "\<exists>x. Lookup example_codec example_finished (example_request ''k1'') = Inr x \<and> o_ID x = ''op1''"
proof -
  have r: "journal_reachable example_ready" unfolding example_ready_def
    by (rule reachable_step [OF reachable_empty step_recover])
  have "case fst (Admit example_codec example_store (example_request ''k1'') example_proposal 15 ''op1'' CommitOK example_ready) of
      Inr a \<Rightarrow> ad_Created a \<and> o_ID (ad_Operation a) = ''op1'' | Inl _ \<Rightarrow> False" by code_simp
  then obtain a where a: "Admit example_codec example_store (example_request ''k1'') example_proposal 15 ''op1'' CommitOK example_ready
      = (Inr a, example_admitted)" "ad_Created a" "o_ID (ad_Operation a) = ''op1''"
    by (cases "Admit example_codec example_store (example_request ''k1'') example_proposal 15 ''op1'' CommitOK example_ready")
      (auto simp: example_admitted_def split: sum.splits)
  have "''op1'' \<in> o_ID ` set (j_operations example_finished)" by code_simp
  moreover have "jstep example_admitted example_finished" unfolding example_finished_def by (rule step_transition)
  ultimately have "keeping ''op1'' example_admitted example_finished" by (simp add: keeping_def)
  then have "(keeping ''op1'')\<^sup>*\<^sup>* example_admitted example_finished" by (rule r_into_rtranclp)
  from admission_idempotent [OF r a(1,2) this] show ?thesis using a(3) by simp
qed

subsection \<open>Epoch fencing\<close>

text \<open>
  C33. A controller that lost the journal cannot write to it. When the journal belongs to another
  epoch, or recovery has not finished, a transition, an album selection, a retention run and an
  admission of a new request leave every table as it is; the first three report an error, and an
  admission reports one unless the request was already admitted.
\<close>

theorem stale_epoch_fenced:
  assumes "j_epoch db \<noteq> st_epoch st \<or> \<not> j_ready db \<or> \<not> st_initialized st"
  shows "(\<exists>e. Transition k st ident revision u now c db = (Inl e, db)) \<and>
         (\<exists>e. SelectAlbum st ident revision album now c db = (Inl e, db)) \<and>
         (\<exists>e. Prune st limit now c db = (Inl e, db)) \<and>
         snd (Admit k st r pr now ident CommitOK db) = db \<and>
         (case fst (Admit k st r pr now ident CommitOK db) of Inl _ \<Rightarrow> True | Inr a \<Rightarrow> \<not> ad_Created a)"
proof -
  have "active st db \<noteq> Inr ()" using assms by (auto simp: active_Inr)
  then obtain e where "active st db = Inl e" by (cases "active st db") auto
  then show ?thesis
    by (auto simp: Transition_def SelectAlbum_def Prune_def Admit_def admit_tx_def split: sum.splits)
qed

theorem stale_epoch_fenced_witness:
  "snd (Admit example_codec (example_store\<lparr>st_epoch := ''e2''\<rparr>) (example_request ''k2'') example_proposal 15 ''op2'' CommitOK example_admitted)
     = example_admitted"
proof -
  have "j_epoch example_admitted = ''e1''" by code_simp
  then have "j_epoch example_admitted \<noteq> st_epoch (example_store\<lparr>st_epoch := ''e2''\<rparr>)" by simp
  then show ?thesis using stale_epoch_fenced by blast
qed

subsection \<open>Recovery\<close>

definition unrecovered :: "string \<Rightarrow> journal_db \<Rightarrow> nat" where
  "unrecovered epoch db = length (filter (interruptible epoch) (j_operations db))"

lemma length_filter_mono: "(\<And>x. P x \<Longrightarrow> Q x) \<Longrightarrow> length (filter P xs) \<le> length (filter Q xs)"
  by (induction xs) (auto simp: le_SucI)

lemma unrecovered_decreases:
  assumes "\<not> length (interrupt_ids epoch db) < MaxBatch"
  shows "unrecovered epoch (recovered outcome now epoch db) < unrecovered epoch db"
proof -
  let ?g = "\<lambda>x. if o_ID x \<in> set (interrupt_ids epoch db) then interrupt_row outcome now x else x"
  have some: "interrupt_ids epoch db \<noteq> []" using assms by (auto simp: MaxBatch_def)
  then obtain x where x: "x \<in> set (j_operations db)" "interruptible epoch x" "o_ID x \<in> set (interrupt_ids epoch db)"
  proof -
    obtain ident where i: "ident \<in> set (interrupt_ids epoch db)" using some by (meson last_in_set)
    then obtain y where "y \<in> set (j_operations db)" "interruptible epoch y" "o_ID y = ident"
      by (auto simp: interrupt_ids_def dest!: in_set_takeD)
    with i show thesis using that by blast
  qed
  have imp: "interruptible epoch (?g y) \<longrightarrow> interruptible epoch y \<and> o_ID y \<notin> set (interrupt_ids epoch db)" for y
    by (auto simp: interruptible_def interrupt_row_def)
  have "length (filter (interruptible epoch) (map ?g (j_operations db))) = length (filter (interruptible epoch \<circ> ?g) (j_operations db))"
    by (simp add: filter_map)
  also have "\<dots> \<le> length (filter (\<lambda>y. interruptible epoch y \<and> o_ID y \<notin> set (interrupt_ids epoch db)) (j_operations db))"
    by (rule length_filter_mono, unfold comp_def, rule imp [THEN mp])
  also have "\<dots> = length (filter (\<lambda>y. o_ID y \<notin> set (interrupt_ids epoch db)) (filter (interruptible epoch) (j_operations db)))"
    by (simp add: conj_commute)
  also have "\<dots> < length (filter (interruptible epoch) (j_operations db))"
    by (rule length_filter_less [of x]) (use x in auto)
  finally show ?thesis by (simp add: unrecovered_def recoverTx_fields)
qed

text \<open>
  \<open>Recover\<close>: batches until the last one, when the store becomes initialized. The loop ends because
  a batch that is not the last one finishes a full batch of operations of other epochs. The COMMITs
  here are acknowledged: a failed one returns its error, and the caller retries.
\<close>

function Recover :: "(Operation \<Rightarrow> string) \<Rightarrow> time \<Rightarrow> Store \<Rightarrow> journal_db \<Rightarrow> unit result \<times> Store \<times> journal_db" where
  "Recover outcome now st db =
     (if st_initialized st then (Inr (), st, db)
      else case recoverBatch outcome now Acked st db of
             (res, st', db') \<Rightarrow>
               (case res of
                  Inl e \<Rightarrow> (Inl e, st', db')
                | Inr finished \<Rightarrow>
                    if finished then (Inr (), st'\<lparr>st_initialized := True\<rparr>, db') else Recover outcome now st' db'))"
  by pat_completeness auto
termination
proof (relation "measure (\<lambda>(outcome, now, st, db). unrecovered (st_epoch st) db)")
  fix outcome now st db res st' db' finished and y :: "Store \<times> journal_db"
  assume a: "(res, y) = recoverBatch outcome now Acked st db" "(st', db') = y" "res = Inr finished" "\<not> finished"
  then have b: "recoverBatch outcome now Acked st db = (Inr finished, st', db')" by simp
  show "((outcome, now, st', db'), (outcome, now, st, db)) \<in> measure (\<lambda>(outcome, now, st, db). unrecovered (st_epoch st) db)"
    using recoverBatch_Inr [OF b] unrecovered_decreases a(4) by simp
qed simp

declare Recover.simps [simp del]

lemma recoverBatch_same_epoch:
  "st_previousEpoch st = None \<or> st_previousEpoch st = Some (j_epoch db) \<or> j_epoch db = st_epoch st \<Longrightarrow>
   \<exists>st'. recoverBatch outcome now Acked st db =
     (Inr (length (interrupt_ids (st_epoch st) db) < MaxBatch), st', recovered outcome now (st_epoch st) db) \<and>
     st_epoch st' = st_epoch st \<and> st_initialized st' = st_initialized st"
  using recoverTx_fields(1) [of outcome now "st_epoch st" db]
  by (auto simp: recoverBatch_def commit_with_def Let_def split: prod.splits)

definition recovery_done :: "string \<Rightarrow> journal_db \<Rightarrow> bool" where
  "recovery_done epoch db \<longleftrightarrow>
     j_epoch db = epoch \<and> j_ready db \<and> (\<forall>x \<in> set (j_operations db). o_FinishedAt x = None \<longrightarrow> o_Epoch x = epoch)"

lemma Recover_done:
  assumes "\<not> st_initialized st"
    and "st_previousEpoch st = None \<or> st_previousEpoch st = Some (j_epoch db) \<or> j_epoch db = st_epoch st"
  shows "\<exists>st' db'. Recover outcome now st db = (Inr (), st', db') \<and> st_initialized st' \<and> st_epoch st' = st_epoch st \<and>
           recovery_done (st_epoch st) db'"
  using assms
proof (induction outcome now st db rule: Recover.induct)
  case (1 outcome now st db)
  obtain st1 where b: "recoverBatch outcome now Acked st db =
     (Inr (length (interrupt_ids (st_epoch st) db) < MaxBatch), st1, recovered outcome now (st_epoch st) db)"
    "st_epoch st1 = st_epoch st" "st_initialized st1 = st_initialized st"
    using recoverBatch_same_epoch [OF "1.prems"(2)] by blast
  show ?case
  proof (cases "length (interrupt_ids (st_epoch st) db) < MaxBatch")
    case True
    then have "recovery_done (st_epoch st) (recovered outcome now (st_epoch st) db)"
      using recovered_unfinished [OF True, of _ outcome now] by (auto simp: recovery_done_def recoverTx_fields)
    then show ?thesis using True b "1.prems"(1) by (simp add: Recover.simps [of outcome now st db])
  next
    case False
    have "\<exists>st' db'. Recover outcome now st1 (recovered outcome now (st_epoch st) db) = (Inr (), st', db') \<and>
      st_initialized st' \<and> st_epoch st' = st_epoch st1 \<and> recovery_done (st_epoch st1) db'"
      using "1.IH" [OF "1.prems"(1) b(1) [symmetric] refl refl False] b(2,3) "1.prems"(1) by (simp add: recoverTx_fields)
    then show ?thesis using False b "1.prems"(1) by (simp add: Recover.simps [of outcome now st db])
  qed
qed

lemma Recover_wf: "journal_wf db \<Longrightarrow> journal_wf (snd (snd (Recover outcome now st db)))"
proof (induction outcome now st db rule: Recover.induct)
  case (1 outcome now st db)
  have wf: "journal_wf (snd (snd (recoverBatch outcome now Acked st db)))" using "1.prems" by (rule recoverBatch_wf)
  obtain res st' db' where b: "recoverBatch outcome now Acked st db = (res, st', db')" by (metis prod_cases3)
  show ?case
  proof (cases res)
    case (Inl e)
    then show ?thesis using "1.prems" b wf by (simp add: Recover.simps [of outcome now st db])
  next
    case (Inr finished)
    then show ?thesis using "1.prems" "1.IH" [OF _ b [symmetric] refl Inr] b wf
      by (cases finished) (auto simp: Recover.simps [of outcome now st db])
  qed
qed

text \<open>
  C34. Startup recovery terminates and takes over the journal. A process that sees the journal for the
  first time, or left it in its own epoch, recovers in finitely many bounded batches: it is then
  initialized, the journal is ready under its epoch, every operation an earlier controller left
  unfinished has become uncertain with its device reservation released, and the journal is
  still well-formed.
\<close>

theorem recovery_takes_over:
  assumes "journal_wf db" and "\<not> st_initialized st" and "st_previousEpoch st = None \<or> j_epoch db = st_epoch st"
  shows "\<exists>st' db'. Recover outcome now st db = (Inr (), st', db') \<and> st_initialized st' \<and>
           j_epoch db' = st_epoch st \<and> j_ready db' \<and>
           (\<forall>x \<in> set (j_operations db'). \<not> terminal (o_State x) \<longrightarrow> o_Epoch x = st_epoch st) \<and>
           (\<forall>v \<in> set (j_reservations db'). rv_Epoch v = st_epoch st) \<and> journal_wf db'"
proof -
  obtain st' db' where r: "Recover outcome now st db = (Inr (), st', db')" "st_initialized st'"
    "recovery_done (st_epoch st) db'"
    using Recover_done [OF assms(2)] assms(3) by blast
  have wf: "journal_wf db'" using Recover_wf [OF assms(1), of outcome now st] r(1) by simp
  have "rv_Epoch v = st_epoch st" if v: "v \<in> set (j_reservations db')" for v
    using wf v r(3) unfolding journal_wf_def reservation_ok_def recovery_done_def by metis
  then show ?thesis using r wf by (auto simp: recovery_done_def journal_wf_def operation_ok_def)
qed

theorem recovery_takes_over_witness:
  "\<exists>st' db'. Recover (\<lambda>_. ''{}'') 30 (example_store\<lparr>st_epoch := ''e2'', st_initialized := False, st_previousEpoch := None\<rparr>) example_admitted
     = (Inr (), st', db') \<and> j_epoch db' = ''e2'' \<and> j_ready db'"
proof -
  let ?st = "example_store\<lparr>st_epoch := ''e2'', st_initialized := False, st_previousEpoch := None\<rparr>"
  have i: "\<not> st_initialized ?st" and p: "st_previousEpoch ?st = None \<or> j_epoch example_admitted = st_epoch ?st" by simp_all
  show ?thesis using recovery_takes_over [OF reachable_wf [OF example_admitted_reachable] i p, of "\<lambda>_. ''{}''" 30] by auto
qed

subsection \<open>Retention and capacity\<close>

text \<open>
  Retention never forgets what it must remember. A pruned operation was finished at least seven
  days ago, has no device reservation, and the deduplication record of its request, if any, has
  expired; every other operation and record stays. Admission never evicts: it is refused at the
  capacity and otherwise keeps the table within it.
\<close>

theorem retention_keeps_live_records:
  assumes "journal_wf db"
  shows "(\<forall>x \<in> set (j_operations db). x \<notin> set (j_operations (snd (Prune st limit now c db))) \<longrightarrow>
            (\<exists>t. o_FinishedAt x = Some t \<and> t \<le> now - Retention) \<and> \<not> reserved db (o_ID x) \<and>
            (\<forall>i \<in> set (j_requests db). ir_OperationID i = o_ID x \<longrightarrow> ir_ExpiresAt i \<le> now)) \<and>
         (\<forall>i \<in> set (j_requests db). now < ir_ExpiresAt i \<longrightarrow> i \<in> set (j_requests (snd (Prune st limit now c db)))) \<and>
         (length (j_operations db) \<le> st_maxOperations st \<longrightarrow>
            length (j_operations (snd (Admit k st r pr now ident CommitOK db))) \<le> st_maxOperations st)"
proof (intro conjI ballI impI)
  fix x assume x: "x \<in> set (j_operations db)" "x \<notin> set (j_operations (snd (Prune st limit now c db)))"
  then have p: "o_ID x \<in> set (Prune_ids now limit db)" using Prune_db [of st limit now c db] by auto
  obtain z where z: "z \<in> set (j_operations db)" "o_ID z = o_ID x" "\<exists>t. o_FinishedAt z = Some t \<and> t \<le> now - Retention"
    using Prune_ids_ok(1) [OF p] by auto
  have "inj_on o_ID (set (j_operations db))" using assms by (simp add: journal_wf_def distinct_map)
  then have "z = x" using z x(1) by (auto dest: inj_onD)
  then show "\<exists>t. o_FinishedAt x = Some t \<and> t \<le> now - Retention" using z(3) by simp
  show "\<not> reserved db (o_ID x)" using Prune_ids_ok(3) [OF p] by (auto simp: reserved_def list_ex_iff)
  fix i assume "i \<in> set (j_requests db)" "ir_OperationID i = o_ID x"
  then show "ir_ExpiresAt i \<le> now" using Prune_ids_ok(2) [OF p] by blast
next
  fix i assume i: "i \<in> set (j_requests db)" "now < ir_ExpiresAt i"
  then have "ir_OperationID i \<notin> set (Prune_ids now limit db)" using Prune_ids_ok(2) [of "ir_OperationID i"] by force
  then show "i \<in> set (j_requests (snd (Prune st limit now c db)))" using i Prune_db [of st limit now c db] by auto
next
  assume "length (j_operations db) \<le> st_maxOperations st"
  then show "length (j_operations (snd (Admit k st r pr now ident CommitOK db))) \<le> st_maxOperations st"
    using Admit_db [of k st r pr now ident db] admit_tx_step(3) by fastforce
qed

theorem retention_keeps_live_records_witness:
  "map o_ID (j_operations (snd (Prune example_store 10 (20 + 7 * 24 * Hour) Acked example_finished))) = [] \<and>
   map o_ID (j_operations (snd (Prune example_store 10 1000 Acked example_finished))) = [''op1''] \<and>
   set (filter (\<lambda>i. 1000 < ir_ExpiresAt i) (j_requests example_finished)) \<subseteq>
     set (j_requests (snd (Prune example_store 10 1000 Acked example_finished)))"
proof -
  have r: "journal_reachable example_finished" unfolding example_finished_def
    by (rule reachable_step [OF example_admitted_reachable step_transition])
  have "map o_ID (j_operations (snd (Prune example_store 10 (20 + 7 * 24 * Hour) Acked example_finished))) = []"
    "map o_ID (j_operations (snd (Prune example_store 10 1000 Acked example_finished))) = [''op1'']" by code_simp+
  then show ?thesis using retention_keeps_live_records [OF reachable_wf [OF r]] by auto
qed

end
