(* ===== verification/Transport.thy ===== *)
theory Transport
  imports Mutations "HOL-Library.AList"
begin

section \<open>The device connection\<close>

text \<open>
  \<open>internal/heos/client.go\<close> and the guarded \<open>Write\<close> of \<open>internal/heos/writes.go\<close>: one owner goroutine
  per device holds the socket, answers queued requests one at a time, turns received frames into
  events, and stamps every observation with a token of five counters. A guarded request is sent
  only while the token of its guard is the current one.

  Other goroutines reach the client through its mutex only. What they do between two critical
  sections of the owner is a list of \<open>intrusion\<close>s, given to each operation as part of its script
  together with what the socket, the clock and the contexts deliver. The theorems quantify over
  all scripts, so they hold for every interleaving at those points.
\<close>

subsection \<open>Configuration\<close>

record Config =
  cf_EnableWrites :: bool
  cf_ConnectTimeout :: duration
  cf_CommandTimeout :: duration
  cf_ReconnectDelay :: duration
  cf_QueueDepth :: int
  cf_EventBuffer :: int
  cf_FrameBytes :: int

definition DefaultFrameBytes :: int where "DefaultFrameBytes = 256 * 1024"

definition or_default :: "int \<Rightarrow> int \<Rightarrow> int" where
  "or_default d x = (if x = 0 then d else x)"

definition Config_defaults :: "Config \<Rightarrow> Config" where
  "Config_defaults cfg = cfg\<lparr>
     cf_ConnectTimeout := or_default (5 * Second) (cf_ConnectTimeout cfg),
     cf_CommandTimeout := or_default (20 * Second) (cf_CommandTimeout cfg),
     cf_ReconnectDelay := or_default Second (cf_ReconnectDelay cfg),
     cf_QueueDepth := or_default 16 (cf_QueueDepth cfg),
     cf_EventBuffer := or_default 32 (cf_EventBuffer cfg),
     cf_FrameBytes := or_default DefaultFrameBytes (cf_FrameBytes cfg)\<rparr>"

definition Config_bounds :: "Config \<Rightarrow> bool" where
  "Config_bounds cfg \<longleftrightarrow>
     \<not> (cf_ConnectTimeout cfg \<le> 0 \<or> cf_ConnectTimeout cfg > 30 * Second \<or>
        cf_CommandTimeout cfg \<le> 0 \<or> cf_CommandTimeout cfg > 30 * Second \<or>
        cf_ReconnectDelay cfg \<le> 0 \<or> cf_ReconnectDelay cfg > Minute \<or>
        cf_QueueDepth cfg < 1 \<or> cf_QueueDepth cfg > 64 \<or>
        cf_EventBuffer cfg < 1 \<or> cf_EventBuffer cfg > 256 \<or>
        cf_FrameBytes cfg < 1024 \<or> cf_FrameBytes cfg > 1048576)"

subsection \<open>State\<close>

record View =
  v_Token :: Token
  v_Connected :: bool

record playerWrite =
  w_revision :: uint64
  w_mutation :: Mutation

record Guard =
  gd_Token :: Token
  gd_ExpiresAt :: time

text \<open>
  \<open>q_cancelled\<close> is the state word of a request: \<open>Some e\<close> is the state 2, in which the caller left
  with its context's error \<open>e\<close> before the owner took the request.
\<close>

record request =
  q_guard :: "Guard option"
  q_mutation :: Mutation
  q_priority :: bool
  q_command :: string
  q_args :: url_Values
  q_fence :: uint64
  q_cancelled :: "error option"

text \<open>A socket is a number; sockets are numbered in the order they are opened.\<close>

record generation =
  gn_socket :: nat
  gn_subscribed :: bool

text \<open>
  \<open>cl_active\<close> is the context of the request the owner is working on: \<open>None\<close> when there is none,
  \<open>Some None\<close> while it runs and \<open>Some (Some e)\<close> once it is cancelled with the cause \<open>e\<close>.
  \<open>cl_handled\<close> lists the events the installed handler was called with and \<open>cl_wire\<close> every
  transmission: the command, its arguments and the number of bytes that were written.
\<close>

record transmission =
  tx_command :: string
  tx_args :: url_Values
  tx_sent :: nat

record Client =
  cl_cfg :: Config
  cl_view :: View
  cl_fence :: uint64
  cl_priorityMode :: int
  cl_active :: "error option option"
  cl_connection :: "nat option"
  cl_sockets :: nat
  cl_sequence :: uint64
  cl_everReady :: bool
  cl_players :: "(ID \<times> uint64) list"
  cl_writes :: "(ID \<times> playerWrite) list"
  cl_progressSequence :: uint64
  cl_handler :: bool
  cl_closed :: bool
  cl_requests :: "request list"
  cl_priority :: "request list"
  cl_events :: "Event list"
  cl_handled :: "Event list"
  cl_wire :: "transmission list"

definition Client_New :: "Config \<Rightarrow> Client result" where
  "Client_New cfg =
     (let cfg = Config_defaults cfg
      in if \<not> Config_bounds cfg then Inl (OtherError ''HEOS limits out of bounds'')
         else Inr \<lparr>cl_cfg = cfg, cl_view = \<lparr>v_Token = zeroToken, v_Connected = False\<rparr>, cl_fence = 0,
           cl_priorityMode = 0, cl_active = None, cl_connection = None, cl_sockets = 0, cl_sequence = 0,
           cl_everReady = False, cl_players = [], cl_writes = [], cl_progressSequence = 0,
           cl_handler = False, cl_closed = False, cl_requests = [], cl_priority = [], cl_events = [],
           cl_handled = [], cl_wire = []\<rparr>)"

subsection \<open>Views and invalidation\<close>

definition player_revision :: "Client \<Rightarrow> ID \<Rightarrow> uint64" where
  "player_revision c pid = (case map_of (cl_players c) pid of Some n \<Rightarrow> n | None \<Rightarrow> 0)"

definition write_revision :: "Client \<Rightarrow> ID \<Rightarrow> uint64" where
  "write_revision c pid = (case map_of (cl_writes c) pid of Some w \<Rightarrow> w_revision w | None \<Rightarrow> 0)"

definition player_token :: "Client \<Rightarrow> ID \<Rightarrow> Token" where
  "player_token c pid =
     (v_Token (cl_view c))\<lparr>t_Player := player_revision c pid, t_Write := write_revision c pid\<rparr>"

definition PlayerView :: "Client \<Rightarrow> ID \<Rightarrow> View" where
  "PlayerView c pid = (cl_view c)\<lparr>v_Token := player_token c pid\<rparr>"

definition bump_revision :: "Client \<Rightarrow> Client" where
  "bump_revision c =
     (let t = v_Token (cl_view c) in
      c\<lparr>cl_view := (cl_view c)\<lparr>v_Token := t\<lparr>t_Revision := t_Revision t + 1\<rparr>\<rparr>\<rparr>)"

definition bump_catalog :: "Client \<Rightarrow> Client" where
  "bump_catalog c =
     (let t = v_Token (cl_view c) in
      c\<lparr>cl_view := (cl_view c)\<lparr>v_Token := t\<lparr>t_Catalog := t_Catalog t + 1\<rparr>\<rparr>\<rparr>)"

definition set_connected :: "bool \<Rightarrow> Client \<Rightarrow> Client" where
  "set_connected b c = c\<lparr>cl_view := (cl_view c)\<lparr>v_Connected := b\<rparr>\<rparr>"

definition observePlayer :: "ID \<Rightarrow> Client \<Rightarrow> Client \<times> View" where
  "observePlayer pid c =
     (let c = (if map_of (cl_players c) pid = None then
                 (let c = (if length (cl_players c) = 64
                           then bump_revision (c\<lparr>cl_players := [], cl_writes := []\<rparr>) else c)
                  in c\<lparr>cl_players := AList.update pid 0 (cl_players c)\<rparr>)
               else c)
      in (c, PlayerView c pid))"

definition cancel_active :: "error \<Rightarrow> Client \<Rightarrow> Client" where
  "cancel_active e c = (if cl_active c = Some None then c\<lparr>cl_active := Some (Some e)\<rparr> else c)"

definition Interrupt :: "Client \<Rightarrow> Client" where
  "Interrupt c =
     bump_catalog (bump_revision (set_connected False
       (cancel_active ErrInterrupted (c\<lparr>cl_fence := cl_fence c + 1\<rparr>))))"

definition BeginPriority :: "Client \<Rightarrow> Client" where
  "BeginPriority c = Interrupt (c\<lparr>cl_priorityMode := cl_priorityMode c + 1\<rparr>)"

definition EndPriority :: "Client \<Rightarrow> Client" where
  "EndPriority c = c\<lparr>cl_priorityMode := cl_priorityMode c - 1\<rparr>"

text \<open>
  What other goroutines do between two critical sections of the owner: the operations above, a
  cancellation of the active context (its deadline, its caller or the client closing), and the
  consumer taking an event from the channel.
\<close>

datatype intrusion =
    Interrupts | Observes ID | BeginsPriority | EndsPriority | Cancels error | Receives

fun intrude :: "intrusion \<Rightarrow> Client \<Rightarrow> Client" where
  "intrude Interrupts c = Interrupt c"
| "intrude (Observes pid) c = fst (observePlayer pid c)"
| "intrude BeginsPriority c = BeginPriority c"
| "intrude EndsPriority c = EndPriority c"
| "intrude (Cancels e) c = cancel_active e c"
| "intrude Receives c = c\<lparr>cl_events := tl (cl_events c)\<rparr>"

subsection \<open>Events\<close>

definition gap_event :: "Token \<Rightarrow> string \<Rightarrow> Event" where
  "gap_event token reason = \<lparr>e_Command = [], e_Params = [], e_Token = token, e_Gap = True,
     e_GapReason = reason, e_progressSequence = 0\<rparr>"

definition call_handler :: "Event \<Rightarrow> Client \<Rightarrow> Client" where
  "call_handler e c = (if cl_handler c then c\<lparr>cl_handled := cl_handled c @ [e]\<rparr> else c)"

definition has_room :: "Client \<Rightarrow> bool" where
  "has_room c \<longleftrightarrow> int (length (cl_events c)) < cf_EventBuffer (cl_cfg c)"

definition publish :: "Event \<Rightarrow> Client \<Rightarrow> Client" where
  "publish e c =
     (let c = call_handler e c
      in if has_room c then c\<lparr>cl_events := cl_events c @ [e]\<rparr>
         else
           (let c = bump_catalog (bump_revision (c\<lparr>cl_events := []\<rparr>));
                gap = gap_event (v_Token (cl_view c)) ''event_buffer_overflow'';
                c = call_handler gap c
            in c\<lparr>cl_events := cl_events c @ [gap]\<rparr>))"

definition publish_progress :: "Event \<Rightarrow> Client \<Rightarrow> Client" where
  "publish_progress e c =
     (let c = c\<lparr>cl_progressSequence := cl_progressSequence c + 1\<rparr>;
          e = e\<lparr>e_progressSequence := cl_progressSequence c, e_Token := player_token c (d_Player (Event_Data e))\<rparr>
      in if has_room c then c\<lparr>cl_events := cl_events c @ [e]\<rparr> else c)"

definition stamped_player :: "EventKind \<Rightarrow> bool" where
  "stamped_player k \<longleftrightarrow>
     (case k of EventState \<Rightarrow> True | EventNowPlaying \<Rightarrow> True | EventPlaybackError \<Rightarrow> True
      | EventQueue \<Rightarrow> True | EventVolume \<Rightarrow> True | EventRepeat \<Rightarrow> True | EventShuffle \<Rightarrow> True | _ \<Rightarrow> False)"

definition bump_player :: "ID \<Rightarrow> Client \<Rightarrow> Client" where
  "bump_player pid c =
     (case map_of (cl_players c) pid of
        Some n \<Rightarrow> c\<lparr>cl_players := AList.update pid (n + 1) (cl_players c)\<rparr>
      | None \<Rightarrow> c)"

definition stamp_event :: "EventData \<Rightarrow> Client \<Rightarrow> Client" where
  "stamp_event data c =
     (let pid = d_Player data;
          c = (if stamped_player (d_Kind data) \<and> pid \<noteq> [] then bump_player pid c else bump_revision c)
      in if d_Kind data = EventSources \<or> d_Kind data = EventPlayers \<or> d_Kind data = EventUser
         then bump_catalog c else c)"

definition received_event :: "Response \<Rightarrow> Event" where
  "received_event r = \<lparr>e_Command = r_Command r, e_Params = r_Params r, e_Token = zeroToken, e_Gap = False,
     e_GapReason = [], e_progressSequence = 0\<rparr>"

definition client_event :: "Response \<Rightarrow> Client \<Rightarrow> Client" where
  "client_event r c =
     (let e = received_event r;
          data = Event_Data e
      in if d_Kind data = EventProgress \<and> d_Valid data then publish_progress e c
         else
           (let c = stamp_event data c
            in publish (e\<lparr>e_Token := player_token c (d_Player data)\<rparr>) c))"

subsection \<open>Connections\<close>

definition open_socket :: "Client \<Rightarrow> Client \<times> generation" where
  "open_socket c =
     (let n = Suc (cl_sockets c);
          t = v_Token (cl_view c);
          c = c\<lparr>cl_sockets := n, cl_connection := Some n,
                cl_view := \<lparr>v_Token = t\<lparr>t_Generation := t_Generation t + 1, t_Revision := t_Revision t + 1,
                                        t_Catalog := t_Catalog t + 1\<rparr>, v_Connected = True\<rparr>\<rparr>
      in (c, \<lparr>gn_socket = n, gn_subscribed = False\<rparr>))"

text \<open>\<open>outcome\<close> is what the TCP connection and the pinned handshake report.\<close>

definition dial :: "error option \<Rightarrow> Client \<Rightarrow> Client \<times> generation result" where
  "dial outcome c =
     (case outcome of
        Some e \<Rightarrow> (c, Inl e)
      | None \<Rightarrow> (case open_socket c of (c, g) \<Rightarrow> (c, Inr g)))"

definition drop_connection :: "generation option \<Rightarrow> Client \<Rightarrow> Client" where
  "drop_connection g c =
     (case g of
        None \<Rightarrow> c
      | Some g \<Rightarrow>
          (let c = (if cl_connection c = Some (gn_socket g)
                    then bump_catalog (bump_revision (set_connected False (c\<lparr>cl_connection := None\<rparr>))) else c)
           in publish (gap_event (v_Token (cl_view c)) ''connection_closed'') c))"

subsection \<open>One command on the wire\<close>

text \<open>
  What a command meets while it is on the wire: frames the reader delivers, a turn in which the
  select picks the cancelled context, and intrusions. When the list ends the command timeout
  expires.
\<close>

datatype input = Frame "Response result" | Elapsed | Other intrusion

record exchange_script =
  s_before :: "intrusion list"
  s_deadline :: "error option"
  s_write :: "nat \<Rightarrow> string \<Rightarrow> nat \<times> error option"
  s_inputs :: "input list"
  s_after :: "intrusion list"

definition context_cause :: "Client \<Rightarrow> error option" where
  "context_cause c = (case cl_active c of Some cause \<Rightarrow> cause | None \<Rightarrow> None)"

definition delivery_of :: "nat \<Rightarrow> Delivery" where
  "delivery_of sent = (if 0 < sent then Uncertain else NotSent)"

definition accept_reply :: "string \<Rightarrow> url_Values \<Rightarrow> Response \<Rightarrow> Client \<Rightarrow> Response result" where
  "accept_reply name args r c =
     (let r = r\<lparr>r_Token := v_Token (PlayerView c (Values_Get args ''pid''))\<rparr>
      in if r_Result r \<noteq> ''success'' then Inl (rejection r)
         else if name = ''player/remove_from_queue'' \<and>
                 (\<not> Values_Has (r_Params r) ''pid'' \<or> \<not> Values_Has (r_Params r) ''qid'')
         then Inl (CommandError Uncertain ErrProtocol)
         else Inr r)"

fun await_reply :: "string \<Rightarrow> url_Values \<Rightarrow> input list \<Rightarrow> Client \<Rightarrow> Client \<times> Response result" where
  "await_reply name args [] c =
     (let c = cancel_active DeadlineExceeded c in
      (c, Inl (CommandError Uncertain (case context_cause c of Some e \<Rightarrow> e | None \<Rightarrow> DeadlineExceeded))))"
| "await_reply name args (Other i # ins) c = await_reply name args ins (intrude i c)"
| "await_reply name args (Elapsed # ins) c =
     (case context_cause c of
        Some e \<Rightarrow> (c, Inl (CommandError Uncertain e))
      | None \<Rightarrow> await_reply name args ins c)"
| "await_reply name args (Frame (Inl e) # ins) c = (c, Inl (CommandError Uncertain e))"
| "await_reply name args (Frame (Inr r) # ins) c =
     (if r_Event r then await_reply name args ins (client_event r c)
      else if r_Command r \<noteq> name then (c, Inl (CommandError Uncertain ErrProtocol))
      else case validateEcho args (r_Params r) of
             Inl e \<Rightarrow> (c, Inl (CommandError Uncertain e))
           | Inr _ \<Rightarrow>
               if r_Pending r then await_reply name args ins c
               else (c, accept_reply name args r c))"

definition transmit :: "exchange_script \<Rightarrow> string \<Rightarrow> url_Values \<Rightarrow> string \<Rightarrow> Client \<Rightarrow> Client \<times> nat \<times> Response result" where
  "transmit s name args bytes c =
     (let c = fold intrude (s_before s) c
      in case context_cause c of
           Some e \<Rightarrow> (c, 0, Inl (CommandError NotSent e))
         | None \<Rightarrow>
             (case s_deadline s of
                Some e \<Rightarrow> (c, 0, Inl (CommandError NotSent e))
              | None \<Rightarrow>
                  (case writeAll (s_write s) bytes of
                     (sent, failed) \<Rightarrow>
                       (let c = c\<lparr>cl_wire := cl_wire c @ [\<lparr>tx_command = name, tx_args = args, tx_sent = sent\<rparr>]\<rparr>
                        in case failed of
                             Some e \<Rightarrow> (c, sent, Inl (CommandError (delivery_of sent) e))
                           | None \<Rightarrow> (case await_reply name args (s_inputs s) c of (c, out) \<Rightarrow> (c, sent, out))))))"

definition exchange :: "exchange_script \<Rightarrow> string \<Rightarrow> url_Values \<Rightarrow> Client \<Rightarrow> Client \<times> Response result" where
  "exchange s name args c =
     (let c = c\<lparr>cl_sequence := cl_sequence c + 1\<rparr>;
          args = (if prefix ''browse/'' name then Values_Set args ''SEQUENCE'' (Itoa (uint (cl_sequence c))) else args)
      in case encodeCommand name args of
           Inl e \<Rightarrow> (c, Inl (CommandError NotSent e))
         | Inr bytes \<Rightarrow>
             (case transmit s name args bytes c of
                (c, sent, out) \<Rightarrow>
                  (let c = fold intrude (s_after s) c
                   in (c, case context_cause c of
                            Some e \<Rightarrow> Inl (CommandError (delivery_of sent) e)
                          | None \<Rightarrow> out))))"

subsection \<open>The owner\<close>

text \<open>
  \<open>drain_frames\<close> processes the frames received before a guarded request. The loop runs at most 32
  times; it is counted from the iteration \<open>i\<close>, and the end of the list is the empty channel.
\<close>

fun drain_frames :: "nat \<Rightarrow> input list \<Rightarrow> generation \<Rightarrow> Client \<Rightarrow> Client \<times> generation option \<times> error option" where
  "drain_frames i [] g c = (c, Some g, None)"
| "drain_frames i (Other j # ins) g c = drain_frames i ins g (intrude j c)"
| "drain_frames i (Elapsed # ins) g c = drain_frames i ins g c"
| "drain_frames i (Frame f # ins) g c =
     (if 32 \<le> i then (c, Some g, None)
      else case f of
             Inl _ \<Rightarrow> (drop_connection (Some g) c, None, Some (CommandError NotSent ErrStale))
           | Inr r \<Rightarrow>
               if \<not> r_Event r then (drop_connection (Some g) c, None, Some (CommandError NotSent ErrStale))
               else
                 (let c = client_event r c
                  in if i = 31 then (c, Some g, Some (CommandError NotSent ErrStale))
                     else drain_frames (Suc i) ins g c))"

definition guard_current :: "Client \<Rightarrow> request \<Rightarrow> Guard \<Rightarrow> time \<Rightarrow> bool" where
  "guard_current c r gd now \<longleftrightarrow>
     (let view = PlayerView c (Values_Get (q_args r) ''pid'')
      in v_Connected view \<and> v_Token view = gd_Token gd \<and> now < gd_ExpiresAt gd)"

definition check_guard :: "request \<Rightarrow> time \<Rightarrow> Client \<Rightarrow> error option \<Rightarrow> error option" where
  "check_guard r now c err =
     (case q_guard r of
        Some gd \<Rightarrow> if guard_current c r gd now then err else Some (CommandError NotSent ErrStale)
      | None \<Rightarrow> err)"

text \<open>
  The script of one request: what happens before the owner reads the fence, before it installs the
  context, the frames already received, the readings of the clock, the outcome of a dial, what
  happens between the last check of the guard and the moment the write is stamped, and the
  exchanges.
\<close>

record process_script =
  p_begin :: "intrusion list"
  p_arm :: "intrusion list"
  p_drain :: "input list"
  p_check :: "intrusion list"
  p_now1 :: time
  p_now2 :: time
  p_now3 :: time
  p_now4 :: time
  p_dial :: "error option"
  p_register :: exchange_script
  p_recheck :: "intrusion list"
  p_stamp :: "intrusion list"
  p_exchange :: exchange_script

definition register_args :: url_Values where
  "register_args = [(''enable'', [''on''])]"

definition register_command :: string where
  "register_command = ''system/register_for_change_events''"

definition connect :: "process_script \<Rightarrow> time \<Rightarrow> Client \<Rightarrow> Client \<times> generation option \<times> error option" where
  "connect p nextDial c =
     (if p_now2 p < nextDial then (c, None, Some (CommandError NotSent ErrOffline))
      else case dial (p_dial p) c of
             (c, Inl e) \<Rightarrow> (c, None, Some (CommandError NotSent e))
           | (c, Inr g) \<Rightarrow>
               (case exchange (p_register p) register_command register_args c of
                  (c, Inl e) \<Rightarrow> (c, Some g, Some (CommandError NotSent e))
                | (c, Inr _) \<Rightarrow> (c\<lparr>cl_everReady := True\<rparr>, Some (g\<lparr>gn_subscribed := True\<rparr>), None)))"

text \<open>
  The request up to its last check: drain, first check, connection, second check.
\<close>

definition admit :: "process_script \<Rightarrow> request \<Rightarrow> generation option \<Rightarrow> time \<Rightarrow> Client \<Rightarrow> Client \<times> generation option \<times> error option" where
  "admit p r g nextDial c =
     (let (c, g, err) = (case (q_guard r, g) of
                           (Some _, Some g) \<Rightarrow> drain_frames 0 (p_drain p) g c
                         | _ \<Rightarrow> (c, g, None));
          c = fold intrude (p_check p) c;
          err = check_guard r (p_now1 p) c err;
          (c, g, err) = (if g = None \<and> err = None then connect p nextDial c else (c, g, err));
          c = fold intrude (p_recheck p) c
      in (c, g, if err = None then check_guard r (p_now3 p) c err else err))"

definition stamp_write :: "request \<Rightarrow> Client \<Rightarrow> Client" where
  "stamp_write r c =
     (case q_guard r of
        None \<Rightarrow> c
      | Some _ \<Rightarrow>
          (let pid = Values_Get (q_args r) ''pid'' in
           c\<lparr>cl_writes := AList.update pid
               \<lparr>w_revision = write_revision c pid + 1, w_mutation = q_mutation r\<rparr> (cl_writes c)\<rparr>))"

definition must_drop :: "generation option \<Rightarrow> error \<Rightarrow> bool" where
  "must_drop g e \<longleftrightarrow>
     \<not> errors_Is e ErrStale \<and>
     (\<not> errors_Is e ErrRejected \<or> (case g of Some g \<Rightarrow> \<not> gn_subscribed g | None \<Rightarrow> False))"

definition settle :: "process_script \<Rightarrow> generation option \<Rightarrow> time \<Rightarrow> Client \<Rightarrow> Response result \<Rightarrow>
    Client \<times> generation option \<times> time \<times> Response result" where
  "settle p g nextDial c out =
     (case out of
        Inl e \<Rightarrow>
          if must_drop g e
          then (drop_connection g c, None,
                if errors_Is e ErrOffline then nextDial else p_now4 p + cf_ReconnectDelay (cl_cfg c), out)
          else (c, g, nextDial, out)
      | Inr _ \<Rightarrow> (c, g, nextDial, out))"

definition send :: "process_script \<Rightarrow> request \<Rightarrow> Client \<Rightarrow> Client \<times> Response result" where
  "send p r c = exchange (p_exchange p) (q_command r) (q_args r) (stamp_write r (fold intrude (p_stamp p) c))"

definition arm :: "process_script \<Rightarrow> request \<Rightarrow> Client \<Rightarrow> Client" where
  "arm p r c =
     (let c = (fold intrude (p_arm p) c)\<lparr>cl_active := Some None\<rparr>
      in if q_fence r \<noteq> cl_fence c then cancel_active ErrInterrupted c else c)"

definition process :: "process_script \<Rightarrow> request \<Rightarrow> generation option \<Rightarrow> time \<Rightarrow> Client \<Rightarrow>
    Client \<times> generation option \<times> time \<times> Response result" where
  "process p r g nextDial c =
     (case q_cancelled r of
        Some e \<Rightarrow> (c, g, nextDial, Inl (CommandError NotSent e))
      | None \<Rightarrow>
          (let c = fold intrude (p_begin p) c
           in if q_fence r \<noteq> cl_fence c \<or> (0 < cl_priorityMode c \<and> \<not> q_priority r)
              then (c, g, nextDial, Inl (CommandError NotSent ErrInterrupted))
              else
                (let (c, g, err) = admit p r g nextDial (arm p r c);
                     (c, out) = (case err of Some e \<Rightarrow> (c, Inl e) | None \<Rightarrow> send p r c)
                 in settle p g nextDial (c\<lparr>cl_active := None\<rparr>) out)))"

subsection \<open>Callers\<close>

definition readCommand :: "string \<Rightarrow> bool" where
  "readCommand name \<longleftrightarrow>
     name \<in> set [''system/heart_beat'', ''player/get_players'', ''player/get_player_info'',
       ''player/get_play_state'', ''player/get_volume'', ''player/get_mute'', ''player/get_play_mode'',
       ''player/get_now_playing_media'', ''player/get_queue'', ''group/get_groups'',
       ''group/get_group_info'', ''browse/get_music_sources'', ''browse/get_source_info'', ''browse/browse'']"

text \<open>
  \<open>submit\<close> up to the point where the request is in a mailbox: \<open>ctx\<close> is the error of the caller's
  context and \<open>priority\<close> its priority mark.
\<close>

definition submit :: "error option \<Rightarrow> bool \<Rightarrow> string \<Rightarrow> url_Values \<Rightarrow> Guard option \<Rightarrow> Mutation \<Rightarrow> Client \<Rightarrow> Client result" where
  "submit ctx priority name args guard mutation c =
     (case encodeCommand name args of
        Inl e \<Rightarrow> Inl (CommandError NotSent e)
      | Inr _ \<Rightarrow>
          (case ctx of
             Some e \<Rightarrow> Inl (CommandError NotSent e)
           | None \<Rightarrow>
               if 0 < cl_priorityMode c \<and> \<not> priority then Inl (CommandError NotSent ErrQueueFull)
               else
                 (let r = \<lparr>q_guard = guard, q_mutation = mutation, q_priority = priority, q_command = name,
                           q_args = args, q_fence = cl_fence c, q_cancelled = None\<rparr>
                  in if cl_closed c then Inl (CommandError NotSent ErrClosed)
                     else if priority then
                       (if length (cl_priority c) < 4 then Inr (c\<lparr>cl_priority := cl_priority c @ [r]\<rparr>)
                        else Inl (CommandError NotSent ErrQueueFull))
                     else
                       (if int (length (cl_requests c)) < cf_QueueDepth (cl_cfg c)
                        then Inr (c\<lparr>cl_requests := cl_requests c @ [r]\<rparr>)
                        else Inl (CommandError NotSent ErrQueueFull)))))"

text \<open>
  The wait of \<open>submit\<close>: the answer arrives, the caller's context ends while the request is still
  queued or already owned, or the client closes; the last two may still find an answer.
\<close>

datatype waited =
    Answered "Response result"
  | LeftQueued error
  | LeftOwned "Response result option"
  | ClientClosed bool "Response result option"

fun submit_outcome :: "waited \<Rightarrow> Response result" where
  "submit_outcome (Answered out) = out"
| "submit_outcome (LeftQueued e) = Inl (CommandError NotSent e)"
| "submit_outcome (LeftOwned (Some out)) = out"
| "submit_outcome (LeftOwned None) = Inl (CommandError Uncertain ErrClosed)"
| "submit_outcome (ClientClosed owned (Some out)) = out"
| "submit_outcome (ClientClosed owned None) = Inl (CommandError (if owned then Uncertain else NotSent) ErrClosed)"

definition Client_Read :: "error option \<Rightarrow> bool \<Rightarrow> string \<Rightarrow> url_Values \<Rightarrow> Client \<Rightarrow> Client result" where
  "Client_Read ctx priority name args c =
     (if \<not> readCommand name then Inl (CommandError NotSent ErrReadOnly)
      else submit ctx priority name args None zeroMutation c)"

text \<open>\<open>now\<close> and \<open>now'\<close> are the two readings of the clock the bounds on the expiry use.\<close>

definition Client_Write :: "error option \<Rightarrow> bool \<Rightarrow> time \<Rightarrow> time \<Rightarrow> Mutation \<Rightarrow> Guard \<Rightarrow> Client \<Rightarrow> Client result" where
  "Client_Write ctx priority now now' m guard c =
     (if \<not> cf_EnableWrites (cl_cfg c) then Inl (CommandError NotSent ErrReadOnly)
      else if \<not> now < gd_ExpiresAt guard \<or> gd_ExpiresAt guard > now' + 5 * Second
      then Inl (CommandError NotSent ErrStale)
      else case Mutation_command m of
             Inl e \<Rightarrow> Inl (CommandError NotSent e)
           | Inr (name, args) \<Rightarrow>
               if map_of (cl_players c) (m_Player m) = None then Inl (CommandError NotSent ErrStale)
               else submit ctx priority name args (Some guard) m c)"

subsection \<open>The loop of the owner\<close>

record owner =
  ow_client :: Client
  ow_generation :: "generation option"
  ow_nextDial :: time
  ow_answers :: "(request \<times> Response result) list"

text \<open>
  One turn of \<open>run\<close>: a request of one of the two mailboxes is processed (the one of the priority
  mailbox whenever it holds one at the start of the turn), a frame arrives between requests, or
  another goroutine acts, among them a caller that leaves while its request is queued.
\<close>

datatype turn =
    TakePriority process_script
  | TakeRequest process_script
  | TakeFrame "Response result" time
  | Act intrusion
  | Submits "error option" bool string url_Values "Guard option" Mutation
  | Leaves nat error

definition answer :: "process_script \<Rightarrow> request \<Rightarrow> owner \<Rightarrow> owner" where
  "answer p r w =
     (case process p r (ow_generation w) (ow_nextDial w) (ow_client w) of
        (c, g, nextDial, out) \<Rightarrow>
          w\<lparr>ow_client := c, ow_generation := g, ow_nextDial := nextDial, ow_answers := ow_answers w @ [(r, out)]\<rparr>)"

fun owner_turn :: "turn \<Rightarrow> owner \<Rightarrow> owner" where
  "owner_turn (TakePriority p) w =
     (case cl_priority (ow_client w) of
        [] \<Rightarrow> w
      | r # rs \<Rightarrow> answer p r (w\<lparr>ow_client := (ow_client w)\<lparr>cl_priority := rs\<rparr>\<rparr>))"
| "owner_turn (TakeRequest p) w =
     (case cl_requests (ow_client w) of
        [] \<Rightarrow> w
      | r # rs \<Rightarrow> answer p r (w\<lparr>ow_client := (ow_client w)\<lparr>cl_requests := rs\<rparr>\<rparr>))"
| "owner_turn (TakeFrame f now) w =
     (case (ow_generation w, f) of
        (None, _) \<Rightarrow> w
      | (Some g, Inr r) \<Rightarrow>
          if r_Event r then w\<lparr>ow_client := client_event r (ow_client w)\<rparr>
          else w\<lparr>ow_client := drop_connection (Some g) (ow_client w), ow_generation := None,
                 ow_nextDial := now + cf_ReconnectDelay (cl_cfg (ow_client w))\<rparr>
      | (Some g, Inl _) \<Rightarrow>
          w\<lparr>ow_client := drop_connection (Some g) (ow_client w), ow_generation := None,
            ow_nextDial := now + cf_ReconnectDelay (cl_cfg (ow_client w))\<rparr>)"
| "owner_turn (Act i) w = w\<lparr>ow_client := intrude i (ow_client w)\<rparr>"
| "owner_turn (Submits ctx priority name args guard mutation) w =
     (case submit ctx priority name args guard mutation (ow_client w) of
        Inl _ \<Rightarrow> w
      | Inr c \<Rightarrow> w\<lparr>ow_client := c\<rparr>)"
| "owner_turn (Leaves n e) w =
     (let c = ow_client w in
      if n < length (cl_requests c)
      then w\<lparr>ow_client := c\<lparr>cl_requests := (cl_requests c)[n := (cl_requests c ! n)\<lparr>q_cancelled := Some e\<rparr>]\<rparr>\<rparr>
      else w)"

definition owner_start :: "Client \<Rightarrow> owner" where
  "owner_start c = \<lparr>ow_client = c, ow_generation = None, ow_nextDial = 0, ow_answers = []\<rparr>"

definition owner_run :: "turn list \<Rightarrow> owner \<Rightarrow> owner" where
  "owner_run ts w = fold owner_turn ts w"

subsection \<open>What the operations leave alone\<close>

text \<open>
  \<open>quiet\<close> relates two states between which nothing was transmitted and no connection was opened or
  dropped; a connected view can only have become disconnected.
\<close>

definition quiet :: "Client \<Rightarrow> Client \<Rightarrow> bool" where
  "quiet c c' \<longleftrightarrow>
     cl_connection c' = cl_connection c \<and> cl_wire c' = cl_wire c \<and> cl_cfg c' = cl_cfg c \<and>
     (v_Connected (cl_view c') \<longrightarrow> v_Connected (cl_view c))"

lemma quiet_refl [simp]: "quiet c c"
  by (simp add: quiet_def)

lemma quiet_trans [trans]: "quiet a b \<Longrightarrow> quiet b c \<Longrightarrow> quiet a c"
  by (simp add: quiet_def)

lemmas bump_defs = bump_revision_def bump_catalog_def set_connected_def Let_def

lemma quiet_call_handler [simp]: "quiet a (call_handler e c) \<longleftrightarrow> quiet a c"
  by (simp add: quiet_def call_handler_def)

lemma quiet_publish: "quiet c (publish e c)"
  by (simp add: publish_def quiet_def call_handler_def bump_defs)

lemma quiet_stamp_event: "quiet c (stamp_event d c)"
  by (simp add: stamp_event_def quiet_def bump_player_def bump_defs split: option.splits)

lemma quiet_publish_progress: "quiet c (publish_progress e c)"
  by (simp add: quiet_def publish_progress_def Let_def)

lemma client_event_cases:
  "(\<exists>e. client_event r c = publish_progress e c) \<or> (\<exists>e d. client_event r c = publish e (stamp_event d c))"
proof (cases "d_Kind (Event_Data (received_event r)) = EventProgress \<and> d_Valid (Event_Data (received_event r))")
  case True
  then have "client_event r c = publish_progress (received_event r) c"
    by (simp add: client_event_def)
  then show ?thesis by blast
next
  case False
  then have "\<exists>e. client_event r c = publish e (stamp_event (Event_Data (received_event r)) c)"
    by (auto simp: client_event_def Let_def)
  then show ?thesis by blast
qed

lemma quiet_client_event: "quiet c (client_event r c)"
  using client_event_cases [of r c] quiet_publish_progress quiet_trans [OF quiet_stamp_event quiet_publish]
  by metis

lemma quiet_intrude: "quiet c (intrude i c)"
  by (cases i) (auto simp: quiet_def observePlayer_def Interrupt_def BeginPriority_def EndPriority_def
      cancel_active_def bump_defs)

lemma quiet_intrusions: "quiet c (fold intrude is c)"
  by (induction "is" arbitrary: c) (auto intro: quiet_trans [OF quiet_intrude])

lemma quiet_await_reply: "quiet c (fst (await_reply name args ins c))"
proof (induction name args ins c rule: await_reply.induct)
  case (1 name args c)
  then show ?case by (simp add: quiet_def cancel_active_def Let_def)
next
  case (2 name args i ins c)
  then show ?case by (auto intro: quiet_trans [OF quiet_intrude])
next
  case (5 name args r ins c)
  then show ?case by (auto intro: quiet_trans [OF quiet_client_event] split: sum.splits)
qed (auto split: option.splits)

subsection \<open>Delivery classes\<close>

text \<open>
  \<open>classified sent out\<close>: an error of one command names the delivery class that its \<open>sent\<close> bytes
  allow, and only a command with a reply succeeds.
\<close>

definition classified :: "nat \<Rightarrow> Response result \<Rightarrow> bool" where
  "classified sent out \<longleftrightarrow>
     (case out of
        Inr r \<Rightarrow> r_Result r = ''success''
      | Inl e \<Rightarrow> (\<exists>d x. e = CommandError d x \<and> (d = NotSent \<longrightarrow> sent = 0)))"

lemma classified_rejection [simp]: "classified sent (Inl (rejection r))"
  by (auto simp: classified_def rejection_def split: option.splits if_splits)

lemma classified_Uncertain [simp]: "classified sent (Inl (CommandError Uncertain e))"
  by (simp add: classified_def)

lemma classified_delivery_of [simp]: "classified sent (Inl (CommandError (delivery_of sent) e))"
  by (simp add: classified_def delivery_of_def)

lemma classified_accept_reply: "classified sent (accept_reply name args r c)"
proof (cases "r_Result r = ''success''")
  case True
  then show ?thesis by (simp add: accept_reply_def) (simp add: classified_def)
next
  case False
  then show ?thesis by (simp add: accept_reply_def)
qed

lemma classified_await_reply: "classified sent (snd (await_reply name args ins c))"
  by (induction name args ins c rule: await_reply.induct)
    (auto simp: classified_accept_reply Let_def split: option.splits sum.splits)

text \<open>One command is one transmission at most, and the transmission decides the class.\<close>

definition transmitted :: "string \<Rightarrow> nat \<Rightarrow> Client \<Rightarrow> Client \<Rightarrow> bool" where
  "transmitted name sent c c' \<longleftrightarrow>
     (cl_wire c' = cl_wire c \<and> sent = 0 \<or>
      (\<exists>args. cl_wire c' = cl_wire c @ [\<lparr>tx_command = name, tx_args = args, tx_sent = sent\<rparr>])) \<and>
     cl_connection c' = cl_connection c \<and> cl_cfg c' = cl_cfg c \<and>
     (v_Connected (cl_view c') \<longrightarrow> v_Connected (cl_view c))"

lemma transmitted_quiet: "quiet a b \<Longrightarrow> transmitted name sent b c \<Longrightarrow> quiet c d \<Longrightarrow> transmitted name sent a d"
  by (auto simp: transmitted_def quiet_def)

lemma transmit_classified:
  assumes "transmit s name args bytes c = (c', sent, out)"
  shows "transmitted name sent c c' \<and> classified sent out"
proof -
  define a where "a = fold intrude (s_before s) c"
  have q: "quiet c a" by (simp add: a_def quiet_intrusions)
  show ?thesis
  proof (cases "context_cause a = None \<and> s_deadline s = None")
    case False
    with assms q show ?thesis
      by (auto simp: transmit_def a_def [symmetric] Let_def transmitted_def quiet_def classified_def
          split: option.splits prod.splits)
  next
    case True
    obtain n f where w: "writeAll (s_write s) bytes = (n, f)" by fastforce
    define b where "b = a\<lparr>cl_wire := cl_wire a @ [\<lparr>tx_command = name, tx_args = args, tx_sent = n\<rparr>]\<rparr>"
    have b: "transmitted name n a b" by (auto simp: b_def transmitted_def)
    have "quiet b (fst (await_reply name args (s_inputs s) b))" by (rule quiet_await_reply)
    with assms True w b q transmitted_quiet [OF q b] classified_await_reply [of n name args "s_inputs s" b]
    show ?thesis
      by (auto simp: transmit_def a_def [symmetric] b_def [symmetric] Let_def
          split: option.splits prod.splits)
  qed
qed

lemma exchange_classified:
  assumes "exchange s name args c = (c', out)"
  shows "\<exists>sent. transmitted name sent c c' \<and> classified sent out"
proof -
  define a where "a = c\<lparr>cl_sequence := cl_sequence c + 1\<rparr>"
  define ar where
    "ar = (if prefix ''browse/'' name then Values_Set args ''SEQUENCE'' (Itoa (uint (cl_sequence a))) else args)"
  have q: "quiet c a" by (simp add: a_def quiet_def)
  have ex: "exchange s name args c =
     (case encodeCommand name ar of
        Inl e \<Rightarrow> (a, Inl (CommandError NotSent e))
      | Inr bytes \<Rightarrow>
          (case transmit s name ar bytes a of
             (c, sent, out) \<Rightarrow>
               (fold intrude (s_after s) c,
                case context_cause (fold intrude (s_after s) c) of
                  Some e \<Rightarrow> Inl (CommandError (delivery_of sent) e)
                | None \<Rightarrow> out)))"
    unfolding exchange_def Let_def a_def ar_def by (rule refl)
  show ?thesis
  proof (cases "encodeCommand name ar")
    case (Inl e)
    with assms q have "transmitted name 0 c c' \<and> classified 0 out"
      unfolding ex by (auto simp: transmitted_def quiet_def classified_def)
    then show ?thesis by blast
  next
    case (Inr bytes)
    obtain b n o1 where t: "transmit s name ar bytes a = (b, n, o1)" by (cases "transmit s name ar bytes a")
    note cl = transmit_classified [OF t]
    from assms Inr t have "c' = fold intrude (s_after s) b"
      and "out = (case context_cause c' of Some e \<Rightarrow> Inl (CommandError (delivery_of n) e) | None \<Rightarrow> o1)"
      unfolding ex by auto
    with cl transmitted_quiet [OF q _ quiet_intrusions, of name n b "s_after s"]
    have "transmitted name n c c' \<and> classified n out" by (simp split: option.splits)
    then show ?thesis by blast
  qed
qed

subsection \<open>The owner and its connection\<close>

text \<open>
  The owner's local generation is the client's connection, and a view is connected only while there
  is one.
\<close>

definition linked :: "Client \<Rightarrow> generation option \<Rightarrow> bool" where
  "linked c g \<longleftrightarrow>
     cl_connection c = map_option gn_socket g \<and> (v_Connected (cl_view c) \<longrightarrow> g \<noteq> None)"

lemma linked_quiet: "linked c g \<Longrightarrow> quiet c c' \<Longrightarrow> linked c' g"
  by (auto simp: linked_def quiet_def)

lemma linked_transmitted: "linked c g \<Longrightarrow> transmitted name sent c c' \<Longrightarrow> linked c' g"
  by (auto simp: linked_def transmitted_def)

lemma publish_frame [simp]:
  "cl_connection (publish e c) = cl_connection c" "cl_wire (publish e c) = cl_wire c"
  "cl_cfg (publish e c) = cl_cfg c" "v_Connected (cl_view (publish e c)) = v_Connected (cl_view c)"
  by (simp_all add: publish_def call_handler_def bump_defs)

lemma drop_linked: "linked c g \<Longrightarrow> linked (drop_connection g c) None"
  by (auto simp: linked_def drop_connection_def bump_defs split: option.splits)

lemma drop_wire [simp]:
  "cl_wire (drop_connection g c) = cl_wire c" "cl_cfg (drop_connection g c) = cl_cfg c"
  by (auto simp: drop_connection_def bump_defs split: option.splits)

lemma drain_frames_linked:
  "drain_frames i ins g c = (c', g', err) \<Longrightarrow> linked c (Some g) \<Longrightarrow>
     linked c' g' \<and> cl_wire c' = cl_wire c \<and> cl_cfg c' = cl_cfg c \<and> (g' = Some g \<or> g' = None \<and> err \<noteq> None)"
proof (induction i ins g c rule: drain_frames.induct)
  case (2 i j ins g c)
  then show ?case using linked_quiet [OF _ quiet_intrude, of c "Some g" j] quiet_intrude [of c j]
    by (auto simp: quiet_def)
next
  case (4 i f ins g c)
  show ?case
  proof (cases "32 \<le> i \<or> (case f of Inl _ \<Rightarrow> True | Inr r \<Rightarrow> \<not> r_Event r)")
    case True
    with "4.prems" drop_linked [of c "Some g"] show ?thesis
      by (auto split: if_splits sum.splits)
  next
    case False
    then obtain r where r: "f = Inr r" "r_Event r" "\<not> 32 \<le> i" by (auto split: sum.splits)
    have q: "quiet c (client_event r c)" by (rule quiet_client_event)
    with "4.prems" r "4.IH" [OF r(3,1)] linked_quiet [OF "4.prems"(2) q] show ?thesis
      by (auto simp: Let_def quiet_def split: if_splits)
  qed
qed auto

lemma connect_linked:
  assumes "connect p nextDial c = (c', g, err)" and "linked c None"
  shows "linked c' g \<and> cl_cfg c' = cl_cfg c \<and> (err = None \<longrightarrow> g \<noteq> None) \<and>
         (\<exists>new. cl_wire c' = cl_wire c @ new \<and> (\<forall>t \<in> set new. tx_command t = register_command)) \<and>
         (\<forall>e. err = Some e \<longrightarrow> (\<exists>x. e = CommandError NotSent x))"
proof (cases "p_now2 p < nextDial \<or> p_dial p \<noteq> None")
  case True
  with assms show ?thesis by (auto simp: connect_def dial_def split: if_splits)
next
  case False
  obtain a h where o: "open_socket c = (a, h)" by fastforce
  then have a: "linked a (Some h)" "cl_wire a = cl_wire c" "cl_cfg a = cl_cfg c"
    by (auto simp: open_socket_def Let_def linked_def)
  obtain b out where x: "exchange (p_register p) register_command register_args a = (b, out)" by fastforce
  with exchange_classified obtain n where n: "transmitted register_command n a b" by blast
  with linked_transmitted [OF a(1)] have "linked b (Some h)" by blast
  moreover have "\<exists>new. cl_wire b = cl_wire c @ new \<and> (\<forall>t \<in> set new. tx_command t = register_command)"
    using n a(2) by (auto simp: transmitted_def)
  moreover have "cl_cfg b = cl_cfg c" using n a(3) by (simp add: transmitted_def)
  ultimately show ?thesis using assms(1) False o x
    by (cases out) (auto simp: connect_def dial_def linked_def split: if_splits)
qed

lemma check_guard_None:
  "check_guard r now c err = None \<longleftrightarrow> err = None \<and> (\<forall>gd. q_guard r = Some gd \<longrightarrow> guard_current c r gd now)"
  by (auto simp: check_guard_def split: option.splits)

lemma check_guard_Some:
  "check_guard r now c err = Some e \<Longrightarrow> e = CommandError NotSent ErrStale \<or> err = Some e"
  by (auto simp: check_guard_def split: option.splits if_splits)

lemma guard_current_linked: "guard_current c r gd now \<Longrightarrow> linked c g \<Longrightarrow> g \<noteq> None"
  by (simp add: guard_current_def linked_def PlayerView_def Let_def)

definition registrations :: "Client \<Rightarrow> Client \<Rightarrow> bool" where
  "registrations c c' \<longleftrightarrow>
     (\<exists>new. cl_wire c' = cl_wire c @ new \<and> (\<forall>t \<in> set new. tx_command t = register_command))"

lemma registrations_same: "cl_wire c' = cl_wire c \<Longrightarrow> registrations c c'"
  by (simp add: registrations_def)

definition not_sent :: "error option \<Rightarrow> bool" where
  "not_sent err \<longleftrightarrow> (\<forall>e. err = Some e \<longrightarrow> (\<exists>x. e = CommandError NotSent x))"

lemma not_sent_check [simp]: "not_sent err \<Longrightarrow> not_sent (check_guard r now c err)"
  using check_guard_Some by (fastforce simp: not_sent_def)

lemma drain_not_sent: "drain_frames i ins g c = (c', g', err) \<Longrightarrow> not_sent err"
  by (induction i ins g c rule: drain_frames.induct)
    (auto simp: not_sent_def Let_def split: if_splits sum.splits)

text \<open>
  Up to its last check a request transmits registrations only, and a guarded request nothing: it
  never opens a connection.
\<close>

lemma admit_linked:
  assumes "admit p r g nextDial c = (c', g', err)" and "linked c g"
  shows "linked c' g' \<and> cl_cfg c' = cl_cfg c \<and> not_sent err \<and> registrations c c' \<and>
         (err = None \<longrightarrow> g' \<noteq> None) \<and>
         (\<forall>gd. q_guard r = Some gd \<longrightarrow>
            cl_wire c' = cl_wire c \<and> (err = None \<longrightarrow> g' = g \<and> guard_current c' r gd (p_now3 p)))"
proof -
  obtain a ga ea where d: "(case (q_guard r, g) of (Some _, Some g) \<Rightarrow> drain_frames 0 (p_drain p) g c
                             | _ \<Rightarrow> (c, g, None)) = (a, ga, ea)" by (metis prod_cases3)
  have a: "linked a ga" "cl_wire a = cl_wire c" "cl_cfg a = cl_cfg c" "not_sent ea" "ea = None \<longrightarrow> ga = g"
    using d assms(2) drain_frames_linked [of 0 "p_drain p" _ c a ga ea]
      drain_not_sent [of 0 "p_drain p" _ c a ga ea]
    by (auto simp: not_sent_def split: option.splits)
  define b where "b = fold intrude (p_check p) a"
  have b: "linked b ga" "cl_wire b = cl_wire c" "cl_cfg b = cl_cfg c"
    using a quiet_intrusions [of a "p_check p"] linked_quiet [OF a(1)] by (auto simp: b_def quiet_def)
  define eb where "eb = check_guard r (p_now1 p) b ea"
  obtain d' gd' ed where k: "(if ga = None \<and> eb = None then connect p nextDial b else (b, ga, eb)) = (d', gd', ed)"
    by (metis prod_cases3)
  have unguarded: "q_guard r = None" if "ga = None" "eb = None"
    using that b(1) guard_current_linked [of b r _ "p_now1 p" ga]
    by (cases "q_guard r") (auto simp: eb_def check_guard_None)
  have k': "linked d' gd'" "cl_cfg d' = cl_cfg c" "not_sent ed" "registrations c d'"
    "ed = None \<longrightarrow> gd' \<noteq> None" "\<And>gd. q_guard r = Some gd \<Longrightarrow> cl_wire d' = cl_wire c \<and> (ed = None \<longrightarrow> gd' = g)"
    using k b a(4,5) connect_linked [of p nextDial b d' gd' ed] unguarded
    by (auto simp: eb_def not_sent_def registrations_def check_guard_None split: if_splits
        dest!: check_guard_Some)
  have r: "c' = fold intrude (p_recheck p) d'" "g' = gd'"
    "err = (if ed = None then check_guard r (p_now3 p) c' ed else ed)"
    using assms(1) unfolding admit_def Let_def d unfolding prod.case b_def [symmetric] eb_def [symmetric] k by auto
  have q: "quiet d' c'" unfolding r by (rule quiet_intrusions)
  show ?thesis
    using k' q linked_quiet [OF k'(1) q] r(2,3)
    by (auto simp: quiet_def registrations_def check_guard_None)
qed

lemma quiet_stamp_write: "quiet c (stamp_write r c)"
  by (simp add: stamp_write_def quiet_def Let_def split: option.splits)

lemma quiet_arm: "quiet c (arm p r c)"
  using quiet_intrusions [of c "p_arm p"] by (simp add: arm_def quiet_def cancel_active_def Let_def)

lemma send_classified:
  assumes "send p r c = (c', out)"
  shows "\<exists>sent. transmitted (q_command r) sent c c' \<and> classified sent out"
proof -
  have q: "quiet c (stamp_write r (fold intrude (p_stamp p) c))"
    by (rule quiet_trans [OF quiet_intrusions quiet_stamp_write])
  from exchange_classified [OF assms [unfolded send_def]] obtain n
    where n: "transmitted (q_command r) n (stamp_write r (fold intrude (p_stamp p) c)) c'" "classified n out"
    by blast
  with transmitted_quiet [OF q n(1) quiet_refl] show ?thesis by blast
qed

lemma settle_linked:
  assumes "settle p g nextDial c out = (c', g', nextDial', out')" and "linked c g"
  shows "linked c' g' \<and> cl_wire c' = cl_wire c \<and> cl_cfg c' = cl_cfg c \<and> out' = out"
  using assms drop_linked [of c g] by (auto simp: settle_def split: sum.splits if_splits)

text \<open>
  The whole of a request: registrations of a new connection, then at most one transmission of the
  request's command, whose bytes decide the class of the answer. A guarded request transmits
  nothing else, and only when its guard was current at the last check.
\<close>

definition sends :: "request \<Rightarrow> nat \<Rightarrow> Client \<Rightarrow> Client \<Rightarrow> bool" where
  "sends r n c c' \<longleftrightarrow>
     cl_wire c' = cl_wire c \<and> n = 0 \<or>
     (\<exists>args. cl_wire c' = cl_wire c @ [\<lparr>tx_command = q_command r, tx_args = args, tx_sent = n\<rparr>])"

definition checked :: "process_script \<Rightarrow> request \<Rightarrow> generation option \<Rightarrow> time \<Rightarrow> Client \<Rightarrow> Client" where
  "checked p r g nextDial c = fst (admit p r g nextDial (arm p r (fold intrude (p_begin p) c)))"

lemma process_summary:
  assumes "process p r g nextDial c = (c', g', nextDial', out)" and "linked c g"
  shows "linked c' g' \<and> cl_cfg c' = cl_cfg c \<and>
    (\<exists>c1 n. registrations c c1 \<and> sends r n c1 c' \<and> classified n out \<and>
       (\<forall>gd. q_guard r = Some gd \<longrightarrow>
          cl_wire c1 = cl_wire c \<and>
          (cl_wire c' \<noteq> cl_wire c \<longrightarrow>
             g \<noteq> None \<and> q_fence r = cl_fence (fold intrude (p_begin p) c) \<and>
             guard_current (checked p r g nextDial c) r gd (p_now3 p))))"
proof -
  define a where "a = fold intrude (p_begin p) c"
  have qa: "quiet c a" by (simp add: a_def quiet_intrusions)
  show ?thesis
  proof (cases "q_cancelled r = None \<and> \<not> (q_fence r \<noteq> cl_fence a \<or> (0 < cl_priorityMode a \<and> \<not> q_priority r))")
    case False
    with assms qa linked_quiet [OF assms(2) qa]
    have "linked c' g' \<and> cl_cfg c' = cl_cfg c \<and> cl_wire c' = cl_wire c \<and> classified 0 out"
      by (auto simp: process_def a_def [symmetric] Let_def quiet_def classified_def split: option.splits)
    then show ?thesis by (auto simp: registrations_def sends_def intro!: exI [of _ c] exI [of _ 0])
  next
    case True
    define b where "b = arm p r a"
    have qb: "quiet c b" unfolding b_def by (rule quiet_trans [OF qa quiet_arm])
    obtain c1 g1 err where ad: "admit p r g nextDial b = (c1, g1, err)" by (metis prod_cases3)
    note ad' = admit_linked [OF ad linked_quiet [OF assms(2) qb]]
    have ck: "checked p r g nextDial c = c1"
      using ad by (simp add: checked_def a_def b_def)
    obtain c2 o2 where sn: "(case err of Some e \<Rightarrow> (c1, Inl e) | None \<Rightarrow> send p r c1) = (c2, o2)" by fastforce
    have st: "settle p g1 nextDial (c2\<lparr>cl_active := None\<rparr>) o2 = (c', g', nextDial', out)"
      using assms(1) True ad sn by (auto simp: process_def a_def [symmetric] b_def [symmetric] Let_def)
    have "\<exists>n. transmitted (q_command r) n c1 c2 \<and> classified n o2 \<and> (err \<noteq> None \<longrightarrow> cl_wire c2 = cl_wire c1)"
    proof (cases err)
      case None
      with sn send_classified [of p r c1 c2 o2] show ?thesis by simp
    next
      case (Some e)
      with sn ad' show ?thesis by (auto simp: transmitted_def not_sent_def classified_def)
    qed
    then obtain n where n: "transmitted (q_command r) n c1 c2" "classified n o2"
      "err \<noteq> None \<longrightarrow> cl_wire c2 = cl_wire c1" by blast
    have l: "linked (c2\<lparr>cl_active := None\<rparr>) g1"
      using linked_transmitted [OF _ n(1)] ad' by (auto simp: linked_def)
    note st' = settle_linked [OF st l]
    have reg: "registrations c c1" using ad' qb by (simp add: registrations_def quiet_def)
    have sd: "sends r n c1 c'" using st' n(1) by (auto simp: sends_def transmitted_def)
    have gd: "cl_wire c1 = cl_wire c \<and> (cl_wire c' \<noteq> cl_wire c \<longrightarrow>
             g \<noteq> None \<and> q_fence r = cl_fence a \<and> guard_current c1 r x (p_now3 p))" if "q_guard r = Some x" for x
      using ad' that True n(3) st' qb by (auto simp: quiet_def)
    show ?thesis
      using st' reg sd gd n ad' qb unfolding ck a_def [symmetric]
      by (auto simp: transmitted_def quiet_def intro!: exI [of _ c1] exI [of _ n])
  qed
qed

subsection \<open>Guards are used once\<close>

text \<open>
  \<open>advanced lo n pid c c'\<close>: from \<open>c\<close> to \<open>c'\<close> at most \<open>n\<close> increments of the fence and of the global
  revision happened, and when the revision did not move the write revision of \<open>pid\<close> moved by at
  least \<open>lo\<close> and at most \<open>n\<close>. The counters are 64-bit words, so a token can only come back after
  \<open>2 ^ 64\<close> increments.
\<close>

definition advanced :: "nat \<Rightarrow> nat \<Rightarrow> ID \<Rightarrow> Client \<Rightarrow> Client \<Rightarrow> bool" where
  "advanced lo n pid c c' \<longleftrightarrow>
     (\<exists>k \<le> n. cl_fence c' = cl_fence c + of_nat k) \<and>
     (\<exists>k \<le> n. t_Revision (v_Token (cl_view c')) = t_Revision (v_Token (cl_view c)) + of_nat k \<and>
        (k = 0 \<longrightarrow> (\<exists>w. lo \<le> w \<and> w \<le> n \<and> write_revision c' pid = write_revision c pid + of_nat w)))"

lemma advanced_trans:
  assumes "advanced lo n pid a b" and "advanced lo' n' pid b c"
  shows "advanced (lo + lo') (n + n') pid a c"
proof -
  from assms(1) obtain k1 j1 where
    1: "k1 \<le> n" "cl_fence b = cl_fence a + of_nat k1" "j1 \<le> n"
       "t_Revision (v_Token (cl_view b)) = t_Revision (v_Token (cl_view a)) + of_nat j1"
       "j1 = 0 \<longrightarrow> (\<exists>w. lo \<le> w \<and> w \<le> n \<and> write_revision b pid = write_revision a pid + of_nat w)"
    unfolding advanced_def by blast
  from assms(2) obtain k2 j2 where
    2: "k2 \<le> n'" "cl_fence c = cl_fence b + of_nat k2" "j2 \<le> n'"
       "t_Revision (v_Token (cl_view c)) = t_Revision (v_Token (cl_view b)) + of_nat j2"
       "j2 = 0 \<longrightarrow> (\<exists>w. lo' \<le> w \<and> w \<le> n' \<and> write_revision c pid = write_revision b pid + of_nat w)"
    unfolding advanced_def by blast
  have "\<exists>w. lo + lo' \<le> w \<and> w \<le> n + n' \<and> write_revision c pid = write_revision a pid + of_nat w"
    if z: "j1 + j2 = 0"
  proof -
    from z 1(5) 2(5) obtain w1 w2 where
      "lo \<le> w1" "w1 \<le> n" "write_revision b pid = write_revision a pid + of_nat w1"
      "lo' \<le> w2" "w2 \<le> n'" "write_revision c pid = write_revision b pid + of_nat w2" by auto
    then show ?thesis by (intro exI [of _ "w1 + w2"]) simp
  qed
  with 1(1-4) 2(1-4) show ?thesis
    unfolding advanced_def
    by (intro conjI exI [of _ "k1 + k2"] exI [of _ "j1 + j2"]) auto
qed

lemma advanced_mono: "advanced lo n pid a b \<Longrightarrow> lo' \<le> lo \<Longrightarrow> n \<le> n' \<Longrightarrow> advanced lo' n' pid a b"
  unfolding advanced_def by (meson le_trans)

lemma advanced_same:
  "cl_fence c' = cl_fence c \<Longrightarrow> t_Revision (v_Token (cl_view c')) = t_Revision (v_Token (cl_view c)) \<Longrightarrow>
     cl_writes c' = cl_writes c \<Longrightarrow> advanced 0 n pid c c'"
  unfolding advanced_def write_revision_def by (intro conjI exI [of _ 0]) auto

lemma advanced_bump:
  "cl_fence c' = cl_fence c \<Longrightarrow> t_Revision (v_Token (cl_view c')) = t_Revision (v_Token (cl_view c)) + 1 \<Longrightarrow>
     advanced 0 (Suc n) pid c c'"
  unfolding advanced_def by (intro conjI exI [of _ 0] exI [of _ 1]) auto

lemma advanced_then:
  "advanced 0 n pid a b \<Longrightarrow> advanced lo n' pid b c \<Longrightarrow> n + n' \<le> m \<Longrightarrow> advanced lo m pid a c"
  using advanced_trans [of 0 n pid a b lo n' c] advanced_mono by (metis add.left_neutral order_refl)

lemma advanced_changes_token:
  assumes "advanced 1 n pid c c'" and "n < 2 ^ 64"
  shows "player_token c' pid \<noteq> player_token c pid"
proof -
  have nz: "(of_nat k :: uint64) \<noteq> 0" if "0 < k" "k \<le> n" for k
    using that assms(2) by (intro of_nat_neq_0) simp_all
  from assms(1) obtain k where k: "k \<le> n"
    "t_Revision (v_Token (cl_view c')) = t_Revision (v_Token (cl_view c)) + of_nat k"
    "k = 0 \<longrightarrow> (\<exists>w. 1 \<le> w \<and> w \<le> n \<and> write_revision c' pid = write_revision c pid + of_nat w)"
    unfolding advanced_def by blast
  show ?thesis
  proof (cases "k = 0")
    case True
    with k(3) obtain w where "1 \<le> w" "w \<le> n" "write_revision c' pid = write_revision c pid + of_nat w" by blast
    with nz [of w] have "t_Write (player_token c' pid) \<noteq> t_Write (player_token c pid)"
      by (simp add: player_token_def)
    then show ?thesis by metis
  next
    case False
    with k nz [of k] have "t_Revision (player_token c' pid) \<noteq> t_Revision (player_token c pid)"
      by (simp add: player_token_def)
    then show ?thesis by metis
  qed
qed

lemma advanced_publish: "advanced 0 1 pid c (publish e c)"
proof (cases "has_room (call_handler e c)")
  case True
  then show ?thesis
    by (intro advanced_same) (simp_all add: publish_def call_handler_def Let_def)
next
  case False
  then have "advanced 0 (Suc 0) pid c (publish e c)"
    by (intro advanced_bump) (simp_all add: publish_def call_handler_def bump_defs)
  then show ?thesis by simp
qed

lemma advanced_client_event: "advanced 0 2 pid c (client_event r c)"
proof -
  have "advanced 0 2 pid c (publish_progress e c)" for e
    by (rule advanced_same) (simp_all add: publish_progress_def Let_def)
  moreover have "advanced 0 1 pid c (stamp_event d c)" for d
  proof (cases "stamped_player (d_Kind d) \<and> d_Player d \<noteq> []")
    case True
    then show ?thesis
      by (intro advanced_same) (auto simp: stamp_event_def bump_player_def bump_defs split: option.splits)
  next
    case False
    then have "advanced 0 (Suc 0) pid c (stamp_event d c)"
      by (intro advanced_bump) (auto simp: stamp_event_def bump_defs)
    then show ?thesis by simp
  qed
  then have "advanced 0 2 pid c (publish e (stamp_event d c))" for e d
    by (rule advanced_then [OF _ advanced_publish]) simp
  ultimately show ?thesis using client_event_cases [of r c] by metis
qed

lemma advanced_Interrupt: "advanced 0 1 pid c (Interrupt c)"
  unfolding advanced_def
  by (intro conjI exI [of _ 1]) (simp_all add: Interrupt_def cancel_active_def bump_defs)

lemma advanced_intrude: "advanced 0 1 pid c (intrude i c)"
proof (cases i)
  case (Observes p)
  show ?thesis
  proof (cases "map_of (cl_players c) p = None \<and> length (cl_players c) = 64")
    case True
    then have "advanced 0 (Suc 0) pid c (intrude i c)" unfolding Observes
      by (intro advanced_bump) (simp_all add: observePlayer_def bump_defs)
    then show ?thesis by simp
  next
    case False
    then show ?thesis unfolding Observes
      by (intro advanced_same) (auto simp: observePlayer_def bump_defs)
  qed
next
  case BeginsPriority
  have "advanced 0 0 pid c (c\<lparr>cl_priorityMode := cl_priorityMode c + 1\<rparr>)"
    by (rule advanced_same) simp_all
  then show ?thesis unfolding BeginsPriority
    by (simp add: BeginPriority_def advanced_then [OF _ advanced_Interrupt])
next
  case Interrupts
  then show ?thesis using advanced_Interrupt [of pid c] by simp
qed (auto intro!: advanced_same simp: EndPriority_def cancel_active_def)

lemma advanced_intrusions: "advanced 0 (length is) pid c (fold intrude is c)"
proof (induction "is" arbitrary: c)
  case Nil
  show ?case by (simp add: advanced_same)
next
  case (Cons i "is")
  show ?case using advanced_then [OF advanced_intrude Cons.IH] by simp
qed

lemma advanced_await_reply: "advanced 0 (2 * length ins) pid c (fst (await_reply name args ins c))"
proof (induction name args ins c rule: await_reply.induct)
  case (1 name args c)
  show ?case by (rule advanced_same) (simp_all add: cancel_active_def Let_def)
next
  case (2 name args i ins c)
  then show ?case using advanced_then [OF advanced_intrude] by simp
next
  case (3 name args ins c)
  then show ?case
    by (cases "context_cause c") (auto intro: advanced_same elim: advanced_mono)
next
  case (4 name args e ins c)
  show ?case by (rule advanced_same) simp_all
next
  case (5 name args r ins c)
  show ?case
  proof (cases "r_Event r")
    case True
    with "5.IH"(1) advanced_then [OF advanced_client_event, where m = "2 * length (Frame (Inr r) # ins)"]
    show ?thesis by simp
  next
    case False
    with "5.IH"(2) advanced_mono [OF _ order_refl, of 0 "2 * length ins" _ _ _ "Suc (Suc (2 * length ins))"]
    show ?thesis by (auto intro: advanced_same split: sum.splits)
  qed
qed

definition exchange_weight :: "exchange_script \<Rightarrow> nat" where
  "exchange_weight s = length (s_before s) + 2 * length (s_inputs s) + length (s_after s)"

lemma advanced_transmit:
  assumes "transmit s name args bytes c = (c', sent, out)"
  shows "advanced 0 (length (s_before s) + 2 * length (s_inputs s)) pid c c'"
proof -
  define a where "a = fold intrude (s_before s) c"
  have a: "advanced 0 (length (s_before s)) pid c a" by (simp add: a_def advanced_intrusions)
  have "advanced 0 (2 * length (s_inputs s)) pid a c'"
  proof (cases "context_cause a = None \<and> s_deadline s = None")
    case False
    with assms show ?thesis
      by (intro advanced_same) (auto simp: transmit_def a_def [symmetric] Let_def split: option.splits)
  next
    case True
    obtain n f where w: "writeAll (s_write s) bytes = (n, f)" by fastforce
    define b where "b = a\<lparr>cl_wire := cl_wire a @ [\<lparr>tx_command = name, tx_args = args, tx_sent = n\<rparr>]\<rparr>"
    have b: "advanced 0 0 pid a b" by (rule advanced_same) (simp_all add: b_def)
    have "c' = b \<or> c' = fst (await_reply name args (s_inputs s) b)"
      using assms True w
      by (auto simp: transmit_def a_def [symmetric] b_def [symmetric] Let_def split: option.splits prod.splits)
    then show ?thesis
      using advanced_then [OF b advanced_await_reply] advanced_mono [OF b] by auto
  qed
  with a show ?thesis by (rule advanced_then) simp
qed

lemma advanced_exchange:
  assumes "exchange s name args c = (c', out)"
  shows "advanced 0 (exchange_weight s) pid c c'"
proof -
  define a where "a = c\<lparr>cl_sequence := cl_sequence c + 1\<rparr>"
  have a: "advanced 0 0 pid c a" by (rule advanced_same) (simp_all add: a_def)
  have "c' = a \<or> (\<exists>args bytes b n o1. transmit s name args bytes a = (b, n, o1) \<and> c' = fold intrude (s_after s) b)"
    using assms unfolding exchange_def Let_def a_def [symmetric]
    by (auto split: sum.splits prod.splits) (blast+)?
  then consider "c' = a" | args bytes b n o1 where "transmit s name args bytes a = (b, n, o1)"
    "c' = fold intrude (s_after s) b" by blast
  then show ?thesis
  proof cases
    case 1
    with advanced_mono [OF a] show ?thesis by simp
  next
    case 2
    have "advanced 0 (exchange_weight s) pid a c'"
      unfolding 2(2) by (rule advanced_then [OF advanced_transmit [OF 2(1)] advanced_intrusions])
        (simp add: exchange_weight_def)
    with a show ?thesis by (rule advanced_then) simp
  qed
qed

definition admit_weight :: "process_script \<Rightarrow> nat" where
  "admit_weight p =
     2 * length (p_drain p) + 2 + length (p_check p) + 1 + exchange_weight (p_register p) + length (p_recheck p)"

definition send_weight :: "process_script \<Rightarrow> nat" where
  "send_weight p = length (p_stamp p) + 1 + exchange_weight (p_exchange p)"

definition process_weight :: "process_script \<Rightarrow> nat" where
  "process_weight p =
     length (p_begin p) + length (p_arm p) + admit_weight p + send_weight p + 2"

lemma advanced_drop: "advanced 0 2 pid c (drop_connection g c)"
proof (cases g)
  case None
  then show ?thesis by (simp add: drop_connection_def advanced_same)
next
  case (Some h)
  define a where "a = (if cl_connection c = Some (gn_socket h)
    then bump_catalog (bump_revision (set_connected False (c\<lparr>cl_connection := None\<rparr>))) else c)"
  have "advanced 0 (Suc 0) pid c a"
  proof (cases "cl_connection c = Some (gn_socket h)")
    case True
    then show ?thesis by (intro advanced_bump) (simp_all add: a_def bump_defs)
  next
    case False
    then show ?thesis by (intro advanced_same) (simp_all add: a_def)
  qed
  moreover have "drop_connection g c = publish (gap_event (v_Token (cl_view a)) ''connection_closed'') a"
    by (simp add: Some drop_connection_def a_def Let_def)
  ultimately show ?thesis using advanced_then [OF _ advanced_publish, of "Suc 0" pid c a 2] by simp
qed

lemma advanced_drain_frames:
  "advanced 0 (2 * length ins + 2) pid c (fst (drain_frames i ins g c))"
proof (induction i ins g c rule: drain_frames.induct)
  case (1 i g c)
  show ?case by (simp add: advanced_same)
next
  case (2 i j ins g c)
  then show ?case using advanced_then [OF advanced_intrude] by simp
next
  case (3 i ins g c)
  then show ?case by (auto elim: advanced_mono)
next
  case (4 i f ins g c)
  show ?case
  proof (cases "32 \<le> i \<or> (case f of Inl _ \<Rightarrow> True | Inr r \<Rightarrow> \<not> r_Event r)")
    case True
    then show ?thesis using advanced_mono [OF advanced_drop, where lo' = 0 and n' = "2 * length (Frame f # ins) + 2"]
      by (auto simp: advanced_same split: sum.splits)
  next
    case False
    then obtain r where r: "f = Inr r" "r_Event r" "\<not> 32 \<le> i" by (auto split: sum.splits)
    show ?thesis
    proof (cases "i = 31")
      case True
      with r advanced_mono [OF advanced_client_event] show ?thesis by (simp add: Let_def)
    next
      case False
      then have "advanced 0 (2 * length ins + 2) pid (client_event r c)
          (fst (drain_frames (Suc i) ins g (client_event r c)))"
        using "4.IH" [OF r(3,1)] r(2) by simp
      then have "advanced 0 (2 * length (Frame f # ins) + 2) pid c
          (fst (drain_frames (Suc i) ins g (client_event r c)))"
        by (rule advanced_then [OF advanced_client_event]) simp
      with r False show ?thesis by (simp add: Let_def)
    qed
  qed
qed

lemma advanced_connect:
  assumes "connect p nextDial c = (c', g, err)"
  shows "advanced 0 (1 + exchange_weight (p_register p)) pid c c'"
proof (cases "p_now2 p < nextDial \<or> p_dial p \<noteq> None")
  case True
  with assms show ?thesis by (intro advanced_same) (auto simp: connect_def dial_def split: if_splits)
next
  case False
  obtain a h where o: "open_socket c = (a, h)" by fastforce
  then have a: "advanced 0 (Suc 0) pid c a"
    by (intro advanced_bump) (auto simp: open_socket_def Let_def)
  obtain b out where x: "exchange (p_register p) register_command register_args a = (b, out)" by fastforce
  have "c' = b \<or> c' = b\<lparr>cl_everReady := True\<rparr>"
    using assms False o x by (cases out) (auto simp: connect_def dial_def split: if_splits)
  then have "advanced 0 0 pid b c'" by (auto intro: advanced_same)
  with advanced_exchange [OF x] have "advanced 0 (exchange_weight (p_register p)) pid a c'"
    by (rule advanced_then) simp
  with a show ?thesis by (rule advanced_then) simp
qed

lemma advanced_admit:
  assumes "admit p r g nextDial c = (c', g', err)"
  shows "advanced 0 (admit_weight p) pid c c'"
proof -
  obtain a ga ea where d: "(case (q_guard r, g) of (Some _, Some g) \<Rightarrow> drain_frames 0 (p_drain p) g c
                             | _ \<Rightarrow> (c, g, None)) = (a, ga, ea)" by (metis prod_cases3)
  have a: "advanced 0 (2 * length (p_drain p) + 2) pid c a"
    using d advanced_drain_frames [of "p_drain p" pid c 0] by (auto simp: advanced_same split: option.splits)
      (metis fst_conv)
  define b where "b = fold intrude (p_check p) a"
  define eb where "eb = check_guard r (p_now1 p) b ea"
  have b: "advanced 0 (2 * length (p_drain p) + 2 + length (p_check p)) pid c b"
    unfolding b_def by (rule advanced_then [OF a advanced_intrusions]) simp
  obtain d' gd' ed where k: "(if ga = None \<and> eb = None then connect p nextDial b else (b, ga, eb)) = (d', gd', ed)"
    by (metis prod_cases3)
  have "advanced 0 (1 + exchange_weight (p_register p)) pid b d'"
    using k advanced_connect [of p nextDial b d' gd' ed] by (auto simp: advanced_same split: if_splits)
  then have "advanced 0 (2 * length (p_drain p) + 2 + length (p_check p) + (1 + exchange_weight (p_register p))) pid c d'"
    by (rule advanced_then [OF b]) simp
  moreover have "c' = fold intrude (p_recheck p) d'"
    using assms unfolding admit_def Let_def d unfolding prod.case b_def [symmetric] eb_def [symmetric] k by auto
  ultimately show ?thesis
    using advanced_then [OF _ advanced_intrusions [of "p_recheck p" pid d'], of _ c "admit_weight p"]
    by (simp add: admit_weight_def)
qed

lemma advanced_arm: "advanced 0 (length (p_arm p)) pid c (arm p r c)"
proof -
  have "advanced 0 0 pid (fold intrude (p_arm p) c) (arm p r c)"
    by (rule advanced_same) (simp_all add: arm_def cancel_active_def Let_def)
  with advanced_intrusions [of "p_arm p" pid c] show ?thesis by (rule advanced_then) simp
qed

text \<open>Sending a guarded request moves the write revision of its player.\<close>

lemma advanced_send:
  assumes "send p r c = (c', out)" and "q_guard r = Some gd"
  shows "advanced 1 (send_weight p) (Values_Get (q_args r) ''pid'') c c'"
proof -
  let ?pid = "Values_Get (q_args r) ''pid''"
  let ?a = "fold intrude (p_stamp p) c"
  have "advanced 1 1 ?pid ?a (stamp_write r ?a)"
    unfolding advanced_def using assms(2)
    by (intro conjI exI [of _ 0]) (auto simp: stamp_write_def write_revision_def update_conv' Let_def intro!: exI [of _ 1])
  moreover have "advanced 0 (exchange_weight (p_exchange p)) ?pid (stamp_write r ?a) c'"
    by (rule advanced_exchange [OF assms(1) [unfolded send_def]])
  ultimately have "advanced (1 + 0) (1 + exchange_weight (p_exchange p)) ?pid ?a c'"
    by (rule advanced_trans)
  then show ?thesis
    using advanced_then [OF advanced_intrusions [of "p_stamp p" ?pid c]] by (simp add: send_weight_def)
qed

lemma advanced_send_any:
  assumes "send p r c = (c', out)"
  shows "advanced 0 (send_weight p) pid c c'"
proof -
  let ?a = "fold intrude (p_stamp p) c"
  have "advanced 0 1 pid ?a (stamp_write r ?a)"
    unfolding advanced_def
    by (intro conjI exI [of _ 0])
      (auto simp: stamp_write_def write_revision_def update_conv' Let_def split: option.splits
        intro: exI [of _ 0] exI [of _ 1])
  from advanced_then [OF this advanced_exchange [OF assms [unfolded send_def]]]
  have "advanced 0 (1 + exchange_weight (p_exchange p)) pid ?a c'" by simp
  then show ?thesis
    using advanced_then [OF advanced_intrusions [of "p_stamp p" pid c]] by (simp add: send_weight_def)
qed

lemma advanced_settle:
  assumes "settle p g nextDial c out = (c', g', nextDial', out')"
  shows "advanced 0 2 pid c c'"
  using assms advanced_drop [of pid c g]
  by (auto simp: settle_def advanced_same split: sum.splits if_splits)

lemma advanced_process:
  assumes "process p r g nextDial c = (c', g', nextDial', out)"
  shows "advanced 0 (process_weight p) pid c c' \<and>
    (\<forall>gd. q_guard r = Some gd \<longrightarrow> linked c g \<longrightarrow> cl_wire c' \<noteq> cl_wire c \<longrightarrow>
       advanced 1 (send_weight p + 2) (Values_Get (q_args r) ''pid'') (checked p r g nextDial c) c')"
proof -
  define a where "a = fold intrude (p_begin p) c"
  have a: "advanced 0 (length (p_begin p)) pid c a" by (simp add: a_def advanced_intrusions)
  show ?thesis
  proof (cases "q_cancelled r = None \<and> \<not> (q_fence r \<noteq> cl_fence a \<or> (0 < cl_priorityMode a \<and> \<not> q_priority r))")
    case False
    with assms have e: "c' = c \<or> c' = a"
      by (auto simp: process_def a_def [symmetric] Let_def split: option.splits)
    have "cl_wire a = cl_wire c" using quiet_intrusions [of c "p_begin p"] by (simp add: a_def quiet_def)
    with e a show ?thesis
      by (auto simp: process_weight_def advanced_same elim!: advanced_mono)
  next
    case True
    define b where "b = arm p r a"
    obtain c1 g1 err where ad: "admit p r g nextDial b = (c1, g1, err)" by (metis prod_cases3)
    have b: "advanced 0 (length (p_begin p) + length (p_arm p)) pid c b"
      unfolding b_def by (rule advanced_then [OF a advanced_arm]) simp
    have c1: "advanced 0 (length (p_begin p) + length (p_arm p) + admit_weight p) pid c c1"
      by (rule advanced_then [OF b advanced_admit [OF ad]]) simp
    have ck: "checked p r g nextDial c = c1" using ad by (simp add: checked_def a_def b_def)
    obtain c2 o2 where sn: "(case err of Some e \<Rightarrow> (c1, Inl e) | None \<Rightarrow> send p r c1) = (c2, o2)" by fastforce
    have st: "settle p g1 nextDial (c2\<lparr>cl_active := None\<rparr>) o2 = (c', g', nextDial', out)"
      using assms(1) True ad sn by (auto simp: process_def a_def [symmetric] b_def [symmetric] Let_def)
    have "advanced 0 0 q c2 (c2\<lparr>cl_active := None\<rparr>)" for q by (rule advanced_same) simp_all
    from advanced_then [OF this advanced_settle [OF st]] have st': "advanced 0 2 q c2 c'" for q by simp
    have "advanced 0 (send_weight p) pid c1 c2"
      using sn advanced_send_any [of p r c1 c2 o2] by (auto simp: advanced_same split: option.splits)
    from advanced_then [OF c1 this] have "advanced 0 (process_weight p - 2) pid c c2"
      by (simp add: process_weight_def)
    from advanced_then [OF this st'] have 1: "advanced 0 (process_weight p) pid c c'"
      by (simp add: process_weight_def)
    have "advanced 1 (send_weight p + 2) (Values_Get (q_args r) ''pid'') c1 c'"
      if gd: "q_guard r = Some gd" and l: "linked c g" and w: "cl_wire c' \<noteq> cl_wire c" for gd
    proof -
      have qb: "quiet c b" unfolding b_def a_def by (rule quiet_trans [OF quiet_intrusions quiet_arm])
      note ad' = admit_linked [OF ad linked_quiet [OF l qb]]
      have w1: "cl_wire c1 = cl_wire c" using ad' gd qb by (simp add: quiet_def)
      have "err = None"
      proof (rule ccontr)
        assume "err \<noteq> None"
        with sn have "c2 = c1" by auto
        with st w1 have "cl_wire c' = cl_wire c" by (auto simp: settle_def split: sum.splits if_splits)
        with w show False by simp
      qed
      with sn have "send p r c1 = (c2, o2)" by simp
      from advanced_trans [OF advanced_send [OF this gd] st'] show ?thesis by simp
    qed
    with 1 show ?thesis unfolding ck by blast
  qed
qed

subsection \<open>Runs of the owner\<close>

fun turn_weight :: "turn \<Rightarrow> nat" where
  "turn_weight (TakePriority p) = process_weight p"
| "turn_weight (TakeRequest p) = process_weight p"
| "turn_weight _ = 2"

definition run_weight :: "turn list \<Rightarrow> nat" where
  "run_weight ts = sum_list (map turn_weight ts)"

definition owner_linked :: "owner \<Rightarrow> bool" where
  "owner_linked w \<longleftrightarrow> linked (ow_client w) (ow_generation w)"

lemma answer_linked: "owner_linked w \<Longrightarrow> owner_linked (answer p r w)"
proof -
  assume l: "owner_linked w"
  obtain c g nd out where p: "process p r (ow_generation w) (ow_nextDial w) (ow_client w) = (c, g, nd, out)"
    by (metis prod_cases4)
  with process_summary [OF p] l show ?thesis by (simp add: answer_def owner_linked_def)
qed

lemma advanced_answer: "advanced 0 (process_weight p) pid (ow_client w) (ow_client (answer p r w))"
proof -
  obtain c g nd out where p: "process p r (ow_generation w) (ow_nextDial w) (ow_client w) = (c, g, nd, out)"
    by (metis prod_cases4)
  with advanced_process [OF p] show ?thesis by (simp add: answer_def)
qed

lemma submit_Inr:
  "submit ctx priority name args guard m c = Inr c' \<Longrightarrow>
     \<exists>qs ps. c' = c\<lparr>cl_requests := qs, cl_priority := ps\<rparr>"
  by (auto simp: submit_def Let_def split: sum.splits option.splits if_splits)
    (metis Client.surjective Client.update_convs(15,16))+

lemma owner_turn_linked: "owner_linked w \<Longrightarrow> owner_linked (owner_turn t w)"
proof (induction t w rule: owner_turn.induct)
  case (1 p w)
  then have "owner_linked (w\<lparr>ow_client := (ow_client w)\<lparr>cl_priority := rs\<rparr>\<rparr>)" for rs
    by (simp add: owner_linked_def linked_def)
  with 1 answer_linked show ?case by (simp split: list.splits)
next
  case (2 p w)
  then have "owner_linked (w\<lparr>ow_client := (ow_client w)\<lparr>cl_requests := rs\<rparr>\<rparr>)" for rs
    by (simp add: owner_linked_def linked_def)
  with 2 answer_linked show ?case by (simp split: list.splits)
next
  case (3 f now w)
  then show ?case
    using linked_quiet [OF _ quiet_client_event] drop_linked [of "ow_client w" "ow_generation w"]
    by (auto simp: owner_linked_def split: option.splits sum.splits)
next
  case (4 i w)
  then show ?case using linked_quiet [OF _ quiet_intrude] by (auto simp: owner_linked_def)
next
  case (5 ctx priority name args guard mutation w)
  then show ?case
    by (auto simp: owner_linked_def linked_def split: sum.splits dest!: submit_Inr)
next
  case (6 n e w)
  then show ?case by (auto simp: owner_linked_def linked_def Let_def)
qed

interpretation device_owner: stepped_invariant owner_turn owner_linked
  by unfold_locales (rule owner_turn_linked)

lemma owner_start_linked: "Client_New cfg = Inr c \<Longrightarrow> owner_linked (owner_start c)"
  by (auto simp: Client_New_def owner_linked_def owner_start_def linked_def Let_def split: if_splits)

lemma owner_run_linked: "Client_New cfg = Inr c \<Longrightarrow> owner_linked (owner_run ts (owner_start c))"
  unfolding owner_run_def by (rule device_owner.run_inv [OF owner_start_linked])

lemma advanced_turn: "advanced 0 (turn_weight t) pid (ow_client w) (ow_client (owner_turn t w))"
proof (induction t w rule: owner_turn.induct)
  case (1 p w)
  have "advanced 0 0 pid (ow_client w) ((ow_client w)\<lparr>cl_priority := rs\<rparr>)" for rs
    by (rule advanced_same) simp_all
  from advanced_then [OF this, of 0 "process_weight p"]
    advanced_answer [of p pid "w\<lparr>ow_client := (ow_client w)\<lparr>cl_priority := _\<rparr>\<rparr>"] show ?case
    by (simp add: advanced_same split: list.splits) blast
next
  case (2 p w)
  have "advanced 0 0 pid (ow_client w) ((ow_client w)\<lparr>cl_requests := rs\<rparr>)" for rs
    by (rule advanced_same) simp_all
  from advanced_then [OF this, of 0 "process_weight p"]
    advanced_answer [of p pid "w\<lparr>ow_client := (ow_client w)\<lparr>cl_requests := _\<rparr>\<rparr>"] show ?case
    by (simp add: advanced_same split: list.splits) blast
next
  case (3 f now w)
  show ?case
    using advanced_client_event advanced_drop
    by (auto simp: advanced_same split: option.splits sum.splits)
next
  case (4 i w)
  show ?case using advanced_mono [OF advanced_intrude] by simp
next
  case (5 ctx priority name args guard mutation w)
  show ?case by (auto simp: advanced_same split: sum.splits dest!: submit_Inr)
next
  case (6 n e w)
  show ?case by (auto simp: advanced_same Let_def)
qed

lemma advanced_run: "advanced 0 (run_weight ts) pid (ow_client w) (ow_client (owner_run ts w))"
proof (induction ts arbitrary: w)
  case Nil
  show ?case by (simp add: owner_run_def advanced_same)
next
  case (Cons t ts)
  from advanced_then [OF advanced_turn [of t pid w] Cons.IH [of "owner_turn t w"]] show ?case
    by (simp add: owner_run_def run_weight_def)
qed

subsection \<open>Properties of the connection\<close>

lemma process_reachable:
  assumes "Client_New cfg = Inr c" and "w = owner_run ts (owner_start c)"
  shows "linked (ow_client w) (ow_generation w)"
  using owner_run_linked [OF assms(1)] by (simp add: assms(2) owner_linked_def)

text \<open>
  C14. In every state the owner can reach, processing a guarded request transmits nothing, or
  transmits exactly the request's command, once, on the connection that was already open: at the
  last check the view was connected, the player's token was the token of the guard, the guard had
  not expired, and no interrupt had happened since the request was submitted.
\<close>

theorem guarded_write_current:
  assumes "Client_New cfg = Inr c" and "w = owner_run ts (owner_start c)"
    and "q_guard r = Some gd"
    and "process p r (ow_generation w) (ow_nextDial w) (ow_client w) = (c', g', nextDial', out)"
    and "cl_wire c' \<noteq> cl_wire (ow_client w)"
  shows "ow_generation w \<noteq> None \<and>
    (\<exists>args n. cl_wire c' = cl_wire (ow_client w) @ [\<lparr>tx_command = q_command r, tx_args = args, tx_sent = n\<rparr>]) \<and>
    v_Connected (cl_view (checked p r (ow_generation w) (ow_nextDial w) (ow_client w))) \<and>
    player_token (checked p r (ow_generation w) (ow_nextDial w) (ow_client w)) (Values_Get (q_args r) ''pid'') =
      gd_Token gd \<and>
    p_now3 p < gd_ExpiresAt gd \<and>
    q_fence r = cl_fence (fold intrude (p_begin p) (ow_client w))"
  using process_summary [OF assms(4) process_reachable [OF assms(1,2)]] assms(3,5)
  by (auto simp: sends_def guard_current_def PlayerView_def Let_def)

text \<open>
  C21. The answer to a request never understates delivery: every error of a processed request is a
  \<open>CommandError\<close>, the class \<open>NotSent\<close> means that not one byte of the command was written (only
  registrations of a new connection may have been), a request is transmitted at most once, and
  only a reply marked as a success is returned as a response.
\<close>

theorem delivery_class_honest:
  assumes "Client_New cfg = Inr c" and "w = owner_run ts (owner_start c)"
    and "process p r (ow_generation w) (ow_nextDial w) (ow_client w) = (c', g', nextDial', out)"
  shows "\<exists>reg sent n. cl_wire c' = cl_wire (ow_client w) @ reg @ sent \<and>
    (\<forall>t \<in> set reg. tx_command t = register_command) \<and>
    (sent = [] \<and> n = 0 \<or> (\<exists>args. sent = [\<lparr>tx_command = q_command r, tx_args = args, tx_sent = n\<rparr>])) \<and>
    (case out of
       Inr resp \<Rightarrow> r_Result resp = ''success''
     | Inl e \<Rightarrow> (\<exists>d x. e = CommandError d x \<and> (d = NotSent \<longrightarrow> n = 0)))"
proof -
  from process_summary [OF assms(3) process_reachable [OF assms(1,2)]] obtain c1 n where
    1: "registrations (ow_client w) c1" "sends r n c1 c'" "classified n out" by blast
  then obtain reg where "cl_wire c1 = cl_wire (ow_client w) @ reg" "\<forall>t \<in> set reg. tx_command t = register_command"
    by (auto simp: registrations_def)
  with 1(2,3) show ?thesis
    by (intro exI [of _ reg] exI [of _ "drop (length (cl_wire c1)) (cl_wire c')"] exI [of _ n])
      (auto simp: sends_def classified_def)
qed

text \<open>
  A guard authorises one write: once a guarded request was transmitted, no later request with
  the same guard is transmitted, whatever the owner and the other goroutines do in between, as
  long as fewer than \<open>2 ^ 64\<close> notifications and calls happen.
\<close>

theorem guard_used_once:
  assumes "Client_New cfg = Inr c" and "w = owner_run ts (owner_start c)"
    and "q_guard r = Some gd" and "q_guard r' = Some gd"
    and "Values_Get (q_args r') ''pid'' = Values_Get (q_args r) ''pid''"
    and "process p r (ow_generation w) (ow_nextDial w) (ow_client w) = (c1, g1, n1, out1)"
    and "cl_wire c1 \<noteq> cl_wire (ow_client w)"
    and "w' = owner_run ts' (w\<lparr>ow_client := c1, ow_generation := g1, ow_nextDial := n1\<rparr>)"
    and "process p' r' (ow_generation w') (ow_nextDial w') (ow_client w') = (c2, g2, n2, out2)"
    and "process_weight p + run_weight ts' + process_weight p' < 2 ^ 64"
  shows "cl_wire c2 = cl_wire (ow_client w')"
proof (rule ccontr)
  assume x: "cl_wire c2 \<noteq> cl_wire (ow_client w')"
  let ?pid = "Values_Get (q_args r) ''pid''"
  let ?a = "checked p r (ow_generation w) (ow_nextDial w) (ow_client w)"
  let ?b = "checked p' r' (ow_generation w') (ow_nextDial w') (ow_client w')"
  let ?v = "w\<lparr>ow_client := c1, ow_generation := g1, ow_nextDial := n1\<rparr>"
  note l = process_reachable [OF assms(1,2)]
  note s1 = process_summary [OF assms(6) l]
  have lv: "owner_linked ?v" using s1 by (simp add: owner_linked_def)
  have l': "linked (ow_client w') (ow_generation w')"
    using device_owner.run_inv [OF lv, of ts'] by (simp add: assms(8) owner_run_def owner_linked_def)
  have ta: "player_token ?a ?pid = gd_Token gd"
    using s1 assms(3,7) by (auto simp: guard_current_def PlayerView_def Let_def)
  have tb: "player_token ?b ?pid = gd_Token gd"
    using process_summary [OF assms(9) l'] assms(4,5) x by (auto simp: guard_current_def PlayerView_def Let_def)
  have 1: "advanced 1 (send_weight p + 2) ?pid ?a c1"
    using advanced_process [OF assms(6)] assms(3,7) l by blast
  have 2: "advanced 0 (run_weight ts') ?pid c1 (ow_client w')"
    using advanced_run [of ts' ?pid ?v] by (simp add: assms(8))
  let ?e = "fold intrude (p_begin p') (ow_client w')"
  have 3: "advanced 0 (length (p_begin p') + length (p_arm p') + admit_weight p') ?pid (ow_client w') ?b"
  proof -
    obtain b gb eb where ad: "admit p' r' (ow_generation w') (ow_nextDial w') (arm p' r' ?e) = (b, gb, eb)"
      by (metis prod_cases3)
    have "advanced 0 (length (p_arm p') + admit_weight p') ?pid ?e b"
      by (rule advanced_then [OF advanced_arm advanced_admit [OF ad]]) simp
    with advanced_intrusions [of "p_begin p'" ?pid "ow_client w'"]
    have "advanced 0 (length (p_begin p') + length (p_arm p') + admit_weight p') ?pid (ow_client w') b"
      by (rule advanced_then) simp
    with ad show ?thesis by (simp add: checked_def)
  qed
  have "advanced 0 (run_weight ts' + (length (p_begin p') + length (p_arm p') + admit_weight p')) ?pid c1 ?b"
    using 2 3 by (rule advanced_then) simp
  from advanced_trans [OF 1 this] have "advanced 1 (process_weight p + run_weight ts' + process_weight p') ?pid ?a ?b"
    by (rule advanced_mono) (auto simp: process_weight_def)
  from advanced_changes_token [OF this assms(10)] ta tb show False by simp
qed

text \<open>
  An interrupt invalidates every request submitted before it: when the owner takes such a
  request, however much later, it answers \<open>NotSent\<close> and transmits nothing.
\<close>

theorem interrupt_refuses_queued:
  assumes "q_fence r = cl_fence (ow_client w)"
    and "w' = owner_run ts (w\<lparr>ow_client := Interrupt (ow_client w)\<rparr>)"
    and "process p r (ow_generation w') (ow_nextDial w') (ow_client w') = (c', g', nextDial', out)"
    and "run_weight ts + process_weight p < 2 ^ 64 - 1"
  shows "cl_wire c' = cl_wire (ow_client w') \<and> g' = ow_generation w' \<and> (\<exists>e. out = Inl (CommandError NotSent e))"
proof -
  let ?a = "fold intrude (p_begin p) (ow_client w')"
  have "advanced 0 (run_weight ts + length (p_begin p)) [] (Interrupt (ow_client w)) ?a"
    using advanced_then [OF advanced_run [of ts "[]" "w\<lparr>ow_client := Interrupt (ow_client w)\<rparr>"] advanced_intrusions]
    by (simp add: assms(2))
  then obtain k where k: "k \<le> run_weight ts + length (p_begin p)"
    "cl_fence ?a = cl_fence (Interrupt (ow_client w)) + of_nat k"
    unfolding advanced_def by blast
  have "cl_fence (Interrupt (ow_client w)) = cl_fence (ow_client w) + 1"
    by (simp add: Interrupt_def cancel_active_def bump_defs)
  with k(2) have f: "cl_fence ?a = q_fence r + of_nat (Suc k)" by (simp add: assms(1))
  have "(of_nat (Suc k) :: uint64) \<noteq> 0"
    using k(1) assms(4) by (intro of_nat_neq_0) (simp_all add: process_weight_def)
  with f have "q_fence r \<noteq> cl_fence ?a" by simp
  moreover have "cl_wire ?a = cl_wire (ow_client w')"
    using quiet_intrusions by (auto simp: quiet_def)
  ultimately show ?thesis using assms(3) by (auto simp: process_def Let_def split: option.splits)
qed

text \<open>A connected client with one observed player, and a guarded volume change for it.\<close>

definition example_config :: Config where
  "example_config = \<lparr>cf_EnableWrites = True, cf_ConnectTimeout = 0, cf_CommandTimeout = 0, cf_ReconnectDelay = 0,
     cf_QueueDepth = 0, cf_EventBuffer = 0, cf_FrameBytes = 0\<rparr>"

definition example_client :: Client where
  "example_client = (case Client_New example_config of Inr c \<Rightarrow> c | Inl _ \<Rightarrow> undefined)"

definition example_reply :: "string \<Rightarrow> Response" where
  "example_reply name = \<lparr>r_Command = name, r_Result = ''success'', r_Params = [], r_Payload = [], r_Options = [],
     r_Event = False, r_Pending = False, r_Token = zeroToken\<rparr>"

definition example_exchange :: "string \<Rightarrow> exchange_script" where
  "example_exchange name = \<lparr>s_before = [], s_deadline = None, s_write = (\<lambda>_ b. (length b, None)),
     s_inputs = [Frame (Inr (example_reply name))], s_after = []\<rparr>"

definition example_process :: "string \<Rightarrow> process_script" where
  "example_process name = \<lparr>p_begin = [], p_arm = [], p_drain = [], p_check = [], p_now1 = 1, p_now2 = 1, p_now3 = 2,
     p_now4 = 3, p_dial = None, p_register = example_exchange register_command, p_recheck = [], p_stamp = [],
     p_exchange = example_exchange name\<rparr>"

definition example_turns :: "turn list" where
  "example_turns =
     [Submits None False ''system/heart_beat'' [] None zeroMutation,
      TakeRequest (example_process ''system/heart_beat''), Act (Observes ''7'')]"

definition example_owner :: owner where
  "example_owner = owner_run example_turns (owner_start example_client)"

definition example_guard :: Guard where
  "example_guard = \<lparr>gd_Token = player_token (ow_client example_owner) ''7'', gd_ExpiresAt = 10\<rparr>"

definition example_write_request :: request where
  "example_write_request = \<lparr>q_guard = Some example_guard, q_mutation = zeroMutation, q_priority = False,
     q_command = ''player/set_volume'', q_args = [(''pid'', [''7'']), (''level'', [''20''])],
     q_fence = 0, q_cancelled = None\<rparr>"

definition example_write :: "Client \<times> generation option \<times> time \<times> Response result" where
  "example_write = process (example_process ''player/set_volume'') example_write_request (ow_generation example_owner)
     (ow_nextDial example_owner) (ow_client example_owner)"

lemma example_client_new: "Client_New example_config = Inr example_client"
  by (simp add: example_client_def Client_New_def example_config_def Config_defaults_def Config_bounds_def
      or_default_def DefaultFrameBytes_def duration_defs)

lemma Client_New_idle: "Client_New cfg = Inr c \<Longrightarrow> cl_fence c = 0 \<and> cl_wire c = []"
  by (auto simp: Client_New_def Let_def split: if_splits)

lemma example_write_split:
  "process (example_process ''player/set_volume'') example_write_request (ow_generation example_owner)
     (ow_nextDial example_owner) (ow_client example_owner) =
   (fst example_write, fst (snd example_write), fst (snd (snd example_write)), snd (snd (snd example_write)))"
  by (simp add: example_write_def)

lemma example_write_sent: "cl_wire (fst example_write) \<noteq> cl_wire (ow_client example_owner)"
proof
  assume "cl_wire (fst example_write) = cl_wire (ow_client example_owner)"
  moreover have "length (cl_wire (fst example_write)) \<noteq> length (cl_wire (ow_client example_owner))" by code_simp
  ultimately show False by simp
qed

lemma example_write_request_guard: "q_guard example_write_request = Some example_guard"
  by (simp add: example_write_request_def)

lemma example_weight: "process_weight (example_process name) = 10"
  by (simp add: process_weight_def admit_weight_def send_weight_def exchange_weight_def example_process_def
      example_exchange_def)

theorem guarded_write_current_witness:
  "player_token (checked (example_process ''player/set_volume'') example_write_request (ow_generation example_owner)
      (ow_nextDial example_owner) (ow_client example_owner)) ''7'' = gd_Token example_guard \<and>
   (\<exists>args n. cl_wire (fst example_write) = cl_wire (ow_client example_owner) @
      [\<lparr>tx_command = ''player/set_volume'', tx_args = args, tx_sent = n\<rparr>])"
  using guarded_write_current [OF example_client_new example_owner_def example_write_request_guard example_write_split
      example_write_sent]
  by (simp add: example_write_request_def Values_Get_def Values_All_def)

theorem delivery_class_honest_witness:
  "\<exists>reg sent n. cl_wire (fst example_write) = cl_wire (ow_client example_owner) @ reg @ sent \<and>
     (sent = [] \<and> n = 0 \<or> (\<exists>args. sent = [\<lparr>tx_command = ''player/set_volume'', tx_args = args, tx_sent = n\<rparr>]))"
proof -
  have "q_command example_write_request = ''player/set_volume''" by (simp add: example_write_request_def)
  with delivery_class_honest [OF example_client_new example_owner_def example_write_split] show ?thesis
    by metis
qed

definition example_owner_after :: owner where
  "example_owner_after = example_owner\<lparr>ow_client := fst example_write, ow_generation := fst (snd example_write),
     ow_nextDial := fst (snd (snd example_write))\<rparr>"

theorem guard_used_once_witness:
  "cl_wire (fst (process (example_process ''player/set_volume'') example_write_request (ow_generation example_owner_after)
     (ow_nextDial example_owner_after) (ow_client example_owner_after))) = cl_wire (fst example_write)"
proof -
  have run: "example_owner_after = owner_run [] (example_owner\<lparr>ow_client := fst example_write,
      ow_generation := fst (snd example_write), ow_nextDial := fst (snd (snd example_write))\<rparr>)"
    by (simp add: owner_run_def example_owner_after_def)
  obtain c2 g2 n2 out2 where second: "process (example_process ''player/set_volume'') example_write_request
      (ow_generation example_owner_after) (ow_nextDial example_owner_after) (ow_client example_owner_after) =
      (c2, g2, n2, out2)"
    by (metis prod_cases4)
  have "process_weight (example_process ''player/set_volume'') + run_weight [] +
      process_weight (example_process ''player/set_volume'') < 2 ^ 64"
    by (simp add: example_weight run_weight_def)
  from guard_used_once [OF example_client_new example_owner_def example_write_request_guard example_write_request_guard refl
      example_write_split example_write_sent run second this]
  show ?thesis unfolding second by (simp add: example_owner_after_def)
qed

theorem interrupt_refuses_queued_witness:
  "cl_wire (fst (process (example_process ''player/set_volume'') example_write_request None 0 (Interrupt example_client))) = []"
proof -
  let ?w = "owner_start example_client"
  let ?w' = "?w\<lparr>ow_client := Interrupt (ow_client ?w)\<rparr>"
  have f: "q_fence example_write_request = cl_fence (ow_client ?w)"
    and e: "cl_wire (ow_client ?w') = []" and g: "ow_generation ?w' = None" "ow_nextDial ?w' = 0"
    "ow_client ?w' = Interrupt example_client"
    using Client_New_idle [OF example_client_new]
    by (auto simp: owner_start_def example_write_request_def Interrupt_def cancel_active_def bump_defs)
  have run: "?w' = owner_run [] ?w'" by (simp add: owner_run_def)
  obtain c2 g2 n2 out2 where p: "process (example_process ''player/set_volume'') example_write_request
      (ow_generation ?w') (ow_nextDial ?w') (ow_client ?w') = (c2, g2, n2, out2)"
    by (metis prod_cases4)
  have "run_weight [] + process_weight (example_process ''player/set_volume'') < 2 ^ 64 - 1"
    by (simp add: example_weight run_weight_def)
  from interrupt_refuses_queued [OF f run p this] e p g show ?thesis by simp
qed

end
