(* ===== verification/Programs.thy ===== *)
theory Programs
  imports Readback Journal Transport "HOL-Library.State_Monad"
begin

section \<open>Worker programs\<close>

text \<open>
  The language the worker of \<open>internal/control\<close> is written in: a state monad over its \<open>execution\<close>
  record, its journal row and a world. The world is reached through \<open>ports\<close>: the Go interfaces of the
  coordinator (clock, observer, reader, writer, journal) as functions on an arbitrary world. While a
  port is busy the device may notify and other goroutines may cancel; a port therefore reports what
  happened meanwhile, and every happening goes through the same event callback as in the code
  before the worker continues.

  The second half holds the rules for reasoning about such programs: triples for what a program
  returns, and the locale \<open>step_relation\<close> for what a program as a whole may change.
\<close>

subsection \<open>Ports and the worker's state\<close>

text \<open>What can happen beside the worker while one of its calls is under way.\<close>

datatype happening =
    Notified time Event
  | CancelledBy error
  | SkipSubmitted "int option" string
  | SkipAdmitted "Operation option"
  | SkipFinished string

type_synonym ('w, 'a) port = "'w \<Rightarrow> 'a \<times> happening list \<times> 'w"

record 'w ports =
  io_now :: "('w, time) port"
  io_timeout :: "('w, bool) port"
  io_wait :: "duration \<Rightarrow> bool \<Rightarrow> ('w, error option) port"
  io_snapshot :: "('w, Snapshot) port"
  io_refresh :: "('w, error option) port"
  io_reconcile :: "bool \<Rightarrow> ('w, error option) port"
  io_refreshScalars :: "MutationKind \<Rightarrow> ('w, error option) port"
  io_confirmScalars :: "Snapshot \<Rightarrow> ('w, error option) port"
  io_view :: "ID \<Rightarrow> ('w, View) port"
  io_queue :: "ID \<Rightarrow> int \<Rightarrow> ('w, QueuePage result) port"
  io_write :: "Mutation \<Rightarrow> Token \<Rightarrow> duration \<Rightarrow> ('w, Response result) port"
  io_ready :: "('w, error option) port"
  io_transition :: "string \<Rightarrow> int \<Rightarrow> Update \<Rightarrow> ('w, Operation result) port"
  io_get :: "string \<Rightarrow> ('w, Operation result) port"
  io_clientView :: "('w, View) port"
  io_browseAll :: "ID \<Rightarrow> ID \<Rightarrow> ('w, Item list result) port"
  io_budget :: "duration \<Rightarrow> ('w, unit) port"
  io_stopping :: "('w, bool) port"
  io_pause :: "duration \<Rightarrow> ('w, error option) port"

text \<open>
  \<open>wk_sent\<close> records every call of \<open>Writer.Write\<close>: the mutation, the guard's token and lifetime, the
  answer, and what the worker based the call on: the state it expected, the observation it
  compared with it, whether it owned the queue, the last journal update that was acknowledged, and
  the cause of cancellation, if there was one, when the call was made.
  \<open>wk_updates\<close> records the acknowledged journal updates.
\<close>

record sending =
  sd_mutation :: Mutation
  sd_token :: Token
  sd_lifetime :: duration
  sd_answer :: "Response result"
  sd_before :: Snapshot
  sd_fresh :: Snapshot
  sd_owned :: bool
  sd_recorded :: "Update option"
  sd_cause :: "error option"

text \<open>
  \<open>bufferedSkip\<close> of \<open>progressive_skip.go\<close>: the one slot of a buffered playback for a Skip admitted as
  its child. Its operation is known once the admission committed. \<open>wk_spawned\<close> records the journal-only
  goroutines the worker starts: they have no access to the device.
\<close>

record bufferedSkip =
  bs_direction :: string
  bs_op :: "Operation option"
  bs_ready :: bool

datatype spawned = FinishSkip bufferedSkip Update | FinishOrphan string

record 'w worker =
  wk_run :: execution
  wk_op :: Operation
  wk_skip :: "bufferedSkip option"
  wk_skipsClosed :: bool
  wk_spawned :: "spawned list"
  wk_world :: 'w
  wk_sent :: "sending list"
  wk_updates :: "Update list"

text \<open>The updates with fixed outcomes of children that were never sent.\<close>

definition skipRevoked :: Update where
  "skipRevoked = \<lparr>u_State = Released, u_Phase = ''complete'', u_Progress = None,
     u_Outcome = Some ''{\"delivery\":\"not_sent\",\"playback_may_continue\":true,\"commands_confirmed\":0}'',
     u_ErrorCode = ''ownership_revoked''\<rparr>"

text \<open>
  The critical sections of \<open>submitBufferedSkip\<close>, which runs beside the worker: reserving the slot,
  and giving it up or filling it when the admission is decided.
\<close>

definition reserveSkip :: "int option \<Rightarrow> string \<Rightarrow> 'w worker \<Rightarrow> error + 'w worker" where
  "reserveSkip ceiling direction w =
     (let r = wk_run w in
      if \<not> x_queueOwned r \<or> wk_skipsClosed w \<or> x_cause r \<noteq> None \<or> x_uncertain r \<or> x_unconfirmed r then Inl ErrBusy
      else if wk_skip w \<noteq> None then Inl ErrQueueFull
      else if s_State (x_expected r) \<noteq> PlayStatePlay then Inl ErrNotSkippable
      else case skipAdmissible ceiling direction (x_expected r) of
             Inl e \<Rightarrow> Inl e
           | Inr _ \<Rightarrow> Inr (w\<lparr>wk_skip := Some \<lparr>bs_direction = direction, bs_op = None, bs_ready = False\<rparr>\<rparr>))"

definition admitSkip :: "Operation option \<Rightarrow> 'w worker \<Rightarrow> 'w worker" where
  "admitSkip created w =
     (case wk_skip w of
        None \<Rightarrow> w
      | Some child \<Rightarrow>
          if bs_op child \<noteq> None then w
          else case created of
                 None \<Rightarrow> w\<lparr>wk_skip := None\<rparr>
               | Some op \<Rightarrow>
                   (let closed = (wk_skipsClosed w \<or> x_cause (wk_run w) \<noteq> None);
                        child = child\<lparr>bs_op := Some op, bs_ready := \<not> closed\<rparr>
                    in if closed
                       then w\<lparr>wk_skip := Some child, wk_spawned := wk_spawned w @ [FinishSkip child skipRevoked]\<rparr>
                       else w\<lparr>wk_skip := Some child, wk_run := signal (wk_run w)\<rparr>))"

text \<open>The last critical section of \<open>finishBufferedSkip\<close>: the slot is free once its child was finalized.\<close>

definition clearSkip :: "string \<Rightarrow> 'w worker \<Rightarrow> 'w worker" where
  "clearSkip op w =
     (case wk_skip w of
        None \<Rightarrow> w
      | Some child \<Rightarrow> if map_option o_ID (bs_op child) = Some op then w\<lparr>wk_skip := None\<rparr> else w)"

fun happen :: "happening \<Rightarrow> 'w worker \<Rightarrow> 'w worker" where
  "happen (Notified now e) w = w\<lparr>wk_run := execution_event now e (wk_run w)\<rparr>"
| "happen (CancelledBy c) w = w\<lparr>wk_run := cancel_run c (wk_run w)\<rparr>"
| "happen (SkipSubmitted ceiling direction) w = (case reserveSkip ceiling direction w of Inl _ \<Rightarrow> w | Inr w' \<Rightarrow> w')"
| "happen (SkipAdmitted created) w = admitSkip created w"
| "happen (SkipFinished op) w = clearSkip op w"

type_synonym ('w, 'a) work = "('w worker, 'a result) state"

definition call :: "('w, 'a) port \<Rightarrow> ('w worker, 'a) state" where
  "call p = State (\<lambda>w. case p (wk_world w) of
     (x, hs, v) \<Rightarrow> (x, (fold happen hs w)\<lparr>wk_world := v\<rparr>))"

definition getRun :: "('w worker, execution) state" where
  "getRun = State (\<lambda>w. (wk_run w, w))"

definition modifyRun :: "(execution \<Rightarrow> execution) \<Rightarrow> ('w worker, unit) state" where
  "modifyRun f = State (\<lambda>w. ((), w\<lparr>wk_run := f (wk_run w)\<rparr>))"

text \<open>One critical section of \<open>r.mu\<close> that also computes a value.\<close>

definition lockRun :: "(execution \<Rightarrow> 'a \<times> execution) \<Rightarrow> ('w worker, 'a) state" where
  "lockRun f = State (\<lambda>w. case f (wk_run w) of (x, r) \<Rightarrow> (x, w\<lparr>wk_run := r\<rparr>))"

definition done_with :: "'a \<Rightarrow> ('s, 'a result) state" where
  "done_with x = State_Monad.return (Inr x)"

definition fail :: "error \<Rightarrow> ('s, 'a result) state" where
  "fail e = State_Monad.return (Inl e)"

text \<open>\<open>x, err := m; if err != nil { return err }\<close>.\<close>

definition andThen ::
  "('s, 'a result) state \<Rightarrow> ('a \<Rightarrow> ('s, 'b result) state) \<Rightarrow> ('s, 'b result) state" where
  "andThen m f = State_Monad.bind m (\<lambda>x. case x of Inl e \<Rightarrow> fail e | Inr a \<Rightarrow> f a)"

text \<open>\<open>if err := m; err != nil { return err }\<close>.\<close>

definition guarding ::
  "('s, error option) state \<Rightarrow> ('s, 'b result) state \<Rightarrow> ('s, 'b result) state" where
  "guarding m f = State_Monad.bind m (\<lambda>x. case x of Some e \<Rightarrow> fail e | None \<Rightarrow> f)"

definition require :: "error option \<Rightarrow> ('s, 'b result) state \<Rightarrow> ('s, 'b result) state" where
  "require e f = (case e of Some e \<Rightarrow> fail e | None \<Rightarrow> f)"

definition runCause :: "('w worker, error option) state" where
  "runCause = State (\<lambda>w. (x_cause (wk_run w), w))"

text \<open>
  \<open>context.Cause\<close> of a context derived from the worker's with a timeout of its own: \<open>e\<close> is the cause
  of that timeout.
\<close>

definition ctxCause :: "'w ports \<Rightarrow> error \<Rightarrow> ('w worker, error option) state" where
  "ctxCause io e = do {
     fired \<leftarrow> call (io_timeout io);
     r \<leftarrow> getRun;
     State_Monad.return (case x_cause r of Some c \<Rightarrow> Some c | None \<Rightarrow> if fired then Some e else None)
   }"

text \<open>The loops that wait run on fuel; a loop without fuel left ends with this error.\<close>

definition outOfFuel :: error where
  "outOfFuel = OtherError ''out of fuel''"

subsection \<open>Running the combinators\<close>

named_theorems run_simps "what the combinators do to a worker"

lemma run_call [run_simps]:
  "run_state (call p) w = (case p (wk_world w) of
     (x, hs, v) \<Rightarrow> (x, (fold happen hs w)\<lparr>wk_world := v\<rparr>))"
  by (simp add: call_def)

lemma run_getRun [run_simps]: "run_state getRun w = (wk_run w, w)"
  by (simp add: getRun_def)

lemma run_modifyRun [run_simps]: "run_state (modifyRun f) w = ((), w\<lparr>wk_run := f (wk_run w)\<rparr>)"
  by (simp add: modifyRun_def)

lemma run_lockRun [run_simps]:
  "run_state (lockRun f) w = (fst (f (wk_run w)), w\<lparr>wk_run := snd (f (wk_run w))\<rparr>)"
  by (simp add: lockRun_def split: prod.splits)

lemma run_runCause [run_simps]: "run_state runCause w = (x_cause (wk_run w), w)"
  by (simp add: runCause_def)

lemma run_done [run_simps]: "run_state (done_with x) w = (Inr x, w)"
  by (simp add: done_with_def)

lemma run_fail [run_simps]: "run_state (fail e) w = (Inl e, w)"
  by (simp add: fail_def)

lemma run_andThen [run_simps]:
  "run_state (andThen m f) w =
     (case run_state m w of (Inl e, w') \<Rightarrow> (Inl e, w') | (Inr x, w') \<Rightarrow> run_state (f x) w')"
  by (auto simp: andThen_def fail_def split: prod.splits sum.splits)

lemma run_guarding [run_simps]:
  "run_state (guarding m f) w =
     (case run_state m w of (Some e, w') \<Rightarrow> (Inl e, w') | (None, w') \<Rightarrow> run_state f w')"
  by (auto simp: guarding_def fail_def split: prod.splits option.splits)

subsection \<open>The first cancellation is final\<close>

text \<open>A worker that was cancelled stays cancelled for that reason.\<close>

definition cause_kept :: "execution \<Rightarrow> execution \<Rightarrow> bool" where
  "cause_kept r r' \<longleftrightarrow> (\<forall>c. x_cause r = Some c \<longrightarrow> x_cause r' = Some c)"

lemma cause_kept_refl: "cause_kept r r"
  by (simp add: cause_kept_def)

lemma cause_kept_same: "x_cause r' = x_cause r \<Longrightarrow> cause_kept r r'"
  by (simp add: cause_kept_def)

lemma cause_kept_trans: "cause_kept a b \<Longrightarrow> cause_kept b c \<Longrightarrow> cause_kept a c"
  by (simp add: cause_kept_def)

definition beside :: "'w worker \<Rightarrow> 'w worker \<Rightarrow> bool" where
  "beside w w' \<longleftrightarrow>
     cause_kept (wk_run w) (wk_run w') \<and> wk_op w' = wk_op w \<and> wk_skipsClosed w' = wk_skipsClosed w \<and>
     wk_sent w' = wk_sent w \<and> wk_updates w' = wk_updates w \<and> (\<exists>sp. wk_spawned w' = wk_spawned w @ sp)"

lemma beside_refl: "beside w w"
  by (simp add: beside_def cause_kept_refl)

lemma beside_trans: "beside a b \<Longrightarrow> beside b c \<Longrightarrow> beside a c"
  unfolding beside_def by (auto intro: cause_kept_trans)

lemma beside_run: "cause_kept (wk_run w) r \<Longrightarrow> beside w (w\<lparr>wk_run := r\<rparr>)"
  by (simp add: beside_def)

lemma beside_world: "beside w (w\<lparr>wk_world := v\<rparr>)"
  by (simp add: beside_def cause_kept_refl)

lemma beside_happen: "beside w (happen h w)"
  by (cases h)
    (auto simp: beside_def reserveSkip_def admitSkip_def clearSkip_def cancel_run_def cause_kept_def
      execution_event_cause Let_def split: option.splits sum.splits)

lemma beside_happenings: "beside w (fold happen hs w)"
  by (induction hs arbitrary: w) (auto intro: beside_refl beside_trans beside_happen)

lemma happenings_record [simp]:
  "wk_sent (fold happen hs w) = wk_sent w" "wk_updates (fold happen hs w) = wk_updates w"
  "wk_op (fold happen hs w) = wk_op w" "wk_skipsClosed (fold happen hs w) = wk_skipsClosed w"
  using beside_happenings [of w hs] by (simp_all add: beside_def)

subsection \<open>What a program returns\<close>

text \<open>\<open>returns m Q\<close>: whenever \<open>m\<close> succeeds, its value and the state it leaves satisfy \<open>Q\<close>.\<close>

definition returns :: "('s, 'a result) state \<Rightarrow> ('a \<Rightarrow> 's \<Rightarrow> bool) \<Rightarrow> bool" where
  "returns m Q \<longleftrightarrow> (\<forall>w x w'. run_state m w = (Inr x, w') \<longrightarrow> Q x w')"

lemma returnsD: "returns m Q \<Longrightarrow> run_state m w = (Inr x, w') \<Longrightarrow> Q x w'"
  by (simp add: returns_def)

lemma returns_andThen: "(\<And>x. returns (f x) Q) \<Longrightarrow> returns (andThen m f) Q"
  by (auto simp: returns_def run_simps split: prod.splits sum.splits)

lemma returns_seq:
  "returns m (\<lambda>x w. P x) \<Longrightarrow> (\<And>x. P x \<Longrightarrow> returns (f x) Q) \<Longrightarrow> returns (andThen m f) Q"
  by (fastforce simp: returns_def run_simps split: prod.splits sum.splits)

lemma returns_weaken: "returns m P \<Longrightarrow> (\<And>x w. P x w \<Longrightarrow> Q x w) \<Longrightarrow> returns m Q"
  by (auto simp: returns_def)

lemma returns_require: "(e = None \<Longrightarrow> returns f Q) \<Longrightarrow> returns (require e f) Q"
  by (cases e) (auto simp: returns_def require_def run_simps)

lemma returns_guarding: "returns f Q \<Longrightarrow> returns (guarding m f) Q"
  by (auto simp: returns_def run_simps split: prod.splits option.splits)

lemma returns_bind: "(\<And>x. returns (f x) Q) \<Longrightarrow> returns (State_Monad.bind m f) Q"
  by (auto simp: returns_def split: prod.splits)

lemma returns_fail: "returns (fail e) Q"
  by (simp add: returns_def run_simps)

lemma returns_done: "(\<And>w. Q x w) \<Longrightarrow> returns (done_with x) Q"
  by (simp add: returns_def run_simps)

lemma returns_if: "(b \<Longrightarrow> returns m Q) \<Longrightarrow> (\<not> b \<Longrightarrow> returns n Q) \<Longrightarrow> returns (if b then m else n) Q"
  by simp

lemmas returns_intros = returns_andThen returns_guarding returns_bind returns_fail returns_done returns_if

subsection \<open>What a program may change\<close>

definition within :: "('s \<Rightarrow> 's \<Rightarrow> bool) \<Rightarrow> ('s, 'a) state \<Rightarrow> bool" where
  "within R m \<longleftrightarrow> state_io_rel R m"

lemma withinD: "within R m \<Longrightarrow> run_state m w = (x, w') \<Longrightarrow> R w w'"
  by (auto simp: within_def)

lemma withinI: "(\<And>w x w'. run_state m w = (x, w') \<Longrightarrow> R w w') \<Longrightarrow> within R m"
  by (auto simp: within_def)

text \<open>
  A reflexive and transitive relation between the states before and after holds of every program
  whose steps satisfy it. For a worker it is enough that the relation holds of everything that
  happens beside the worker and of its own changes that keep the cause of a cancellation; a client
  adds the steps it needs beyond reads.
\<close>

locale change_relation =
  fixes R :: "'s \<Rightarrow> 's \<Rightarrow> bool"
  assumes R_refl: "R w w"
    and R_trans: "R a b \<Longrightarrow> R b c \<Longrightarrow> R a c"
begin

lemma within_return: "within R (State_Monad.return x)"
  by (auto intro!: withinI R_refl)

lemma within_bind:
  assumes "within R m" and "\<And>x. within R (f x)"
  shows "within R (State_Monad.bind m f)"
proof (rule withinI)
  fix w y w''
  assume a: "run_state (State_Monad.bind m f) w = (y, w'')"
  obtain x w' where m: "run_state m w = (x, w')" by fastforce
  with a have "run_state (f x) w' = (y, w'')" by simp
  with R_trans [OF withinD [OF assms(1) m] withinD [OF assms(2)]] show "R w w''" .
qed

lemma within_done: "within R (done_with x)"
  unfolding done_with_def by (rule within_return)

lemma within_fail: "within R (fail e)"
  unfolding fail_def by (rule within_return)

lemma within_case_sum:
  "(\<And>e. x = Inl e \<Longrightarrow> within R (f e)) \<Longrightarrow> (\<And>y. x = Inr y \<Longrightarrow> within R (g y)) \<Longrightarrow> within R (case_sum f g x)"
  by (cases x) auto

lemma within_case_option:
  "(x = None \<Longrightarrow> within R f) \<Longrightarrow> (\<And>y. x = Some y \<Longrightarrow> within R (g y)) \<Longrightarrow> within R (case_option f g x)"
  by (cases x) auto

lemma within_case_prod: "(\<And>a b. x = (a, b) \<Longrightarrow> within R (f a b)) \<Longrightarrow> within R (case_prod f x)"
  by (cases x) auto

lemma within_if: "(b \<Longrightarrow> within R m) \<Longrightarrow> (\<not> b \<Longrightarrow> within R n) \<Longrightarrow> within R (if b then m else n)"
  by simp

lemma within_Let: "within R (f x) \<Longrightarrow> within R (Let x f)"
  by simp

lemma within_andThen: "within R m \<Longrightarrow> (\<And>x. within R (f x)) \<Longrightarrow> within R (andThen m f)"
  unfolding andThen_def by (intro within_bind within_case_sum within_fail)

lemma within_guarding: "within R m \<Longrightarrow> within R f \<Longrightarrow> within R (guarding m f)"
  unfolding guarding_def by (intro within_bind within_case_option within_fail)

lemma within_require: "within R f \<Longrightarrow> within R (require e f)"
  unfolding require_def by (intro within_case_option within_fail)

lemma within_case_list:
  "(x = [] \<Longrightarrow> within R f) \<Longrightarrow> (\<And>y ys. x = y # ys \<Longrightarrow> within R (g y ys)) \<Longrightarrow> within R (case_list f g x)"
  by (cases x) auto

lemmas within_structure =
  within_return within_bind within_done within_fail within_case_sum within_case_option within_case_prod
  within_if within_Let within_andThen within_guarding within_require

end

locale step_relation = change_relation R for R :: "'w worker \<Rightarrow> 'w worker \<Rightarrow> bool" +
  assumes R_beside: "beside w w' \<Longrightarrow> R w w'"
begin

lemma within_call: "within R (call p)"
  by (auto intro!: withinI R_beside beside_trans [OF beside_happenings beside_world] simp: run_simps split: prod.splits)

lemma within_getRun: "within R getRun"
  by (auto intro!: withinI R_refl simp: run_simps)

lemma within_runCause: "within R runCause"
  by (auto intro!: withinI R_refl simp: run_simps)

lemma within_modifyRun: "(\<And>r. x_cause (f r) = x_cause r) \<Longrightarrow> within R (modifyRun f)"
  by (auto intro!: withinI R_beside beside_run cause_kept_same simp: run_simps)

lemma within_lockRun: "(\<And>r. x_cause (snd (f r)) = x_cause r) \<Longrightarrow> within R (lockRun f)"
  by (auto intro!: withinI R_beside beside_run cause_kept_same simp: run_simps)

lemmas within_intros =
  within_structure within_call within_getRun within_runCause within_modifyRun within_lockRun

lemma within_ctxCause: "within R (ctxCause io e)"
  unfolding ctxCause_def by (intro within_intros)

end

end
