(* ===== verification/Observing.thy ===== *)
theory Observing
  imports Programs
begin

section \<open>How a worker observes its device\<close>

text \<open>
  \<open>internal/control/observation.go\<close>, \<open>ownership.go\<close>, \<open>queue_transition.go\<close>, \<open>confirmation.go\<close> and
  the confirmation part of \<open>scalar_confirmation.go\<close>: a worker waits, reads and compares; nothing in
  this theory sends a command.
\<close>

definition activeObservationInterval :: duration where
  "activeObservationInterval = 5 * Minute"

definition pendingObservationInterval :: duration where
  "pendingObservationInterval = Second"

definition observationEventSpacing :: duration where
  "observationEventSpacing = 250 * Millisecond"

subsection \<open>Complete queues\<close>

fun completePages :: "nat \<Rightarrow> 'w ports \<Rightarrow> Snapshot \<Rightarrow> QueuePage \<Rightarrow> ('w, QueuePage) work" where
  "completePages n io s q =
     (case q_Next q of
        None \<Rightarrow> done_with q
      | Some next \<Rightarrow>
          (case n of
             0 \<Rightarrow> fail ErrBounds
           | Suc k \<Rightarrow>
               (case q_Total q of
                  None \<Rightarrow> fail ErrBounds
                | Some t \<Rightarrow>
                    if t > MaxBrowseItems \<or> next \<noteq> int (length (q_Items q)) then fail ErrBounds
                    else andThen (call (io_queue io (p_ID (s_Player s)) next)) (\<lambda>page.
                      if q_Token page \<noteq> s_Token s \<or> q_Total q \<noteq> q_Total page then fail ErrStale
                      else if q_Items page = [] \<or>
                              int (length (q_Items q) + length (q_Items page)) > MaxBrowseItems
                      then fail ErrBounds
                      else completePages k io s
                             (q\<lparr>q_Items := q_Items q @ q_Items page, q_Next := q_Next page\<rparr>)))))"

declare completePages.simps [simp del]

definition completeQueue :: "'w ports \<Rightarrow> Snapshot \<Rightarrow> ('w, Snapshot) work" where
  "completeQueue io s =
     (if q_Next (s_Queue s) = None then done_with s
      else andThen (completePages (MaxBrowsePages - 1) io s (s_Queue s)) (\<lambda>q.
        if q_Total q \<noteq> Some (int (length (q_Items q))) then fail ErrProtocol
        else do {
          view \<leftarrow> call (io_view io (p_ID (s_Player s)));
          if \<not> v_Connected view \<or> v_Token view \<noteq> s_Token s then fail ErrStale
          else done_with (s\<lparr>s_Queue := q\<rparr>)
        }))"

subsection \<open>Full observations\<close>

definition observeOnce :: "'w ports \<Rightarrow> bool \<Rightarrow> ('w, Snapshot) work" where
  "observeOnce io bounded =
     guarding (call (io_refresh io)) (do {
       s \<leftarrow> call (io_snapshot io);
       if s_EventUpdated s then fail ErrStale
       else if bounded then completeQueue io s
       else done_with s
     })"

fun retryStale :: "nat \<Rightarrow> 'w ports \<Rightarrow> ('w, Snapshot) work \<Rightarrow> ('w, Snapshot) work" where
  "retryStale 0 io m = fail ErrStale"
| "retryStale (Suc n) io m =
     guarding (ctxCause io DeadlineExceeded) (do {
       x \<leftarrow> m;
       case x of
         Inr s \<Rightarrow> done_with s
       | Inl e \<Rightarrow> if \<not> errors_Is e ErrStale \<or> n = 0 then fail e else retryStale n io m
     })"

definition observe :: "'w ports \<Rightarrow> bool \<Rightarrow> ('w, Snapshot) work" where
  "observe io bounded = retryStale 3 io (observeOnce io bounded)"

definition canReuse :: "bool \<Rightarrow> Snapshot \<Rightarrow> time \<Rightarrow> View \<Rightarrow> execution \<Rightarrow> bool" where
  "canReuse reuse s now view r \<longleftrightarrow>
     reuse \<and> s_ObservedAt s > x_observedAt r \<and> 0 \<le> Sub now (s_ObservedAt s) \<and> Sub now (s_ObservedAt s) \<le> Second \<and>
     \<not> s_EventUpdated s \<and> \<not> s_Stale s \<and> s_Connected s \<and> v_Connected view \<and> v_Token view = s_Token s"

definition observeRun :: "'w ports \<Rightarrow> bool \<Rightarrow> ('w, Snapshot) work" where
  "observeRun io reuse =
     guarding (ctxCause io DeadlineExceeded) (do {
       r0 \<leftarrow> getRun;
       s \<leftarrow> call (io_snapshot io);
       now \<leftarrow> call (io_now io);
       view \<leftarrow> call (io_view io (p_ID (s_Player s)));
       r1 \<leftarrow> getRun;
       x \<leftarrow> (if canReuse reuse s now view r1
             then if x_bounded r1 then completeQueue io s else done_with s
             else observe io (x_bounded r1));
       cause \<leftarrow> ctxCause io DeadlineExceeded;
       let out = (case cause of Some e \<Rightarrow> Inl e | None \<Rightarrow> x);
       attempt \<leftarrow> call (io_now io);
       modifyRun (\<lambda>r. r\<lparr>x_lastReadAttempt := attempt\<rparr>);
       case out of
         Inl e \<Rightarrow> fail e
       | Inr s \<Rightarrow> do {
           read \<leftarrow> call (io_now io);
           modifyRun (\<lambda>r. r\<lparr>x_lastRead := read, x_observedAt := s_ObservedAt s, x_observedRevision := x_eventRevision r0\<rparr>);
           done_with s
         }
     })"

subsection \<open>Reconciliation of an owned queue\<close>

definition reconcileOwnedOnce :: "'w ports \<Rightarrow> ('w, Snapshot) work" where
  "reconcileOwnedOnce io = do {
     r0 \<leftarrow> getRun;
     guarding (call (io_reconcile io (\<not> IsZero (x_queueWait r0)))) (do {
       s \<leftarrow> call (io_snapshot io);
       guarding (ctxCause io DeadlineExceeded) (do {
         view \<leftarrow> call (io_view io (p_ID (s_Player s)));
         r1 \<leftarrow> getRun;
         if s_Stale s \<or> \<not> s_Connected s \<or> \<not> v_Connected view \<or> s_Token s \<noteq> v_Token view then fail ErrStale
         else andThen
           (if s_ObservedAt s > s_ObservedAt (x_expected r0) \<and> x_bounded r1 then completeQueue io s
            else done_with (s\<lparr>s_Queue := s_Queue (x_expected r0)\<rparr>))
           (\<lambda>s. do {
              attempt \<leftarrow> call (io_now io);
              modifyRun (\<lambda>r. r\<lparr>x_lastReadAttempt := attempt\<rparr>);
              (if s_ObservedAt s > s_ObservedAt (x_expected r0)
               then do { read \<leftarrow> call (io_now io); modifyRun (\<lambda>r. r\<lparr>x_lastRead := read\<rparr>) }
               else State_Monad.return ());
              modifyRun (\<lambda>r. r\<lparr>x_observedAt := s_ObservedAt s, x_observedRevision := x_eventRevision r0\<rparr>);
              done_with s
            })
       })
     })
   }"

definition reconcileOwned :: "'w ports \<Rightarrow> ('w, Snapshot) work" where
  "reconcileOwned io = retryStale 3 io (reconcileOwnedOnce io)"

definition eventMaintained :: "Mutation \<Rightarrow> time \<Rightarrow> View \<Rightarrow> execution \<Rightarrow> bool" where
  "eventMaintained m now view r \<longleftrightarrow>
     (let s = x_expected r; age = Sub now (s_ObservedAt s) in
      0 < x_confirmed r \<and> scalarMutation m \<and> \<not> observationPending r \<and> IsZero (x_queueWait r) \<and>
      0 \<le> age \<and> age < activeObservationInterval \<and> s_Connected s \<and> \<not> s_Stale s \<and> v_Connected view)"

definition prewriteObservation :: "'w ports \<Rightarrow> Mutation \<Rightarrow> ('w, Snapshot) work" where
  "prewriteObservation io m = do {
     r \<leftarrow> getRun;
     now \<leftarrow> call (io_now io);
     view \<leftarrow> call (io_view io (p_ID (s_Player (x_expected r))));
     cached \<leftarrow> call (io_snapshot io);
     if 0 < x_confirmed r \<and> s_ObservedAt cached > s_ObservedAt (x_expected r) then reconcileOwned io
     else if eventMaintained m now view r then
       (if v_Token view = s_Token (x_expected r)
        then guarding runCause (done_with (x_expected r))
        else reconcileOwned io)
     else if 0 < x_confirmed r \<and> x_queueOwned r \<and> (observationPending r \<or> \<not> IsZero (x_queueWait r))
     then reconcileOwned io
     else observeRun io False
   }"

subsection \<open>Waiting\<close>

fun waitPending :: "nat \<Rightarrow> 'w ports \<Rightarrow> time \<Rightarrow> ('w, unit) work" where
  "waitPending 0 io next = fail outOfFuel"
| "waitPending (Suc n) io next = do {
     now \<leftarrow> call (io_now io);
     r \<leftarrow> getRun;
     if \<not> now < next \<or> observationPending r then done_with ()
     else do {
       again \<leftarrow> call (io_now io);
       guarding (call (io_wait io (Sub next again) True)) (waitPending n io next)
     }
   }"

definition waitForObservation :: "nat \<Rightarrow> 'w ports \<Rightarrow> time \<Rightarrow> ('w, unit) work" where
  "waitForObservation n io deadline = do {
     r \<leftarrow> getRun;
     andThen (waitPending n io (minTime (x_lastReadAttempt r + pendingObservationInterval) deadline)) (\<lambda>_. do {
       r \<leftarrow> getRun;
       let earliest = minTime (x_lastReadAttempt r + observationEventSpacing) deadline;
       now \<leftarrow> call (io_now io);
       (if now < earliest
        then do {
          again \<leftarrow> call (io_now io);
          guarding (call (io_wait io (Sub earliest again) False)) (guarding (ctxCause io DeadlineExceeded) (done_with ()))
        }
        else guarding (ctxCause io DeadlineExceeded) (done_with ()))
     })
   }"

subsection \<open>The gate for track transitions\<close>

definition checkJournal :: "'w ports \<Rightarrow> ('w, unit) work" where
  "checkJournal io = do {
     err \<leftarrow> call (io_ready io);
     case err of Some e \<Rightarrow> fail (Wrapped errJournalUnavailable e) | None \<Rightarrow> done_with ()
   }"

definition transitionDecision :: "'w ports \<Rightarrow> config_Player \<Rightarrow> error option \<Rightarrow> Snapshot \<Rightarrow> Snapshot \<Rightarrow> ('w worker, queueDecision) state" where
  "transitionDecision io p cause before fresh = do {
     now \<leftarrow> call (io_now io);
     lockRun (queueObservationDecision p now cause before fresh)
   }"

text \<open>
  The loop of \<open>awaitOwnedPlayback\<close>. Interrupted I/O returns to the decision, which then resolves
  deadline against cancellation; the observation it is given then decides nothing, so the last
  complete one is kept.
\<close>

definition awaitRound :: "nat \<Rightarrow> 'w ports \<Rightarrow> time \<Rightarrow> Snapshot \<Rightarrow> ('w, Snapshot) work" where
  "awaitRound n io deadline fresh = do {
     x \<leftarrow> waitForObservation n io deadline;
     case x of
       Inl _ \<Rightarrow> done_with fresh
     | Inr _ \<Rightarrow> do {
         now \<leftarrow> call (io_now io);
         if \<not> now < deadline then done_with fresh
         else do {
           err \<leftarrow> call (io_ready io);
           ended \<leftarrow> ctxCause io errQueueTransitionTimeout;
           case (ended, err) of
             (Some _, _) \<Rightarrow> done_with fresh
           | (None, Some e) \<Rightarrow> fail (Wrapped errJournalUnavailable e)
           | (None, None) \<Rightarrow> do {
               y \<leftarrow> reconcileOwned io;
               ended \<leftarrow> ctxCause io errQueueTransitionTimeout;
               case (ended, y) of
                 (Some _, _) \<Rightarrow> done_with fresh
               | (None, y) \<Rightarrow> State_Monad.return y
             }
         }
       }
   }"

fun awaitLoop :: "nat \<Rightarrow> 'w ports \<Rightarrow> config_Player \<Rightarrow> Snapshot \<Rightarrow> time \<Rightarrow> Snapshot \<Rightarrow> bool \<Rightarrow> queueDecision \<Rightarrow> ('w, Snapshot \<times> bool) work" where
  "awaitLoop 0 io p before deadline fresh waited d = fail outOfFuel"
| "awaitLoop (Suc n) io p before deadline fresh waited d =
     (case qd_Action d of
        queuePass \<Rightarrow> done_with (fresh, waited)
      | queueResume \<Rightarrow> done_with (fresh, waited)
      | queueRelease \<Rightarrow> require (qd_Err d) (done_with (fresh, waited))
      | _ \<Rightarrow>
          andThen (awaitRound n io deadline fresh) (\<lambda>fresh. do {
            cause \<leftarrow> ctxCause io errQueueTransitionTimeout;
            d \<leftarrow> transitionDecision io p cause before fresh;
            awaitLoop n io p before deadline fresh True d
          }))"

definition awaitOwnedPlayback :: "nat \<Rightarrow> 'w ports \<Rightarrow> config_Player \<Rightarrow> Snapshot \<Rightarrow> Snapshot \<Rightarrow> ('w, Snapshot \<times> bool) work" where
  "awaitOwnedPlayback n io p before fresh = do {
     cause \<leftarrow> runCause;
     d \<leftarrow> transitionDecision io p cause before fresh;
     if qd_Action d = queuePass then done_with (fresh, False)
     else awaitLoop n io p before (qd_Deadline d) fresh False d
   }"

subsection \<open>Confirmation of scalar commands\<close>

fun scalarLoop :: "nat \<Rightarrow> 'w ports \<Rightarrow> time \<Rightarrow> time \<Rightarrow> ('w, Snapshot option) work" where
  "scalarLoop 0 io deadline fallbackAt = fail outOfFuel"
| "scalarLoop (Suc n) io deadline fallbackAt =
     guarding runCause (do {
       now \<leftarrow> call (io_now io);
       if \<not> now < deadline then fail DeadlineExceeded
       else do {
         r \<leftarrow> getRun;
         case x_scalar r of
           None \<Rightarrow> fail (OtherError ''nil scalar confirmation'')
         | Some p \<Rightarrow>
             (let s = scalar_result p (x_expected r);
                  pending = (observationPending r \<or> \<not> IsZero (x_queueWait r))
              in if scalar_ready p then
                   (if pending then guarding runCause (done_with (Some s))
                    else do {
                      err \<leftarrow> call (io_confirmScalars io s);
                      case err of
                        Some e \<Rightarrow> if errors_Is e ErrStale then guarding runCause (done_with (Some s)) else fail e
                      | None \<Rightarrow> guarding runCause (done_with (Some s))
                    })
                 else guarding (ctxCause io DeadlineExceeded) (do {
                   now \<leftarrow> call (io_now io);
                   if \<not> now < fallbackAt then done_with None
                   else andThen (checkJournal io) (\<lambda>_. do {
                     again \<leftarrow> call (io_now io);
                     guarding (call (io_wait io (min Second (Sub fallbackAt again)) True))
                       (scalarLoop n io deadline fallbackAt)
                   })
                 }))
       }
     })"

definition fallbackMatches :: "Mutation \<Rightarrow> Snapshot \<Rightarrow> Snapshot \<Rightarrow> bool" where
  "fallbackMatches m expected s \<longleftrightarrow>
     (if m_Kind m = MutationKindMode then s_Repeat s = m_Repeat m \<and> s_Shuffle s = m_Shuffle m
      else
        (let want = (if m_Kind m = MutationKindVolume
                     then expected\<lparr>s_Volume := Some (m_Level m),
                                   s_Muted := (if s_Muted expected = Some True then s_Muted s else s_Muted expected)\<rparr>
                     else expected\<lparr>s_Muted := Some (m_Muted m)\<rparr>)
         in s_Volume s \<noteq> None \<and> s_Muted s \<noteq> None \<and> s_Volume s = s_Volume want \<and> s_Muted s = s_Muted want))"

definition acceptFallback :: "Mutation \<Rightarrow> Snapshot \<Rightarrow> execution \<Rightarrow> Snapshot result \<times> execution" where
  "acceptFallback m s r =
     (case x_cause r of
        Some e \<Rightarrow> (Inl e, r)
      | None \<Rightarrow>
          if s_Stale s \<or> \<not> s_Connected s \<or> t_Generation (s_Token s) \<noteq> t_Generation (s_Token (x_expected r))
          then (Inl ErrStale, r)
          else if \<not> fallbackMatches m (x_expected r) s then (Inl DeadlineExceeded, r)
          else (case x_scalar r of
                  None \<Rightarrow> (Inl (OtherError ''nil scalar confirmation''), r)
                | Some p \<Rightarrow>
                    (let p = p\<lparr>sc_observed := s\<rparr>
                     in (Inr ((scalar_result p (x_expected r))\<lparr>s_Token := s_Token s\<rparr>), r\<lparr>x_scalar := Some p\<rparr>))))"

definition scalarFallback :: "'w ports \<Rightarrow> Mutation \<Rightarrow> time \<Rightarrow> ('w, Snapshot) work" where
  "scalarFallback io m deadline = do {
     now \<leftarrow> call (io_now io);
     if \<not> now < deadline then fail DeadlineExceeded
     else guarding (call (io_refreshScalars io (m_Kind m))) (guarding (ctxCause io DeadlineExceeded) (do {
       now \<leftarrow> call (io_now io);
       if \<not> now < deadline then fail DeadlineExceeded
       else do {
         s \<leftarrow> call (io_snapshot io);
         lockRun (acceptFallback m s)
       }
     }))
   }"

definition confirmScalar :: "nat \<Rightarrow> 'w ports \<Rightarrow> Mutation \<Rightarrow> ('w, Snapshot) work" where
  "confirmScalar n io m = do {
     now0 \<leftarrow> call (io_now io);
     now1 \<leftarrow> call (io_now io);
     r \<leftarrow> getRun;
     let until = x_playbackDeadline r;
     let full = now0 + playbackConfirmationTimeout;
     let finishing = (m_Kind m = MutationKindVolume \<and> m_Level m = 0 \<and> \<not> IsZero until \<and> \<not> now1 < until);
     let short = (\<not> finishing \<and> \<not> IsZero until \<and> until < full);
     let deadline = (if short then until else full);
     andThen (scalarLoop n io deadline (if short then deadline else full - Second)) (\<lambda>x.
       case x of Some s \<Rightarrow> done_with s | None \<Rightarrow> scalarFallback io m deadline)
   }"

subsection \<open>Confirmation by readback\<close>

text \<open>
  What one complete readback decides: an error, the confirmation, or another round (\<open>False\<close>).
\<close>

definition judgeReadback :: "config_Player \<Rightarrow> Mutation \<Rightarrow> Snapshot \<Rightarrow> Snapshot \<Rightarrow> time \<Rightarrow> time \<Rightarrow> error option \<Rightarrow>
    execution \<Rightarrow> bool result \<times> execution" where
  "judgeReadback p m before after deadline now cause r =
     (case m_Kind m of
        MutationKindQueue \<Rightarrow>
          if m_Append m then appendObservation p now cause before after r
          else (case queueStartObservation p now cause before after deadline r of
                  (d, r) \<Rightarrow>
                    (case sd_Action d of
                       queueStartConfirm \<Rightarrow> (Inr True, r)
                     | queueStartAbort \<Rightarrow> ((case sd_Err d of Some e \<Rightarrow> Inl e | None \<Rightarrow> Inr True), r)
                     | queueStartWait \<Rightarrow> (Inr False, r)))
      | MutationKindRemove \<Rightarrow> removeObservation p now cause before after (int (length (m_QueueIDs m))) r
      | MutationKindSkip \<Rightarrow>
          (case deviceObservationSafety p after of
             Some e \<Rightarrow> (Inl e, r)
           | None \<Rightarrow> acceptSkipReadback cause before after r)
      | _ \<Rightarrow>
          (case deviceObservationSafety p after of
             Some e \<Rightarrow> (Inl e, r)
           | None \<Rightarrow>
               if s_State after = m_State m then (Inr True, r)
               else if pendingChanges before after m \<noteq> []
               then (Inl (pendingMismatch (pendingChanges before after m)), r)
               else (Inr False, r)))"

definition readbackRead :: "'w ports \<Rightarrow> Mutation \<Rightarrow> bool \<Rightarrow> ('w, Snapshot) work" where
  "readbackRead io m reuse =
     (if m_Kind m = MutationKindSkip then andThen (observeRun io reuse) (completeQueue io) else observeRun io reuse)"

text \<open>The confirmed readback, or \<open>None\<close> for another round; a stale read only asks for another round.\<close>

definition readbackVerdict :: "'w ports \<Rightarrow> config_Player \<Rightarrow> Mutation \<Rightarrow> Snapshot \<Rightarrow> time \<Rightarrow> Snapshot result \<Rightarrow> ('w, Snapshot option) work" where
  "readbackVerdict io p m before deadline x =
     (case x of
        Inr after \<Rightarrow> do {
          now \<leftarrow> call (io_now io);
          cause \<leftarrow> ctxCause io DeadlineExceeded;
          v \<leftarrow> lockRun (judgeReadback p m before after deadline now cause);
          State_Monad.return (case v of Inl e \<Rightarrow> Inl e | Inr b \<Rightarrow> Inr (if b then Some after else None))
        }
      | Inl e \<Rightarrow> do {
          cause \<leftarrow> ctxCause io DeadlineExceeded;
          State_Monad.return (if \<not> errors_Is e ErrStale \<or> cause \<noteq> None then Inl e else Inr None)
        })"

fun readbackLoop :: "nat \<Rightarrow> 'w ports \<Rightarrow> config_Player \<Rightarrow> Mutation \<Rightarrow> Snapshot \<Rightarrow> time \<Rightarrow> bool \<Rightarrow> ('w, Snapshot) work" where
  "readbackLoop 0 io p m before deadline reuse = fail outOfFuel"
| "readbackLoop (Suc n) io p m before deadline reuse =
     guarding (ctxCause io DeadlineExceeded) (do {
       now \<leftarrow> call (io_now io);
       if \<not> now < deadline then fail DeadlineExceeded
       else do {
         x \<leftarrow> readbackRead io m reuse;
         now \<leftarrow> call (io_now io);
         if \<not> now < deadline then fail DeadlineExceeded
         else andThen (readbackVerdict io p m before deadline x) (\<lambda>y.
           case y of
             Some after \<Rightarrow> done_with after
           | None \<Rightarrow> do {
               now \<leftarrow> call (io_now io);
               if \<not> now < deadline then fail DeadlineExceeded
               else andThen (waitForObservation n io deadline) (\<lambda>_. readbackLoop n io p m before deadline True)
             })
       }
     })"

definition confirmReadback :: "nat \<Rightarrow> 'w ports \<Rightarrow> config_Player \<Rightarrow> Mutation \<Rightarrow> Snapshot \<Rightarrow> ('w, Snapshot) work" where
  "confirmReadback n io p m before =
     (if scalarMutation m then confirmScalar n io m
      else do {
        now \<leftarrow> call (io_now io);
        r \<leftarrow> getRun;
        let full = now + playbackConfirmationTimeout;
        let bounded = (m_Append m \<or> m_Kind m = MutationKindRemove \<or> (x_buffered r \<noteq> None \<and> m_Kind m = MutationKindSkip));
        readbackLoop n io p m before
          (if bounded \<and> \<not> IsZero (x_playbackDeadline r) then minTime full (x_playbackDeadline r) else full) False
      })"

subsection \<open>Observing changes the run and the world only\<close>

lemma cover_events_cause [simp]: "x_cause (cover_events before after r) = x_cause r"
  by (simp add: cover_events_def)

lemma queueObservationDecision_cause [simp]:
  "x_cause (snd (queueObservationDecision p now cause before fresh r)) = x_cause r"
  by (simp add: queueObservationDecision_def Let_def)

lemma acceptFallback_cause [simp]: "x_cause (snd (acceptFallback m s r)) = x_cause r"
  by (simp add: acceptFallback_def Let_def split: option.splits)

lemma queueStartObservation_cause [simp]:
  "x_cause (snd (queueStartObservation p now cause before after deadline r)) = x_cause r"
  by (simp add: queueStartObservation_def observeQueueState_def Let_def)

lemma appendObservation_cause [simp]: "x_cause (snd (appendObservation p now cause before after r)) = x_cause r"
  by (auto simp: appendObservation_def Let_def split: option.splits)

lemma removeObservation_cause [simp]: "x_cause (snd (removeObservation p now cause before after k r)) = x_cause r"
  by (auto simp: removeObservation_def Let_def split: option.splits prod.splits bool.splits)

lemma acceptSkipReadback_cause [simp]: "x_cause (snd (acceptSkipReadback cause before after r)) = x_cause r"
  by (auto simp: acceptSkipReadback_def Let_def split: option.splits)

lemma judgeReadback_cause [simp]:
  "x_cause (snd (judgeReadback p m before after deadline now cause r)) = x_cause r"
proof -
  obtain d r' where q: "queueStartObservation p now cause before after deadline r = (d, r')" by fastforce
  then have "x_cause r' = x_cause r" using queueStartObservation_cause [of p now cause before after deadline r] by simp
  then show ?thesis
    by (cases "m_Kind m") (simp_all add: judgeReadback_def q split: queueStartAction.splits option.splits)
qed

context step_relation
begin

lemma within_completePages: "within R (completePages n io s q)"
proof (induction n arbitrary: q)
  case 0
  show ?case by (subst completePages.simps) (auto intro!: within_intros split: option.splits)
next
  case (Suc n)
  show ?case
    by (subst completePages.simps) (auto intro!: within_intros Suc.IH split: option.splits)
qed

lemma within_completeQueue: "within R (completeQueue io s)"
  unfolding completeQueue_def by (intro within_intros within_completePages)

lemma within_retryStale: "within R m \<Longrightarrow> within R (retryStale n io m)"
  by (induction n) (auto intro!: within_intros within_ctxCause)

lemma within_observe: "within R (observe io bounded)"
  unfolding observe_def observeOnce_def by (intro within_intros within_retryStale within_completeQueue)

lemma within_observeRun: "within R (observeRun io reuse)"
  unfolding observeRun_def
  by (intro within_intros within_ctxCause within_completeQueue within_observe; simp)

lemma within_reconcileOwned: "within R (reconcileOwned io)"
  unfolding reconcileOwned_def reconcileOwnedOnce_def
  by (intro within_intros within_retryStale within_ctxCause within_completeQueue; simp)

lemma within_prewriteObservation: "within R (prewriteObservation io m)"
  unfolding prewriteObservation_def
  by (intro within_intros within_reconcileOwned within_observeRun)

lemma within_waitPending: "within R (waitPending n io next)"
  by (induction n) (auto intro!: within_intros)

lemma within_waitForObservation: "within R (waitForObservation n io deadline)"
  unfolding waitForObservation_def
  by (intro within_intros within_waitPending within_ctxCause)

lemma within_checkJournal: "within R (checkJournal io)"
  unfolding checkJournal_def by (intro within_intros)

lemma within_transitionDecision: "within R (transitionDecision io p cause before fresh)"
  unfolding transitionDecision_def by (intro within_intros; simp)

lemma within_awaitRound: "within R (awaitRound n io deadline fresh)"
  unfolding awaitRound_def
  by (intro within_intros within_waitForObservation within_ctxCause within_reconcileOwned)

lemma within_awaitLoop: "within R (awaitLoop n io p before deadline fresh waited d)"
proof (induction n arbitrary: fresh waited d)
  case 0
  show ?case by (simp add: within_fail)
next
  case (Suc n)
  show ?case
    by (cases "qd_Action d")
      (auto intro!: within_intros within_awaitRound within_ctxCause within_transitionDecision Suc.IH)
qed

lemma within_awaitOwnedPlayback: "within R (awaitOwnedPlayback n io p before fresh)"
  unfolding awaitOwnedPlayback_def by (intro within_intros within_transitionDecision within_awaitLoop)

lemma within_scalarLoop: "within R (scalarLoop n io deadline fallbackAt)"
  by (induction n) (auto intro!: within_intros within_ctxCause within_checkJournal simp: Let_def)

lemma within_confirmScalar: "within R (confirmScalar n io m)"
  unfolding confirmScalar_def scalarFallback_def
  by (intro within_intros within_scalarLoop within_ctxCause; simp)

lemma within_readbackLoop: "within R (readbackLoop n io p m before deadline reuse)"
proof (induction n arbitrary: reuse)
  case 0
  show ?case by (simp add: within_fail)
next
  case (Suc n)
  show ?case
    unfolding readbackLoop.simps readbackRead_def readbackVerdict_def
    by (intro within_intros within_ctxCause within_observeRun within_completeQueue within_waitForObservation Suc.IH; simp)
qed

lemma within_confirmReadback: "within R (confirmReadback n io p m before)"
  unfolding confirmReadback_def by (intro within_intros within_confirmScalar within_readbackLoop)

end

end
