(* ===== verification/Worker.thy ===== *)
theory Worker
  imports Observing
begin

section \<open>How a worker writes\<close>

text \<open>
  \<open>internal/control/execution.go\<close>: the journal transition, one write with its checks before the
  command and its confirmation after it, and the bounded retry. \<open>Writer.Write\<close> is called in one
  place, \<open>dispatch\<close>; every other operation of the worker reads, waits, compares or journals.
\<close>

text \<open>
  The worker's lane: the player's configuration and the JSON functions the journal updates use.
  \<open>ln_value\<close> decodes a JSON text to a canonical value; \<open>ln_encode\<close> marshals the progress;
  \<open>ln_annotate\<close> adds the completion diagnostics with their reason to an outcome, and \<open>ln_merge\<close>
  overrides the fields of one outcome by those of another.
\<close>

record lane =
  ln_config :: config_Player
  ln_value :: "string \<Rightarrow> string option"
  ln_encode :: "PlaybackProgress option \<Rightarrow> QueueLoadingProgress option \<Rightarrow> string"
  ln_annotate :: "string \<Rightarrow> string \<Rightarrow> string"
  ln_merge :: "string \<Rightarrow> string \<Rightarrow> string"

subsection \<open>Journal transitions\<close>

definition equalJSON :: "lane \<Rightarrow> string \<Rightarrow> string \<Rightarrow> bool" where
  "equalJSON l a b =
     (let dec = (\<lambda>raw. ln_value l (if raw = [] then ''{}'' else raw))
      in case (dec a, dec b) of (Some x, Some y) \<Rightarrow> x = y | _ \<Rightarrow> False)"

definition raw_text :: "string option \<Rightarrow> string" where
  "raw_text x = (case x of Some t \<Rightarrow> t | None \<Rightarrow> [])"

definition matchesUpdate :: "lane \<Rightarrow> Operation \<Rightarrow> Update \<Rightarrow> bool" where
  "matchesUpdate l op u \<longleftrightarrow>
     o_State op = u_State u \<and> o_Phase op = u_Phase u \<and> o_ErrorCode op = u_ErrorCode u \<and>
     equalJSON l (o_Progress op) (raw_text (u_Progress u)) \<and> equalJSON l (o_Outcome op) (raw_text (u_Outcome u))"

definition withProgress :: "lane \<Rightarrow> execution \<Rightarrow> Update \<Rightarrow> Update" where
  "withProgress l r u =
     (if x_progress r \<noteq> None \<or> x_queueLoading r \<noteq> None
      then u\<lparr>u_Progress := Some (ln_encode l (x_progress r) (x_queueLoading r))\<rparr> else u)"

definition recordUpdate :: "Operation \<Rightarrow> Update \<Rightarrow> ('w worker, unit) state" where
  "recordUpdate op u = State (\<lambda>w. ((), w\<lparr>wk_op := op, wk_run := (wk_run w)\<lparr>x_phase := o_Phase op\<rparr>,
     wk_updates := wk_updates w @ [u]\<rparr>))"

definition getOp :: "('w worker, Operation) state" where
  "getOp = State (\<lambda>w. (wk_op w, w))"

text \<open>A lost acknowledgement is resolved by reading the row; a device command is never repeated for it.\<close>

definition commitUpdate :: "'w ports \<Rightarrow> lane \<Rightarrow> Operation \<Rightarrow> Update \<Rightarrow> ('w, Operation) work" where
  "commitUpdate io l op u = do {
     x \<leftarrow> call (io_transition io (o_ID op) (o_Revision op) u);
     case x of
       Inr op' \<Rightarrow> done_with op'
     | Inl e \<Rightarrow> do {
         current \<leftarrow> call (io_get io (o_ID op));
         case current of
           Inr cur \<Rightarrow>
             if o_Revision cur = o_Revision op + 1 \<and> matchesUpdate l cur u then done_with cur
             else fail (Wrapped errJournalUnavailable e)
         | Inl _ \<Rightarrow> fail (Wrapped errJournalUnavailable e)
       }
   }"

definition transition :: "'w ports \<Rightarrow> lane \<Rightarrow> Update \<Rightarrow> ('w, unit) work" where
  "transition io l u = do {
     r \<leftarrow> getRun;
     op \<leftarrow> getOp;
     let u = withProgress l r u;
     andThen (commitUpdate io l op u) (\<lambda>op'. do { recordUpdate op' u; done_with () })
   }"

definition running :: "string \<Rightarrow> Update" where
  "running phase = \<lparr>u_State = Running, u_Phase = phase, u_Progress = None, u_Outcome = None, u_ErrorCode = []\<rparr>"

subsection \<open>Before the command\<close>

definition appending :: "Mutation \<Rightarrow> bool" where
  "appending m \<longleftrightarrow> m_Append m \<or> m_Kind m = MutationKindRemove"

definition onTimeline :: "Mutation \<Rightarrow> execution \<Rightarrow> bool" where
  "onTimeline m r \<longleftrightarrow>
     (x_automating r \<and> m_Kind m = MutationKindVolume \<and> 0 < m_Level m) \<or>
     (x_buffered r \<noteq> None \<and> m_Kind m = MutationKindSkip)"

definition beforeWindow :: "'w ports \<Rightarrow> bool \<Rightarrow> time \<Rightarrow> ('w, 'b) work \<Rightarrow> ('w, 'b) work" where
  "beforeWindow io applies until f =
     (if applies \<and> \<not> IsZero until
      then do {
        now \<leftarrow> call (io_now io);
        if \<not> now < until then fail errPlaybackTimelineChanged else f
      }
      else f)"

definition prepareSkip :: "'w ports \<Rightarrow> config_Player \<Rightarrow> string \<Rightarrow> Snapshot \<Rightarrow> Snapshot \<Rightarrow> ('w, Snapshot \<times> Snapshot) work" where
  "prepareSkip io p direction before fresh =
     andThen (completeQueue io fresh) (\<lambda>completed.
       case skipAdmissible (cp_VolumeCeiling p) direction completed of
         Inl e \<Rightarrow> fail e
       | Inr _ \<Rightarrow>
           done_with (if queueExtension (s_Queue before) (s_Queue completed)
                      then before\<lparr>s_Queue := s_Queue completed\<rparr> else before, completed))"

text \<open>Adopt the observation as the expected state when nothing owned changed.\<close>

definition adoptFresh :: "Snapshot \<Rightarrow> Snapshot \<Rightarrow> execution \<Rightarrow> string list \<times> execution" where
  "adoptFresh before fresh r =
     (let changes = ownedChanges (x_queueOwned r) before fresh
      in (changes, if changes = [] then r\<lparr>x_expected := fresh\<rparr> else r))"

definition skipBoundary :: "Snapshot \<Rightarrow> Snapshot \<Rightarrow> error \<Rightarrow> ('w, 'b) work" where
  "skipBoundary before fresh e = do {
     r \<leftarrow> getRun;
     if x_buffered r \<noteq> None \<and> errors_Is e ErrNotSkippable
     then do {
       changes \<leftarrow> lockRun (adoptFresh before fresh);
       if changes \<noteq> [] then fail (ownershipMismatch ''before_write_changed'' changes) else fail e
     }
     else fail e
   }"

definition preparedSkip :: "'w ports \<Rightarrow> lane \<Rightarrow> Mutation \<Rightarrow> Snapshot \<Rightarrow> Snapshot \<Rightarrow> ('w, Snapshot \<times> Snapshot) work" where
  "preparedSkip io l m before fresh =
     (if m_Kind m = MutationKindSkip
      then do {
        x \<leftarrow> prepareSkip io (ln_config l) (m_Direction m) before fresh;
        case x of Inr y \<Rightarrow> done_with y | Inl e \<Rightarrow> skipBoundary before fresh e
      }
      else done_with (before, fresh))"

definition staleReference :: "Mutation \<Rightarrow> Snapshot \<Rightarrow> execution \<Rightarrow> bool" where
  "staleReference m fresh r \<longleftrightarrow>
     x_buffered r \<noteq> None \<and> (m_Kind m = MutationKindQueue \<or> m_Kind m = MutationKindRemove) \<and>
     \<not> sameCatalog (pt_CatalogToken (hd (x_parts r))) (s_Token fresh)"

definition remainingWindow :: "'w ports \<Rightarrow> bool \<Rightarrow> time \<Rightarrow> duration \<Rightarrow> ('w, duration) work" where
  "remainingWindow io applies until d =
     (if applies \<and> \<not> IsZero until
      then do {
        now \<leftarrow> call (io_now io);
        if Sub until now \<le> 0 then fail errPlaybackTimelineChanged else done_with (min d (Sub until now))
      }
      else done_with d)"

definition guardDuration :: "'w ports \<Rightarrow> Mutation \<Rightarrow> ('w, duration) work" where
  "guardDuration io m = do {
     r \<leftarrow> getRun;
     andThen (remainingWindow io (appending m) (x_appendUntil r) (5 * Second))
       (remainingWindow io (onTimeline m r) (x_playbackDeadline r))
   }"

subsection \<open>The command\<close>

text \<open>What the reply of \<open>Writer.Write\<close> changes under \<open>r.mu\<close>.\<close>

definition settleReply :: "Response result \<Rightarrow> execution \<Rightarrow> execution" where
  "settleReply out r =
     (case out of
        Inr resp \<Rightarrow>
          (let r = r\<lparr>x_inflight := False, x_unconfirmed := True\<rparr>; have = s_Token (x_expected r)
           in if t_Generation (r_Token resp) = t_Generation have \<and> t_Player (r_Token resp) = t_Player have
              then r\<lparr>x_expected := (x_expected r)\<lparr>s_Token := r_Token resp\<rparr>\<rparr> else r)
      | Inl e \<Rightarrow>
          (let delivery = map_option fst (as_CommandError e)
           in r\<lparr>x_inflight := False,
                x_uncertain := x_uncertain r \<or> delivery = None \<or> delivery = Some Uncertain,
                x_rejectedWrite := (delivery = Some Rejected)\<rparr>))"

text \<open>The one call of the writer. The guard expires \<open>d\<close> after the call.\<close>

definition dispatch :: "'w ports \<Rightarrow> Mutation \<Rightarrow> Snapshot \<Rightarrow> Snapshot \<Rightarrow> bool \<Rightarrow> duration \<Rightarrow> ('w, Response) work" where
  "dispatch io m before fresh owned d = do {
     modifyRun (\<lambda>r. (expect m r)\<lparr>x_inflight := True\<rparr>);
     let m' = m\<lparr>m_Player := p_ID (s_Player fresh)\<rparr>;
     cause \<leftarrow> runCause;
     out \<leftarrow> call (io_write io m' (s_Token fresh) d);
     State (\<lambda>w. ((), w\<lparr>wk_sent := wk_sent w @ [\<lparr>sd_mutation = m', sd_token = s_Token fresh, sd_lifetime = d,
       sd_answer = out, sd_before = before, sd_fresh = fresh, sd_owned = owned,
       sd_recorded = (if wk_updates w = [] then None else Some (last (wk_updates w))),
       sd_cause = cause\<rparr>]\<rparr>));
     modifyRun (settleReply out);
     State_Monad.return out
   }"

subsection \<open>After the command\<close>

text \<open>The state a confirmed command leads to, from the observation before it and the readback.\<close>

definition confirmedState :: "Mutation \<Rightarrow> Snapshot \<Rightarrow> Snapshot \<Rightarrow> execution \<Rightarrow> Snapshot result" where
  "confirmedState m fresh after r =
     (case m_Kind m of
        MutationKindMode \<Rightarrow> Inr (fresh\<lparr>s_Repeat := m_Repeat m, s_Shuffle := m_Shuffle m\<rparr>)
      | MutationKindVolume \<Rightarrow>
          Inr (let e = fresh\<lparr>s_Volume := Some (m_Level m)\<rparr>
               in if s_Muted fresh = Some True then e\<lparr>s_Muted := s_Muted after\<rparr> else e)
      | MutationKindMute \<Rightarrow> Inr (fresh\<lparr>s_Muted := Some (m_Muted m)\<rparr>)
      | MutationKindTransport \<Rightarrow>
          Inr (transportMediaReadback (fresh\<lparr>s_State := m_State m\<rparr>) after (m_State m) False)
      | MutationKindSkip \<Rightarrow>
          if \<not> skipConfirmed fresh after then Inl (ownershipMismatch ''readback_changed'' (stateChanges fresh after))
          else Inr (fresh\<lparr>s_State := s_State after, s_Media := s_Media after\<rparr>)
      | MutationKindAbsent \<Rightarrow> Inr fresh
      | _ \<Rightarrow>
          if \<not> queueResultMatches after r
          then Inl (ownershipMismatch (queueResultProblem_run after r) [''queue_membership''])
          else Inr (fresh\<lparr>s_State := PlayStatePlay, s_Media := s_Media after, s_Queue := s_Queue after\<rparr>))"

definition adoptConfirmed :: "Mutation \<Rightarrow> Snapshot \<Rightarrow> Snapshot \<Rightarrow> execution \<Rightarrow> unit result \<times> execution" where
  "adoptConfirmed m expected after r =
     (let changes = ownedChanges (x_queueOwned r) expected after in
      if changes \<noteq> [] then (Inl (ownershipMismatch ''readback_changed'' changes), r)
      else
        (let have = s_Token (x_expected r);
             after = (if t_Generation have = t_Generation (s_Token after) \<and> t_Player have \<ge> t_Player (s_Token after)
                      then after\<lparr>s_Token := have\<rparr> else after)
         in (Inr (), close_window (r\<lparr>x_expected := after,
               x_queueOwned := x_queueOwned r \<or> (m_Kind m = MutationKindQueue \<and> x_bounded r),
               x_unconfirmed := False, x_confirmed := x_confirmed r + 1\<rparr>))))"

definition confirmWrite :: "nat \<Rightarrow> 'w ports \<Rightarrow> lane \<Rightarrow> Mutation \<Rightarrow> Snapshot \<Rightarrow> ('w, unit) work" where
  "confirmWrite n io l m fresh = do {
     x \<leftarrow> confirmReadback n io (ln_config l) m fresh;
     case x of
       Inl e \<Rightarrow> do { modifyRun (\<lambda>r. r\<lparr>x_uncertain := True\<rparr>); fail e }
     | Inr after \<Rightarrow> do {
         r \<leftarrow> getRun;
         case confirmedState m fresh after r of
           Inl e \<Rightarrow> fail e
         | Inr expected \<Rightarrow>
             andThen (if m_Kind m = MutationKindVolume
                      then andThen (awaitOwnedPlayback n io (ln_config l) expected after) (\<lambda>(after, _). done_with after)
                      else done_with after)
               (\<lambda>after. require (deviceSafety (ln_config l) after)
                  (andThen (lockRun (adoptConfirmed m expected after)) (\<lambda>_. guarding runCause (done_with ()))))
       }
   }"

subsection \<open>One write\<close>

text \<open>
  The checks of \<open>writeOnce\<close> up to the journal record: the state expected before the command, the
  observation it was compared with and adopted as, and whether the queue was owned.
\<close>

definition adoptTarget :: "Mutation \<Rightarrow> Snapshot \<Rightarrow> Snapshot \<Rightarrow> ('w, Snapshot \<times> Snapshot \<times> bool) work" where
  "adoptTarget m before fresh = do {
     owned \<leftarrow> lockRun (\<lambda>r. (x_queueOwned r, r));
     changes \<leftarrow> lockRun (adoptFresh before fresh);
     r \<leftarrow> getRun;
     if changes \<noteq> [] then fail (ownershipMismatch ''before_write_changed'' changes)
     else if m_Kind m = MutationKindRemove \<and> \<not> removalAllowed fresh m r
     then fail errPlaybackTimelineChanged
     else done_with (before, fresh, owned)
   }"

definition prepareWrite :: "nat \<Rightarrow> 'w ports \<Rightarrow> lane \<Rightarrow> Mutation \<Rightarrow> ('w, Snapshot \<times> Snapshot \<times> bool) work" where
  "prepareWrite n io l m =
     guarding runCause (andThen (prewriteObservation io m) (\<lambda>fresh. do {
       r \<leftarrow> getRun;
       let before = x_expected r;
       andThen (awaitOwnedPlayback n io (ln_config l) before fresh) (\<lambda>(fresh, waited).
         if waited \<and> m_Kind m = MutationKindVolume then fail errPlaybackTimelineChanged
         else do {
           r \<leftarrow> getRun;
           beforeWindow io (appending m) (x_appendUntil r)
             (beforeWindow io (onTimeline m r) (x_playbackDeadline r)
               (require (mutationSafety (ln_config l) fresh (m_Kind m = MutationKindSkip))
                 (andThen (preparedSkip io l m before fresh) (\<lambda>(before, fresh). do {
                   r \<leftarrow> getRun;
                   if staleReference m fresh r then fail ErrStaleReference
                   else adoptTarget m before fresh
                 }))))
         })
     }))"

definition sendWrite :: "nat \<Rightarrow> 'w ports \<Rightarrow> lane \<Rightarrow> Mutation \<Rightarrow> Snapshot \<times> Snapshot \<times> bool \<Rightarrow> ('w, unit) work" where
  "sendWrite n io l m x = (case x of (before, fresh, owned) \<Rightarrow> do {
     recorded \<leftarrow> transition io l (running (''sending_'' @ MutationKind_string (m_Kind m)));
     case recorded of
       Inl e \<Rightarrow> do { modifyRun (\<lambda>r. r\<lparr>x_uncertain := True\<rparr>); fail (Wrapped (OtherError ''journal unavailable'') e) }
     | Inr _ \<Rightarrow>
         andThen (guardDuration io m) (\<lambda>d.
           andThen (dispatch io m before fresh owned d) (\<lambda>_. confirmWrite n io l m fresh))
   })"

definition writeOnce :: "nat \<Rightarrow> 'w ports \<Rightarrow> lane \<Rightarrow> Mutation \<Rightarrow> ('w, unit) work" where
  "writeOnce n io l m = andThen (prepareWrite n io l m) (sendWrite n io l m)"

text \<open>Only a guard that was proven stale before anything was sent is tried again.\<close>

definition mayRetry :: "error \<Rightarrow> execution \<Rightarrow> bool" where
  "mayRetry e r \<longleftrightarrow>
     x_bounded r \<and> map_option fst (as_CommandError e) = Some NotSent \<and> errors_Is e ErrStale \<and> x_cause r = None"

fun writeAttempts :: "nat \<Rightarrow> nat \<Rightarrow> 'w ports \<Rightarrow> lane \<Rightarrow> Mutation \<Rightarrow> ('w, unit) work" where
  "writeAttempts 0 n io l m = fail ErrStale"
| "writeAttempts (Suc k) n io l m = do {
     x \<leftarrow> writeOnce n io l m;
     r \<leftarrow> getRun;
     case x of
       Inr _ \<Rightarrow> done_with ()
     | Inl e \<Rightarrow>
         if \<not> mayRetry e r then fail e
         else do {
           modifyRun (\<lambda>r. r\<lparr>x_events := (\<lambda>_. [])\<rparr>);
           if k = 0 then fail e else writeAttempts k n io l m
         }
   }"

definition worker_write :: "nat \<Rightarrow> 'w ports \<Rightarrow> lane \<Rightarrow> Mutation \<Rightarrow> ('w, unit) work" where
  "worker_write n io l m = writeAttempts 3 n io l m"

subsection \<open>What the parts of a write change\<close>

lemma adoptFresh_cause [simp]: "x_cause (snd (adoptFresh before fresh r)) = x_cause r"
  by (simp add: adoptFresh_def Let_def)

lemma adoptConfirmed_cause [simp]: "x_cause (snd (adoptConfirmed m expected after r)) = x_cause r"
  by (simp add: adoptConfirmed_def close_window_def Let_def)

context step_relation
begin

lemma within_beforeWindow: "within R f \<Longrightarrow> within R (beforeWindow io b t f)"
  unfolding beforeWindow_def by (intro within_intros)

lemma within_preparedSkip: "within R (preparedSkip io l m before fresh)"
  unfolding preparedSkip_def prepareSkip_def skipBoundary_def
  by (intro within_intros within_completeQueue; simp)

lemma within_prepareWrite: "within R (prepareWrite n io l m)"
  unfolding prepareWrite_def adoptTarget_def
  by (intro within_intros within_prewriteObservation within_awaitOwnedPlayback within_beforeWindow
      within_preparedSkip; simp)

lemma within_guardDuration: "within R (guardDuration io m)"
  unfolding guardDuration_def remainingWindow_def by (intro within_intros)

lemma within_commitUpdate: "within R (commitUpdate io l op u)"
  unfolding commitUpdate_def by (intro within_intros)

lemma within_confirmWrite: "within R (confirmWrite n io l m fresh)"
  unfolding confirmWrite_def
  by (intro within_intros within_confirmReadback within_awaitOwnedPlayback; simp)

end

text \<open>A relation that also allows journal records.\<close>

locale journal_relation = step_relation +
  assumes R_record: "cause_kept (wk_run w) r \<Longrightarrow> R w (w\<lparr>wk_op := op, wk_run := r, wk_updates := us\<rparr>)"
begin

lemma within_recordUpdate: "within R (recordUpdate op u)"
  by (auto intro!: withinI R_record cause_kept_same simp: recordUpdate_def)

lemma within_getOp: "within R getOp"
  by (auto intro!: withinI R_refl simp: getOp_def)

lemma within_transition: "within R (transition io l u)"
  unfolding transition_def by (intro within_intros within_commitUpdate within_recordUpdate within_getOp)

end

text \<open>Reads keep the record of the worker.\<close>

definition same_record :: "'w worker \<Rightarrow> 'w worker \<Rightarrow> bool" where
  "same_record w w' \<longleftrightarrow> wk_sent w' = wk_sent w \<and> wk_updates w' = wk_updates w \<and> wk_op w' = wk_op w"

interpretation reads: step_relation same_record
  by unfold_locales (auto simp: same_record_def beside_def)

definition same_sent :: "'w worker \<Rightarrow> 'w worker \<Rightarrow> bool" where
  "same_sent w w' \<longleftrightarrow> wk_sent w' = wk_sent w"

interpretation journals: journal_relation same_sent
  by unfold_locales (auto simp: same_sent_def beside_def)

subsection \<open>Every command is justified\<close>

definition justified :: "lane \<Rightarrow> sending \<Rightarrow> bool" where
  "justified l sd \<longleftrightarrow>
     sd_token sd = s_Token (sd_fresh sd) \<and> m_Player (sd_mutation sd) = p_ID (s_Player (sd_fresh sd)) \<and>
     writable_target (ln_config l) (sd_fresh sd) \<and> PlayState_Writable (s_State (sd_fresh sd)) \<and>
     ownedChanges (sd_owned sd) (sd_before sd) (sd_fresh sd) = [] \<and>
     0 < sd_lifetime sd \<and> sd_lifetime sd \<le> 5 * Second \<and>
     (\<exists>u. sd_recorded sd = Some u \<and> u_State u = Running \<and>
          u_Phase u = ''sending_'' @ MutationKind_string (m_Kind (sd_mutation sd)))"

definition justly :: "lane \<Rightarrow> 'w worker \<Rightarrow> 'w worker \<Rightarrow> bool" where
  "justly l w w' \<longleftrightarrow> (\<exists>new. wk_sent w' = wk_sent w @ new \<and> list_all (justified l) new)"

lemma justly_trans: "justly l a b \<Longrightarrow> justly l b c \<Longrightarrow> justly l a c"
  by (fastforce simp: justly_def)

interpretation just: journal_relation "justly l" for l
  by unfold_locales (auto simp: justly_def beside_def intro: justly_trans)

lemma completePages_returns: "returns (completeQueue io s) (\<lambda>s' w. \<exists>q. s' = s\<lparr>s_Queue := q\<rparr>)"
proof -
  have "s = s\<lparr>s_Queue := s_Queue s\<rparr>" by simp
  then have "\<exists>q. s = s\<lparr>s_Queue := q\<rparr>" ..
  then show ?thesis unfolding completeQueue_def by (auto intro!: returns_intros)
qed

lemma writable_queue [simp]:
  "writable_target p (s\<lparr>s_Queue := q\<rparr>) = writable_target p s"
  by (simp add: writable_target_def)

definition checked_target :: "lane \<Rightarrow> Snapshot \<times> Snapshot \<times> bool \<Rightarrow> bool" where
  "checked_target l x \<longleftrightarrow>
     (case x of (before, fresh, owned) \<Rightarrow>
        writable_target (ln_config l) fresh \<and> PlayState_Writable (s_State fresh) \<and> ownedChanges owned before fresh = [])"

lemma preparedSkip_returns:
  "returns (preparedSkip io l m before fresh) (\<lambda>x w. \<exists>q. snd x = fresh\<lparr>s_Queue := q\<rparr>)"
proof -
  have same: "\<exists>q. fresh = fresh\<lparr>s_Queue := q\<rparr>" by (rule exI [of _ "s_Queue fresh"]) simp
  have skip: "returns (prepareSkip io p d before fresh) (\<lambda>x w. \<exists>q. snd x = fresh\<lparr>s_Queue := q\<rparr>)" for p d
    unfolding prepareSkip_def
    by (rule returns_seq [OF completePages_returns])
      (auto intro!: returns_intros simp: returns_def run_simps split: sum.splits)
  have boundary: "returns (skipBoundary before fresh e) Q" for e Q
    unfolding skipBoundary_def by (intro returns_intros)
  show ?thesis
    using same skip boundary unfolding preparedSkip_def
    by (fastforce simp: returns_def run_simps split: prod.splits sum.splits)
qed

lemma returns_beforeWindow: "returns f Q \<Longrightarrow> returns (beforeWindow io b t f) Q"
  unfolding beforeWindow_def by (auto intro!: returns_intros)

lemma adoptTarget_returns:
  "writable_target (ln_config l) fresh \<Longrightarrow> PlayState_Writable (s_State fresh) \<Longrightarrow>
     returns (adoptTarget m before fresh) (\<lambda>x w. checked_target l x)"
  by (auto simp: returns_def adoptTarget_def run_simps adoptFresh_def checked_target_def Let_def split: if_splits)

lemma prepareWrite_returns: "returns (prepareWrite n io l m) (\<lambda>x w. checked_target l x)"
proof -
  have tail: "returns (andThen (preparedSkip io l m before fresh) (\<lambda>(before, fresh). do {
       r \<leftarrow> getRun;
       if staleReference m fresh r then fail ErrStaleReference else adoptTarget m before fresh }))
     (\<lambda>x w. checked_target l x)"
    if "mutationSafety (ln_config l) fresh (m_Kind m = MutationKindSkip) = None" for before fresh
    using that unfolding mutationSafety_None
    by (intro returns_seq [OF preparedSkip_returns])
      (auto intro!: returns_bind returns_if returns_fail adoptTarget_returns)
  show ?thesis
    unfolding prepareWrite_def Let_def
    by (auto intro!: returns_guarding returns_andThen returns_bind returns_if returns_fail returns_beforeWindow
        returns_require tail)
qed

lemma transition_returns:
  "run_state (transition io l u) w = (Inr x, w') \<Longrightarrow>
     \<exists>v. wk_updates w' \<noteq> [] \<and> last (wk_updates w') = v \<and> u_State v = u_State u \<and> u_Phase v = u_Phase u"
  by (auto simp: transition_def run_simps getOp_def recordUpdate_def withProgress_def Let_def
      split: prod.splits sum.splits if_splits)

lemma guardDuration_returns: "returns (guardDuration io m) (\<lambda>d w. 0 < d \<and> d \<le> 5 * Second)"
proof -
  have w: "returns (remainingWindow io b t d) (\<lambda>d w. 0 < d \<and> d \<le> 5 * Second)"
    if "0 < d" "d \<le> 5 * Second" for b t d
    using that unfolding remainingWindow_def by (auto intro!: returns_intros)
  show ?thesis
    unfolding guardDuration_def
    by (intro returns_bind returns_seq [OF w] w) (auto simp: duration_defs)
qed

lemma expect_cause [simp]: "x_cause (expect m r) = x_cause r"
  by (cases "m_Kind m")
    (auto simp: expect_def expect_volume_def expect_state_def expect_queue_def add_expectation_def Let_def)

lemma dispatch_sent:
  assumes "run_state (dispatch io m before fresh owned d) w = (x, w')"
  shows "\<exists>out. wk_sent w' = wk_sent w @ [\<lparr>sd_mutation = m\<lparr>m_Player := p_ID (s_Player fresh)\<rparr>,
     sd_token = s_Token fresh, sd_lifetime = d, sd_answer = out, sd_before = before, sd_fresh = fresh,
     sd_owned = owned, sd_recorded = (if wk_updates w = [] then None else Some (last (wk_updates w))),
     sd_cause = x_cause (wk_run w)\<rparr>] \<and> x = out"
  using assms by (auto simp: dispatch_def run_simps expect_cause Let_def split: prod.splits)

text \<open>One write calls the writer at most once, with a justified command.\<close>

definition sent_once :: "nat \<Rightarrow> 'w ports \<Rightarrow> lane \<Rightarrow> Mutation \<Rightarrow> unit result \<Rightarrow> 'w worker \<Rightarrow> 'w worker \<Rightarrow> bool" where
  "sent_once n io l m x w w' \<longleftrightarrow>
     (wk_sent w' = wk_sent w \<and> (\<exists>e. x = Inl e)) \<or>
     (\<exists>sd. wk_sent w' = wk_sent w @ [sd] \<and> justified l sd \<and> m_Kind (sd_mutation sd) = m_Kind m \<and>
        cause_kept (wk_run w) (wk_run w') \<and> (x_cause (wk_run w') = None \<longrightarrow> sd_cause sd = None) \<and>
        (case sd_answer sd of
           Inl e \<Rightarrow> x = Inl e
         | Inr _ \<Rightarrow> \<exists>fresh v. run_state (confirmWrite n io l m fresh) v = (x, w') \<and> cause_kept (wk_run v) (wk_run w')))"

definition kept :: "'w worker \<Rightarrow> 'w worker \<Rightarrow> bool" where
  "kept w w' \<longleftrightarrow> cause_kept (wk_run w) (wk_run w')"

interpretation cause: journal_relation kept
  by unfold_locales (auto simp: kept_def beside_def cause_kept_refl intro: cause_kept_trans)

lemma kept_dispatch: "within kept (dispatch io m before fresh owned d)"
proof -
  have "within kept (State (\<lambda>w. ((), w\<lparr>wk_sent := f w\<rparr>)))" for f :: "'w worker \<Rightarrow> sending list"
    by (rule withinI) (auto simp: kept_def cause_kept_refl)
  then show ?thesis
    unfolding dispatch_def
    by (intro cause.within_intros) (auto simp: settleReply_def Let_def split: sum.splits)
qed

lemma sendWrite_once:
  assumes "run_state (sendWrite n io l m (before, fresh, owned)) w = (x, w')"
    and ok: "checked_target l (before, fresh, owned)"
  shows "sent_once n io l m x w w'"
proof -
  let ?u = "running (''sending_'' @ MutationKind_string (m_Kind m))"
  obtain t w2 where t: "run_state (transition io l ?u) w = (t, w2)" by fastforce
  have s2: "wk_sent w2 = wk_sent w" using withinD [OF journals.within_transition t] by (simp add: same_sent_def)
  obtain d w3 where d: "run_state (guardDuration io m) w2 = (d, w3)" by fastforce
  have s3: "wk_sent w3 = wk_sent w" "wk_updates w3 = wk_updates w2"
    using withinD [OF reads.within_guardDuration d] s2 by (simp_all add: same_record_def)
  have k3: "kept w w3" using withinD [OF cause.within_transition t] withinD [OF cause.within_guardDuration d]
    by (rule cause.R_trans)
  consider e where "t = Inl e" | u e where "t = Inr u" "d = Inl e" | u dur where "t = Inr u" "d = Inr dur"
    by (metis sum.exhaust)
  then show ?thesis
  proof cases
    case 1
    with assms t s2 show ?thesis by (auto simp: sent_once_def sendWrite_def run_simps)
  next
    case 2
    with assms t d s3 show ?thesis by (auto simp: sent_once_def sendWrite_def run_simps)
  next
    case 3
    have dur: "0 < dur \<and> dur \<le> 5 * Second"
      using returnsD [OF guardDuration_returns, of io m w2 dur w3] d 3 by simp
    obtain out w4 where q: "run_state (dispatch io m before fresh owned dur) w3 = (out, w4)" by fastforce
    from dispatch_sent [OF q] obtain sd where sd: "wk_sent w4 = wk_sent w @ [sd]" "sd_answer sd = out"
      "justified l sd" "m_Kind (sd_mutation sd) = m_Kind m" "sd_cause sd = x_cause (wk_run w3)"
      using transition_returns [of io l ?u w u w2] t 3 s3 ok dur
      by (auto simp: justified_def checked_target_def running_def)
    have rest: "(case out of Inl e \<Rightarrow> (Inl e, w4) | Inr _ \<Rightarrow> run_state (confirmWrite n io l m fresh) w4) = (x, w')"
      using assms(1) t d 3 q by (simp add: sendWrite_def run_simps split: sum.splits)
    have after: "wk_sent w' = wk_sent w4" "kept w4 w'" "\<forall>e. out = Inl e \<longrightarrow> x = Inl e"
        "\<forall>u. out = Inr u \<longrightarrow> run_state (confirmWrite n io l m fresh) w4 = (x, w')"
      using rest withinD [OF reads.within_confirmWrite, of n io l m fresh w4 x w']
        withinD [OF cause.within_confirmWrite, of n io l m fresh w4 x w'] cause.R_refl [of w4]
      by (auto simp: same_record_def split: sum.splits)
    have k: "kept w3 w'" using withinD [OF kept_dispatch q] after(2) by (rule cause.R_trans)
    have "case sd_answer sd of Inl e \<Rightarrow> x = Inl e
        | Inr _ \<Rightarrow> \<exists>fresh v. run_state (confirmWrite n io l m fresh) v = (x, w') \<and> cause_kept (wk_run v) (wk_run w')"
      using after sd(2) unfolding kept_def by (cases out) (simp, simp, blast)
    moreover have "x_cause (wk_run w') = None \<longrightarrow> sd_cause sd = None"
      using k sd(5) by (auto simp: kept_def cause_kept_def)
    moreover have "cause_kept (wk_run w) (wk_run w')" using cause.R_trans [OF k3 k] by (simp add: kept_def)
    ultimately show ?thesis using sd after(1) unfolding sent_once_def by auto
  qed
qed

lemma writeOnce_once:
  assumes "run_state (writeOnce n io l m) w = (x, w')"
  shows "sent_once n io l m x w w'"
proof -
  obtain y w1 where p: "run_state (prepareWrite n io l m) w = (y, w1)" by fastforce
  have s1: "wk_sent w1 = wk_sent w" using withinD [OF reads.within_prepareWrite p] by (simp add: same_record_def)
  have k1: "kept w w1" using withinD [OF cause.within_prepareWrite p] .
  show ?thesis
  proof (cases y)
    case (Inl e)
    with assms p s1 show ?thesis by (auto simp: writeOnce_def run_simps sent_once_def)
  next
    case (Inr z)
    have "checked_target l z" using returnsD [OF prepareWrite_returns] p Inr by blast
    moreover have "run_state (sendWrite n io l m z) w1 = (x, w')"
      using assms p Inr by (simp add: writeOnce_def run_simps)
    ultimately have "sent_once n io l m x w1 w'" using sendWrite_once by (metis prod_cases3)
    then show ?thesis using s1 k1 by (auto simp: sent_once_def kept_def intro: cause_kept_trans)
  qed
qed

lemma just_writeOnce: "within (justly l) (writeOnce n io l m)"
  by (rule withinI) (auto dest!: writeOnce_once simp: sent_once_def justly_def)

lemma just_writeAttempts: "within (justly l) (writeAttempts k n io l m)"
  by (induction k) (auto intro!: just.within_intros just_writeOnce)

lemma just_write: "within (justly l) (worker_write n io l m)"
  unfolding worker_write_def by (rule just_writeAttempts)

subsection \<open>A revoked worker stops\<close>

text \<open>
  \<open>obeys\<close>: the cause of cancellation is kept, a worker that was cancelled before sends nothing, and
  a command whose call already saw the cancellation is the last one.
\<close>

definition uncancelled :: "sending list \<Rightarrow> bool" where
  "uncancelled = list_all (\<lambda>sd. sd_cause sd = None)"

definition obeys :: "'w worker \<Rightarrow> 'w worker \<Rightarrow> bool" where
  "obeys w w' \<longleftrightarrow>
     cause_kept (wk_run w) (wk_run w') \<and>
     (\<exists>new. wk_sent w' = wk_sent w @ new \<and> (x_cause (wk_run w) \<noteq> None \<longrightarrow> new = []) \<and>
        (x_cause (wk_run w') = None \<longrightarrow> uncancelled new) \<and> uncancelled (butlast new))"

lemma obeys_quiet: "kept w w' \<Longrightarrow> wk_sent w' = wk_sent w \<Longrightarrow> obeys w w'"
  by (auto simp: obeys_def kept_def uncancelled_def)

lemma obeys_trans:
  assumes "obeys a b" and "obeys b c"
  shows "obeys a c"
proof -
  from assms obtain x y where x: "wk_sent b = wk_sent a @ x" "x_cause (wk_run a) \<noteq> None \<longrightarrow> x = []"
      "x_cause (wk_run b) = None \<longrightarrow> uncancelled x" "uncancelled (butlast x)"
    and y: "wk_sent c = wk_sent b @ y" "x_cause (wk_run b) \<noteq> None \<longrightarrow> y = []"
      "x_cause (wk_run c) = None \<longrightarrow> uncancelled y" "uncancelled (butlast y)"
    and k: "cause_kept (wk_run a) (wk_run b)" "cause_kept (wk_run b) (wk_run c)"
    by (auto simp: obeys_def)
  have "y \<noteq> [] \<Longrightarrow> uncancelled x" using x(3) y(2) by blast
  then have "uncancelled (butlast (x @ y))" using x(4) y(4) by (auto simp: uncancelled_def butlast_append)
  moreover have "x_cause (wk_run c) = None \<longrightarrow> uncancelled (x @ y)"
    using x(3) y(3) k(2) by (auto simp: uncancelled_def cause_kept_def)
  moreover have "x_cause (wk_run a) \<noteq> None \<longrightarrow> x @ y = []"
    using x(2) y(2) k(1) by (auto simp: cause_kept_def)
  ultimately show ?thesis using x(1) y(1) cause_kept_trans [OF k] by (auto simp: obeys_def)
qed

interpretation obedient: journal_relation obeys
  by unfold_locales
    (auto simp: beside_def kept_def cause_kept_refl intro: obeys_quiet obeys_trans)

lemma obeys_writeOnce: "within obeys (writeOnce n io l m)"
proof (rule withinI)
  fix w x w'
  assume run: "run_state (writeOnce n io l m) w = (x, w')"
  show "obeys w w'"
  proof (cases "x_cause (wk_run w)")
    case None
    with writeOnce_once [OF run] show ?thesis
      by (auto simp: sent_once_def obeys_def uncancelled_def cause_kept_def)
  next
    case (Some c)
    with run have "w' = w" by (auto simp: writeOnce_def prepareWrite_def run_simps)
    then show ?thesis by (simp add: obedient.R_refl)
  qed
qed

lemma obeys_write: "within obeys (worker_write n io l m)"
proof -
  have "within obeys (writeAttempts k n io l m)" for k
    by (induction k) (auto intro!: obedient.within_intros obeys_writeOnce)
  then show ?thesis by (simp add: worker_write_def)
qed

subsection \<open>A successful write was confirmed\<close>

text \<open>What a confirmed command leaves in the worker's expected state.\<close>

definition accomplished :: "Mutation \<Rightarrow> execution \<Rightarrow> bool" where
  "accomplished m r =
     (let s = x_expected r in
      case m_Kind m of
        MutationKindVolume \<Rightarrow> s_Volume s = Some (m_Level m)
      | MutationKindMute \<Rightarrow> s_Muted s = Some (m_Muted m)
      | MutationKindMode \<Rightarrow> s_Repeat s = m_Repeat m \<and> s_Shuffle s = m_Shuffle m
      | MutationKindTransport \<Rightarrow> s_State s = m_State m
      | MutationKindQueue \<Rightarrow> s_State s = PlayStatePlay \<and> queueResultMatches s r
      | MutationKindRemove \<Rightarrow> s_State s = PlayStatePlay \<and> queueResultMatches s r
      | _ \<Rightarrow> True)"

definition settled :: "execution \<Rightarrow> bool" where
  "settled r \<longleftrightarrow> x_cause r = None \<and> \<not> x_unconfirmed r \<and> x_scalar r = None \<and>
     x_events r = (\<lambda>_. []) \<and> \<not> x_keepExpectations r"

lemma ownedChanges_controls:
  "ownedChanges owned a b = [] \<Longrightarrow>
     s_Volume a = s_Volume b \<and> s_Muted a = s_Muted b \<and> s_Repeat a = s_Repeat b \<and> s_Shuffle a = s_Shuffle b \<and>
     s_State a = s_State b"
  by (auto simp: ownedChanges_def stateChanges_Nil sameControls_def Let_def split: if_splits)

lemma judgeReadback_transport:
  "fst (judgeReadback p m before after deadline now cause r) = Inr True \<Longrightarrow> m_Kind m = MutationKindTransport \<Longrightarrow>
     s_State after = m_State m"
  by (auto simp: judgeReadback_def split: option.splits if_splits)

lemma readbackVerdict_transport:
  "m_Kind m = MutationKindTransport \<Longrightarrow>
     returns (readbackVerdict io p m before deadline x) (\<lambda>y w. \<forall>after. y = Some after \<longrightarrow> s_State after = m_State m)"
  unfolding readbackVerdict_def
  by (cases x) (auto simp: returns_def run_simps dest!: judgeReadback_transport split: prod.splits sum.splits if_splits)

lemma readbackLoop_transport:
  assumes "m_Kind m = MutationKindTransport"
  shows "returns (readbackLoop n io p m before deadline reuse) (\<lambda>after w. s_State after = m_State m)"
proof (induction n arbitrary: reuse)
  case 0
  show ?case by (simp add: returns_fail)
next
  case (Suc n)
  show ?case
    unfolding readbackLoop.simps
    by (auto intro!: returns_guarding returns_bind returns_if returns_fail returns_done returns_andThen
        returns_seq [OF readbackVerdict_transport [OF assms]] Suc.IH split: option.splits)
qed

lemma confirmReadback_transport:
  "m_Kind m = MutationKindTransport \<Longrightarrow> returns (confirmReadback n io p m before) (\<lambda>after w. s_State after = m_State m)"
  unfolding confirmReadback_def Let_def
  by (auto simp: scalarMutation_def intro!: returns_bind readbackLoop_transport)

lemma queueResultMatches_cong:
  "s_Queue s' = s_Queue s \<Longrightarrow> s_Media s' = s_Media s \<Longrightarrow> x_ordered r' = x_ordered r \<Longrightarrow> x_members r' = x_members r \<Longrightarrow>
     x_bounded r' = x_bounded r \<Longrightarrow> queueResultMatches s' r' = queueResultMatches s r"
  by (simp add: queueResultMatches_def queueResultProblem_run_def queueResultProblem_def split: option.splits)

lemma adoptConfirmed_accomplished:
  assumes "adoptConfirmed m expected after r = (Inr u, r')"
    and "confirmedState m fresh back q = Inr expected"
    and "m_Kind m = MutationKindVolume \<or> back = after \<and> q = r"
    and "m_Kind m = MutationKindTransport \<Longrightarrow> s_State after = m_State m"
  shows "accomplished m r' \<and> \<not> x_unconfirmed r' \<and> x_confirmed r' = x_confirmed r + 1 \<and> x_scalar r' = None \<and>
    x_events r' = (\<lambda>_. []) \<and> \<not> x_keepExpectations r'"
proof -
  from assms(1) have c: "ownedChanges (x_queueOwned r) expected after = []"
    by (auto simp: adoptConfirmed_def Let_def split: if_splits)
  from assms(1) c obtain t where r': "r' = close_window (r\<lparr>x_expected := after\<lparr>s_Token := t\<rparr>,
      x_queueOwned := x_queueOwned r \<or> (m_Kind m = MutationKindQueue \<and> x_bounded r),
      x_unconfirmed := False, x_confirmed := x_confirmed r + 1\<rparr>)"
  proof (cases "t_Generation (s_Token (x_expected r)) = t_Generation (s_Token after) \<and>
      t_Player (s_Token (x_expected r)) \<ge> t_Player (s_Token after)")
    case True
    with assms(1) c that [of "s_Token (x_expected r)"] show ?thesis by (simp add: adoptConfirmed_def Let_def)
  next
    case False
    with assms(1) c that [of "s_Token after"] show ?thesis by (auto simp: adoptConfirmed_def Let_def)
  qed
  have m: "queueResultMatches (after\<lparr>s_Token := t\<rparr>) r' = queueResultMatches after r"
    unfolding r' close_window_def by (rule queueResultMatches_cong) simp_all
  show ?thesis
    using ownedChanges_controls [OF c] assms(2,3,4) m unfolding r'
    by (cases "m_Kind m") (auto simp: accomplished_def confirmedState_def close_window_def Let_def split: if_splits)
qed

lemma confirmWrite_accomplished:
  assumes "run_state (confirmWrite n io l m fresh) w = (Inr x, w')"
  shows "accomplished m (wk_run w') \<and> settled (wk_run w')"
proof -
  obtain y w1 where y: "run_state (confirmReadback n io (ln_config l) m fresh) w = (y, w1)" by fastforce
  with assms obtain rb where rb: "y = Inr rb" by (cases y) (auto simp: confirmWrite_def run_simps)
  obtain expected where e: "confirmedState m fresh rb (wk_run w1) = Inr expected"
    using assms y rb by (cases "confirmedState m fresh rb (wk_run w1)") (auto simp: confirmWrite_def run_simps)
  have tr: "m_Kind m = MutationKindTransport \<Longrightarrow> s_State rb = m_State m"
    using returnsD [OF confirmReadback_transport] y rb by blast
  define v0 where "v0 = (if m_Kind m = MutationKindVolume
            then andThen (awaitOwnedPlayback n io (ln_config l) expected rb) (\<lambda>(after, _). done_with after)
            else done_with rb)"
  obtain z w2 where z: "run_state v0 w1 = (z, w2)" by fastforce
  with assms y rb e obtain after where after: "z = Inr after"
    by (cases z) (auto simp: confirmWrite_def run_simps v0_def)
  have same: "m_Kind m = MutationKindVolume \<or> rb = after \<and> wk_run w1 = wk_run w2"
    using z after by (auto simp: run_simps v0_def)
  obtain v r' where a: "adoptConfirmed m expected after (wk_run w2) = (v, r')" by fastforce
  from assms y rb e z after a obtain u where u: "v = Inr u" "wk_run w' = r'" "x_cause r' = None"
    by (auto simp: confirmWrite_def run_simps require_def v0_def [symmetric] split: option.splits sum.splits)
  from adoptConfirmed_accomplished [OF a [unfolded u(1)] e same] tr same u show ?thesis
    by (auto simp: settled_def)
qed

lemma writeOnce_accomplished:
  assumes "run_state (writeOnce n io l m) w = (Inr x, w')"
  shows "accomplished m (wk_run w') \<and> settled (wk_run w') \<and>
    (\<exists>sd reply. wk_sent w' = wk_sent w @ [sd] \<and> sd_answer sd = Inr reply \<and> m_Kind (sd_mutation sd) = m_Kind m)"
proof -
  have "\<exists>fresh w3. run_state (confirmWrite n io l m fresh) w3 = (Inr x, w')"
    using assms by (auto simp: writeOnce_def sendWrite_def run_simps split: prod.splits sum.splits)
  then have "accomplished m (wk_run w') \<and> settled (wk_run w')" using confirmWrite_accomplished by blast
  moreover from writeOnce_once [OF assms] obtain sd where sd: "wk_sent w' = wk_sent w @ [sd]"
    "m_Kind (sd_mutation sd) = m_Kind m"
    and a: "case sd_answer sd of Inl e \<Rightarrow> Inr x = Inl e
      | Inr _ \<Rightarrow> \<exists>fresh v. run_state (confirmWrite n io l m fresh) v = (Inr x, w') \<and> cause_kept (wk_run v) (wk_run w')"
    unfolding sent_once_def by blast
  moreover from a obtain reply where "sd_answer sd = Inr reply" by (cases "sd_answer sd") auto
  ultimately show ?thesis by blast
qed

lemma writeAttempts_accomplished:
  "run_state (writeAttempts k n io l m) w = (Inr x, w') \<Longrightarrow>
     accomplished m (wk_run w') \<and> settled (wk_run w') \<and>
     (\<exists>sd reply. wk_sent w' \<noteq> [] \<and> last (wk_sent w') = sd \<and> sd_answer sd = Inr reply \<and> m_Kind (sd_mutation sd) = m_Kind m)"
proof (induction k arbitrary: w)
  case 0
  then show ?case by (simp add: run_simps)
next
  case (Suc k)
  obtain y w1 where y: "run_state (writeOnce n io l m) w = (y, w1)" by fastforce
  show ?case
  proof (cases y)
    case (Inl e)
    with Suc.prems y Suc.IH show ?thesis by (auto simp: run_simps split: if_splits)
  next
    case (Inr u)
    with Suc.prems y have "w1 = w'" by (simp add: run_simps)
    with writeOnce_accomplished [of n io l m w u w1] y Inr show ?thesis by fastforce
  qed
qed

text \<open>
  C10. A write reports success only when the device confirmed it: whatever the device, the journal
  and the other goroutines do meanwhile, when \<open>write\<close> returns without an error, the last call of
  the writer was a command of the requested kind that was acknowledged, the worker's expected state
  has the requested volume, mute, play mode, play state or queue, the worker was not cancelled, and
  the acknowledgement window is closed: no command is unconfirmed and no expectation is left that a
  later notification could match.
\<close>

theorem write_confirmed:
  "case run_state (worker_write n io l m) w of
     (Inl e, w') \<Rightarrow> True
   | (Inr _, w') \<Rightarrow>
       (\<exists>sd reply. wk_sent w' \<noteq> [] \<and> last (wk_sent w') = sd \<and> sd_answer sd = Inr reply \<and>
          m_Kind (sd_mutation sd) = m_Kind m) \<and>
       accomplished m (wk_run w') \<and> settled (wk_run w')"
  using writeAttempts_accomplished [of 3 n io l m w]
  by (auto simp: worker_write_def split: prod.splits sum.splits)

end
