(* ===== verification/Sessions.thy ===== *)
theory Sessions
  imports Worker
begin

section \<open>Playback sessions\<close>

text \<open>
  What a playback worker does around its writes: \<open>playback.go\<close> (the start), \<open>queue_append.go\<close> (the
  parts of an ordered plan), \<open>buffered_execution.go\<close> (the refill of a bounded queue),
  \<open>progressive_skip.go\<close> (Skip commands served inside a buffered playback) and \<open>automation.go\<close> (the
  volume envelope). Every command goes through \<open>worker_write\<close>. The loops run on the fuel \<open>n\<close> they
  pass on to the waits inside them.
\<close>

text \<open>An index or nil pointer the Go runtime would panic on.\<close>

definition panic :: error where
  "panic = OtherError ''panic''"

definition idMembership :: "ID list \<Rightarrow> ID set" where
  "idMembership ids = set ids"

text \<open>\<open>append([]heos.ID(nil), ids...)\<close> is nil when nothing is appended.\<close>

definition appended :: "ID list \<Rightarrow> ID list option" where
  "appended ids = (if ids = [] then None else Some ids)"

definition next_part :: "execution \<Rightarrow> playbackPart option" where
  "next_part r =
     (case x_queueLoading r of
        None \<Rightarrow> None
      | Some q \<Rightarrow>
          if 0 \<le> ql_ConfirmedParts q \<and> nat (ql_ConfirmedParts q) < length (x_parts r)
          then Some (x_parts r ! nat (ql_ConfirmedParts q)) else None)"

subsection \<open>Parts of a plan\<close>

definition countPart :: "playbackPart \<Rightarrow> execution \<Rightarrow> execution" where
  "countPart part r =
     (let r = r\<lparr>x_queueLoading := map_option (\<lambda>q. q\<lparr>ql_ConfirmedTracks := ql_ConfirmedTracks q + int (length (part_ids part)),
                ql_ConfirmedParts := ql_ConfirmedParts q + 1\<rparr>) (x_queueLoading r)\<rparr>
      in r\<lparr>x_loading := moreParts r\<rparr>)"

definition openSession :: "execution \<Rightarrow> execution" where
  "openSession r =
     (case x_buffered r of
        None \<Rightarrow> r
      | Some b \<Rightarrow>
          if IsZero (bp_expires b)
          then let e = x_playbackStarted r + b_MaxSessionSeconds (bp_policy b) * Second
               in r\<lparr>x_buffered := Some (b\<lparr>bp_expires := e\<rparr>), x_playbackDeadline := e, x_appendUntil := e\<rparr>
          else r)"

definition confirmPart :: "'w ports \<Rightarrow> lane \<Rightarrow> ('w, unit) work" where
  "confirmPart io l = do {
     r \<leftarrow> getRun;
     if x_queueLoading r = None then done_with ()
     else case next_part r of
       None \<Rightarrow> fail panic
     | Some part \<Rightarrow> do {
         modifyRun (countPart part);
         r \<leftarrow> getRun;
         andThen
           (if x_buffered r = None then done_with False
            else do { modifyRun openSession; lockRun updateBufferedProgress })
           (\<lambda>_. transition io l (running ''queue_loading''))
       }
   }"

definition aimAt :: "ID list option \<Rightarrow> execution \<Rightarrow> execution" where
  "aimAt ids r = r\<lparr>x_ordered := ids, x_members := idMembership (case ids of None \<Rightarrow> [] | Some xs \<Rightarrow> xs)\<rparr>"

text \<open>A write with the target queue set before it and restored when it failed.\<close>

definition writeAimed :: "nat \<Rightarrow> 'w ports \<Rightarrow> lane \<Rightarrow> ID list option \<Rightarrow> Mutation \<Rightarrow> ('w, unit) work" where
  "writeAimed n io l ids m = do {
     r \<leftarrow> getRun;
     modifyRun (aimAt ids);
     x \<leftarrow> worker_write n io l m;
     case x of
       Inl e \<Rightarrow> do { modifyRun (aimAt (x_ordered r)); fail e }
     | Inr _ \<Rightarrow> done_with ()
   }"

definition appendNext :: "nat \<Rightarrow> 'w ports \<Rightarrow> lane \<Rightarrow> ('w, unit) work" where
  "appendNext n io l = do {
     r \<leftarrow> getRun;
     case next_part r of
       None \<Rightarrow> fail panic
     | Some part \<Rightarrow>
         andThen (writeAimed n io l (appended (ordered_ids r @ part_ids part))
             (zeroMutation\<lparr>m_Kind := MutationKindQueue, m_Item := pt_Item part, m_Append := True\<rparr>))
           (\<lambda>_. confirmPart io l)
   }"

fun loadParts :: "nat \<Rightarrow> 'w ports \<Rightarrow> lane \<Rightarrow> ('w, unit) work" where
  "loadParts 0 io l = fail outOfFuel"
| "loadParts (Suc n) io l = do {
     r \<leftarrow> getRun;
     if \<not> moreParts r then done_with ()
     else andThen (checkJournal io) (\<lambda>_. andThen (appendNext n io l) (\<lambda>_. loadParts n io l))
   }"

subsection \<open>Start of a playback\<close>

definition startSteps :: "Command \<Rightarrow> Item \<Rightarrow> Mutation list" where
  "startSteps cmd item =
     [zeroMutation\<lparr>m_Kind := MutationKindVolume, m_Level := c_Level cmd\<rparr>,
      zeroMutation\<lparr>m_Kind := MutationKindMode, m_Repeat := c_Repeat cmd, m_Shuffle := c_Shuffle cmd\<rparr>,
      zeroMutation\<lparr>m_Kind := MutationKindMute, m_Muted := False\<rparr>,
      zeroMutation\<lparr>m_Kind := MutationKindQueue, m_Item := item\<rparr>]"

fun writeAllSteps :: "nat \<Rightarrow> 'w ports \<Rightarrow> lane \<Rightarrow> Mutation list \<Rightarrow> ('w, unit) work" where
  "writeAllSteps n io l [] = done_with ()"
| "writeAllSteps n io l (m # ms) = andThen (worker_write n io l m) (\<lambda>_. writeAllSteps n io l ms)"

definition stopMutation :: Mutation where
  "stopMutation = zeroMutation\<lparr>m_Kind := MutationKindTransport, m_State := PlayStateStop\<rparr>"

definition startPlayback :: "nat \<Rightarrow> 'w ports \<Rightarrow> lane \<Rightarrow> Command \<Rightarrow> Item \<Rightarrow> ('w, unit) work" where
  "startPlayback n io l cmd item = do {
     r \<leftarrow> getRun;
     andThen (if s_State (x_expected r) = PlayStatePlay then worker_write n io l stopMutation else done_with ())
       (\<lambda>_. andThen (writeAllSteps n io l (startSteps cmd item)) (\<lambda>_. do {
          now \<leftarrow> call (io_now io);
          modifyRun (\<lambda>r. r\<lparr>x_playbackStarted := now\<rparr>);
          confirmPart io l
        }))
   }"

subsection \<open>Ownership checks between commands\<close>

definition checkOwnership :: "nat \<Rightarrow> 'w ports \<Rightarrow> lane \<Rightarrow> ('w, unit) work" where
  "checkOwnership n io l =
     andThen (reconcileOwned io) (\<lambda>fresh. do {
       r \<leftarrow> getRun;
       let before = x_expected r;
       andThen (awaitOwnedPlayback n io (ln_config l) before fresh) (\<lambda>(fresh, _).
         case deviceSafety (ln_config l) fresh of
           Some e \<Rightarrow> fail (if errors_Is e ErrGrouped then OwnershipError ''grouped_target'' [] else e)
         | None \<Rightarrow> do {
             changes \<leftarrow> lockRun (adoptFresh before fresh);
             if changes \<noteq> [] then fail (ownershipMismatch ''active_state_changed'' changes)
             else guarding runCause (done_with ())
           })
     })"

text \<open>The separate cadence of the journal check: the time of the next one.\<close>

definition journalDue :: "'w ports \<Rightarrow> time \<Rightarrow> time \<Rightarrow> ('w, time) work" where
  "journalDue io now nextJournal =
     (if \<not> now < nextJournal
      then andThen (checkJournal io) (\<lambda>_. do { now \<leftarrow> call (io_now io); done_with (now + Second) })
      else done_with nextJournal)"

subsection \<open>Preparation of a buffered part\<close>

text \<open>\<open>ctx.Err()\<close> of a derived context.\<close>

definition ctxErr :: "'w ports \<Rightarrow> ('w worker, error option) state" where
  "ctxErr io = do {
     c \<leftarrow> ctxCause io DeadlineExceeded;
     State_Monad.return (map_option (\<lambda>e. if e = DeadlineExceeded then DeadlineExceeded else Canceled) c)
   }"

definition currentCatalog :: "playbackPart \<Rightarrow> View \<Rightarrow> bool" where
  "currentCatalog part view \<longleftrightarrow> v_Connected view \<and> sameCatalog (pt_CatalogToken part) (v_Token view)"

definition part_track :: "playbackPart \<Rightarrow> Item \<Rightarrow> bool" where
  "part_track part i \<longleftrightarrow>
     (it_Source i = [] \<or> it_Source i = it_Source (pt_Item part)) \<and> it_Container i \<noteq> ''yes'' \<and> playable_track i"

text \<open>
  The caller's context is given by its two readings: \<open>context.Cause\<close> of the context itself and
  \<open>Err\<close> of the one derived from it with the timeout of the read.
\<close>

definition prepareBufferedPart ::
  "'w ports \<Rightarrow> ('w worker, error option) state \<Rightarrow> ('w worker, error option) state \<Rightarrow> playbackPart \<Rightarrow> ('w, playbackPart) work" where
  "prepareBufferedPart io cause err part = do {
     view \<leftarrow> call (io_clientView io);
     if \<not> currentCatalog part view then fail ErrStaleReference
     else if pt_IDs part \<noteq> None then guarding cause (done_with part)
     else andThen
       (if it_Container (pt_Item part) = ''yes''
        then call (io_browseAll io (it_Source (pt_Item part)) (it_ContainerID (pt_Item part)))
        else done_with [pt_Item part])
       (\<lambda>tracks.
         if int (length tracks) \<noteq> pt_Count part \<or> \<not> list_all (part_track part) tracks then fail ErrBounds
         else do {
           view \<leftarrow> call (io_clientView io);
           guarding err
             (if \<not> currentCatalog part view then fail ErrStaleReference
              else done_with (part\<lparr>pt_IDs := Some (map it_MediaID tracks)\<rparr>))
         })
   }"

definition storePart :: "playbackPart \<Rightarrow> execution \<Rightarrow> execution" where
  "storePart part r =
     (case x_queueLoading r of
        None \<Rightarrow> r
      | Some q \<Rightarrow> r\<lparr>x_parts := (x_parts r)[nat (ql_ConfirmedParts q) := part]\<rparr>)"

subsection \<open>One maintenance step of a buffered queue\<close>

definition countPruned :: "int \<Rightarrow> execution \<Rightarrow> execution" where
  "countPruned k r = r\<lparr>x_buffered := map_option (\<lambda>b. b\<lparr>bp_pruned := bp_pruned b + k\<rparr>) (x_buffered r)\<rparr>"

definition pruneBuffered :: "nat \<Rightarrow> 'w ports \<Rightarrow> lane \<Rightarrow> nat \<Rightarrow> QueuePage \<Rightarrow> ('w, unit) work" where
  "pruneBuffered n io l k before = do {
     r \<leftarrow> getRun;
     andThen (writeAimed n io l (appended (drop k (ordered_ids r)))
         (zeroMutation\<lparr>m_Kind := MutationKindRemove, m_QueueIDs := map md_QueueID (take k (q_Items before))\<rparr>))
       (\<lambda>_. do {
         modifyRun (countPruned (int k));
         andThen (lockRun updateBufferedProgress) (\<lambda>_. transition io l (running ''queue_loading''))
       })
   }"

text \<open>The decision of \<open>bufferedStep\<close> once the next part is prepared.\<close>

definition bufferedMove :: "nat \<Rightarrow> 'w ports \<Rightarrow> lane \<Rightarrow> BufferedPlayback \<Rightarrow> Snapshot \<Rightarrow> nat \<Rightarrow> playbackPart \<Rightarrow> ('w, bool) work" where
  "bufferedMove n io l policy s position part = do {
     modifyRun (storePart part);
     case bufferedRoom policy (int (length (q_Items (s_Queue s)))) (int position) (pt_Count part) of
       bufferedPrune k \<Rightarrow> andThen (pruneBuffered n io l (nat k) (s_Queue s)) (\<lambda>_. done_with True)
     | bufferedAppend \<Rightarrow> andThen (appendNext n io l) (\<lambda>_. done_with True)
     | _ \<Rightarrow> fail errBufferedCapacity
   }"

definition windowClosed :: "'w ports \<Rightarrow> time \<Rightarrow> ('w worker, bool) state" where
  "windowClosed io until =
     (if IsZero until then State_Monad.return False
      else do { now \<leftarrow> call (io_now io); State_Monad.return (\<not> now < until) })"

definition bufferedStep :: "nat \<Rightarrow> 'w ports \<Rightarrow> lane \<Rightarrow> ('w, bool) work" where
  "bufferedStep n io l = do {
     r \<leftarrow> getRun;
     if \<not> moreParts r then done_with False
     else case x_buffered r of
       None \<Rightarrow> fail panic
     | Some b \<Rightarrow> do {
         now \<leftarrow> call (io_now io);
         if \<not> now < bp_expires b then fail errBufferedSessionExpired
         else do {
           closed \<leftarrow> windowClosed io (x_appendUntil r);
           if closed then done_with False
           else do {
             r \<leftarrow> getRun;
             case (bufferedPosition (x_expected r) (ordered_ids r), next_part r) of
               (Inl e, _) \<Rightarrow> fail e
             | (Inr position, next) \<Rightarrow>
                 if \<not> bufferedRefill (bp_policy b) (int (length (q_Items (s_Queue (x_expected r))))) (int position)
                 then done_with False
                 else case next of
                   None \<Rightarrow> fail panic
                 | Some part \<Rightarrow>
                     andThen (prepareBufferedPart io runCause (ctxErr io) part) (bufferedMove n io l (bp_policy b) (x_expected r) position)
           }
         }
       }
   }"

subsection \<open>Skip commands inside a buffered playback\<close>

definition takeSkip :: "('w worker, bufferedSkip option) state" where
  "takeSkip = State (\<lambda>w. case wk_skip w of
     None \<Rightarrow> (None, w)
   | Some child \<Rightarrow>
       if \<not> bs_ready child \<or> wk_skipsClosed w then (None, w)
       else (Some child, w\<lparr>wk_skip := Some (child\<lparr>bs_ready := False\<rparr>)\<rparr>))"

definition storeSkip :: "bufferedSkip \<Rightarrow> ('w worker, unit) state" where
  "storeSkip child = State (\<lambda>w. ((), w\<lparr>wk_skip := Some child\<rparr>))"

definition spawn :: "spawned \<Rightarrow> ('w worker, unit) state" where
  "spawn sp = State (\<lambda>w. ((), w\<lparr>wk_spawned := wk_spawned w @ [sp]\<rparr>))"

text \<open>
  The child's journal record and the write. The child keeps the operation its journal record
  returned, also when the write after it failed.
\<close>

definition recordSkip :: "'w ports \<Rightarrow> lane \<Rightarrow> bufferedSkip \<Rightarrow> ('w, bufferedSkip) work" where
  "recordSkip io l child =
     guarding runCause (andThen (checkJournal io) (\<lambda>_.
       case bs_op child of
         None \<Rightarrow> fail panic
       | Some op \<Rightarrow> andThen (commitUpdate io l op (running ''sending_skip'')) (\<lambda>op'. do {
           let child = child\<lparr>bs_op := Some op', bs_ready := False\<rparr>;
           storeSkip child;
           done_with child
         })))"

definition sendSkip :: "nat \<Rightarrow> 'w ports \<Rightarrow> lane \<Rightarrow> bufferedSkip \<Rightarrow> ('w worker, error option \<times> bufferedSkip) state" where
  "sendSkip n io l child = do {
     x \<leftarrow> recordSkip io l child;
     case x of
       Inl e \<Rightarrow> State_Monad.return (Some e, child)
     | Inr child \<Rightarrow> do {
         y \<leftarrow> worker_write n io l (zeroMutation\<lparr>m_Kind := MutationKindSkip, m_Direction := bs_direction child\<rparr>);
         State_Monad.return (case y of Inl e \<Rightarrow> Some e | Inr _ \<Rightarrow> None, child)
       }
   }"

definition skipFailure :: "error \<Rightarrow> bool \<Rightarrow> JState \<times> string \<times> string" where
  "skipFailure e stopping =
     (if errors_Is e ErrNotSkippable then (Failed, ''not_skippable'', ''not_sent'')
      else if errors_Is e errJournalUnavailable then (Failed, ''journal_unavailable'', ''not_sent'')
      else if stopping then (Interrupted, ''service_stopping'', ''not_sent'')
      else if errors_Is e ErrOwnership \<or> errors_Is e errSuperseded \<or> errors_Is e Canceled \<or>
              errors_Is e errPlaybackTimelineChanged
      then (Released, ''ownership_revoked'', ''not_sent'')
      else if errors_Is e ErrRejected then (Failed, ''device_rejected'', ''rejected'')
      else (Failed, ''device_unavailable'', ''not_sent''))"

definition skipCompletion :: "error option \<Rightarrow> bool \<Rightarrow> int \<Rightarrow> bool \<Rightarrow> JState \<times> string \<times> string" where
  "skipCompletion err stopping count uncertain =
     (case err of
        None \<Rightarrow> (Succeeded, [], ''confirmed'')
      | Some e \<Rightarrow>
          (case skipFailure e stopping of
             (state, errorCode, delivery) \<Rightarrow>
               if uncertain then (OpUncertain, errorCode, ''unknown'')
               else (state, errorCode, if 0 < count then ''confirmed'' else delivery)))"

definition outcomeText :: "string \<Rightarrow> bool \<Rightarrow> int option \<Rightarrow> string" where
  "outcomeText delivery mayContinue count =
     ''{\"delivery\":\"'' @ delivery @ ''\",\"playback_may_continue\":'' @
     (if mayContinue then ''true'' else ''false'') @
     (case count of None \<Rightarrow> [] | Some k \<Rightarrow> '',\"commands_confirmed\":'' @ Itoa k) @ ''}''"

definition skipUpdate :: "JState \<times> string \<times> string \<Rightarrow> int \<Rightarrow> Update" where
  "skipUpdate x count =
     (case x of (state, errorCode, delivery) \<Rightarrow>
        \<lparr>u_State = state, u_Phase = ''complete'', u_Progress = None,
         u_Outcome = Some (outcomeText delivery True (Some count)), u_ErrorCode = errorCode\<rparr>)"

definition serviceBufferedSkip :: "nat \<Rightarrow> 'w ports \<Rightarrow> lane \<Rightarrow> ('w, bool) work" where
  "serviceBufferedSkip n io l = do {
     taken \<leftarrow> takeSkip;
     r0 \<leftarrow> getRun;
     case taken of
       None \<Rightarrow> done_with False
     | Some child \<Rightarrow> do {
         x \<leftarrow> sendSkip n io l child;
         r \<leftarrow> getRun;
         let count = x_confirmed r - x_confirmed r0;
         stopping \<leftarrow> call (io_stopping io);
         spawn (FinishSkip (snd x) (skipUpdate (skipCompletion (fst x) stopping count (x_uncertain r \<or> x_unconfirmed r)) count));
         case fst x of
           None \<Rightarrow> done_with True
         | Some e \<Rightarrow>
             if errors_Is e ErrNotSkippable \<or> errors_Is e errPlaybackTimelineChanged then done_with True
             else fail e
       }
   }"

definition closeBufferedSkips :: "('w worker, unit) state" where
  "closeBufferedSkips = do {
     State (\<lambda>w. ((), w\<lparr>wk_skipsClosed := True\<rparr>));
     child \<leftarrow> State (\<lambda>w. (wk_skip w, w));
     case child of
       None \<Rightarrow> State_Monad.return ()
     | Some child \<Rightarrow>
         if \<not> bs_ready child then State_Monad.return ()
         else do {
           storeSkip (child\<lparr>bs_ready := False\<rparr>);
           spawn (FinishSkip (child\<lparr>bs_ready := False\<rparr>) skipRevoked)
         }
   }"

subsection \<open>The refill loop\<close>

definition dueOwnership :: "'w ports \<Rightarrow> ('w worker, bool) state" where
  "dueOwnership io = do {
     r \<leftarrow> getRun;
     let pending = observationPending r;
     now1 \<leftarrow> call (io_now io);
     now2 \<leftarrow> call (io_now io);
     s \<leftarrow> call (io_snapshot io);
     State_Monad.return
       ((\<not> pending \<or> Sub now1 (x_lastReadAttempt r) \<ge> observationEventSpacing) \<and>
        (pending \<or> Sub now2 (x_lastRead r) \<ge> activeObservationInterval \<or> s_ObservedAt s > x_observedAt r))
   }"

text \<open>
  Progress and one maintenance step, when every event is covered by a read: \<open>True\<close> when the caller
  has to recompute its position.
\<close>

definition maintain :: "nat \<Rightarrow> 'w ports \<Rightarrow> lane \<Rightarrow> string \<Rightarrow> ('w, bool) work" where
  "maintain n io l phase = do {
     r \<leftarrow> getRun;
     if observationPending r then done_with False
     else andThen (lockRun updateBufferedProgress) (\<lambda>changed.
       andThen (if changed then transition io l (running phase) else done_with ()) (\<lambda>_. do {
         x \<leftarrow> bufferedStep n io l;
         case x of
           Inl e \<Rightarrow> if errors_Is e errPlaybackTimelineChanged then done_with True else fail e
         | Inr acted \<Rightarrow> done_with acted
       }))
   }"

definition bufferedWait :: "'w ports \<Rightarrow> time \<Rightarrow> ('w worker, error option) state" where
  "bufferedWait io nextJournal = do {
     r \<leftarrow> getRun;
     let next = minTime nextJournal (case x_buffered r of None \<Rightarrow> nextJournal | Some b \<Rightarrow> bp_expires b);
     let next = (if observationPending r then minTime next (x_lastReadAttempt r + observationEventSpacing) else next);
     now \<leftarrow> call (io_now io);
     call (io_wait io (max 0 (Sub next now)) True)
   }"

fun loadBuffered :: "nat \<Rightarrow> 'w ports \<Rightarrow> lane \<Rightarrow> time \<Rightarrow> ('w, unit) work" where
  "loadBuffered 0 io l nextJournal = fail outOfFuel"
| "loadBuffered (Suc n) io l nextJournal = do {
     r \<leftarrow> getRun;
     if \<not> moreParts r then done_with ()
     else guarding runCause (do {
       now \<leftarrow> call (io_now io);
       case x_buffered r of
         None \<Rightarrow> fail panic
       | Some b \<Rightarrow>
           if \<not> now < bp_expires b then fail errBufferedSessionExpired
           else andThen (journalDue io now nextJournal) (\<lambda>nextJournal.
             andThen (serviceBufferedSkip n io l) (\<lambda>handled.
               if handled then loadBuffered n io l nextJournal
               else do {
                 due \<leftarrow> dueOwnership io;
                 andThen (if due then checkOwnership n io l else done_with ()) (\<lambda>_.
                   andThen (maintain n io l ''playing'') (\<lambda>acted.
                     if acted then loadBuffered n io l nextJournal
                     else guarding (bufferedWait io nextJournal) (loadBuffered n io l nextJournal)))
               }))
     })
   }"

definition loadRemaining :: "nat \<Rightarrow> 'w ports \<Rightarrow> lane \<Rightarrow> ('w, unit) work" where
  "loadRemaining n io l = do {
     r \<leftarrow> getRun;
     if x_buffered r \<noteq> None
     then do { now \<leftarrow> call (io_now io); loadBuffered n io l now }
     else loadParts n io l
   }"

subsection \<open>The volume envelope\<close>

record envelope_run_state =
  ev_last :: int
  ev_fadeFrom :: int
  ev_phase :: string
  ev_nextJournal :: time

definition enterPhase :: "'w ports \<Rightarrow> lane \<Rightarrow> string \<Rightarrow> string \<Rightarrow> ('w, unit) work" where
  "enterPhase io l phase nextPhase =
     (if nextPhase \<noteq> phase then transition io l (running nextPhase) else done_with ())"

definition setLevel :: "int \<Rightarrow> execution \<Rightarrow> execution" where
  "setLevel level r = r\<lparr>x_progress := map_option (\<lambda>p. p\<lparr>pp_Level := level\<rparr>) (x_progress r)\<rparr>"

definition setElapsed :: "Automation \<Rightarrow> duration \<Rightarrow> execution \<Rightarrow> execution" where
  "setElapsed a elapsed r = r\<lparr>x_progress := map_option (\<lambda>p. p\<lparr>pp_ElapsedSeconds := elapsedSeconds a elapsed\<rparr>) (x_progress r)\<rparr>"

text \<open>
  The write of the current level. \<open>False\<close> when the timeline changed before it was sent: nothing
  was written and the level has to be recomputed.
\<close>

definition writeLevel :: "nat \<Rightarrow> 'w ports \<Rightarrow> lane \<Rightarrow> int \<Rightarrow> int \<Rightarrow> string \<Rightarrow> ('w, bool) work" where
  "writeLevel n io l level lst phase =
     (if level = lst then done_with True
      else do {
        x \<leftarrow> worker_write n io l (zeroMutation\<lparr>m_Kind := MutationKindVolume, m_Level := level\<rparr>);
        case x of
          Inl e \<Rightarrow> if errors_Is e errPlaybackTimelineChanged then done_with False else fail e
        | Inr _ \<Rightarrow> do {
            modifyRun (setLevel level);
            andThen (transition io l (running phase)) (\<lambda>_. done_with True)
          }
      })"

definition endEnvelope :: "nat \<Rightarrow> 'w ports \<Rightarrow> lane \<Rightarrow> ('w, unit) work" where
  "endEnvelope n io l =
     andThen (worker_write n io l stopMutation) (\<lambda>_. do {
       r \<leftarrow> getRun;
       if moreParts r \<and> x_buffered r = None then fail errQueueLoadingIncomplete else done_with ()
     })"

text \<open>What a tick does for the queue; \<open>True\<close> when the caller has to recompute the envelope.\<close>

definition tendQueue :: "nat \<Rightarrow> 'w ports \<Rightarrow> lane \<Rightarrow> string \<Rightarrow> ('w, bool) work" where
  "tendQueue n io l phase = do {
     r \<leftarrow> getRun;
     if x_buffered r \<noteq> None
     then andThen (serviceBufferedSkip n io l) (\<lambda>handled.
       if handled then done_with True else maintain n io l phase)
     else do {
       closed \<leftarrow> (do { now \<leftarrow> call (io_now io); State_Monad.return (\<not> now < x_appendUntil r) });
       if moreParts r \<and> \<not> closed
       then do {
         x \<leftarrow> appendNext n io l;
         case x of
           Inl e \<Rightarrow> if errors_Is e errPlaybackTimelineChanged then done_with True else fail e
         | Inr _ \<Rightarrow> done_with True
       }
       else done_with False
     }
   }"

definition dueAudit :: "'w ports \<Rightarrow> ('w worker, bool) state" where
  "dueAudit io = do {
     now1 \<leftarrow> call (io_now io);
     r \<leftarrow> getRun;
     now2 \<leftarrow> call (io_now io);
     State_Monad.return
       (Sub now1 (x_lastRead r) \<ge> activeObservationInterval \<or>
        (observationPending r \<and> Sub now2 (x_lastRead r) \<ge> observationEventSpacing))
   }"

fun automateLoop :: "nat \<Rightarrow> 'w ports \<Rightarrow> lane \<Rightarrow> Automation \<Rightarrow> time \<Rightarrow> int \<Rightarrow> envelope_run_state \<Rightarrow> ('w, unit) work" where
  "automateLoop 0 io l a began initial ev = fail outOfFuel"
| "automateLoop (Suc n) io l a began initial ev =
     guarding runCause (do {
       now \<leftarrow> call (io_now io);
       andThen (journalDue io now (ev_nextJournal ev)) (\<lambda>nextJournal. do {
         now \<leftarrow> call (io_now io);
         let elapsed = max 0 (Sub now began);
         modifyRun (setElapsed a elapsed);
         case envelope a initial (ev_last ev) (ev_fadeFrom ev) elapsed of
           (level, nextPhase, fadeFrom) \<Rightarrow> do {
             let ev = ev\<lparr>ev_fadeFrom := fadeFrom, ev_nextJournal := nextJournal\<rparr>;
             due \<leftarrow> dueAudit io;
             if level = ev_last ev \<and> elapsed < duration_of a \<and> due
             then andThen (checkOwnership n io l) (\<lambda>_. automateLoop n io l a began initial ev)
             else andThen (enterPhase io l (ev_phase ev) nextPhase) (\<lambda>_. do {
               let ev = ev\<lparr>ev_phase := nextPhase\<rparr>;
               andThen (writeLevel n io l level (ev_last ev) nextPhase) (\<lambda>written.
                 if \<not> written then automateLoop n io l a began initial ev
                 else do {
                   let ev = ev\<lparr>ev_last := level\<rparr>;
                   if elapsed \<ge> duration_of a then endEnvelope n io l
                   else andThen (tendQueue n io l nextPhase) (\<lambda>acted.
                     if acted then automateLoop n io l a began initial (ev\<lparr>ev_phase := []\<rparr>)
                     else guarding (call (io_wait io (min (250 * Millisecond) (duration_of a - elapsed)) True))
                       (automateLoop n io l a began initial ev))
                 })
             })
           }
       })
     })"

definition openEnvelope :: "Automation \<Rightarrow> execution \<Rightarrow> execution" where
  "openEnvelope a r =
     (let began = x_playbackStarted r in
      r\<lparr>x_automating := True, x_playbackDeadline := began + duration_of a,
        x_appendUntil := began + (duration_of a - fade_of a),
        x_progress := Some \<lparr>pp_PlaybackStartedAt = began, pp_StopAt = began + duration_of a, pp_ElapsedSeconds = 0,
          pp_Level = the (s_Volume (x_expected r))\<rparr>\<rparr>)"

definition automate :: "nat \<Rightarrow> 'w ports \<Rightarrow> lane \<Rightarrow> Automation \<Rightarrow> ('w, unit) work" where
  "automate n io l a = do {
     r \<leftarrow> getRun;
     case s_Volume (x_expected r) of
       None \<Rightarrow> fail panic
     | Some initial \<Rightarrow> do {
         modifyRun (openEnvelope a);
         x \<leftarrow> automateLoop n io l a (x_playbackStarted r) initial
           \<lparr>ev_last = initial, ev_fadeFrom = -1, ev_phase = [], ev_nextJournal = x_playbackStarted r\<rparr>;
         modifyRun (\<lambda>r. r\<lparr>x_automating := False\<rparr>);
         State_Monad.return x
       }
   }"

end
