(* ===== verification/Execute.thy ===== *)
theory Execute
  imports Sessions
begin

section \<open>A worker from start to end\<close>

text \<open>
  \<open>execute\<close> of \<open>execution.go\<close>: the command, the classification of its result, the final journal
  record and the journal-only retries, with \<open>persistByID\<close> and \<open>finishOrphan\<close> of \<open>coordinator.go\<close>,
  \<open>persistBufferedSkip\<close> of \<open>progressive_skip.go\<close> and the completion reasons of
  \<open>completion_diagnostics.go\<close>. Then the lemmas about everything a worker does in its life.
\<close>

subsection \<open>The command\<close>

definition executeBudget :: "Command \<Rightarrow> execution \<Rightarrow> duration" where
  "executeBudget cmd r =
     (c_FadeSeconds cmd + 30) * Second +
     (case c_Automation cmd of
        Some a \<Rightarrow> duration_of a
      | None \<Rightarrow>
          (case x_buffered r of
             Some b \<Rightarrow> b_MaxSessionSeconds (bp_policy b) * Second + playbackConfirmationTimeout
           | None \<Rightarrow> int (length (x_parts r)) * playbackConfirmationTimeout))"

fun fadeLoop :: "nat \<Rightarrow> 'w ports \<Rightarrow> lane \<Rightarrow> int \<Rightarrow> int \<Rightarrow> time \<Rightarrow> int \<Rightarrow> ('w, unit) work" where
  "fadeLoop 0 io l fade start began lst = fail outOfFuel"
| "fadeLoop (Suc n) io l fade start began lst = do {
     now \<leftarrow> call (io_now io);
     let elapsed = Sub now began;
     let level = fadeLevel start fade elapsed;
     andThen (if level < lst then worker_write n io l (zeroMutation\<lparr>m_Kind := MutationKindVolume, m_Level := level\<rparr>)
              else done_with ())
       (\<lambda>_. if elapsed \<ge> fade * Second then done_with ()
            else guarding (call (io_wait io (100 * Millisecond) False))
              (fadeLoop n io l fade start began (if level < lst then level else lst)))
   }"

definition stopPlayback :: "nat \<Rightarrow> 'w ports \<Rightarrow> lane \<Rightarrow> Command \<Rightarrow> ('w, unit) work" where
  "stopPlayback n io l cmd = do {
     r \<leftarrow> getRun;
     case s_Volume (x_expected r) of
       None \<Rightarrow> fail panic
     | Some start \<Rightarrow> do {
         began \<leftarrow> call (io_now io);
         andThen (if c_FadeSeconds cmd > 0 then fadeLoop n io l (c_FadeSeconds cmd) start began start else done_with ())
           (\<lambda>_. worker_write n io l stopMutation)
       }
   }"

definition executeCommand :: "nat \<Rightarrow> 'w ports \<Rightarrow> lane \<Rightarrow> Command \<Rightarrow> Item \<Rightarrow> ('w, unit) work" where
  "executeCommand n io l cmd item =
     (case c_Kind cmd of
        CommandKindVolume \<Rightarrow> worker_write n io l (zeroMutation\<lparr>m_Kind := MutationKindVolume, m_Level := c_Level cmd\<rparr>)
      | CommandKindMute \<Rightarrow> worker_write n io l (zeroMutation\<lparr>m_Kind := MutationKindMute, m_Muted := c_Muted cmd\<rparr>)
      | CommandKindTransport \<Rightarrow> worker_write n io l (zeroMutation\<lparr>m_Kind := MutationKindTransport, m_State := c_State cmd\<rparr>)
      | CommandKindSkip \<Rightarrow> worker_write n io l (zeroMutation\<lparr>m_Kind := MutationKindSkip, m_Direction := c_Direction cmd\<rparr>)
      | CommandKindPlayback \<Rightarrow>
          andThen (startPlayback n io l cmd item) (\<lambda>_.
            case c_Automation cmd of Some a \<Rightarrow> automate n io l a | None \<Rightarrow> loadRemaining n io l)
      | CommandKindStop \<Rightarrow> stopPlayback n io l cmd
      | CommandKindCancel \<Rightarrow> if c_Mode cmd = ''release'' then done_with () else stopPlayback n io l cmd
      | CommandKindAbsent \<Rightarrow> fail ErrBounds)"

subsection \<open>The result\<close>

text \<open>State, error code and delivery of the final record.\<close>

definition failure :: "error \<Rightarrow> error option \<Rightarrow> bool \<Rightarrow> bool \<Rightarrow> JState \<times> string \<times> string" where
  "failure e cause stopping uncertain =
     (let (state, ecode, outcome) = (Failed, ''device_unavailable'', ''not_sent'');
          (state, ecode) = (if stopping then (Interrupted, ''service_stopping'') else (state, ecode));
          (state, ecode) =
            (if errors_Is e ErrOwnership \<or> (case cause of Some c \<Rightarrow> errors_Is c ErrOwnership | None \<Rightarrow> False)
             then (Released, ''ownership_lost'') else (state, ecode));
          (state, outcome) = (if uncertain then (OpUncertain, ''unknown'') else (state, outcome));
          (ecode, outcome) = (if errors_Is e ErrRejected then (''device_rejected'', ''rejected'') else (ecode, outcome));
          (state, ecode, outcome) =
            (if errors_Is e errBufferedSessionExpired then (Released, ''session_expired'', ''confirmed'')
             else (state, ecode, outcome));
          ecode = (if errors_Is e errBufferedCapacity then ''buffer_capacity'' else ecode);
          (ecode, outcome) =
            (if errors_Is e errQueueLoadingIncomplete then (''queue_loading_incomplete'', ''confirmed'')
             else (ecode, outcome));
          ecode = (if errors_Is e ErrNotSkippable then ''not_skippable'' else ecode);
          ecode = (if errors_Is e errJournalUnavailable \<and> \<not> stopping then ''journal_unavailable'' else ecode)
      in (state, ecode, outcome))"

definition completion :: "error option \<Rightarrow> error option \<Rightarrow> bool \<Rightarrow> bool \<Rightarrow> JState \<times> string \<times> string" where
  "completion err cause stopping uncertain =
     (case err of None \<Rightarrow> (Succeeded, [], ''confirmed'') | Some e \<Rightarrow> failure e cause stopping uncertain)"

text \<open>
  \<open>completionCause\<close> keeps a transition timeout, then prefers the ownership error that cancelled the
  worker; \<open>evidenceFor\<close> takes the reason of the first ownership error of the chain.
\<close>

definition completionCause :: "error option \<Rightarrow> error \<Rightarrow> error" where
  "completionCause cause e =
     (if errors_Is e errQueueTransitionTimeout then e
      else case cause of
             Some c \<Rightarrow> if as_OwnershipError c \<noteq> None then c else e
           | None \<Rightarrow> e)"

fun as_DeviceError :: "error \<Rightarrow> int option" where
  "as_DeviceError (DeviceError n) = Some n"
| "as_DeviceError (CommandError d c) = as_DeviceError c"
| "as_DeviceError (diagnosticError c r) = as_DeviceError c"
| "as_DeviceError (Wrapped a b) = (case as_DeviceError a of Some n \<Rightarrow> Some n | None \<Rightarrow> as_DeviceError b)"
| "as_DeviceError _ = None"

definition completionReason :: "error option \<Rightarrow> error option \<Rightarrow> string \<Rightarrow> bool \<Rightarrow> string" where
  "completionReason err cause ecode unconfirmed =
     (case err of
        None \<Rightarrow> ''completed''
      | Some e \<Rightarrow>
          (let c = completionCause cause e in
           case as_OwnershipError c of
             Some (reason, _) \<Rightarrow> reason
           | None \<Rightarrow>
               (case as_DeviceError c of
                  Some k \<Rightarrow> DeviceError_Reason k
                | None \<Rightarrow>
                    if ecode = ''device_unavailable'' \<and> errors_Is e DeadlineExceeded
                    then if unconfirmed then ''confirmation_timeout'' else ''command_timeout''
                    else if ecode \<noteq> [] then ecode else ''device_unavailable'')))"

definition mayContinue :: "JState \<Rightarrow> execution \<Rightarrow> bool" where
  "mayContinue state r \<longleftrightarrow> s_State (x_expected r) \<noteq> PlayStateStop \<or> state \<noteq> Succeeded"

definition finalUpdate :: "lane \<Rightarrow> error option \<Rightarrow> bool \<Rightarrow> execution \<Rightarrow> Update" where
  "finalUpdate l err stopping r =
     (case completion err (x_cause r) stopping (x_uncertain r \<or> x_unconfirmed r) of
        (state, ecode, outcome) \<Rightarrow>
          \<lparr>u_State = state, u_Phase = ''complete'', u_Progress = None,
           u_Outcome = Some (ln_annotate l (outcomeText outcome (mayContinue state r) (Some (x_confirmed r)))
             (completionReason err (x_cause r) ecode (x_unconfirmed r))),
           u_ErrorCode = ecode\<rparr>)"

text \<open>The record of a cancelled target: the state of the cancellation unless it succeeded.\<close>

definition targetUpdate :: "error option \<Rightarrow> bool \<Rightarrow> execution \<Rightarrow> Update" where
  "targetUpdate err stopping r =
     (case completion err (x_cause r) stopping (x_uncertain r \<or> x_unconfirmed r) of
        (state, ecode, outcome) \<Rightarrow>
          \<lparr>u_State = (if state \<noteq> Succeeded then state else Cancelled), u_Phase = ''cancelled'', u_Progress = None,
           u_Outcome = Some (outcomeText outcome (mayContinue state r) None), u_ErrorCode = ecode\<rparr>)"

subsection \<open>Journal-only reconciliation\<close>

definition targetReason :: "Update \<Rightarrow> string" where
  "targetReason u =
     (if u_Phase u = ''cancelled'' then if u_State u \<noteq> Cancelled then ''cancellation_failed'' else ''cancelled''
      else ''handoff_failed'')"

definition targetOutcome :: "lane \<Rightarrow> Operation \<Rightarrow> Update \<Rightarrow> string" where
  "targetOutcome l op u = ln_annotate l (ln_merge l (o_Outcome op) (raw_text (u_Outcome u))) (targetReason u)"

definition orphanUpdate :: Update where
  "orphanUpdate = \<lparr>u_State = OpUncertain, u_Phase = ''handoff_failed'', u_Progress = None,
     u_Outcome = Some (outcomeText ''unknown'' True None), u_ErrorCode = ''ownership_revoked''\<rparr>"

text \<open>Whether a failed journal attempt is given up, or else tried again after a pause.\<close>

definition giveUp :: "'w ports \<Rightarrow> error \<Rightarrow> ('w worker, bool) state" where
  "giveUp io e = do {
     stopping \<leftarrow> call (io_stopping io);
     if errors_Is e ErrStaleEpoch \<or> stopping then State_Monad.return True
     else do {
       err \<leftarrow> call (io_pause io Second);
       State_Monad.return (err \<noteq> None)
     }
   }"

fun persistByID :: "nat \<Rightarrow> 'w ports \<Rightarrow> lane \<Rightarrow> string \<Rightarrow> bool \<Rightarrow> Update \<Rightarrow> ('w, unit) work" where
  "persistByID 0 io l k prepared u = fail outOfFuel"
| "persistByID (Suc n) io l k prepared u = do {
     x \<leftarrow> call (io_get io k);
     case x of
       Inl e \<Rightarrow> do { stop \<leftarrow> giveUp io e; if stop then done_with () else persistByID n io l k prepared u }
     | Inr op \<Rightarrow>
         if o_FinishedAt op \<noteq> None then done_with ()
         else do {
           let u = (if prepared then u else u\<lparr>u_Outcome := Some (targetOutcome l op u)\<rparr>);
           let u = u\<lparr>u_Progress := Some (o_Progress op)\<rparr>;
           y \<leftarrow> call (io_transition io k (o_Revision op) u);
           case y of
             Inr _ \<Rightarrow> done_with ()
           | Inl e \<Rightarrow> do { stop \<leftarrow> giveUp io e; if stop then done_with () else persistByID n io l k True u }
         }
   }"

text \<open>
  The finalization of a child Skip, which annotates its own result and reuses the resolution of a
  lost acknowledgement.
\<close>

definition childUpdate :: "lane \<Rightarrow> Update \<Rightarrow> Update" where
  "childUpdate l u = u\<lparr>u_Outcome := Some (ln_annotate l (raw_text (u_Outcome u))
     (if u_State u = Succeeded then ''completed'' else u_ErrorCode u))\<rparr>"

fun persistChild :: "nat \<Rightarrow> 'w ports \<Rightarrow> lane \<Rightarrow> string \<Rightarrow> Update \<Rightarrow> ('w, unit) work" where
  "persistChild 0 io l k u = fail outOfFuel"
| "persistChild (Suc n) io l k u = do {
     x \<leftarrow> call (io_get io k);
     y \<leftarrow> (case x of
            Inl e \<Rightarrow> fail e
          | Inr op \<Rightarrow>
              if o_FinishedAt op \<noteq> None then done_with ()
              else andThen (commitUpdate io l op u) (\<lambda>_. done_with ()));
     case y of
       Inr _ \<Rightarrow> done_with ()
     | Inl e \<Rightarrow> do { stop \<leftarrow> giveUp io e; if stop then done_with () else persistChild n io l k u }
   }"

definition persistBufferedSkip :: "nat \<Rightarrow> 'w ports \<Rightarrow> lane \<Rightarrow> string \<Rightarrow> Update \<Rightarrow> ('w, unit) work" where
  "persistBufferedSkip n io l k u = persistChild n io l k (childUpdate l u)"

definition superseded :: "execution \<Rightarrow> bool" where
  "superseded r \<longleftrightarrow> (case x_cause r of Some c \<Rightarrow> errors_Is c errSuperseded | None \<Rightarrow> False)"

text \<open>A superseded worker leaves its record to its successor; a superseded cancellation still orphans its target.\<close>

definition handOver :: "Command \<Rightarrow> ('w, unit) work" where
  "handOver cmd = do {
     (if c_Kind cmd = CommandKindCancel then spawn (FinishOrphan (c_Target cmd)) else State_Monad.return ());
     done_with ()
   }"

fun finishLoop :: "nat \<Rightarrow> 'w ports \<Rightarrow> lane \<Rightarrow> Command \<Rightarrow> Update \<Rightarrow> ('w, unit) work" where
  "finishLoop 0 io l cmd final = fail outOfFuel"
| "finishLoop (Suc n) io l cmd final = do {
     r \<leftarrow> getRun;
     if superseded r then handOver cmd
     else do {
       x \<leftarrow> transition io l final;
       case x of
         Inr _ \<Rightarrow> done_with ()
       | Inl e \<Rightarrow> do { stop \<leftarrow> giveUp io e; if stop then done_with () else finishLoop n io l cmd final }
     }
   }"

definition finishExecution :: "nat \<Rightarrow> 'w ports \<Rightarrow> lane \<Rightarrow> Command \<Rightarrow> error option \<Rightarrow> ('w, unit) work" where
  "finishExecution n io l cmd err = do {
     stopping \<leftarrow> call (io_stopping io);
     r \<leftarrow> getRun;
     (if x_rejectedWrite r then do { _ \<leftarrow> call (io_refresh io); State_Monad.return () } else State_Monad.return ());
     andThen (if c_Kind cmd = CommandKindCancel then persistByID n io l (c_Target cmd) False (targetUpdate err stopping r)
              else done_with ())
       (\<lambda>_. finishLoop n io l cmd (finalUpdate l err stopping r))
   }"

definition execute :: "nat \<Rightarrow> 'w ports \<Rightarrow> lane \<Rightarrow> Command \<Rightarrow> Item \<Rightarrow> ('w, unit) work" where
  "execute n io l cmd item = do {
     r \<leftarrow> getRun;
     _ \<leftarrow> call (io_budget io (executeBudget cmd r));
     x \<leftarrow> executeCommand n io l cmd item;
     r \<leftarrow> getRun;
     y \<leftarrow> (if superseded r then handOver cmd
           else finishExecution n io l cmd (case x of Inl e \<Rightarrow> Some e | Inr _ \<Rightarrow> None));
     closeBufferedSkips;
     State_Monad.return y
   }"

subsection \<open>What a worker may do in its life\<close>

text \<open>
  A relation that holds across reads, journal records, the end of the skip slot and one write holds
  across everything a worker does.
\<close>

lemma updateBufferedProgress_cause [simp]: "x_cause (snd (updateBufferedProgress r)) = x_cause r"
  by (simp add: updateBufferedProgress_def split: option.splits prod.splits sum.splits)

lemma session_cause [simp]:
  "x_cause (countPart part r) = x_cause r" "x_cause (openSession r) = x_cause r" "x_cause (aimAt ids r) = x_cause r"
  "x_cause (storePart part r) = x_cause r" "x_cause (countPruned k r) = x_cause r" "x_cause (setLevel v r) = x_cause r"
  "x_cause (setElapsed a d r) = x_cause r" "x_cause (openEnvelope a r) = x_cause r"
  by (simp_all add: countPart_def openSession_def aimAt_def storePart_def countPruned_def setLevel_def setElapsed_def
      openEnvelope_def Let_def split: option.splits)

locale session_relation = journal_relation R for R :: "'w worker \<Rightarrow> 'w worker \<Rightarrow> bool" +
  fixes l :: lane
  assumes R_write: "within R (worker_write n io l m)"
    and R_close: "R w (w\<lparr>wk_skipsClosed := True\<rparr>)"
begin

lemma within_confirmPart: "within R (confirmPart io l)"
  unfolding confirmPart_def
  by (intro within_intros within_transition; simp)

lemma within_writeAimed: "within R (writeAimed n io l ids m)"
  unfolding writeAimed_def by (intro within_intros R_write; simp)

lemma within_appendNext: "within R (appendNext n io l)"
  unfolding appendNext_def by (intro within_intros within_writeAimed within_confirmPart)

lemma within_loadParts: "within R (loadParts n io l)"
  by (induction n) (auto intro!: within_intros within_checkJournal within_appendNext)

lemma within_writeAllSteps: "within R (writeAllSteps n io l ms)"
  by (induction ms) (auto intro!: within_intros R_write)

lemma within_startPlayback: "within R (startPlayback n io l cmd item)"
  unfolding startPlayback_def
  by (intro within_intros R_write within_writeAllSteps within_confirmPart; simp)

lemma within_checkOwnership: "within R (checkOwnership n io l)"
  unfolding checkOwnership_def
  by (intro within_intros within_reconcileOwned within_awaitOwnedPlayback; simp)

lemma within_prepareBufferedPart: "within R (prepareBufferedPart io runCause (ctxErr io) part)"
  unfolding prepareBufferedPart_def ctxErr_def by (intro within_intros within_ctxCause)

lemma within_pruneBuffered: "within R (pruneBuffered n io l k q)"
  unfolding pruneBuffered_def by (intro within_intros within_writeAimed within_transition; simp)

lemma within_bufferedMove: "within R (bufferedMove n io l policy s position part)"
  unfolding bufferedMove_def
  by (auto intro!: within_intros within_pruneBuffered within_appendNext split: bufferedAction.splits)

lemma within_bufferedStep: "within R (bufferedStep n io l)"
  unfolding bufferedStep_def windowClosed_def
  by (intro within_intros within_prepareBufferedPart within_bufferedMove)

lemma within_slot: "within R takeSkip" "within R (storeSkip child)" "within R (spawn sp)"
  by (auto intro!: withinI R_beside simp: takeSkip_def storeSkip_def spawn_def beside_def cause_kept_refl
      split: option.splits if_splits)

lemma within_serviceBufferedSkip: "within R (serviceBufferedSkip n io l)"
  unfolding serviceBufferedSkip_def sendSkip_def recordSkip_def
  by (intro within_intros within_slot within_checkJournal within_commitUpdate R_write)

lemma within_maintain: "within R (maintain n io l phase)"
  unfolding maintain_def by (intro within_intros within_transition within_bufferedStep; simp)

lemma within_journalDue: "within R (journalDue io now due)"
  unfolding journalDue_def by (intro within_intros within_checkJournal)

lemma within_loadBuffered: "within R (loadBuffered n io l due)"
  by (induction n arbitrary: due)
    (auto intro!: within_intros within_journalDue within_serviceBufferedSkip within_checkOwnership within_maintain
      simp: dueOwnership_def bufferedWait_def Let_def)

lemma within_loadRemaining: "within R (loadRemaining n io l)"
  unfolding loadRemaining_def by (intro within_intros within_loadBuffered within_loadParts)

lemma within_writeLevel: "within R (writeLevel n io l level lst phase)"
  unfolding writeLevel_def by (intro within_intros R_write within_transition; simp)

lemma within_tendQueue: "within R (tendQueue n io l phase)"
  unfolding tendQueue_def
  by (intro within_intros within_serviceBufferedSkip within_maintain within_appendNext)

lemma within_endEnvelope: "within R (endEnvelope n io l)"
  unfolding endEnvelope_def by (intro within_intros R_write)

lemma within_dueAudit: "within R (dueAudit io)"
  unfolding dueAudit_def by (intro within_intros)

lemma within_automateLoop: "within R (automateLoop n io l a began initial ev)"
proof (induction n arbitrary: ev)
  case 0
  show ?case by (simp add: within_fail)
next
  case (Suc n)
  show ?case
    unfolding automateLoop.simps enterPhase_def
    by (intro within_intros within_journalDue within_dueAudit within_checkOwnership within_transition within_writeLevel
        within_endEnvelope within_tendQueue Suc.IH; simp)
qed

lemma within_automate: "within R (automate n io l a)"
  unfolding automate_def by (intro within_intros within_automateLoop; simp)

lemma within_fadeLoop: "within R (fadeLoop n io l fade start began lst)"
  by (induction n arbitrary: lst) (auto intro!: within_intros R_write simp: Let_def)

lemma within_executeCommand: "within R (executeCommand n io l cmd item)"
  unfolding executeCommand_def stopPlayback_def
  by (cases "c_Kind cmd")
    (auto intro!: within_intros R_write within_startPlayback within_automate within_loadRemaining within_fadeLoop)

lemma within_giveUp: "within R (giveUp io e)"
  unfolding giveUp_def by (intro within_intros)

lemma within_persistByID: "within R (persistByID n io l k prepared u)"
  by (induction n arbitrary: prepared u) (auto intro!: within_intros within_giveUp simp: Let_def)

lemma within_handOver: "within R (handOver cmd)"
  unfolding handOver_def by (intro within_intros within_slot)

lemma within_finishLoop: "within R (finishLoop n io l cmd final)"
  by (induction n) (auto intro!: within_intros within_transition within_giveUp within_handOver)

lemma within_finishExecution: "within R (finishExecution n io l cmd err)"
  unfolding finishExecution_def by (intro within_intros within_persistByID within_finishLoop)

lemma within_closeBufferedSkips: "within R closeBufferedSkips"
proof -
  have "within R (State (\<lambda>w. ((), w\<lparr>wk_skipsClosed := True\<rparr>)))" by (auto intro!: withinI R_close)
  moreover have "within R (State (\<lambda>w. (wk_skip w, w)))" by (auto intro!: withinI R_refl)
  ultimately show ?thesis unfolding closeBufferedSkips_def by (intro within_intros within_slot)
qed

lemma within_execute: "within R (execute n io l cmd item)"
  unfolding execute_def
  by (intro within_intros within_executeCommand within_handOver within_finishExecution within_closeBufferedSkips)

end

interpretation lives_justly: session_relation "justly l" l for l
  by unfold_locales (auto simp: justly_def just_write)

interpretation lives_obeying: session_relation obeys l for l
  by unfold_locales (auto simp: kept_def cause_kept_refl obeys_write intro: obeys_quiet)

lemma within_snd: "within R m \<Longrightarrow> R w (snd (run_state m w))"
  by (rule withinD [of R m w "fst (run_state m w)"]) simp_all

text \<open>
  C1. Every command a worker issues in its whole life, whatever its command kind, is justified:
  the guard carries the token of an observation that is verified, fresh, connected, ungrouped, of the
  configured player with writes enabled and a volume ceiling, and in a known play state; that
  observation has no difference to the state the worker expected; the guard lives at most five
  seconds; and the last journal record acknowledged before the call says that exactly this
  kind of command is being sent.
\<close>

theorem commands_justified:
  "\<exists>new. wk_sent (snd (run_state (execute n io l cmd item) w)) = wk_sent w @ new \<and> list_all (justified l) new"
  using within_snd [OF lives_justly.within_execute] by (auto simp: justly_def)

text \<open>
  C2. A worker whose ownership was revoked stops commanding the device. When it was cancelled before
  it started it issues nothing; otherwise every command but possibly the last one was issued while
  it was not cancelled, so a call that already sees the cancellation is the last call it makes. The
  first cause of the cancellation is kept.
\<close>

theorem revoked_worker_stops:
  "\<exists>new. wk_sent (snd (run_state (execute n io l cmd item) w)) = wk_sent w @ new \<and>
     (x_cause (wk_run w) = None \<or>
      new = [] \<and> x_cause (wk_run (snd (run_state (execute n io l cmd item) w))) = x_cause (wk_run w)) \<and>
     list_all (\<lambda>sd. sd_cause sd = None) (butlast new)"
  using within_snd [OF lives_obeying.within_execute [of n io l cmd item], of w]
  by (auto simp: obeys_def uncancelled_def cause_kept_def)

end
