(* ===== verification/Scripted.thy ===== *)
theory Scripted
  imports Worker
begin

section \<open>A scripted device\<close>

text \<open>
  A base world for concrete runs: a clock that advances with every reading and wait, a device that
  answers commands from a script, applies the ones it accepts and notifies the change.
\<close>

record device =
  dv_now :: time
  dv_state :: Snapshot
  dv_answers :: "error option list"

definition zeroResponse :: Response where
  "zeroResponse = \<lparr>r_Command = [], r_Result = ''success'', r_Params = [], r_Payload = [], r_Options = [],
     r_Event = False, r_Pending = False, r_Token = zeroToken\<rparr>"

definition device_view :: "(device, View) port" where
  "device_view v = (\<lparr>v_Token = s_Token (dv_state v), v_Connected = True\<rparr>, [], v)"

definition device_write :: "Mutation \<Rightarrow> Token \<Rightarrow> duration \<Rightarrow> (device, Response result) port" where
  "device_write m t d v =
     (case dv_answers v of
        Some e # rest \<Rightarrow> (Inl e, [], v\<lparr>dv_answers := rest\<rparr>)
      | _ \<Rightarrow>
          (Inr (zeroResponse\<lparr>r_Token := t\<rparr>),
           if m_Kind m = MutationKindVolume
           then [Notified (dv_now v) (example_volume_event (Itoa (m_Level m)))] else [],
           v\<lparr>dv_answers := tl (dv_answers v), dv_state :=
             (if m_Kind m = MutationKindVolume then (dv_state v)\<lparr>s_Volume := Some (m_Level m)\<rparr>
              else if m_Kind m = MutationKindTransport then (dv_state v)\<lparr>s_State := m_State m\<rparr>
              else dv_state v)\<rparr>))"

definition device_ports :: "device ports" where
  "device_ports =
     \<lparr>io_now = (\<lambda>v. (dv_now v, [], v\<lparr>dv_now := dv_now v + Millisecond\<rparr>)), io_timeout = (\<lambda>v. (False, [], v)),
      io_wait = (\<lambda>d wake v. (None, [], v\<lparr>dv_now := dv_now v + d\<rparr>)), io_snapshot = (\<lambda>v. (dv_state v, [], v)),
      io_refresh = (\<lambda>v. (None, [], v\<lparr>dv_state := (dv_state v)\<lparr>s_ObservedAt := dv_now v\<rparr>\<rparr>)), io_reconcile = (\<lambda>b v. (None, [], v)),
      io_refreshScalars = (\<lambda>m v. (None, [], v)), io_confirmScalars = (\<lambda>s v. (None, [], v)),
      io_view = (\<lambda>i. device_view), io_queue = (\<lambda>i start v. (Inl ErrBounds, [], v)),
      io_write = device_write, io_ready = (\<lambda>v. (None, [], v)),
      io_transition = (\<lambda>op rev u v. (Inl ErrNotFound, [], v)), io_get = (\<lambda>op v. (Inl ErrNotFound, [], v)),
      io_clientView = device_view, io_browseAll = (\<lambda>a b v. (Inl ErrBounds, [], v)),
      io_budget = (\<lambda>d v. ((), [], v)), io_stopping = (\<lambda>v. (False, [], v)), io_pause = (\<lambda>d v. (None, [], v))\<rparr>"

definition example_lane :: lane where
  "example_lane = \<lparr>ln_config = example_player, ln_value = Some, ln_encode = (\<lambda>p q. ''{}''),
     ln_annotate = (\<lambda>outcome reason. outcome), ln_merge = (\<lambda>a b. b)\<rparr>"

definition example_replay :: "device worker" where
  "example_replay =
     \<lparr>wk_run = example_run\<lparr>x_bounded := True\<rparr>, wk_op = hd (j_operations example_admitted), wk_skip = None,
      wk_skipsClosed = False, wk_spawned = [],
      wk_world = \<lparr>dv_now = 30, dv_state = x_expected example_run, dv_answers = [Some (CommandError NotSent ErrStale)]\<rparr>,
      wk_sent = [], wk_updates = []\<rparr>"

end
