(* ===== verification/Ledger.thy ===== *)
theory Ledger
  imports Execute Scripted
begin

section \<open>A worker on the journal\<close>

text \<open>
  The worker of the theory \<open>Execute\<close> with its journal ports connected to the operations of the theory
  \<open>Journal\<close>: \<open>db.Transition\<close>, \<open>db.Get\<close> and \<open>db.Ready\<close> act on the tables, and a script of commit
  outcomes decides which acknowledgements are lost. The other ports are those of any base world.
\<close>

record 'v ledger =
  lg_base :: 'v
  lg_store :: Store
  lg_db :: journal_db
  lg_now :: time
  lg_acks :: "ack list"

definition lifted :: "('v, 'a) port \<Rightarrow> ('v ledger, 'a) port" where
  "lifted p w = (case p (lg_base w) of (x, hs, v) \<Rightarrow> (x, hs, w\<lparr>lg_base := v\<rparr>))"

definition next_ack :: "'v ledger \<Rightarrow> ack" where
  "next_ack w = (case lg_acks w of [] \<Rightarrow> Acked | a # _ \<Rightarrow> a)"

definition ledger_transition :: "codec \<Rightarrow> string \<Rightarrow> int \<Rightarrow> Update \<Rightarrow> ('v ledger, Operation result) port" where
  "ledger_transition k op revision u w =
     (case Transition k (lg_store w) op revision u (lg_now w) (next_ack w) (lg_db w) of
        (x, db) \<Rightarrow> (x, [], w\<lparr>lg_db := db, lg_acks := tl (lg_acks w)\<rparr>))"

definition ledger_get :: "string \<Rightarrow> ('v ledger, Operation result) port" where
  "ledger_get op w = (Get (lg_db w) op, [], w)"

definition ledger_ready :: "('v ledger, error option) port" where
  "ledger_ready w = (case Ready (lg_store w) (lg_db w) of Inl e \<Rightarrow> Some e | Inr _ \<Rightarrow> None, [], w)"

definition journalled :: "codec \<Rightarrow> 'v ports \<Rightarrow> 'v ledger ports" where
  "journalled k io =
     \<lparr>io_now = lifted (io_now io), io_timeout = lifted (io_timeout io),
      io_wait = (\<lambda>d wake. lifted (io_wait io d wake)), io_snapshot = lifted (io_snapshot io),
      io_refresh = lifted (io_refresh io), io_reconcile = (\<lambda>b. lifted (io_reconcile io b)),
      io_refreshScalars = (\<lambda>m. lifted (io_refreshScalars io m)), io_confirmScalars = (\<lambda>s. lifted (io_confirmScalars io s)),
      io_view = (\<lambda>i. lifted (io_view io i)), io_queue = (\<lambda>i start. lifted (io_queue io i start)),
      io_write = (\<lambda>m t d. lifted (io_write io m t d)), io_ready = ledger_ready,
      io_transition = ledger_transition k, io_get = ledger_get,
      io_clientView = lifted (io_clientView io), io_browseAll = (\<lambda>a b. lifted (io_browseAll io a b)),
      io_budget = (\<lambda>d. lifted (io_budget io d)), io_stopping = lifted (io_stopping io),
      io_pause = (\<lambda>d. lifted (io_pause io d))\<rparr>"

subsection \<open>Lost acknowledgements\<close>

text \<open>
  What the journal's JSON promises the worker: the canonical form of a text decodes to the same
  value, which is what \<open>equalJSON\<close> compares.
\<close>

definition faithful_codec :: "codec \<Rightarrow> lane \<Rightarrow> bool" where
  "faithful_codec k l \<longleftrightarrow> (\<forall>s t. k_canonical k s = Inr t \<longrightarrow> equalJSON l t s)"

lemma equalJSON_empty: "equalJSON l a [] = equalJSON l a ''{}''"
  by (simp add: equalJSON_def)

lemma normalized_equal:
  "faithful_codec k l \<Longrightarrow> normalize_json k raw = Inr t \<Longrightarrow> equalJSON l t (raw_text raw)"
  by (cases raw) (auto simp: faithful_codec_def normalize_json_def raw_text_def equalJSON_empty)

lemma GetOperation_map:
  assumes "find (\<lambda>x. o_ID x = i) xs = Some op" and "\<And>x. o_ID (f x) = o_ID x"
  shows "find (\<lambda>x. o_ID x = i) (map f xs) = Some (f op)"
  using assms by (induction xs) (auto split: if_splits)

lemma find_transition_match:
  assumes "distinct (map o_ID xs)" and "find (\<lambda>x. o_ID x = i) xs = Some op"
  shows "find (transition_match i v epoch) xs = (if transition_match i v epoch op then Some op else None)"
  using assms
proof (induction xs)
  case (Cons x xs)
  show ?case
  proof (cases "o_ID x = i")
    case True
    then have "find (transition_match i v epoch) xs = None"
      using Cons.prems(1) by (auto simp: find_None_iff transition_match_def dest: rev_image_eqI [of _ _ _ o_ID])
    with True Cons.prems show ?thesis by simp
  next
    case False
    with Cons show ?thesis by (simp add: transition_match_def)
  qed
qed simp

text \<open>The row a transition writes.\<close>

definition recorded_row :: "Update \<Rightarrow> string \<Rightarrow> string \<Rightarrow> time \<Rightarrow> Operation \<Rightarrow> Operation" where
  "recorded_row u progress outcome = transition_row (u\<lparr>u_Progress := Some progress, u_Outcome := Some outcome\<rparr>)"

lemma not_isl: "\<not> isl x \<longleftrightarrow> (\<exists>y. x = Inr y)"
  by (cases x) auto

definition recordable :: "codec \<Rightarrow> Store \<Rightarrow> journal_db \<Rightarrow> Operation \<Rightarrow> Update \<Rightarrow> bool" where
  "recordable k st db op u \<longleftrightarrow>
     1 \<le> o_Revision op \<and> length (u_Phase u) \<le> 128 \<and> length (u_ErrorCode u) \<le> 128 \<and>
     (u_State u = Running \<or> terminal (u_State u)) \<and>
     \<not> isl (normalize_json k (u_Progress u)) \<and> \<not> isl (normalize_json k (u_Outcome u)) \<and>
     active st db = Inr () \<and> o_Epoch op = st_epoch st \<and> o_FinishedAt op = None"

definition recorded_db :: "Update \<Rightarrow> string \<Rightarrow> string \<Rightarrow> Store \<Rightarrow> time \<Rightarrow> Operation \<Rightarrow> journal_db \<Rightarrow> journal_db" where
  "recorded_db u progress outcome st now op db =
     (let db' = update_operations (transition_match (o_ID op) (o_Revision op) (st_epoch st))
                  (recorded_row u progress outcome now) db
      in if terminal (u_State u) then finish_ops [o_ID op] now db' else db')"

lemma Transition_own_row:
  assumes wf: "journal_wf db" and get: "Get db (o_ID op) = Inr op"
  shows "\<not> recordable k st db op u \<Longrightarrow> \<exists>e. Transition k st (o_ID op) (o_Revision op) u now c db = (Inl e, db)"
    and "recordable k st db op u \<Longrightarrow> normalize_json k (u_Progress u) = Inr progress \<Longrightarrow>
      normalize_json k (u_Outcome u) = Inr outcome \<Longrightarrow>
      Transition k st (o_ID op) (o_Revision op) u now c db =
        commit_with c ''transition'' (recorded_row u progress outcome now op) db (recorded_db u progress outcome st now op db)"
proof -
  have f: "find (\<lambda>x. o_ID x = o_ID op) (j_operations db) = Some op"
    using get by (auto simp: Get_def GetOperation_def split: option.splits)
  have m: "find (transition_match (o_ID op) (o_Revision op) (st_epoch st)) (j_operations db) =
      (if o_Epoch op = st_epoch st \<and> o_FinishedAt op = None then Some op else None)"
    using find_transition_match [OF _ f] wf by (auto simp: journal_wf_def transition_match_def)
  show "\<not> recordable k st db op u \<Longrightarrow> \<exists>e. Transition k st (o_ID op) (o_Revision op) u now c db = (Inl e, db)"
    using m by (auto simp: Transition_def recordable_def not_isl TransitionOperation_def split: if_splits sum.splits)
  show "recordable k st db op u \<Longrightarrow> normalize_json k (u_Progress u) = Inr progress \<Longrightarrow>
      normalize_json k (u_Outcome u) = Inr outcome \<Longrightarrow>
      Transition k st (o_ID op) (o_Revision op) u now c db =
        commit_with c ''transition'' (recorded_row u progress outcome now op) db (recorded_db u progress outcome st now op db)"
    using m by (auto simp: Transition_def recordable_def TransitionOperation_def recorded_db_def recorded_row_def Let_def)
qed

lemma recorded_db_get:
  assumes "Get db (o_ID op) = Inr op" and "recordable k st db op u"
  shows "Get (recorded_db u progress outcome st now op db) (o_ID op) = Inr (recorded_row u progress outcome now op)"
proof -
  let ?f = "\<lambda>x. if transition_match (o_ID op) (o_Revision op) (st_epoch st) x then recorded_row u progress outcome now x else x"
  have "find (\<lambda>x. o_ID x = o_ID op) (j_operations db) = Some op"
    using assms by (auto simp: Get_def GetOperation_def split: option.splits)
  then have "find (\<lambda>x. o_ID x = o_ID op) (map ?f (j_operations db)) = Some (?f op)"
    by (rule GetOperation_map) (simp add: recorded_row_def transition_row_def)
  then show ?thesis
    using assms(2)
    by (simp add: Get_def GetOperation_def recorded_db_def update_operations_def recordable_def transition_match_def Let_def)
qed

lemma recorded_db_reserved:
  "terminal (u_State u) \<Longrightarrow> \<not> reserved (recorded_db u progress outcome st now op db) (o_ID op)"
  by (auto simp: recorded_db_def reserved_def list_ex_iff Let_def)

text \<open>One attempt of the worker, on its own current row.\<close>

definition owns_row :: "'v ledger worker \<Rightarrow> Operation \<Rightarrow> bool" where
  "owns_row w op \<longleftrightarrow> journal_wf (lg_db (wk_world w)) \<and> Get (lg_db (wk_world w)) (o_ID op) = Inr op"

definition lost_error :: error where
  "lost_error = Wrapped errJournalUnavailable (Wrapped ErrCommitUncertain (OtherError ''transition''))"

lemma run_ledger_ports [run_simps]:
  "io_transition (journalled k io) = ledger_transition k" "io_get (journalled k io) = ledger_get"
  "io_stopping (journalled k io) = lifted (io_stopping io)" "io_pause (journalled k io) d = lifted (io_pause io d)"
  by (simp_all add: journalled_def)

lemma matches_recorded_row:
  assumes "faithful_codec k l" and "normalize_json k (u_Progress u) = Inr progress"
    and "normalize_json k (u_Outcome u) = Inr outcome"
  shows "matchesUpdate l (recorded_row u progress outcome now op) u"
  using assms normalized_equal [OF assms(1)]
  by (simp add: matchesUpdate_def recorded_row_def transition_row_def)

lemma commitUpdate_run:
  assumes own: "owns_row w op" and k: "faithful_codec k l"
  defines "v \<equiv> wk_world w"
  shows "\<not> recordable k (lg_store v) (lg_db v) op u \<or> next_ack v = Aborted \<Longrightarrow>
      \<exists>e. run_state (commitUpdate (journalled k io) l op u) w = (Inl e, w\<lparr>wk_world := v\<lparr>lg_acks := tl (lg_acks v)\<rparr>\<rparr>) \<and>
        (recordable k (lg_store v) (lg_db v) op u \<longrightarrow> e = lost_error)"
    and "recordable k (lg_store v) (lg_db v) op u \<Longrightarrow> next_ack v \<noteq> Aborted \<Longrightarrow>
      normalize_json k (u_Progress u) = Inr progress \<Longrightarrow> normalize_json k (u_Outcome u) = Inr outcome \<Longrightarrow>
      run_state (commitUpdate (journalled k io) l op u) w =
        (Inr (recorded_row u progress outcome (lg_now v) op),
         w\<lparr>wk_world := v\<lparr>lg_db := recorded_db u progress outcome (lg_store v) (lg_now v) op (lg_db v), lg_acks := tl (lg_acks v)\<rparr>\<rparr>)"
proof -
  have wf: "journal_wf (lg_db v)" and get: "Get (lg_db v) (o_ID op) = Inr op"
    using own by (simp_all add: owns_row_def v_def)
  note T = Transition_own_row [OF wf get, where st = "lg_store v" and now = "lg_now v" and c = "next_ack v"]
  have resolve: "run_state (call (ledger_get (o_ID op))) (w\<lparr>wk_world := v'\<rparr>) = (Get (lg_db v') (o_ID op), w\<lparr>wk_world := v'\<rparr>)" for v'
    by (simp add: run_simps ledger_get_def)
  show "\<exists>e. run_state (commitUpdate (journalled k io) l op u) w = (Inl e, w\<lparr>wk_world := v\<lparr>lg_acks := tl (lg_acks v)\<rparr>\<rparr>) \<and>
        (recordable k (lg_store v) (lg_db v) op u \<longrightarrow> e = lost_error)"
    if bad: "\<not> recordable k (lg_store v) (lg_db v) op u \<or> next_ack v = Aborted"
  proof -
    have t: "\<exists>e. Transition k (lg_store v) (o_ID op) (o_Revision op) u (lg_now v) (next_ack v) (lg_db v) = (Inl e, lg_db v) \<and>
        (recordable k (lg_store v) (lg_db v) op u \<longrightarrow> e = Wrapped ErrCommitUncertain (OtherError ''transition''))"
    proof (cases "recordable k (lg_store v) (lg_db v) op u")
      case True
      then obtain p q where "normalize_json k (u_Progress u) = Inr p" "normalize_json k (u_Outcome u) = Inr q"
        by (auto simp: recordable_def not_isl)
      with True bad T(2) show ?thesis by (simp add: commit_with_def)
    qed (use T(1) in blast)
    then show ?thesis
      using resolve get
      by (auto simp: commitUpdate_def run_simps ledger_transition_def lost_error_def v_def [symmetric] split: prod.splits)
  qed
  show "run_state (commitUpdate (journalled k io) l op u) w =
        (Inr (recorded_row u progress outcome (lg_now v) op),
         w\<lparr>wk_world := v\<lparr>lg_db := recorded_db u progress outcome (lg_store v) (lg_now v) op (lg_db v), lg_acks := tl (lg_acks v)\<rparr>\<rparr>)"
    if ok: "recordable k (lg_store v) (lg_db v) op u" "next_ack v \<noteq> Aborted"
      "normalize_json k (u_Progress u) = Inr progress" "normalize_json k (u_Outcome u) = Inr outcome"
  proof -
    have g: "Get (recorded_db u progress outcome (lg_store v) (lg_now v) op (lg_db v)) (o_ID op) =
        Inr (recorded_row u progress outcome (lg_now v) op)"
      using recorded_db_get [OF get ok(1)] .
    have r: "o_Revision (recorded_row u progress outcome (lg_now v) op) = o_Revision op + 1"
      by (simp add: recorded_row_def transition_row_def)
    show ?thesis
      using T(2) [OF ok(1,3,4)] ok(2) g r matches_recorded_row [OF k ok(3,4)] resolve
      by (cases "next_ack v")
        (auto simp: commitUpdate_def run_simps ledger_transition_def commit_with_def v_def [symmetric])
  qed
qed


subsection \<open>Outages\<close>

text \<open>The service is not stopping and its pauses end, without anything else happening.\<close>

definition service_running :: "'v ports \<Rightarrow> bool" where
  "service_running io \<longleftrightarrow>
     (\<forall>b. \<exists>b'. io_stopping io b = (False, [], b')) \<and> (\<forall>b. \<exists>b'. io_pause io Second b = (None, [], b'))"

lemma giveUp_running:
  assumes "service_running io" and "\<not> errors_Is e ErrStaleEpoch"
  shows "\<exists>b. run_state (giveUp (journalled k io) e) w = (False, w\<lparr>wk_world := (wk_world w)\<lparr>lg_base := b\<rparr>\<rparr>)"
proof -
  obtain b where b: "io_stopping io (lg_base (wk_world w)) = (False, [], b)"
    using assms(1) by (auto simp: service_running_def)
  obtain b' where "io_pause io Second b = (None, [], b')" using assms(1) by (auto simp: service_running_def)
  with b assms(2) show ?thesis by (auto simp: giveUp_def run_simps lifted_def)
qed

text \<open>What a worker that is about to record its result relies on.\<close>

definition about_to_finish :: "codec \<Rightarrow> lane \<Rightarrow> Update \<Rightarrow> 'v ledger worker \<Rightarrow> bool" where
  "about_to_finish k l final w \<longleftrightarrow>
     owns_row w (wk_op w) \<and> \<not> superseded (wk_run w) \<and> terminal (u_State final) \<and>
     recordable k (lg_store (wk_world w)) (lg_db (wk_world w)) (wk_op w) (withProgress l (wk_run w) final)"

lemma finishLoop_records:
  assumes "faithful_codec k l" and "service_running io"
  shows "about_to_finish k l final w \<Longrightarrow> lg_acks (wk_world w) = replicate outage Aborted @ a # later \<Longrightarrow> a \<noteq> Aborted \<Longrightarrow>
    \<exists>w' op. run_state (finishLoop (Suc outage) (journalled k io) l cmd final) w = (Inr (), w') \<and>
      Get (lg_db (wk_world w')) (o_ID (wk_op w)) = Inr op \<and> o_State op = u_State final \<and> o_ErrorCode op = u_ErrorCode final \<and>
      o_FinishedAt op \<noteq> None \<and> \<not> reserved (lg_db (wk_world w')) (o_ID (wk_op w)) \<and> wk_sent w' = wk_sent w"
proof (induction outage arbitrary: w)
  case 0
  let ?u = "withProgress l (wk_run w) final"
  have own: "owns_row w (wk_op w)" and rec: "recordable k (lg_store (wk_world w)) (lg_db (wk_world w)) (wk_op w) ?u"
    and t: "terminal (u_State ?u)" "\<not> superseded (wk_run w)"
    using 0 by (simp_all add: about_to_finish_def withProgress_def)
  from rec obtain p q where n: "normalize_json k (u_Progress ?u) = Inr p" "normalize_json k (u_Outcome ?u) = Inr q"
    by (auto simp: recordable_def not_isl)
  let ?op = "recorded_row ?u p q (lg_now (wk_world w)) (wk_op w)"
  let ?db = "recorded_db ?u p q (lg_store (wk_world w)) (lg_now (wk_world w)) (wk_op w) (lg_db (wk_world w))"
  have ack: "next_ack (wk_world w) \<noteq> Aborted" using 0 by (simp add: next_ack_def)
  have get: "Get ?db (o_ID (wk_op w)) = Inr ?op"
    using recorded_db_get [OF _ rec] own by (simp add: owns_row_def)
  have u: "u_State ?u = u_State final" "u_ErrorCode ?u = u_ErrorCode final" by (simp_all add: withProgress_def)
  have row: "o_State ?op = u_State final" "o_ErrorCode ?op = u_ErrorCode final" "o_FinishedAt ?op \<noteq> None"
    using t(1) u by (auto simp: recorded_row_def transition_row_def)
  let ?w = "w\<lparr>wk_world := (wk_world w)\<lparr>lg_db := ?db, lg_acks := tl (lg_acks (wk_world w))\<rparr>, wk_op := ?op,
    wk_run := (wk_run w)\<lparr>x_phase := o_Phase ?op\<rparr>, wk_updates := wk_updates w @ [?u]\<rparr>"
  have "run_state (transition (journalled k io) l final) w = (Inr (), ?w)"
    using commitUpdate_run(2) [OF own assms(1) rec ack n]
    by (simp add: run_simps transition_def getOp_def recordUpdate_def Let_def)
  then have "run_state (finishLoop (Suc 0) (journalled k io) l cmd final) w = (Inr (), ?w)"
    using t(2) by (simp add: run_simps)
  with get row recorded_db_reserved [OF t(1)] show ?case by (intro exI [of _ ?w] exI [of _ ?op]) simp
next
  case (Suc outage)
  let ?u = "withProgress l (wk_run w) final"
  let ?w = "w\<lparr>wk_world := (wk_world w)\<lparr>lg_acks := tl (lg_acks (wk_world w))\<rparr>\<rparr>"
  have own: "owns_row w (wk_op w)" and rec: "recordable k (lg_store (wk_world w)) (lg_db (wk_world w)) (wk_op w) ?u"
    and t: "\<not> superseded (wk_run w)"
    using Suc.prems by (simp_all add: about_to_finish_def)
  have ack: "next_ack (wk_world w) = Aborted" using Suc.prems by (simp add: next_ack_def)
  have lost: "run_state (transition (journalled k io) l final) w = (Inl lost_error, ?w)"
    using commitUpdate_run(1) [OF own assms(1), of ?u io] rec ack
    by (auto simp: run_simps transition_def getOp_def Let_def)
  obtain b where b: "run_state (giveUp (journalled k io) lost_error) ?w = (False, ?w\<lparr>wk_world := (wk_world ?w)\<lparr>lg_base := b\<rparr>\<rparr>)"
    using giveUp_running [OF assms(2), of lost_error k ?w] by (auto simp: lost_error_def)
  let ?w1 = "?w\<lparr>wk_world := (wk_world ?w)\<lparr>lg_base := b\<rparr>\<rparr>"
  have "about_to_finish k l final ?w1" using Suc.prems(1) by (simp add: about_to_finish_def owns_row_def)
  from Suc.IH [OF this _ Suc.prems(3)] Suc.prems(2)
  show ?case using t lost b by (simp add: run_simps)
qed

text \<open>
  C11. A journal outage delays the result of an operation and does not lose it: when the worker has
  its final record and any number of commits fails before one takes effect, whether or not that
  one is acknowledged, the loop ends after exactly that many attempts, the operation is finished
  in the journal with the worker's state and error code, the device is no longer reserved, and no
  command was sent meanwhile.
\<close>

theorem outcome_survives_outage:
  assumes "faithful_codec k l" and "service_running io" and "about_to_finish k l final w"
    and "lg_acks (wk_world w) = replicate outage Aborted @ a # later" and "a \<noteq> Aborted"
  shows "\<exists>w' op. run_state (finishLoop (Suc outage) (journalled k io) l cmd final) w = (Inr (), w') \<and>
      Get (lg_db (wk_world w')) (o_ID (wk_op w)) = Inr op \<and> o_State op = u_State final \<and> o_ErrorCode op = u_ErrorCode final \<and>
      o_FinishedAt op \<noteq> None \<and> \<not> reserved (lg_db (wk_world w')) (o_ID (wk_op w)) \<and> wk_sent w' = wk_sent w"
  using assms by (intro finishLoop_records)

subsection \<open>Example workers\<close>

definition example_world :: "error option list \<Rightarrow> ack list \<Rightarrow> device ledger" where
  "example_world replies acks =
     \<lparr>lg_base = \<lparr>dv_now = 30, dv_state = example_playing (example_media ''a'' ''1'') [example_media ''a'' ''1''], dv_answers = replies\<rparr>,
      lg_store = example_store, lg_db = example_admitted, lg_now = 40, lg_acks = acks\<rparr>"

definition example_worker :: "bool \<Rightarrow> error option list \<Rightarrow> ack list \<Rightarrow> device ledger worker" where
  "example_worker bounded replies acks =
     \<lparr>wk_run = (newExecution (example_playing (example_media ''a'' ''1'') [example_media ''a'' ''1'']) {})\<lparr>x_bounded := bounded\<rparr>,
      wk_op = hd (j_operations example_admitted), wk_skip = None, wk_skipsClosed = False, wk_spawned = [],
      wk_world = example_world replies acks, wk_sent = [], wk_updates = []\<rparr>"

definition example_ports :: "device ledger ports" where
  "example_ports = journalled example_codec device_ports"

definition example_level :: Command where
  "example_level = zeroCommand\<lparr>c_Kind := CommandKindVolume, c_Level := 35\<rparr>"


definition example_final :: Update where
  "example_final = finalUpdate example_lane None False (wk_run (example_worker True [] []))"

lemma example_faithful: "faithful_codec example_codec example_lane"
  by (simp add: faithful_codec_def example_codec_def example_lane_def equalJSON_def)

lemma example_owns: "owns_row (example_worker b replies acks) (wk_op (example_worker b replies acks))"
proof -
  have "Get example_admitted (o_ID (hd (j_operations example_admitted))) = Inr (hd (j_operations example_admitted))" by code_simp
  then show ?thesis
    using reachable_wf [OF example_admitted_reachable] by (simp add: owns_row_def example_worker_def example_world_def)
qed


theorem outcome_survives_outage_witness:
  "\<exists>w' op. run_state (finishLoop 3 example_ports example_lane example_level example_final)
      (example_worker True [] [Aborted, Aborted, ReplyLost]) = (Inr (), w') \<and>
    Get (lg_db (wk_world w')) ''op1'' = Inr op \<and> o_State op = Succeeded \<and> o_FinishedAt op \<noteq> None"
proof -
  let ?w = "example_worker True [] [Aborted, Aborted, ReplyLost]"
  have run: "service_running device_ports" by (simp add: service_running_def device_ports_def)
  have o: "o_ID (wk_op ?w) = ''op1''" and s: "u_State example_final = Succeeded" by code_simp+
  have "recordable example_codec (lg_store (wk_world ?w)) (lg_db (wk_world ?w)) (wk_op ?w)
      (withProgress example_lane (wk_run ?w) example_final)"
    by code_simp
  then have a: "about_to_finish example_codec example_lane example_final ?w"
    using example_owns s by (simp add: about_to_finish_def superseded_def example_worker_def newExecution_def)
  have k: "lg_acks (wk_world ?w) = replicate 2 Aborted @ ReplyLost # []"
    by (simp add: example_worker_def example_world_def numeral_2_eq_2)
  show ?thesis
    using outcome_survives_outage [OF example_faithful run a k, of example_level]
    unfolding example_ports_def o s by (auto simp: numeral_3_eq_3 numeral_2_eq_2)
qed

end
