(* ===== verification/Replay.thy ===== *)
theory Replay
  imports Scripted
begin

section \<open>Commands are never replayed\<close>

text \<open>
  \<open>write\<close> of \<open>execution.go\<close> tries again only after an error that proves that nothing was sent. The
  error it inspects may come from any step of \<open>writeOnce\<close>, also from a read after the command was
  sent; the argument therefore needs what the readers promise: their errors never look like a
  refused write. This theory carries that promise through everything that happens after a command.
\<close>

text \<open>The errors the retry loop takes for an unsent command with a stale guard.\<close>

definition retriable :: "error \<Rightarrow> bool" where
  "retriable e \<longleftrightarrow> map_option fst (as_CommandError e) = Some NotSent \<and> errors_Is e ErrStale"

definition plain_error :: "error option \<Rightarrow> bool" where
  "plain_error x = (case x of Some e \<Rightarrow> \<not> retriable e | None \<Rightarrow> True)"

definition plain_result :: "'a result \<Rightarrow> bool" where
  "plain_result x = (case x of Inl e \<Rightarrow> \<not> retriable e | Inr _ \<Rightarrow> True)"

lemma plain_simps [simp]:
  "plain_error None" "plain_error (Some e) = (\<not> retriable e)" "plain_result (Inl e) = (\<not> retriable e)"
  "plain_result (Inr x)"
  by (simp_all add: plain_error_def plain_result_def)

lemma not_retriable [simp]:
  "\<not> retriable ErrStale" "\<not> retriable ErrBounds" "\<not> retriable ErrProtocol" "\<not> retriable DeadlineExceeded"
  "\<not> retriable ErrOwnership" "\<not> retriable (OwnershipError a b)" "\<not> retriable (OtherError a)" "\<not> retriable ErrReadOnly"
  "\<not> retriable ErrUnavailable" "\<not> retriable ErrGrouped" "\<not> retriable outOfFuel" "\<not> retriable errQueueTransitionTimeout"
  "\<not> retriable (ownershipMismatch a b)" "\<not> retriable (pendingMismatch b)"
  "retriable (diagnosticError e a) = retriable e"
  by (simp_all add: retriable_def outOfFuel_def errQueueTransitionTimeout_def ownershipMismatch_def pendingMismatch_def)

subsection \<open>The promise of the readers\<close>

definition plain_happening :: "happening \<Rightarrow> bool" where
  "plain_happening h = (case h of CancelledBy c \<Rightarrow> \<not> retriable c | _ \<Rightarrow> True)"

definition plain_port :: "('a \<Rightarrow> bool) \<Rightarrow> ('w, 'a) port \<Rightarrow> bool" where
  "plain_port P p \<longleftrightarrow> (\<forall>v. case p v of (x, hs, v') \<Rightarrow> P x \<and> list_all plain_happening hs)"

definition plain_reads :: "'w ports \<Rightarrow> bool" where
  "plain_reads io \<longleftrightarrow>
     plain_port (\<lambda>_. True) (io_now io) \<and> plain_port (\<lambda>_. True) (io_timeout io) \<and>
     (\<forall>d wake. plain_port plain_error (io_wait io d wake)) \<and> plain_port (\<lambda>_. True) (io_snapshot io) \<and>
     plain_port plain_error (io_refresh io) \<and> (\<forall>b. plain_port plain_error (io_reconcile io b)) \<and>
     (\<forall>m. plain_port plain_error (io_refreshScalars io m)) \<and> (\<forall>s. plain_port plain_error (io_confirmScalars io s)) \<and>
     (\<forall>i. plain_port (\<lambda>_. True) (io_view io i)) \<and> (\<forall>i start. plain_port plain_result (io_queue io i start)) \<and>
     (\<forall>e v hs v'. io_ready io v = (Some e, hs, v') \<longrightarrow> \<not> retriable (Wrapped errJournalUnavailable e)) \<and>
     plain_port (\<lambda>_. True) (io_ready io)"

subsection \<open>Programs that keep it\<close>

definition tame :: "'w worker \<Rightarrow> bool" where
  "tame w \<longleftrightarrow> plain_error (x_cause (wk_run w))"

definition tamely :: "('w worker, 'a) state \<Rightarrow> ('a \<Rightarrow> bool) \<Rightarrow> bool" where
  "tamely m P \<longleftrightarrow> (\<forall>w x w'. tame w \<longrightarrow> run_state m w = (x, w') \<longrightarrow> tame w' \<and> P x)"

lemma tamelyI: "(\<And>w x w'. tame w \<Longrightarrow> run_state m w = (x, w') \<Longrightarrow> tame w' \<and> P x) \<Longrightarrow> tamely m P"
  by (simp add: tamely_def)

lemma tamely_bind:
  "tamely m P \<Longrightarrow> (\<And>x. P x \<Longrightarrow> tamely (f x) Q) \<Longrightarrow> tamely (State_Monad.bind m f) Q"
proof (rule tamelyI)
  fix w y w''
  assume m: "tamely m P" and f: "\<And>x. P x \<Longrightarrow> tamely (f x) Q" and w: "tame w"
    and run: "run_state (State_Monad.bind m f) w = (y, w'')"
  obtain x w' where x: "run_state m w = (x, w')" by fastforce
  with m w have "tame w' \<and> P x" by (auto simp: tamely_def)
  moreover have "run_state (f x) w' = (y, w'')" using run x by simp
  ultimately show "tame w'' \<and> Q y" using f by (auto simp: tamely_def)
qed

lemma tamely_return: "P x \<Longrightarrow> tamely (State_Monad.return x) P"
  by (auto simp: tamely_def)

lemma tamely_weaken: "tamely m P \<Longrightarrow> (\<And>x. P x \<Longrightarrow> Q x) \<Longrightarrow> tamely m Q"
  by (auto simp: tamely_def)

lemma tamely_done: "tamely (done_with x) plain_result"
  by (simp add: done_with_def tamely_return)

lemma tamely_fail: "\<not> retriable e \<Longrightarrow> tamely (fail e) plain_result"
  by (simp add: fail_def tamely_return)

lemma tamely_andThen:
  "tamely m plain_result \<Longrightarrow> (\<And>x. tamely (f x) plain_result) \<Longrightarrow> tamely (andThen m f) plain_result"
  unfolding andThen_def by (rule tamely_bind [where P = plain_result]) (auto intro: tamely_fail split: sum.splits)

lemma tamely_guarding:
  "tamely m plain_error \<Longrightarrow> tamely f plain_result \<Longrightarrow> tamely (guarding m f) plain_result"
  unfolding guarding_def by (rule tamely_bind [where P = plain_error]) (auto intro: tamely_fail split: option.splits)

lemma tamely_require: "plain_error e \<Longrightarrow> tamely f plain_result \<Longrightarrow> tamely (require e f) plain_result"
  unfolding require_def by (auto intro: tamely_fail split: option.splits)

lemma tamely_if: "(b \<Longrightarrow> tamely m P) \<Longrightarrow> (\<not> b \<Longrightarrow> tamely n P) \<Longrightarrow> tamely (if b then m else n) P"
  by simp

lemma tamely_case_sum:
  "(\<And>e. x = Inl e \<Longrightarrow> tamely (f e) P) \<Longrightarrow> (\<And>y. x = Inr y \<Longrightarrow> tamely (g y) P) \<Longrightarrow> tamely (case_sum f g x) P"
  by (cases x) auto

lemma tamely_case_option:
  "(x = None \<Longrightarrow> tamely f P) \<Longrightarrow> (\<And>y. x = Some y \<Longrightarrow> tamely (g y) P) \<Longrightarrow> tamely (case_option f g x) P"
  by (cases x) auto

lemma tamely_case_prod: "(\<And>a b. x = (a, b) \<Longrightarrow> tamely (f a b) P) \<Longrightarrow> tamely (case_prod f x) P"
  by (cases x) auto

lemma tamely_getRun: "tamely getRun (\<lambda>r. plain_error (x_cause r))"
  by (auto simp: tamely_def run_simps tame_def)

lemma tamely_runCause: "tamely runCause plain_error"
  by (auto simp: tamely_def run_simps tame_def)

lemma tamely_modifyRun: "(\<And>r. x_cause (f r) = x_cause r) \<Longrightarrow> tamely (modifyRun f) (\<lambda>_. True)"
  by (auto simp: tamely_def run_simps tame_def)

lemma tamely_lockRun:
  "(\<And>r. x_cause (snd (f r)) = x_cause r) \<Longrightarrow> (\<And>r. plain_error (x_cause r) \<Longrightarrow> P (fst (f r))) \<Longrightarrow> tamely (lockRun f) P"
  by (auto simp: tamely_def run_simps tame_def)

lemma eventOwnershipError_form: "\<exists>a b. eventOwnershipError e s = OwnershipError a b"
  by (auto simp: eventOwnershipError_def split: prod.splits option.splits)

lemma tame_happen:
  assumes "tame w" and "plain_happening h"
  shows "tame (happen h w)"
proof (cases h)
  case (Notified now e)
  have "x_cause (execution_event now e r) = x_cause r \<or>
      (x_cause r = None \<and> (\<exists>a b. x_cause (execution_event now e r) = Some (OwnershipError a b)))" for r
    by (rule execution_event_cases [of e r now])
      (auto simp: attribution_frame_def revoke_cause eventOwnershipError_form split: option.splits)
  with assms Notified show ?thesis by (auto simp: tame_def) (metis not_retriable(6) plain_simps(2))
qed (use assms in \<open>auto simp: tame_def plain_happening_def cancel_run_def reserveSkip_def admitSkip_def clearSkip_def
      signal_def Let_def split: option.splits sum.splits\<close>)

lemma tame_happenings: "list_all plain_happening hs \<Longrightarrow> tame w \<Longrightarrow> tame (fold happen hs w)"
  by (induction hs arbitrary: w) (auto intro: tame_happen)

lemma tamely_call: "plain_port P p \<Longrightarrow> tamely (call p) P"
proof (rule tamelyI)
  fix w x w'
  assume p: "plain_port P p" and w: "tame w" and run: "run_state (call p) w = (x, w')"
  obtain hs v where "p (wk_world w) = (x, hs, v)" "w' = (fold happen hs w)\<lparr>wk_world := v\<rparr>"
    using run by (auto simp: run_simps split: prod.splits)
  with p tame_happenings [of hs w] w show "tame w' \<and> P x"
    by (auto simp: plain_port_def tame_def dest!: spec [of _ "wk_world w"])
qed

lemmas tamely_intros =
  tamely_done tamely_andThen tamely_guarding tamely_require tamely_if tamely_case_sum tamely_case_option
  tamely_case_prod tamely_runCause

lemma tamely_any: "tamely m P \<Longrightarrow> (\<And>x. tamely (f x) Q) \<Longrightarrow> tamely (State_Monad.bind m f) Q"
  by (rule tamely_bind)

lemma plain_readsD:
  assumes "plain_reads io"
  shows "tamely (call (io_now io)) (\<lambda>_. True)" "tamely (call (io_timeout io)) (\<lambda>_. True)"
    "tamely (call (io_wait io d wake)) plain_error" "tamely (call (io_snapshot io)) (\<lambda>_. True)"
    "tamely (call (io_refresh io)) plain_error" "tamely (call (io_reconcile io b)) plain_error"
    "tamely (call (io_refreshScalars io m)) plain_error" "tamely (call (io_confirmScalars io s)) plain_error"
    "tamely (call (io_view io i)) (\<lambda>_. True)" "tamely (call (io_queue io i start)) plain_result"
    "tamely (call (io_ready io)) (\<lambda>x. \<forall>e. x = Some e \<longrightarrow> \<not> retriable (Wrapped errJournalUnavailable e))"
proof -
  have "plain_port (\<lambda>x. \<forall>e. x = Some e \<longrightarrow> \<not> retriable (Wrapped errJournalUnavailable e)) (io_ready io)"
    using assms by (fastforce simp: plain_reads_def plain_port_def split: prod.splits)
  then show "tamely (call (io_ready io)) (\<lambda>x. \<forall>e. x = Some e \<longrightarrow> \<not> retriable (Wrapped errJournalUnavailable e))"
    by (rule tamely_call)
qed (use assms in \<open>auto simp: plain_reads_def intro!: tamely_call\<close>)

lemma tamely_ctxCause: "plain_reads io \<Longrightarrow> \<not> retriable e \<Longrightarrow> tamely (ctxCause io e) plain_error"
  unfolding ctxCause_def
  by (rule tamely_bind [OF plain_readsD(2)], assumption, rule tamely_bind [OF tamely_getRun], rule tamely_return)
    (auto split: option.splits)

lemma tamely_completePages: "plain_reads io \<Longrightarrow> tamely (completePages n io s q) plain_result"
proof (induction n arbitrary: q)
  case 0
  show ?case by (subst completePages.simps) (auto intro!: tamely_intros tamely_fail split: option.splits)
next
  case (Suc n)
  show ?case
    by (subst completePages.simps)
      (auto intro!: tamely_intros tamely_fail Suc plain_readsD(10) split: option.splits)
qed

lemma tamely_completeQueue: "plain_reads io \<Longrightarrow> tamely (completeQueue io s) plain_result"
  unfolding completeQueue_def
  by (auto intro!: tamely_intros tamely_fail tamely_completePages tamely_any [OF plain_readsD(9)])

lemma tamely_retryStale:
  assumes "plain_reads io" and "tamely m plain_result"
  shows "tamely (retryStale n io m) plain_result"
proof (induction n)
  case 0
  show ?case by (simp add: tamely_fail)
next
  case (Suc n)
  show ?case
    unfolding retryStale.simps
    by (rule tamely_guarding [OF tamely_ctxCause [OF assms(1)] tamely_bind [OF assms(2)]])
      (auto intro!: tamely_intros tamely_fail Suc.IH split: sum.splits)
qed

lemmas tamely_reads =
  tamely_any [OF plain_readsD(1)] tamely_any [OF plain_readsD(4)] tamely_any [OF plain_readsD(9)]
  tamely_any [OF tamely_getRun] tamely_any [OF tamely_modifyRun] tamely_bind [OF tamely_ctxCause]

lemmas tamely_rules = tamely_intros tamely_fail tamely_ctxCause tamely_completeQueue tamely_retryStale tamely_reads

lemma tamely_observe: "plain_reads io \<Longrightarrow> tamely (observe io bounded) plain_result"
  unfolding observe_def observeOnce_def by (auto intro!: tamely_rules plain_readsD)

lemma tamely_observeRun: "plain_reads io \<Longrightarrow> tamely (observeRun io reuse) plain_result"
  unfolding observeRun_def Let_def
  by (auto intro!: tamely_rules tamely_observe tamely_bind [where P = plain_result and m = "If _ _ _"]
      split: sum.splits option.splits)

lemma tamely_reconcileOwned: "plain_reads io \<Longrightarrow> tamely (reconcileOwned io) plain_result"
  unfolding reconcileOwned_def reconcileOwnedOnce_def
  by (auto intro!: tamely_rules plain_readsD tamely_bind [where P = "\<lambda>_. True" and m = "If _ _ _"] tamely_return
      intro: tamely_modifyRun)

lemma tamely_waitPending: "plain_reads io \<Longrightarrow> tamely (waitPending n io due) plain_result"
  by (induction n) (auto intro!: tamely_rules plain_readsD)

lemma tamely_waitForObservation: "plain_reads io \<Longrightarrow> tamely (waitForObservation n io deadline) plain_result"
  unfolding waitForObservation_def Let_def by (auto intro!: tamely_rules tamely_waitPending plain_readsD)

lemma tamely_checkJournal: "plain_reads io \<Longrightarrow> tamely (checkJournal io) plain_result"
  unfolding checkJournal_def
  by (rule tamely_bind [OF plain_readsD(11)]) (auto intro!: tamely_intros tamely_fail split: option.splits)

subsection \<open>Decisions\<close>

lemma deviceObservationSafety_plain [simp]: "plain_error (deviceObservationSafety p s)"
  by (simp add: deviceObservationSafety_def)

lemma deviceObservationSafety_conclusive: "deviceObservationSafety p s = Some e \<Longrightarrow> \<not> retriable e"
  using deviceObservationSafety_plain [of p s] unfolding plain_error_def by simp

lemma deviceSafety_plain [simp]: "plain_error (deviceSafety p s)"
  by (auto simp: deviceSafety_def dest: deviceObservationSafety_conclusive split: option.splits)

lemma captureDecision_plain: "plain_error e \<Longrightarrow> plain_error (captureDecision e rule)"
  by (auto simp: captureDecision_def split: option.splits)

lemma decideQueueObservation_plain:
  "plain_error (f_Cancellation f) \<Longrightarrow> plain_error (f_Unsafe f) \<Longrightarrow> plain_error (qd_Err (decideQueueObservation st f))"
  by (auto simp: policy_simps split: if_splits)

lemma queueObservationDecision_plain:
  "plain_error (x_cause r) \<Longrightarrow> plain_error (qd_Err (fst (queueObservationDecision p now cause before fresh r)))"
  by (auto simp: queueObservationDecision_def Let_def intro!: captureDecision_plain decideQueueObservation_plain)

lemma decideQueueStart_plain:
  "plain_error (sf_Cancellation f) \<Longrightarrow> plain_error (sf_Unsafe f) \<Longrightarrow> plain_error (sd_Err (decideQueueStart f))"
  by (auto simp: policy_simps split: if_splits)

lemma queueStartObservation_plain:
  "plain_error cause \<Longrightarrow> plain_error (sd_Err (fst (queueStartObservation p now cause before after deadline r)))"
  by (auto simp: queueStartObservation_def Let_def intro!: captureDecision_plain decideQueueStart_plain split: option.splits)

lemma loadingGuard_plain: "plain_error cause \<Longrightarrow> plain_error (loadingGuard p now cause before after r)"
  by (auto simp: loadingGuard_def dest: deviceObservationSafety_conclusive split: option.splits)

lemma appendObservation_plain:
  "plain_error cause \<Longrightarrow> plain_result (fst (appendObservation p now cause before after r))"
  using loadingGuard_plain [of cause p now before after r]
  by (auto simp: appendObservation_def Let_def split: option.splits)

lemma removeObservation_plain:
  "plain_error cause \<Longrightarrow> plain_result (fst (removeObservation p now cause before after k r))"
  using loadingGuard_plain [of cause p now before after r]
  by (auto simp: removeObservation_def Let_def split: option.splits prod.splits bool.splits)

lemma acceptSkipReadback_plain:
  "plain_error cause \<Longrightarrow> plain_result (fst (acceptSkipReadback cause before after r))"
  by (auto simp: acceptSkipReadback_def Let_def split: option.splits)

lemma judgeReadback_plain:
  assumes "plain_error cause"
  shows "plain_result (fst (judgeReadback p m before after deadline now cause r))"
proof -
  obtain d r' where q: "queueStartObservation p now cause before after deadline r = (d, r')" by fastforce
  then have "plain_error (sd_Err d)" using queueStartObservation_plain [OF assms, of p now before after deadline r] by simp
  with assms show ?thesis
    by (cases "m_Kind m")
      (auto simp: judgeReadback_def q appendObservation_plain removeObservation_plain acceptSkipReadback_plain
        dest: deviceObservationSafety_conclusive split: queueStartAction.splits option.splits)
qed

lemma acceptFallback_plain: "plain_error (x_cause r) \<Longrightarrow> plain_result (fst (acceptFallback m s r))"
  by (auto simp: acceptFallback_def Let_def split: option.splits)

subsection \<open>Everything after a command\<close>

lemma tamely_transitionDecision:
  "plain_reads io \<Longrightarrow> tamely (transitionDecision io p cause before fresh) (\<lambda>d. plain_error (qd_Err d))"
  unfolding transitionDecision_def
  by (auto intro!: tamely_reads tamely_lockRun queueObservationDecision_plain)

lemma tamely_awaitRound: "plain_reads io \<Longrightarrow> tamely (awaitRound n io deadline fresh) plain_result"
  unfolding awaitRound_def
  by (rule tamely_bind [OF tamely_waitForObservation], assumption)
    (auto intro!: tamely_rules tamely_bind [OF plain_readsD(11)] tamely_bind [OF tamely_reconcileOwned] tamely_return
      split: sum.splits option.splits)

lemma tamely_awaitLoop:
  assumes "plain_reads io"
  shows "plain_error (qd_Err d) \<Longrightarrow> tamely (awaitLoop n io p before deadline fresh waited d) plain_result"
proof (induction n arbitrary: fresh waited d)
  case 0
  show ?case by (simp add: tamely_fail)
next
  case (Suc n)
  then show ?case
    using assms
    by (cases "qd_Action d")
      (auto intro!: tamely_rules tamely_awaitRound tamely_bind [OF tamely_transitionDecision])
qed

lemma tamely_awaitOwnedPlayback:
  "plain_reads io \<Longrightarrow> tamely (awaitOwnedPlayback n io p before fresh) plain_result"
  unfolding awaitOwnedPlayback_def
  by (rule tamely_bind [OF tamely_runCause], rule tamely_bind [OF tamely_transitionDecision], assumption)
    (auto intro!: tamely_intros tamely_awaitLoop)

lemma tamely_scalarLoop: "plain_reads io \<Longrightarrow> tamely (scalarLoop n io deadline fallbackAt) plain_result"
  by (induction n)
    (auto intro!: tamely_rules plain_readsD tamely_checkJournal tamely_bind [OF plain_readsD(8)] simp: Let_def
      split: option.splits)

lemma tamely_confirmScalar: "plain_reads io \<Longrightarrow> tamely (confirmScalar n io m) plain_result"
  unfolding confirmScalar_def scalarFallback_def Let_def
  by (auto intro!: tamely_rules plain_readsD tamely_scalarLoop tamely_lockRun acceptFallback_plain)

lemma tamely_readbackRead: "plain_reads io \<Longrightarrow> tamely (readbackRead io m reuse) plain_result"
  unfolding readbackRead_def by (intro tamely_intros tamely_observeRun tamely_completeQueue)

lemma tamely_readbackVerdict:
  "plain_reads io \<Longrightarrow> plain_result x \<Longrightarrow> tamely (readbackVerdict io p m before deadline x) plain_result"
  unfolding readbackVerdict_def
  by (cases x)
    (auto intro!: tamely_rules tamely_bind [OF tamely_lockRun [where P = plain_result]] judgeReadback_plain tamely_return
      split: sum.splits)

lemma tamely_readbackLoop:
  assumes "plain_reads io"
  shows "tamely (readbackLoop n io p m before deadline reuse) plain_result"
proof (induction n arbitrary: reuse)
  case 0
  show ?case by (simp add: tamely_fail)
next
  case (Suc n)
  show ?case
    unfolding readbackLoop.simps
    by (auto intro!: tamely_rules assms tamely_bind [OF tamely_readbackRead] tamely_readbackVerdict
        tamely_waitForObservation Suc.IH split: option.splits)
qed

lemma tamely_confirmReadback: "plain_reads io \<Longrightarrow> tamely (confirmReadback n io p m before) plain_result"
  unfolding confirmReadback_def Let_def by (auto intro!: tamely_rules tamely_confirmScalar tamely_readbackLoop)

lemma confirmedState_conclusive: "confirmedState m fresh after r = Inl e \<Longrightarrow> \<not> retriable e"
  by (cases "m_Kind m") (auto simp: confirmedState_def split: if_splits)

lemma adoptConfirmed_plain: "plain_result (fst (adoptConfirmed m expected after r))"
  by (simp add: adoptConfirmed_def Let_def)

lemma tamely_confirmWrite: "plain_reads io \<Longrightarrow> tamely (confirmWrite n io l m fresh) plain_result"
  unfolding confirmWrite_def
  by (rule tamely_bind [OF tamely_confirmReadback], assumption)
    (auto intro!: tamely_rules tamely_awaitOwnedPlayback tamely_lockRun adoptConfirmed_plain
      dest: confirmedState_conclusive split: sum.splits)

subsection \<open>The retry loop\<close>

definition refused :: "sending \<Rightarrow> bool" where
  "refused sd = (case sd_answer sd of Inl e \<Rightarrow> retriable e | Inr _ \<Rightarrow> False)"

lemma writeOnce_retry:
  assumes "plain_reads io" and run: "run_state (writeOnce n io l m) w = (Inl e, w')"
    and retry: "mayRetry e (wk_run w')"
  shows "\<exists>new. wk_sent w' = wk_sent w @ new \<and> length new \<le> 1 \<and> list_all refused new"
proof -
  from retry have e: "retriable e" and c: "x_cause (wk_run w') = None" by (simp_all add: mayRetry_def retriable_def)
  consider "wk_sent w' = wk_sent w" | sd where "wk_sent w' = wk_sent w @ [sd]"
    "case sd_answer sd of Inl f \<Rightarrow> (Inl e :: unit result) = Inl f
     | Inr _ \<Rightarrow> \<exists>fresh v. run_state (confirmWrite n io l m fresh) v = (Inl e, w') \<and> cause_kept (wk_run v) (wk_run w')"
    using writeOnce_once [OF run] unfolding sent_once_def by (elim disjE exE conjE) blast+
  then show ?thesis
  proof cases
    case 1
    then show ?thesis by simp
  next
    case 2
    show ?thesis
    proof (cases "sd_answer sd")
      case (Inl f)
      with 2 e show ?thesis by (simp add: refused_def)
    next
      case (Inr reply)
      with 2(2) obtain fresh v where v: "run_state (confirmWrite n io l m fresh) v = (Inl e, w')"
        "cause_kept (wk_run v) (wk_run w')" by auto
      with c have "tame v" by (cases "x_cause (wk_run v)") (auto simp: tame_def cause_kept_def)
      with v(1) tamely_confirmWrite [OF assms(1), of n l m fresh] have "plain_result (Inl e :: unit result)"
        unfolding tamely_def by blast
      with e show ?thesis by simp
    qed
  qed
qed

lemma writeOnce_single: "\<exists>new. wk_sent (snd (run_state (writeOnce n io l m) w)) = wk_sent w @ new \<and> length new \<le> 1"
  using writeOnce_once [of n io l m w "fst (run_state (writeOnce n io l m) w)" "snd (run_state (writeOnce n io l m) w)"]
  by (auto simp: sent_once_def)

lemma writeAttempts_replay:
  assumes "plain_reads io"
  shows "\<exists>new. wk_sent (snd (run_state (writeAttempts k n io l m) w)) = wk_sent w @ new \<and> length new \<le> k \<and>
    list_all refused (butlast new)"
proof (induction k arbitrary: w)
  case 0
  show ?case by (simp add: run_simps)
next
  case (Suc k)
  obtain x w1 where x: "run_state (writeOnce n io l m) w = (x, w1)" by fastforce
  obtain one where one: "wk_sent w1 = wk_sent w @ one" "length one \<le> 1"
    using writeOnce_single [of n io l m w] x by auto
  then have b: "butlast one = []" by (cases one) auto
  show ?case
  proof (cases "\<exists>e. x = Inl e \<and> mayRetry e (wk_run w1) \<and> k \<noteq> 0")
    case False
    with x one b show ?thesis by (auto simp: run_simps split: sum.splits)
  next
    case True
    then obtain e where e: "x = Inl e" "mayRetry e (wk_run w1)" "k \<noteq> 0" by blast
    with writeOnce_retry [OF assms] x one have r: "list_all refused one" by fastforce
    let ?w = "w1\<lparr>wk_run := (wk_run w1)\<lparr>x_events := (\<lambda>_. [])\<rparr>\<rparr>"
    have "snd (run_state (writeAttempts (Suc k) n io l m) w) = snd (run_state (writeAttempts k n io l m) ?w)"
      using x e by (simp add: run_simps)
    moreover obtain more where "wk_sent (snd (run_state (writeAttempts k n io l m) ?w)) = wk_sent ?w @ more"
        "length more \<le> k" "list_all refused (butlast more)"
      using Suc.IH by blast
    ultimately show ?thesis
      using one r b by (intro exI [of _ "one @ more"]) (auto simp: butlast_append)
  qed
qed

text \<open>
  C9. A command is never replayed: a call of \<open>write\<close> issues at most three commands, and every one
  of them but the last was answered with the proof that nothing was sent, a \<open>NotSent\<close> error of a
  stale guard. In particular nothing is issued again once the writer reported success, rejection or
  an unknown delivery. The readers promise that their own errors are never such a refusal.
\<close>

theorem commands_never_replayed:
  assumes "plain_reads io"
  shows "\<exists>new. wk_sent (snd (run_state (worker_write n io l m) w)) = wk_sent w @ new \<and> length new \<le> 3 \<and>
    list_all refused (butlast new)"
  using writeAttempts_replay [OF assms, of 3] by (simp add: worker_write_def)

lemma device_ports_plain: "plain_reads device_ports"
  by (simp add: plain_reads_def plain_port_def device_ports_def device_view_def)

theorem commands_never_replayed_witness:
  "plain_reads device_ports \<and>
   (\<exists>new. wk_sent (snd (run_state (worker_write 9 device_ports example_lane (example_volume 35)) example_replay)) = new \<and>
      length new \<le> 3 \<and> list_all refused (butlast new))"
  using commands_never_replayed [OF device_ports_plain, of 9 example_lane "example_volume 35" example_replay]
    device_ports_plain
  by (simp add: example_replay_def)

end
