(* ===== verification/Paging.thy ===== *)
theory Paging
  imports Scripted
begin

section \<open>Paged queue reads\<close>

text \<open>
  \<open>completeQueue\<close> of \<open>control/ownership.go\<close> against a reader that serves a stable queue in pages: the
  assembled queue is the queue itself.
\<close>

text \<open>The page of \<open>count\<close> entries from \<open>start\<close>, as the device serves it; the reference is one page of everything.\<close>

definition served_page :: "Token \<Rightarrow> Media list \<Rightarrow> nat \<Rightarrow> nat \<Rightarrow> QueuePage" where
  "served_page t xs start count =
     \<lparr>q_Items = take count (drop start xs), q_Total = Some (int (length xs)),
      q_Next = (if start + count < length xs then Some (int (start + count)) else None), q_Token = t\<rparr>"

definition whole_queue :: "Token \<Rightarrow> Media list \<Rightarrow> QueuePage" where
  "whole_queue t xs = served_page t xs 0 (length xs)"

text \<open>
  The reader's promise while the queue is stable: every page has at least \<open>least\<close> entries unless the
  queue ends, carries the token of the snapshot, and the view still has that token at the end.
\<close>

definition serves :: "'w ports \<Rightarrow> Snapshot \<Rightarrow> Media list \<Rightarrow> nat \<Rightarrow> bool" where
  "serves io s xs least \<longleftrightarrow>
     (\<forall>start v. start < length xs \<longrightarrow>
        (\<exists>c hs v'. least \<le> c \<and> io_queue io (p_ID (s_Player s)) (int start) v = (Inr (served_page (s_Token s) xs start c), hs, v'))) \<and>
     (\<forall>v. \<exists>hs v'. io_view io (p_ID (s_Player s)) v = (\<lparr>v_Token = s_Token s, v_Connected = True\<rparr>, hs, v'))"

lemma served_page_append:
  assumes "c0 < length xs"
  shows "take c0 xs @ take c (drop c0 xs) = take (c0 + c) xs"
  by (simp add: take_add)

lemma completePages_whole:
  assumes io: "serves io s xs least" and "0 < least" and bound: "int (length xs) \<le> MaxBrowseItems"
  shows "q = (served_page t xs 0 c) \<Longrightarrow> length xs \<le> c + n * least \<Longrightarrow>
    \<exists>w'. run_state (completePages n io s q) w = (Inr (whole_queue t xs), w')"
proof (induction n arbitrary: q c w)
  case 0
  then show ?case
    by (subst completePages.simps) (simp add: served_page_def whole_queue_def run_simps)
next
  case (Suc n)
  show ?case
  proof (cases "c < length xs")
    case False
    with Suc.prems show ?thesis
      by (subst completePages.simps) (simp add: served_page_def whole_queue_def run_simps)
  next
    case True
    from io True obtain c' hs v' where c': "least \<le> c'"
      and page: "io_queue io (p_ID (s_Player s)) (int c) (wk_world w) = (Inr (served_page (s_Token s) xs c c'), hs, v')"
      unfolding serves_def by blast
    let ?q = "served_page t xs 0 (c + c')"
    let ?w = "(fold happen hs w)\<lparr>wk_world := v'\<rparr>"
    have next_page: "q\<lparr>q_Items := q_Items q @ q_Items (served_page (s_Token s) xs c c'), q_Next := q_Next (served_page (s_Token s) xs c c')\<rparr> = ?q"
      using Suc.prems(1) served_page_append [OF True] by (simp add: served_page_def)
    have "run_state (completePages (Suc n) io s q) w = run_state (completePages n io s ?q) ?w"
      using Suc.prems(1) True bound c' \<open>0 < least\<close> page next_page
      by (subst completePages.simps) (simp add: served_page_def run_simps)
    moreover have "length xs \<le> (c + c') + n * least" using Suc.prems(2) c' by simp
    ultimately show ?thesis using Suc.IH [OF refl] by simp
  qed
qed

text \<open>
  C26. Reading a queue in pages is reading the queue: when the reader serves a stable queue of at most
  10,000 entries in pages of at least \<open>least\<close> entries, a hundred of which cover it, completing a
  snapshot that holds the first page yields exactly the snapshot with the whole queue in one page.
\<close>

theorem completeQueue_whole:
  assumes "serves io s xs least" and "0 < least" and "int (length xs) \<le> MaxBrowseItems"
    and "s_Queue s = served_page t xs 0 least" and "length xs \<le> 100 * least"
  shows "fst (run_state (completeQueue io s) w) = Inr (s\<lparr>s_Queue := whole_queue t xs\<rparr>)"
proof (cases "least < length xs")
  case False
  then have q: "s_Queue s = whole_queue t xs" using assms(4) by (simp add: served_page_def whole_queue_def)
  then show ?thesis by (simp add: completeQueue_def run_simps whole_queue_def served_page_def flip: q)
next
  case True
  have "length xs \<le> least + (MaxBrowsePages - 1) * least" using assms(5) by (simp add: MaxBrowsePages_def)
  then obtain w' where w': "run_state (completePages (MaxBrowsePages - 1) io s (s_Queue s)) w = (Inr (whole_queue t xs), w')"
    using completePages_whole [OF assms(1,2,3,4)] by blast
  obtain hs v' where "io_view io (p_ID (s_Player s)) (wk_world w') = (\<lparr>v_Token = s_Token s, v_Connected = True\<rparr>, hs, v')"
    using assms(1) unfolding serves_def by blast
  with w' True assms(4) show ?thesis
    by (simp add: completeQueue_def run_simps whole_queue_def served_page_def)
qed

definition example_tracks :: "Media list" where
  "example_tracks = [example_media ''a'' ''1'', example_media ''b'' ''2'', example_media ''c'' ''3'']"

definition paged_ports :: "device ports" where
  "paged_ports = device_ports
     \<lparr>io_queue := (\<lambda>i start v. (Inr (served_page zeroToken example_tracks (nat start) 2), [], v)),
      io_view := (\<lambda>i v. (\<lparr>v_Token = zeroToken, v_Connected = True\<rparr>, [], v))\<rparr>"

definition example_first_page :: Snapshot where
  "example_first_page = (example_playing (example_media ''a'' ''1'') [])\<lparr>s_Queue := served_page zeroToken example_tracks 0 2\<rparr>"

theorem completeQueue_whole_witness:
  "length (q_Items (s_Queue example_first_page)) = 2 \<and>
   map_sum (\<lambda>e. e) (\<lambda>s. map md_QueueID (q_Items (s_Queue s))) (fst (run_state (completeQueue paged_ports example_first_page) example_replay)) =
     Inr [''1'', ''2'', ''3'']"
proof -
  have t: "s_Token example_first_page = zeroToken" by code_simp
  have s: "serves paged_ports example_first_page example_tracks 2"
    unfolding serves_def t by (auto simp: paged_ports_def)
  have b: "int (length example_tracks) \<le> MaxBrowseItems" "length example_tracks \<le> 100 * 2" by (simp_all add: example_tracks_def MaxBrowseItems_def)
  have q: "s_Queue example_first_page = served_page zeroToken example_tracks 0 2" by (simp add: example_first_page_def)
  show ?thesis
    using completeQueue_whole [OF s _ b(1) q b(2), of example_replay] q
    by (simp add: whole_queue_def served_page_def example_tracks_def example_media_def)
qed

end
