(* ===== verification/Plans.thy ===== *)
theory Plans
  imports Execute
begin

section \<open>Playback plans\<close>

text \<open>
  What a playback command selects, resolved before anything is admitted: the configured source of a
  reference (\<open>reads.go\<close>), the item and the media it may lead to (\<open>playback_media.go\<close>), the parts of an
  ordered plan (\<open>playback_plan.go\<close>) and of a buffered plan (\<open>buffered_plan.go\<close>). All of it only reads. The
  programs run beside the worker of the lane, which keeps receiving notifications meanwhile; the
  request's own context is the port \<open>rd_err\<close>.
\<close>

record Source =
  so_Key :: string
  so_Player :: string
  so_Name :: string

text \<open>
  The read side of a request: the configured sources and players, \<open>Resolve\<close> of the catalog of a
  source (\<open>None\<close> when the source has none), and \<open>Err\<close> of the request's context.
\<close>

record 'w reads =
  rd_sources :: "Source list"
  rd_players :: "string list"
  rd_resolve :: "string \<Rightarrow> ID \<Rightarrow> string \<Rightarrow> ('w, Item result option) port"
  rd_err :: "('w, error option) port"

text \<open>\<open>ErrNotFound\<close> of package control, which is not the journal's.\<close>

definition errResourceNotFound :: error where
  "errResourceNotFound = OtherError ''resource not found''"

subsection \<open>Sources\<close>

definition named_server :: "string \<Rightarrow> Item \<Rightarrow> bool" where
  "named_server name i \<longleftrightarrow> it_Name i = name \<and> it_Source i \<noteq> [] \<and> (it_Type i = ''heos_server'' \<or> it_Type i = ''dlna_server'')"

definition unique_server :: "string \<Rightarrow> Item list \<Rightarrow> ID result" where
  "unique_server name items =
     (let found = filter (named_server name) items in
      if length found > 1 then Inl ErrAmbiguous
      else case found of
             [] \<Rightarrow> Inl errResourceNotFound
           | i # _ \<Rightarrow>
               if length (filter (\<lambda>j. it_Source j = it_Source i) items) \<noteq> 1 then Inl ErrAmbiguous
               else Inr (it_Source i))"

definition find_source :: "'w reads \<Rightarrow> string \<Rightarrow> Source result" where
  "find_source rd key =
     (case find (\<lambda>s. so_Key s = key) (rd_sources rd) of
        None \<Rightarrow> Inl errResourceNotFound
      | Some s \<Rightarrow> if so_Player s \<in> set (rd_players rd) then Inr s else Inl errResourceNotFound)"

text \<open>Keys of sources are unique, so the entry found is one of the player whose device is read.\<close>

definition resolveSource :: "'w ports \<Rightarrow> 'w reads \<Rightarrow> string \<Rightarrow> ('w, ID) work" where
  "resolveSource io rd key =
     (case find_source rd key of
        Inl e \<Rightarrow> fail e
      | Inr src \<Rightarrow> do {
          s \<leftarrow> call (io_snapshot io);
          if \<not> s_Verified s then fail ErrUnavailable
          else andThen (call (io_browseAll io ''1024'' [])) (\<lambda>items. State_Monad.return (unique_server (so_Name src) items))
        })"

subsection \<open>One item and its media\<close>

definition selectable :: "Item \<Rightarrow> Item result" where
  "selectable i =
     (if it_ContainerID i = [] then Inl ErrBounds
      else if it_Container i = ''yes'' \<or> playable_track i then Inr i else Inl ErrBounds)"

fun resolveFrom :: "'w ports \<Rightarrow> 'w reads \<Rightarrow> config_Player \<Rightarrow> string \<Rightarrow> Source list \<Rightarrow> error option \<Rightarrow> ('w, Item) work" where
  "resolveFrom io rd p ref [] sourceErr = fail (case sourceErr of Some e \<Rightarrow> e | None \<Rightarrow> ErrStaleReference)"
| "resolveFrom io rd p ref (src # rest) sourceErr =
     (if so_Player src \<noteq> cp_Key p then resolveFrom io rd p ref rest sourceErr
      else do {
        x \<leftarrow> resolveSource io rd (so_Key src);
        case x of
          Inl e \<Rightarrow> resolveFrom io rd p ref rest (Some e)
        | Inr sid \<Rightarrow> do {
            y \<leftarrow> call (rd_resolve rd (so_Key src) sid ref);
            case y of
              Some (Inr i) \<Rightarrow> State_Monad.return (selectable i)
            | _ \<Rightarrow> resolveFrom io rd p ref rest sourceErr
          }
      })"

definition resolveItem :: "'w ports \<Rightarrow> 'w reads \<Rightarrow> config_Player \<Rightarrow> string \<Rightarrow> ('w, Item) work" where
  "resolveItem io rd p ref = resolveFrom io rd p ref (rd_sources rd) None"

text \<open>The children of one container: the containers to visit and the media found.\<close>

fun sortChildren :: "ID \<Rightarrow> nat \<Rightarrow> Item list \<Rightarrow> (ID \<times> nat) list \<Rightarrow> ID set \<Rightarrow> ((ID \<times> nat) list \<times> ID set) result" where
  "sortChildren source depth [] todo members = Inr (todo, members)"
| "sortChildren source depth (c # cs) todo members =
     (if it_Source c \<noteq> [] \<and> it_Source c \<noteq> source then Inl ErrAmbiguous
      else if it_Container c = ''yes''
      then if it_ContainerID c = [] then Inl ErrBounds
           else sortChildren source depth cs (todo @ [(it_ContainerID c, Suc depth)]) members
      else if \<not> playable_track c then Inl ErrBounds
      else sortChildren source depth cs todo (insert (it_MediaID c) members))"

text \<open>The first argument is how many more containers may be visited.\<close>

fun walkMembers ::
  "nat \<Rightarrow> 'w ports \<Rightarrow> ID \<Rightarrow> (ID \<times> nat) list \<Rightarrow> ID set \<Rightarrow> int \<Rightarrow> ID set \<Rightarrow> ('w, ID set) work" where
  "walkMembers k io source [] seen count members = done_with members"
| "walkMembers 0 io source (n # todo) seen count members = fail ErrBounds"
| "walkMembers (Suc k) io source ((cid, depth) # todo) seen count members =
     (if cid \<in> seen \<or> depth > 8 then fail ErrBounds
      else andThen (call (io_browseAll io source cid)) (\<lambda>children.
        if count + int (length children) > MaxBrowseItems then fail ErrBounds
        else case sortChildren source depth children todo members of
               Inl e \<Rightarrow> fail e
             | Inr (todo, members) \<Rightarrow>
                 walkMembers k io source todo (insert cid seen) (count + int (length children)) members))"

definition playableMembers :: "'w ports \<Rightarrow> Item \<Rightarrow> ('w, ID set) work" where
  "playableMembers io i =
     (if it_Container i \<noteq> ''yes'' then done_with {it_MediaID i}
      else do {
        view \<leftarrow> call (io_clientView io);
        let token = v_Token view;
        andThen (walkMembers MaxBrowsePages io (it_Source i) [(it_ContainerID i, 0)] {} 0 {}) (\<lambda>members. do {
          view \<leftarrow> call (io_clientView io);
          if \<not> v_Connected view \<or> \<not> sameCatalog (v_Token view) token then fail ErrStaleReference
          else if members = {} then fail ErrBounds
          else done_with members
        })
      })"

subsection \<open>Ordered plans\<close>

definition track_problem :: "ID \<Rightarrow> Item \<Rightarrow> error option" where
  "track_problem sid t =
     (if it_Source t \<noteq> [] \<and> it_Source t \<noteq> sid then Some ErrAmbiguous
      else if it_Container t = ''yes'' \<or> \<not> playable_track t then Some ErrBounds else None)"

fun first_problem :: "ID \<Rightarrow> Item list \<Rightarrow> error option" where
  "first_problem sid [] = None"
| "first_problem sid (t # ts) = (case track_problem sid t of Some e \<Rightarrow> Some e | None \<Rightarrow> first_problem sid ts)"

definition tracks_of :: "'w ports \<Rightarrow> Item \<Rightarrow> ('w, Item list) work" where
  "tracks_of io i =
     (if it_Container i = ''yes'' then call (io_browseAll io (it_Source i) (it_ContainerID i)) else done_with [i])"

fun resolveParts ::
  "'w ports \<Rightarrow> 'w reads \<Rightarrow> config_Player \<Rightarrow> string list \<Rightarrow> ID \<Rightarrow> int \<Rightarrow> playbackPart list \<Rightarrow> ('w, playbackPart list) work" where
  "resolveParts io rd p [] sid count parts = done_with parts"
| "resolveParts io rd p (ref # refs) sid count parts =
     andThen (resolveItem io rd p ref) (\<lambda>i.
       if it_Source i = [] \<or> (sid \<noteq> [] \<and> sid \<noteq> it_Source i) then fail ErrAmbiguous
       else andThen (tracks_of io i) (\<lambda>tracks.
         if tracks = [] \<or> count + int (length tracks) > MaxBrowseItems then fail ErrBounds
         else require (first_problem (it_Source i) tracks)
           (resolveParts io rd p refs (it_Source i) (count + int (length tracks))
             (parts @ [\<lparr>pt_Item = i, pt_IDs = Some (map it_MediaID tracks), pt_Count = 0, pt_CatalogToken = zeroToken\<rparr>]))))"

type_synonym plan = "Item \<times> ID set \<times> playbackPart list"

definition plan_of :: "playbackPart list \<Rightarrow> ('w, plan) work" where
  "plan_of parts =
     (case parts of [] \<Rightarrow> fail panic | part # _ \<Rightarrow> done_with (pt_Item part, idMembership (part_ids part), parts))"

text \<open>The plan holds as long as the catalog it was read from is the current one.\<close>

definition currentPlan :: "'w ports \<Rightarrow> 'w reads \<Rightarrow> Token \<Rightarrow> playbackPart list \<Rightarrow> ('w, plan) work" where
  "currentPlan io rd token parts = do {
     view \<leftarrow> call (io_clientView io);
     guarding (call (rd_err rd))
       (if \<not> v_Connected view \<or> \<not> sameCatalog token (v_Token view) then fail ErrStaleReference else plan_of parts)
   }"

definition resolveOrdered :: "'w ports \<Rightarrow> 'w reads \<Rightarrow> config_Player \<Rightarrow> string list \<Rightarrow> ('w, plan) work" where
  "resolveOrdered io rd p refs = do {
     view \<leftarrow> call (io_clientView io);
     let token = v_Token view;
     andThen (resolveParts io rd p refs [] 0 []) (currentPlan io rd token)
   }"

subsection \<open>Buffered plans\<close>

text \<open>
  The parts of one source: \<open>None\<close> when a reference is not one of this source, so that the next source
  is tried.
\<close>

fun bufferedParts ::
  "'w reads \<Rightarrow> string \<Rightarrow> ID \<Rightarrow> Token \<Rightarrow> (string \<times> int) list \<Rightarrow> ID \<Rightarrow> playbackPart list \<Rightarrow> ('w, playbackPart list option) work" where
  "bufferedParts rd key sid token [] actual parts = done_with (Some parts)"
| "bufferedParts rd key sid token ((ref, tracks) # refs) actual parts = do {
     y \<leftarrow> call (rd_resolve rd key sid ref);
     case y of
       Some (Inr i) \<Rightarrow>
         if it_ContainerID i = [] \<or> it_Source i = [] \<or> (actual \<noteq> [] \<and> it_Source i \<noteq> actual) then fail ErrBounds
         else if it_Container i \<noteq> ''yes'' \<and> (\<not> playable_track i \<or> tracks \<noteq> 1) then fail ErrBounds
         else bufferedParts rd key sid token refs (it_Source i)
           (parts @ [\<lparr>pt_Item = i, pt_IDs = None, pt_Count = tracks, pt_CatalogToken = token\<rparr>])
     | _ \<Rightarrow> done_with None
   }"

fun prepareFirst :: "nat \<Rightarrow> 'w ports \<Rightarrow> 'w reads \<Rightarrow> playbackPart list \<Rightarrow> ('w, playbackPart list) work" where
  "prepareFirst (Suc k) io rd (part # parts) =
     andThen (prepareBufferedPart io (call (rd_err rd)) (call (rd_err rd)) part) (\<lambda>part.
       andThen (prepareFirst k io rd parts) (\<lambda>parts. done_with (part # parts)))"
| "prepareFirst k io rd parts = done_with parts"

fun bufferedFrom ::
  "'w ports \<Rightarrow> 'w reads \<Rightarrow> config_Player \<Rightarrow> Token \<Rightarrow> (string \<times> int) list \<Rightarrow> Source list \<Rightarrow> error option \<Rightarrow> ('w, plan) work" where
  "bufferedFrom io rd p token refs [] sourceErr = fail (case sourceErr of Some e \<Rightarrow> e | None \<Rightarrow> ErrStaleReference)"
| "bufferedFrom io rd p token refs (src # rest) sourceErr =
     (if so_Player src \<noteq> cp_Key p then bufferedFrom io rd p token refs rest sourceErr
      else do {
        x \<leftarrow> resolveSource io rd (so_Key src);
        case x of
          Inl e \<Rightarrow> bufferedFrom io rd p token refs rest (Some e)
        | Inr sid \<Rightarrow>
            andThen (bufferedParts rd (so_Key src) sid token refs [] []) (\<lambda>found.
              case found of
                None \<Rightarrow> bufferedFrom io rd p token refs rest sourceErr
              | Some parts \<Rightarrow> andThen (prepareFirst 2 io rd parts) (currentPlan io rd token))
      })"

definition resolveBufferedPlayback :: "'w ports \<Rightarrow> 'w reads \<Rightarrow> config_Player \<Rightarrow> Command \<Rightarrow> BufferedPlayback \<Rightarrow> ('w, plan) work" where
  "resolveBufferedPlayback io rd p cmd b = do {
     view \<leftarrow> call (io_clientView io);
     bufferedFrom io rd p (v_Token view) (zip (case c_ItemRefs cmd of None \<Rightarrow> [] | Some refs \<Rightarrow> refs) (b_PartTracks b))
       (rd_sources rd) None
   }"

definition resolvePlayback :: "'w ports \<Rightarrow> 'w reads \<Rightarrow> config_Player \<Rightarrow> Command \<Rightarrow> ('w, plan) work" where
  "resolvePlayback io rd p cmd =
     (case validatePlaybackSelection cmd of
        Inl e \<Rightarrow> fail e
      | Inr _ \<Rightarrow>
          (case c_Buffered cmd of
             Some b \<Rightarrow> resolveBufferedPlayback io rd p cmd b
           | None \<Rightarrow>
               (case c_ItemRefs cmd of
                  Some refs \<Rightarrow> resolveOrdered io rd p refs
                | None \<Rightarrow>
                    andThen (resolveItem io rd p (c_ItemRef cmd)) (\<lambda>i.
                      andThen (playableMembers io i) (\<lambda>members. done_with (i, members, []))))))"

subsection \<open>What a resolved plan holds\<close>

text \<open>
  A part of a plan is sound for a source when its item is of that source and its tracks, once they
  are known, are as many as declared and all named.
\<close>

definition sound_part :: "ID \<Rightarrow> playbackPart \<Rightarrow> bool" where
  "sound_part sid part \<longleftrightarrow> sid \<noteq> [] \<and> it_Source (pt_Item part) = sid \<and>
     (case pt_IDs part of
        None \<Rightarrow> True
      | Some ids \<Rightarrow> ids \<noteq> [] \<and> [] \<notin> set ids \<and> (0 < pt_Count part \<longrightarrow> pt_Count part = int (length ids)))"

definition sound_plan :: "plan \<Rightarrow> bool" where
  "sound_plan x \<longleftrightarrow> (case x of (i, members, parts) \<Rightarrow>
     members \<noteq> {} \<and> [] \<notin> members \<and>
     (parts = [] \<or>
      (\<exists>sid. list_all (sound_part sid) parts) \<and> i = pt_Item (hd parts) \<and> pt_IDs (hd parts) \<noteq> None \<and>
      members = set (part_ids (hd parts)) \<and> sum_list (map trackCount parts) \<le> MaxBrowseItems))"

lemma returns_case_sum:
  "(\<And>e. x = Inl e \<Longrightarrow> returns (f e) Q) \<Longrightarrow> (\<And>y. x = Inr y \<Longrightarrow> returns (g y) Q) \<Longrightarrow> returns (case_sum f g x) Q"
  by (cases x) auto

lemma returns_case_option:
  "(x = None \<Longrightarrow> returns f Q) \<Longrightarrow> (\<And>y. x = Some y \<Longrightarrow> returns (g y) Q) \<Longrightarrow> returns (case_option f g x) Q"
  by (cases x) auto

lemma returns_Let: "returns (f x) Q \<Longrightarrow> returns (Let x f) Q"
  by simp

lemma returns_return: "(\<And>y w. x = Inr y \<Longrightarrow> Q y w) \<Longrightarrow> returns (State_Monad.return x) Q"
  by (simp add: returns_def)

lemmas returns_rules = returns_intros returns_case_sum returns_case_option returns_Let returns_return returns_require

lemma selectable_Inr: "selectable i = Inr j \<Longrightarrow> j = i \<and> it_ContainerID i \<noteq> [] \<and> (it_Container i = ''yes'' \<or> playable_track i)"
  by (auto simp: selectable_def split: if_splits)

lemma returns_resolveFrom:
  "returns (resolveFrom io rd p ref srcs sourceErr) (\<lambda>i w. it_Container i = ''yes'' \<or> playable_track i)"
proof (induction srcs arbitrary: sourceErr)
  case (Cons src srcs)
  then show ?case by (auto intro!: returns_rules dest: selectable_Inr split: sum.splits)
qed (auto intro: returns_rules)

lemma returns_resolveItem: "returns (resolveItem io rd p ref) (\<lambda>i w. it_Container i = ''yes'' \<or> playable_track i)"
  unfolding resolveItem_def by (rule returns_resolveFrom)

lemma sortChildren_members:
  "sortChildren source depth cs todo members = Inr (todo', members') \<Longrightarrow> [] \<notin> members \<Longrightarrow> [] \<notin> members'"
  by (induction source depth cs todo members rule: sortChildren.induct) (auto simp: playable_track_def split: if_splits)

lemma returns_walkMembers:
  "[] \<notin> members \<Longrightarrow> returns (walkMembers k io source todo seen count members) (\<lambda>out w. [] \<notin> out)"
proof (induction k io source todo seen count members rule: walkMembers.induct)
  case (3 k io source cid depth todo seen count members)
  show ?case
    unfolding walkMembers.simps
    by (intro returns_rules; clarsimp split: prod.splits; auto intro!: "3.IH" returns_rules dest: sortChildren_members [OF _ "3.prems"])
qed (auto intro: returns_rules)

lemma returns_playableMembers:
  assumes "it_Container i = ''yes'' \<or> playable_track i"
  shows "returns (playableMembers io i) (\<lambda>out w. out \<noteq> {} \<and> [] \<notin> out)"
proof (cases "it_Container i = ''yes''")
  case True
  have w: "returns (walkMembers MaxBrowsePages io (it_Source i) [(it_ContainerID i, 0)] {} 0 {}) (\<lambda>out w. [] \<notin> out)"
    by (rule returns_walkMembers) simp
  show ?thesis
    unfolding playableMembers_def using True by (auto intro!: returns_rules returns_seq [OF w])
next
  case False
  then show ?thesis using assms by (auto simp: playableMembers_def playable_track_def intro: returns_rules)
qed

lemma first_problem_None: "first_problem sid ts = None \<Longrightarrow> list_all playable_track ts"
  by (induction ts) (auto simp: track_problem_def split: option.splits if_splits)

lemma playable_ids: "list_all playable_track ts \<Longrightarrow> [] \<notin> set (map it_MediaID ts)"
  by (auto simp: list_all_iff playable_track_def)

definition ordered_parts :: "ID \<Rightarrow> int \<Rightarrow> nat \<Rightarrow> playbackPart list \<Rightarrow> bool" where
  "ordered_parts sid count n parts \<longleftrightarrow>
     length parts = n \<and> list_all (sound_part sid) parts \<and> list_all (\<lambda>q. pt_IDs q \<noteq> None) parts \<and>
     (parts = [] \<or> count + sum_list (map trackCount parts) \<le> MaxBrowseItems)"

lemma ordered_parts_Cons:
  assumes "sound_part sid q" and "pt_IDs q = Some ids" and "pt_Count q = 0"
    and "count + int (length ids) \<le> MaxBrowseItems" and "ordered_parts sid (count + int (length ids)) n parts"
  shows "ordered_parts sid count (Suc n) (q # parts)"
  using assms by (auto simp: ordered_parts_def trackCount_def part_ids_def)

lemma returns_resolveParts:
  "returns (resolveParts io rd p refs sid count parts)
     (\<lambda>out w. \<exists>sid' new. out = parts @ new \<and> ordered_parts sid' count (length refs) new \<and> (sid = [] \<or> new = [] \<or> sid' = sid))"
proof (induction refs arbitrary: sid count parts)
  case Nil
  show ?case by (auto intro: returns_rules simp: ordered_parts_def)
next
  case (Cons ref refs)
  have "returns (resolveParts io rd p refs (it_Source i) (count + int (length tracks))
      (parts @ [\<lparr>pt_Item = i, pt_IDs = Some (map it_MediaID tracks), pt_Count = 0, pt_CatalogToken = zeroToken\<rparr>]))
    (\<lambda>out w. \<exists>sid' new. out = parts @ new \<and> ordered_parts sid' count (length (ref # refs)) new \<and> (sid = [] \<or> new = [] \<or> sid' = sid))"
    if i: "it_Source i \<noteq> []" "sid = [] \<or> sid = it_Source i"
      and t: "tracks \<noteq> []" "count + int (length tracks) \<le> MaxBrowseItems" "first_problem (it_Source i) tracks = None"
    for i tracks
  proof (rule returns_weaken [OF Cons.IH])
    let ?q = "\<lparr>pt_Item = i, pt_IDs = Some (map it_MediaID tracks), pt_Count = 0, pt_CatalogToken = zeroToken\<rparr>"
    fix out :: "playbackPart list" and w :: "'a worker"
    assume "\<exists>sid' new. out = (parts @ [?q]) @ new \<and> ordered_parts sid' (count + int (length tracks)) (length refs) new \<and>
      (it_Source i = [] \<or> new = [] \<or> sid' = it_Source i)"
    then obtain sid' new where o: "out = parts @ (?q # new)" and n: "ordered_parts sid' (count + int (length tracks)) (length refs) new"
      and sid': "new = [] \<or> sid' = it_Source i" using i(1) by auto
    have "sound_part (it_Source i) ?q"
      using i(1) t(1) playable_ids [OF first_problem_None [OF t(3)]] by (simp add: sound_part_def)
    moreover have "ordered_parts (it_Source i) (count + int (length tracks)) (length refs) new"
      using n sid' by (auto simp: ordered_parts_def)
    ultimately have "ordered_parts (it_Source i) count (length (ref # refs)) (?q # new)"
      using ordered_parts_Cons [of "it_Source i" ?q "map it_MediaID tracks" count "length refs" new] t(2) by simp
    with o i show "\<exists>sid' new. out = parts @ new \<and> ordered_parts sid' count (length (ref # refs)) new \<and> (sid = [] \<or> new = [] \<or> sid' = sid)"
      by blast
  qed
  then show ?case by (auto intro!: returns_rules)
qed

lemma sound_plan_of:
  assumes "list_all (sound_part sid) parts" and "parts \<noteq> [] \<Longrightarrow> pt_IDs (hd parts) \<noteq> None"
    and "sum_list (map trackCount parts) \<le> MaxBrowseItems"
  shows "returns (plan_of parts) (\<lambda>x w. sound_plan x)"
proof (cases parts)
  case Nil
  then show ?thesis by (simp add: plan_of_def returns_fail)
next
  case (Cons q qs)
  then obtain ids where "pt_IDs q = Some ids" using assms(2) by auto
  moreover from this have "ids \<noteq> []" "[] \<notin> set ids" using assms(1) Cons by (auto simp: sound_part_def)
  ultimately have "sound_plan (pt_Item q, idMembership (part_ids q), parts)"
    using assms(1,3) Cons by (auto simp: sound_plan_def part_ids_def idMembership_def)
  then show ?thesis using Cons by (auto simp: plan_of_def intro: returns_done)
qed

lemma returns_currentPlan:
  fixes io :: "'w ports"
  shows "returns (plan_of parts :: ('w, plan) work) (\<lambda>x w. sound_plan x) \<Longrightarrow> returns (currentPlan io rd token parts) (\<lambda>x w. sound_plan x)"
  unfolding currentPlan_def by (intro returns_intros; assumption)

lemma ordered_plan_of: "ordered_parts sid 0 n parts \<Longrightarrow> returns (currentPlan io rd token parts) (\<lambda>x w. sound_plan x)"
  by (rule returns_currentPlan, rule sound_plan_of [of sid]) (auto simp: ordered_parts_def neq_Nil_conv)

lemma returns_resolveOrdered: "returns (resolveOrdered io rd p refs) (\<lambda>x w. sound_plan x)"
  unfolding resolveOrdered_def Let_def
  by (rule returns_bind, rule returns_seq [OF returns_resolveParts]) (auto intro: ordered_plan_of)

text \<open>The parts of a buffered plan carry their declared counts; the first ones are prepared.\<close>

definition buffered_parts :: "ID \<Rightarrow> int list \<Rightarrow> playbackPart list \<Rightarrow> bool" where
  "buffered_parts sid counts parts \<longleftrightarrow> list_all (sound_part sid) parts \<and> map pt_Count parts = counts"

lemma returns_bufferedParts:
  "returns (bufferedParts rd key sid token refs actual parts)
     (\<lambda>out w. \<forall>all. out = Some all \<longrightarrow>
        (\<exists>src new. all = parts @ new \<and> buffered_parts src (map snd refs) new \<and> (actual = [] \<or> new = [] \<or> src = actual)))"
proof (induction refs arbitrary: actual parts)
  case Nil
  show ?case by (auto intro: returns_rules simp: buffered_parts_def)
next
  case (Cons x refs)
  obtain ref k where x: "x = (ref, k)" by fastforce
  have "returns (bufferedParts rd key sid token refs (it_Source i)
      (parts @ [\<lparr>pt_Item = i, pt_IDs = None, pt_Count = k, pt_CatalogToken = token\<rparr>]))
    (\<lambda>out w. \<forall>all. out = Some all \<longrightarrow>
        (\<exists>src new. all = parts @ new \<and> buffered_parts src (map snd (x # refs)) new \<and> (actual = [] \<or> new = [] \<or> src = actual)))"
    if i: "it_Source i \<noteq> []" "actual = [] \<or> it_Source i = actual" for i
  proof (rule returns_weaken [OF Cons.IH], intro allI impI)
    let ?q = "\<lparr>pt_Item = i, pt_IDs = None, pt_Count = k, pt_CatalogToken = token\<rparr>"
    fix out all and w :: "'a worker"
    assume "\<forall>all. out = Some all \<longrightarrow> (\<exists>src new. all = (parts @ [?q]) @ new \<and> buffered_parts src (map snd refs) new \<and>
      (it_Source i = [] \<or> new = [] \<or> src = it_Source i))" and "out = Some all"
    then obtain src new where a: "all = parts @ (?q # new)" and b: "buffered_parts src (map snd refs) new"
      and c: "new = [] \<or> src = it_Source i" using i(1) by auto
    have "buffered_parts (it_Source i) (map snd (x # refs)) (?q # new)"
      using b c i(1) x by (auto simp: buffered_parts_def sound_part_def)
    with a i show "\<exists>src new. all = parts @ new \<and> buffered_parts src (map snd (x # refs)) new \<and> (actual = [] \<or> new = [] \<or> src = actual)"
      by blast
  qed
  then show ?case unfolding x by (auto intro!: returns_rules split: option.splits sum.splits)
qed

lemma part_track_playable: "list_all (part_track part) ts \<Longrightarrow> list_all playable_track ts"
  by (auto simp: list_all_iff part_track_def)

lemma returns_prepareBufferedPart:
  assumes "sound_part sid part" and "0 < pt_Count part"
  shows "returns (prepareBufferedPart io cause err part)
    (\<lambda>q w. sound_part sid q \<and> pt_IDs q \<noteq> None \<and> pt_Count q = pt_Count part)"
proof -
  have "sound_part sid (part\<lparr>pt_IDs := Some (map it_MediaID ts)\<rparr>)"
    if "int (length ts) = pt_Count part" "list_all (part_track part) ts" for ts
    using assms that playable_ids [OF part_track_playable [OF that(2)]] by (auto simp: sound_part_def)
  then show ?thesis
    unfolding prepareBufferedPart_def using assms by (auto intro!: returns_rules)
qed

lemma returns_prepareFirst:
  assumes "list_all (sound_part sid) parts" and "list_all (\<lambda>q. 0 < pt_Count q) parts"
  shows "returns (prepareFirst k io rd parts) (\<lambda>out w. list_all (sound_part sid) out \<and> map pt_Count out = map pt_Count parts \<and>
    (k = 0 \<or> out = [] \<or> pt_IDs (hd out) \<noteq> None))"
  using assms
proof (induction k io rd parts rule: prepareFirst.induct)
  case (1 k io rd part parts)
  have p: "sound_part sid part" "0 < pt_Count part" using "1.prems" by auto
  have rest: "returns (prepareFirst k io rd parts) (\<lambda>out w. list_all (sound_part sid) out \<and> map pt_Count out = map pt_Count parts)"
    using "1.prems" by (intro returns_weaken [OF "1.IH"]) auto
  show ?case
    unfolding prepareFirst.simps
    by (auto intro!: returns_seq [OF returns_prepareBufferedPart [OF p]] returns_seq [OF rest] returns_done)
qed (auto intro: returns_rules)

lemma counts_positive: "list_all (\<lambda>k. 0 < k) counts \<Longrightarrow> map pt_Count parts = counts \<Longrightarrow> list_all (\<lambda>q. 0 < pt_Count q) parts"
  by (auto simp: list.pred_map comp_def)

lemma returns_bufferedFrom:
  assumes "list_all (\<lambda>k. 0 < k) (map snd refs)" and "sum_list (map snd refs) \<le> MaxBrowseItems"
  shows "returns (bufferedFrom io rd p token refs srcs sourceErr) (\<lambda>x w. sound_plan x)"
proof (induction srcs arbitrary: sourceErr)
  case (Cons src srcs)
  have plan: "returns (currentPlan io rd token out) (\<lambda>x w. sound_plan x)"
    if "list_all (sound_part sid) out" "map pt_Count out = map snd refs" "out = [] \<or> pt_IDs (hd out) \<noteq> None" for sid out
  proof (rule returns_currentPlan, rule sound_plan_of [OF that(1)])
    have "map trackCount out = map pt_Count out"
      using counts_positive [OF assms(1) that(2)] by (auto simp: trackCount_def list_all_iff)
    with that(2) assms(2) show "sum_list (map trackCount out) \<le> MaxBrowseItems" by simp
  qed (use that(3) in auto)
  have found: "returns (andThen (prepareFirst 2 io rd parts) (currentPlan io rd token)) (\<lambda>x w. sound_plan x)"
    if b: "buffered_parts sid (map snd refs) parts" for sid parts
  proof -
    have s: "list_all (sound_part sid) parts" "list_all (\<lambda>q. 0 < pt_Count q) parts"
      using b counts_positive [OF assms(1), of parts] by (auto simp: buffered_parts_def)
    show ?thesis
      using b by (intro returns_seq [OF returns_prepareFirst [OF s, of 2]]) (auto intro!: plan simp: buffered_parts_def)
  qed
  have search: "returns (andThen (bufferedParts rd (so_Key src) sid token refs [] []) (\<lambda>found.
      case found of
        None \<Rightarrow> bufferedFrom io rd p token refs srcs sourceErr
      | Some parts \<Rightarrow> andThen (prepareFirst 2 io rd parts) (currentPlan io rd token))) (\<lambda>x w. sound_plan x)" for sid sourceErr
    by (rule returns_seq [OF returns_bufferedParts], rule returns_case_option) (auto intro: Cons.IH found)
  show ?case
    unfolding bufferedFrom.simps by (intro returns_if returns_bind returns_case_sum Cons.IH search)
qed (auto intro: returns_rules)

lemma returns_resolvePlayback: "returns (resolvePlayback io rd p cmd) (\<lambda>x w. sound_plan x)"
proof -
  have buffered: "returns (resolveBufferedPlayback io rd p cmd b) (\<lambda>x w. sound_plan x)"
    if "validatePlaybackSelection cmd = Inr u" "c_Buffered cmd = Some b" for u b
  proof -
    from that have v: "BufferedPlayback_validate b cmd = Inr ()"
      by (auto simp: validatePlaybackSelection_def split: if_splits option.splits sum.splits)
    obtain refs where refs: "c_ItemRefs cmd = Some refs" "length (b_PartTracks b) = length refs"
      using BufferedPlayback_validate_Inr(2) [OF v] by blast
    then have z: "map snd (zip refs (b_PartTracks b)) = b_PartTracks b" by simp
    have ok: "list_all (\<lambda>k. 0 < k) (b_PartTracks b)" "sum_list (b_PartTracks b) \<le> MaxBrowseItems"
      using BufferedPlayback_validate_Inr(1) [OF v] by (fastforce simp: buffered_ok_def list_all_iff)+
    show ?thesis
      unfolding resolveBufferedPlayback_def using refs
      by (intro returns_bind) (simp add: returns_bufferedFrom z ok)
  qed
  have single: "returns (andThen (resolveItem io rd p (c_ItemRef cmd)) (\<lambda>i.
      andThen (playableMembers io i) (\<lambda>members. done_with (i, members, [])))) (\<lambda>x w. sound_plan x)"
    by (auto intro!: returns_seq [OF returns_resolveItem] returns_seq [OF returns_playableMembers] returns_done
        simp: sound_plan_def)
  show ?thesis
    unfolding resolvePlayback_def
    by (auto intro!: returns_rules buffered single returns_resolveOrdered split: sum.splits option.splits)
qed

subsection \<open>Resolving only reads\<close>

context step_relation begin

lemma within_resolveSource: "within R (resolveSource io rd key)"
  unfolding resolveSource_def by (intro within_intros)

lemma within_resolveFrom: "within R (resolveFrom io rd p ref srcs sourceErr)"
  by (induction srcs arbitrary: sourceErr) (auto intro!: within_intros within_resolveSource split: option.splits sum.splits)

lemma within_walkMembers: "within R (walkMembers k io source todo seen count members)"
  by (induction k io source todo seen count members rule: walkMembers.induct)
    (auto intro!: within_intros)

lemma within_playableMembers: "within R (playableMembers io i)"
  unfolding playableMembers_def by (intro within_intros within_walkMembers)

lemma within_plan_of: "within R (plan_of parts)"
  unfolding plan_of_def by (intro within_case_list within_intros)

lemma within_currentPlan: "within R (currentPlan io rd token parts)"
  unfolding currentPlan_def by (intro within_intros within_plan_of)

lemma within_resolveParts: "within R (resolveParts io rd p refs sid count parts)"
  by (induction refs arbitrary: sid count parts)
    (auto intro!: within_intros within_resolveFrom simp: resolveItem_def tracks_of_def)

lemma within_bufferedParts: "within R (bufferedParts rd key sid token refs actual parts)"
  by (induction refs arbitrary: actual parts) (auto intro!: within_intros split: option.splits sum.splits)

lemma within_prepareFirst: "within R (prepareFirst k io rd parts)"
  by (induction k io rd parts rule: prepareFirst.induct) (auto intro!: within_intros simp: prepareBufferedPart_def)

lemma within_bufferedFrom: "within R (bufferedFrom io rd p token refs srcs sourceErr)"
  by (induction srcs arbitrary: sourceErr)
    (auto intro!: within_intros within_resolveSource within_bufferedParts within_prepareFirst within_currentPlan
      split: option.splits sum.splits)

lemma within_resolvePlayback: "within R (resolvePlayback io rd p cmd)"
  unfolding resolvePlayback_def resolveBufferedPlayback_def resolveOrdered_def resolveItem_def
  by (intro within_intros within_resolveFrom within_playableMembers within_resolveParts within_currentPlan within_bufferedFrom)

end

interpretation besides: step_relation beside
  by unfold_locales (auto intro: beside_refl beside_trans)

text \<open>
  C20. A playback selection is resolved by reads alone and fits the bounds before anything is
  admitted: whatever the device answers, no command is issued and no journal record is made; a plan
  that is returned has a non-empty set of named media, and the parts of an ordered or a buffered plan
  are of one source, have as many tracks as declared, all of them named, together at most 10,000,
  and the first of them is enumerated and is what playback starts with.
\<close>

theorem resolved_plan_sound:
  "case run_state (resolvePlayback io rd p cmd) w of
     (x, w') \<Rightarrow> wk_sent w' = wk_sent w \<and> wk_updates w' = wk_updates w \<and>
       (case x of Inl e \<Rightarrow> True | Inr plan \<Rightarrow> sound_plan plan)"
  using returnsD [OF returns_resolvePlayback, of io rd p cmd w] within_snd [OF besides.within_resolvePlayback [of io rd p cmd], of w]
  by (auto simp: beside_def split: prod.splits sum.splits)

end
