(* ===== verification/Admission.thy ===== *)
theory Admission
  imports Plans Scripted
begin

section \<open>Admission of a command\<close>

text \<open>
  \<open>Submit\<close> of \<open>coordinator.go\<close> and \<open>submitBufferedSkip\<close> of \<open>progressive_skip.go\<close>: the goroutine of a request,
  from the lookup of a repeated request to the start of a worker. It runs beside the worker of the
  lane, if there is one. The state is a \<open>desk\<close>: the lane as this request sees it, what the request
  holds of it, and what it did: the admissions, the revoked worker, the orphans handed to the journal
  finisher and the worker started.
\<close>

subsection \<open>The desk\<close>

text \<open>
  The ports of a request beyond those of the device: the journal's admission, the revision of the
  player's projection, the gates of the lane (whether they were free), the requests of priority
  beside this one, the end of the lane's worker, shutdown, and the encoded arguments. \<open>ft_steps\<close> is
  what the worker of the lane does by itself while a call of the request is under way.
\<close>

record 'w front =
  ft_lookup :: "Request \<Rightarrow> ('w, Operation result) port"
  ft_active :: "string \<Rightarrow> ('w, Operation result) port"
  ft_admit :: "Request \<Rightarrow> Proposal \<Rightarrow> ('w, Admission result) port"
  ft_revision :: "string \<Rightarrow> ('w, string result) port"
  ft_priorityGate :: "('w, bool) port"
  ft_gate :: "('w, bool) port"
  ft_awaitGate :: "('w, error option) port"
  ft_others :: "('w, int) port"
  ft_ended :: "('w, bool) port"
  ft_awaitDone :: "('w, error option) port"
  ft_wait :: "duration \<Rightarrow> ('w, error option) port"
  ft_closing :: "('w, bool) port"
  ft_arguments :: "plan \<Rightarrow> Command \<Rightarrow> int option \<Rightarrow> string"
  ft_childArguments :: "string \<Rightarrow> Command \<Rightarrow> string"
  ft_configRevision :: "config_Player \<Rightarrow> string"
  ft_steps :: "'w worker \<Rightarrow> 'w worker"

record start =
  sa_run :: execution
  sa_op :: Operation
  sa_cmd :: Command
  sa_item :: Item

record 'w desk =
  dk_worker :: "'w worker"
  dk_running :: bool
  dk_gate :: bool
  dk_priorityGate :: bool
  dk_priority :: int
  dk_wire :: int
  dk_admitting :: bool
  dk_revoked :: "string list"
  dk_orphans :: "string list"
  dk_admissions :: "(Request \<times> Proposal \<times> Admission result) list"
  dk_started :: "start list"

type_synonym ('w, 'a) admission = "('w desk, 'a result) state"

text \<open>
  A program of the device ports, run by the request: notifications reach the worker of the lane as
  long as it is installed; afterwards only the world changes.
\<close>

definition visited :: "'w front \<Rightarrow> 'w worker \<Rightarrow> 'w desk \<Rightarrow> 'w desk" where
  "visited ft w d =
     (if dk_running d then d\<lparr>dk_worker := ft_steps ft w\<rparr>
      else d\<lparr>dk_worker := (dk_worker d)\<lparr>wk_world := wk_world w\<rparr>\<rparr>)"

definition visit :: "'w front \<Rightarrow> ('w worker, 'a) state \<Rightarrow> ('w desk, 'a) state" where
  "visit ft m = State (\<lambda>d. case run_state m (dk_worker d) of (x, w) \<Rightarrow> (x, visited ft w d))"

definition ask :: "'w front \<Rightarrow> ('w, 'a) port \<Rightarrow> ('w desk, 'a) state" where
  "ask ft p = visit ft (call p)"

definition touch :: "('w desk \<Rightarrow> 'w desk) \<Rightarrow> ('w desk, unit) state" where
  "touch f = State (\<lambda>d. ((), f d))"

definition peek :: "('w desk \<Rightarrow> 'a) \<Rightarrow> ('w desk, 'a) state" where
  "peek f = State (\<lambda>d. (f d, d))"

text \<open>\<open>l.run\<close>: whether the worker is still installed.\<close>

definition currentRun :: "'w front \<Rightarrow> ('w desk, bool) state" where
  "currentRun ft = do {
     ended \<leftarrow> ask ft (ft_ended ft);
     touch (\<lambda>d. if ended then d\<lparr>dk_running := False\<rparr> else d);
     peek dk_running
   }"

definition run_id :: "'w desk \<Rightarrow> string" where
  "run_id d = o_ID (wk_op (dk_worker d))"

subsection \<open>Checks of the command\<close>

definition is_priority :: "Command \<Rightarrow> bool" where
  "is_priority cmd \<longleftrightarrow> c_Kind cmd = CommandKindStop \<or> c_Kind cmd = CommandKindCancel"

definition commandCheck :: "config_Player \<Rightarrow> Command \<Rightarrow> error option" where
  "commandCheck p cmd =
     (if c_FadeSeconds cmd < 0 \<or> c_FadeSeconds cmd > 60 \<or> c_Level cmd < 0 \<or> c_Level cmd > 100 \<or>
         (c_Kind cmd = CommandKindSkip \<and> c_Direction cmd \<noteq> ''next'' \<and> c_Direction cmd \<noteq> ''previous'') \<or>
         (c_Buffered cmd \<noteq> None \<and> c_Kind cmd \<noteq> CommandKindPlayback) \<or> isl (validateExpectedOwner cmd)
      then Some ErrBounds
      else case c_Automation cmd of
             None \<Rightarrow> None
           | Some a \<Rightarrow> (case Automation_validate a cmd (cp_VolumeCeiling p) of Inl e \<Rightarrow> Some e | Inr _ \<Rightarrow> None))"

definition quoted :: "string \<Rightarrow> string" where
  "quoted s = ''\"'' @ s @ ''\"''"

definition checkRevision :: "'w front \<Rightarrow> Request \<Rightarrow> ('w desk, error option) state" where
  "checkRevision ft request =
     (if rq_IfMatch request = [] then State_Monad.return (Some ErrPreconditionRequired)
      else do {
        x \<leftarrow> ask ft (ft_revision ft (rq_Player request));
        State_Monad.return (case x of
            Inl e \<Rightarrow> Some e
          | Inr revision \<Rightarrow> if rq_IfMatch request \<noteq> quoted revision then Some ErrPrecondition else None)
      })"

text \<open>A player that is gone has the empty revision at the second check.\<close>

definition recheckRevision :: "'w front \<Rightarrow> Request \<Rightarrow> ('w desk, error option) state" where
  "recheckRevision ft request = do {
     x \<leftarrow> ask ft (ft_revision ft (rq_Player request));
     State_Monad.return
       (if rq_IfMatch request \<noteq> quoted (case x of Inl _ \<Rightarrow> [] | Inr revision \<Rightarrow> revision) then Some ErrPrecondition else None)
   }"

definition playingBusy :: "Command \<Rightarrow> Snapshot \<Rightarrow> bool" where
  "playingBusy cmd s \<longleftrightarrow> c_Automation cmd \<noteq> None \<and> \<not> c_Takeover cmd \<and> s_State s = PlayStatePlay"

definition aboveCeiling :: "config_Player \<Rightarrow> Command \<Rightarrow> bool" where
  "aboveCeiling p cmd \<longleftrightarrow>
     (c_Kind cmd = CommandKindVolume \<or> c_Kind cmd = CommandKindPlayback) \<and>
     (case cp_VolumeCeiling p of None \<Rightarrow> True | Some c \<Rightarrow> c_Level cmd > c)"

definition initialCheck :: "config_Player \<Rightarrow> Command \<Rightarrow> Snapshot \<Rightarrow> error option" where
  "initialCheck p cmd s =
     (case (if is_priority cmd then None else mutationSafety p s (c_Kind cmd = CommandKindSkip)) of
        Some e \<Rightarrow> Some e
      | None \<Rightarrow>
          if playingBusy cmd s then Some ErrBusy
          else if aboveCeiling p cmd then Some ErrBounds else None)"

text \<open>Sound that would become audible above the ceiling.\<close>

definition tooLoud :: "config_Player \<Rightarrow> Command \<Rightarrow> Snapshot \<Rightarrow> bool" where
  "tooLoud p cmd s \<longleftrightarrow>
     ((c_Kind cmd = CommandKindTransport \<and> c_State cmd = PlayStatePlay) \<or> (c_Kind cmd = CommandKindMute \<and> \<not> c_Muted cmd)) \<and>
     (case (s_Volume s, cp_VolumeCeiling p) of (Some v, Some c) \<Rightarrow> v > c | _ \<Rightarrow> False)"

subsection \<open>A Skip inside a buffered playback\<close>

definition childProposal :: "'w front \<Rightarrow> config_Player \<Rightarrow> Operation \<Rightarrow> Command \<Rightarrow> time \<Rightarrow> Proposal" where
  "childProposal ft p owner cmd now =
     \<lparr>pr_OwnerID = o_ID owner, pr_ReplaceUncertain = False, pr_ReplaceID = [], pr_ReplaceRevision = 0, pr_Kind = ''skip'',
      pr_DeviceKey = cp_Serial p, pr_ConfigRevision = ft_configRevision ft p,
      pr_EffectiveArguments = ft_childArguments ft (o_ID owner) cmd, pr_NotBefore = now, pr_NotAfter = now + 60 * Second\<rparr>"

definition onWorker :: "('w worker \<Rightarrow> 'w worker) \<Rightarrow> 'w desk \<Rightarrow> 'w desk" where
  "onWorker f d = d\<lparr>dk_worker := f (dk_worker d)\<rparr>"

definition admitting :: "'w front \<Rightarrow> Request \<Rightarrow> Proposal \<Rightarrow> ('w, Admission) admission" where
  "admitting ft request pr = do {
     a \<leftarrow> ask ft (ft_admit ft request pr);
     touch (\<lambda>d. d\<lparr>dk_admissions := dk_admissions d @ [(request, pr, a)]\<rparr>);
     State_Monad.return a
   }"

text \<open>The reserved slot is filled when the child was created and given up otherwise.\<close>

definition admitChild :: "'w front \<Rightarrow> Request \<Rightarrow> Proposal \<Rightarrow> ('w, Operation) admission" where
  "admitChild ft request pr = do {
     a \<leftarrow> admitting ft request pr;
     case a of
       Inl e \<Rightarrow> do { touch (onWorker (admitSkip None)); fail e }
     | Inr a \<Rightarrow> do {
         touch (onWorker (admitSkip (if ad_Created a then Some (ad_Operation a) else None)));
         done_with (ad_Operation a)
       }
   }"

definition submitBufferedSkip ::
  "'w front \<Rightarrow> 'w ports \<Rightarrow> 'w reads \<Rightarrow> lane \<Rightarrow> Operation \<Rightarrow> Request \<Rightarrow> Command \<Rightarrow> ('w, Operation) admission" where
  "submitBufferedSkip ft io rd l owner request cmd =
     (if o_Principal owner \<noteq> rq_Principal request then fail ErrBusy
      else do {
        w \<leftarrow> peek dk_worker;
        case reserveSkip (cp_VolumeCeiling (ln_config l)) (c_Direction cmd) w of
          Inl e \<Rightarrow> fail e
        | Inr w' \<Rightarrow> do {
            touch (onWorker (\<lambda>_. w'));
            now \<leftarrow> ask ft (io_now io);
            closing \<leftarrow> ask ft (ft_closing ft);
            err \<leftarrow> ask ft (rd_err rd);
            if closing \<or> err \<noteq> None
            then do { touch (onWorker (admitSkip None)); fail ErrUnavailable }
            else admitChild ft request (childProposal ft (ln_config l) owner cmd now)
          }
      })"

subsection \<open>The state a command starts from\<close>

text \<open>Reads until one succeeds, for three seconds; the fuel bounds the attempts.\<close>

fun refreshLoop :: "nat \<Rightarrow> 'w front \<Rightarrow> 'w ports \<Rightarrow> 'w reads \<Rightarrow> time \<Rightarrow> ('w desk, error option) state" where
  "refreshLoop 0 ft io rd deadline = State_Monad.return (Some outOfFuel)"
| "refreshLoop (Suc n) ft io rd deadline = do {
     e \<leftarrow> ask ft (io_refresh io);
     if e = None then State_Monad.return None
     else do {
       now \<leftarrow> ask ft (io_now io);
       err \<leftarrow> ask ft (rd_err rd);
       if now > deadline \<or> err \<noteq> None then State_Monad.return e
       else do {
         waited \<leftarrow> ask ft (ft_wait ft (50 * Millisecond));
         if waited \<noteq> None then State_Monad.return e else refreshLoop n ft io rd deadline
       }
     }
   }"

definition refreshed :: "nat \<Rightarrow> 'w front \<Rightarrow> 'w ports \<Rightarrow> 'w reads \<Rightarrow> Command \<Rightarrow> ('w desk, error option) state" where
  "refreshed n ft io rd cmd =
     (if is_priority cmd \<or> c_Takeover cmd
      then do { now \<leftarrow> ask ft (io_now io); refreshLoop n ft io rd (now + 3 * Second) }
      else State_Monad.return None)"

text \<open>
  A cancellation continues from the state its target confirmed; \<open>stop_owned\<close> needs a target whose
  commands are all known to have taken effect and that was not revoked by anything else.
\<close>

definition targetLost :: "execution \<Rightarrow> bool" where
  "targetLost r \<longleftrightarrow>
     x_uncertain r \<or> x_unconfirmed r \<or> (case x_cause r of None \<Rightarrow> False | Some c \<Rightarrow> \<not> errors_Is c errSuperseded)"

definition cancelTarget :: "bool \<Rightarrow> Command \<Rightarrow> Snapshot \<Rightarrow> ('w, Snapshot) admission" where
  "cancelTarget previous cmd s =
     (if c_Kind cmd \<noteq> CommandKindCancel then done_with s
      else if \<not> previous then fail ErrOwnership
      else do {
        r \<leftarrow> peek (\<lambda>d. wk_run (dk_worker d));
        if c_Mode cmd = ''stop_owned'' \<and> targetLost r then fail ErrOwnership else done_with (x_expected r)
      })"

text \<open>A target of a cancellation is compared with the device once more, with its whole queue if it is bounded.\<close>

definition confirmTarget :: "'w front \<Rightarrow> 'w ports \<Rightarrow> Command \<Rightarrow> Snapshot \<Rightarrow> Snapshot \<Rightarrow> ('w, Snapshot) admission" where
  "confirmTarget ft io cmd s fresh =
     (if c_Kind cmd \<noteq> CommandKindCancel then done_with fresh
      else do {
        r \<leftarrow> peek (\<lambda>d. wk_run (dk_worker d));
        andThen (if x_bounded r then visit ft (completeQueue io fresh) else done_with fresh) (\<lambda>fresh. do {
          r \<leftarrow> peek (\<lambda>d. wk_run (dk_worker d));
          if ownedChanges (x_queueOwned r) s fresh \<noteq> [] then fail ErrOwnership else done_with fresh
        })
      })"

definition freshState ::
  "nat \<Rightarrow> 'w front \<Rightarrow> 'w ports \<Rightarrow> 'w reads \<Rightarrow> lane \<Rightarrow> Command \<Rightarrow> Snapshot \<Rightarrow> ('w, Snapshot) admission" where
  "freshState n ft io rd l cmd s =
     (if c_Kind cmd = CommandKindCancel \<and> c_Mode cmd = ''release'' then done_with s
      else guarding (refreshed n ft io rd cmd) (do {
        fresh \<leftarrow> ask ft (io_snapshot io);
        require (mutationSafety (ln_config l) fresh (c_Kind cmd = CommandKindSkip))
          (andThen (confirmTarget ft io cmd s fresh) (\<lambda>s.
             if playingBusy cmd s then fail ErrBusy
             else if tooLoud (ln_config l) cmd s then fail ErrBounds
             else done_with s))
      }))"

text \<open>The queue is read as a whole for a Skip, an automation and an ordered plan.\<close>

definition startState :: "'w front \<Rightarrow> 'w ports \<Rightarrow> lane \<Rightarrow> Command \<Rightarrow> plan \<Rightarrow> Snapshot \<Rightarrow> ('w, Snapshot) admission" where
  "startState ft io l cmd plan s =
     andThen
       (if c_Kind cmd = CommandKindSkip
        then andThen (visit ft (completeQueue io s)) (\<lambda>s.
          case skipAdmissible (cp_VolumeCeiling (ln_config l)) (c_Direction cmd) s of Inl e \<Rightarrow> fail e | Inr _ \<Rightarrow> done_with s)
        else done_with s)
       (\<lambda>s. if c_Automation cmd \<noteq> None \<or> snd (snd plan) \<noteq> [] then visit ft (completeQueue io s) else done_with s)"

subsection \<open>The journal and the worker\<close>

definition proposalOf :: "'w front \<Rightarrow> config_Player \<Rightarrow> Command \<Rightarrow> plan \<Rightarrow> Operation option \<Rightarrow> bool \<Rightarrow> time \<Rightarrow> Proposal" where
  "proposalOf ft p cmd plan old uncertain now =
     \<lparr>pr_OwnerID = [], pr_ReplaceUncertain = uncertain,
      pr_ReplaceID = (case old of None \<Rightarrow> [] | Some x \<Rightarrow> o_ID x), pr_ReplaceRevision = (case old of None \<Rightarrow> 0 | Some x \<Rightarrow> o_Revision x),
      pr_Kind = CommandKind_string (c_Kind cmd), pr_DeviceKey = cp_Serial p, pr_ConfigRevision = ft_configRevision ft p,
      pr_EffectiveArguments = ft_arguments ft plan cmd (cp_VolumeCeiling p), pr_NotBefore = now, pr_NotAfter = now + 60 * Second\<rparr>"

text \<open>The new \<open>execution\<close>; \<open>previous\<close> is the run a cancellation takes over from.\<close>

definition planned :: "Command \<Rightarrow> playbackPart list \<Rightarrow> execution \<Rightarrow> execution" where
  "planned cmd parts r =
     (case parts of
        [] \<Rightarrow> r
      | part # _ \<Rightarrow>
          r\<lparr>x_ordered := appended (part_ids part),
            x_queueLoading := Some \<lparr>ql_Mode = (if c_Buffered cmd \<noteq> None then ''buffered'' else []),
              ql_BufferedTracks = None, ql_RemainingTracks = None, ql_CurrentIndex = None, ql_PrunedTracks = None,
              ql_SessionExpiresAt = None, ql_TotalParts = int (length parts), ql_ConfirmedParts = 0,
              ql_TotalTracks = sum_list (map trackCount parts), ql_ConfirmedTracks = 0\<rparr>\<rparr>)"

definition newRun :: "Command \<Rightarrow> plan \<Rightarrow> Operation \<Rightarrow> Snapshot \<Rightarrow> execution option \<Rightarrow> execution" where
  "newRun cmd plan op s previous =
     (case plan of (i, members, parts) \<Rightarrow>
        let r = (newExecution s members)\<lparr>x_phase := o_Phase op, x_bounded := (c_Automation cmd \<noteq> None \<or> parts \<noteq> []),
                  x_parts := parts, x_buffered := map_option (\<lambda>b. \<lparr>bp_policy = b, bp_expires = 0, bp_pruned = 0\<rparr>) (c_Buffered cmd)\<rparr>;
            r = planned cmd parts r
        in case previous of
             Some q \<Rightarrow>
               if c_Kind cmd = CommandKindCancel \<and> c_Mode cmd = ''stop_owned''
               then r\<lparr>x_bounded := x_bounded q, x_queueOwned := x_queueOwned q\<rparr> else r
           | None \<Rightarrow> r)"

text \<open>Only the confirmed creation of the operation in this call starts a worker.\<close>

definition startAdmitted :: "'w front \<Rightarrow> Request \<Rightarrow> Proposal \<Rightarrow> Command \<Rightarrow> plan \<Rightarrow> bool \<Rightarrow> Snapshot \<Rightarrow> ('w, Operation) admission" where
  "startAdmitted ft request pr cmd plan previous s =
     andThen (admitting ft request pr) (\<lambda>a.
       if \<not> ad_Created a then done_with (ad_Operation a)
       else do {
         r \<leftarrow> peek (\<lambda>d. wk_run (dk_worker d));
         let run = newRun cmd plan (ad_Operation a) s (if previous then Some r else None);
         touch (\<lambda>d. d\<lparr>dk_started := dk_started d @ [\<lparr>sa_run = run, sa_op = ad_Operation a, sa_cmd = cmd, sa_item = fst plan\<rparr>]\<rparr>);
         done_with (ad_Operation a)
       })"

definition commitAdmission ::
  "'w front \<Rightarrow> 'w ports \<Rightarrow> 'w reads \<Rightarrow> lane \<Rightarrow> Request \<Rightarrow> Command \<Rightarrow> plan \<Rightarrow> Operation option \<Rightarrow> bool \<Rightarrow> Snapshot \<Rightarrow> ('w, Operation) admission" where
  "commitAdmission ft io rd l request cmd plan old previous s =
     (if length (ft_arguments ft plan cmd (cp_VolumeCeiling (ln_config l))) > MaxJSONBytes then fail ErrBounds
      else do {
        now \<leftarrow> ask ft (io_now io);
        r \<leftarrow> peek (\<lambda>d. wk_run (dk_worker d));
        let uncertain = (previous \<and> (x_uncertain r \<or> x_unconfirmed r));
        closing \<leftarrow> ask ft (ft_closing ft);
        err \<leftarrow> ask ft (rd_err rd);
        if closing \<or> err \<noteq> None then fail ErrUnavailable
        else startAdmitted ft request (proposalOf ft (ln_config l) cmd plan old uncertain now) cmd plan previous s
      })"

text \<open>From the state the command starts from to the journal.\<close>

definition proceed ::
  "nat \<Rightarrow> 'w front \<Rightarrow> 'w ports \<Rightarrow> 'w reads \<Rightarrow> lane \<Rightarrow> Request \<Rightarrow> Command \<Rightarrow> plan \<Rightarrow> bool \<Rightarrow> Snapshot \<Rightarrow> Operation option \<Rightarrow>
   ('w, Operation) admission" where
  "proceed n ft io rd l request cmd plan previous s old =
     andThen (cancelTarget previous cmd s) (\<lambda>s.
       andThen (freshState n ft io rd l cmd s) (\<lambda>s.
         guarding (if \<not> is_priority cmd \<and> \<not> c_Takeover cmd then recheckRevision ft request else State_Monad.return None)
           (andThen (startState ft io l cmd plan s) (commitAdmission ft io rd l request cmd plan old previous))))"

subsection \<open>Taking over from the worker of the lane\<close>

text \<open>The worker of the operation to be replaced is revoked, and its end awaited.\<close>

definition supersede :: "'w front \<Rightarrow> bool \<Rightarrow> string \<Rightarrow> ('w desk, error option) state" where
  "supersede ft previous old = do {
     own \<leftarrow> peek run_id;
     if previous \<and> old = own
     then do {
       touch (\<lambda>d. d\<lparr>dk_worker := (dk_worker d)\<lparr>wk_run := cancel_run errSuperseded (wk_run (dk_worker d))\<rparr>,
                     dk_revoked := dk_revoked d @ [own]\<rparr>);
       e \<leftarrow> ask ft (ft_awaitDone ft);
       touch (\<lambda>d. if e = None then d\<lparr>dk_running := False\<rparr> else d);
       State_Monad.return e
     }
     else State_Monad.return None
   }"

text \<open>
  The deferred call of \<open>finishOrphan\<close>: an operation whose worker was found and that was not replaced is
  left to the journal finisher. The deferred function reads \<open>old\<close> when the request ends.
\<close>

definition orphaning :: "bool \<Rightarrow> string \<Rightarrow> ('w, 'a) admission \<Rightarrow> ('w, 'a) admission" where
  "orphaning previous old m = do {
     started \<leftarrow> peek (\<lambda>d. length (dk_started d));
     x \<leftarrow> m;
     touch (\<lambda>d. if previous \<and> length (dk_started d) = started then d\<lparr>dk_orphans := dk_orphans d @ [old]\<rparr> else d);
     State_Monad.return x
   }"

text \<open>
  The operation is read again after its worker ended. When that read fails \<open>old\<close> is the zero operation
  it returned, and so it is when the operation finished in the meantime.
\<close>

definition takeOver ::
  "nat \<Rightarrow> 'w front \<Rightarrow> 'w ports \<Rightarrow> 'w reads \<Rightarrow> lane \<Rightarrow> Request \<Rightarrow> Command \<Rightarrow> plan \<Rightarrow> Snapshot \<Rightarrow> Operation option \<Rightarrow>
   ('w, Operation) admission" where
  "takeOver n ft io rd l request cmd plan s old = do {
     previous \<leftarrow> currentRun ft;
     guarding (supersede ft previous (case old of None \<Rightarrow> [] | Some x \<Rightarrow> o_ID x))
       (case old of
          None \<Rightarrow> proceed n ft io rd l request cmd plan previous s None
        | Some op \<Rightarrow>
            andThen (ask ft (io_get io (o_ID op))) (\<lambda>op.
              if o_FinishedAt op \<noteq> None then proceed n ft io rd l request cmd plan previous s None
              else orphaning previous (o_ID op) (proceed n ft io rd l request cmd plan previous s (Some op))))
   }"

definition busyWith :: "'w front \<Rightarrow> 'w ports \<Rightarrow> 'w reads \<Rightarrow> lane \<Rightarrow> Request \<Rightarrow> Command \<Rightarrow> Operation \<Rightarrow> ('w, Operation) admission" where
  "busyWith ft io rd l request cmd old = do {
     running \<leftarrow> currentRun ft;
     own \<leftarrow> peek run_id;
     r \<leftarrow> peek (\<lambda>d. wk_run (dk_worker d));
     if c_Kind cmd = CommandKindSkip \<and> running \<and> own = o_ID old \<and> x_buffered r \<noteq> None
     then submitBufferedSkip ft io rd l old request cmd
     else fail ErrBusy
   }"

definition contend ::
  "nat \<Rightarrow> 'w front \<Rightarrow> 'w ports \<Rightarrow> 'w reads \<Rightarrow> lane \<Rightarrow> Request \<Rightarrow> Command \<Rightarrow> plan \<Rightarrow> Snapshot \<Rightarrow> Operation option \<Rightarrow>
   ('w, Operation) admission" where
  "contend n ft io rd l request cmd plan s old =
     (if c_ExpectedOwner cmd \<noteq> [] \<and> map_option o_ID old \<noteq> Some (c_ExpectedOwner cmd) then fail ErrPrecondition
      else if old \<noteq> None \<and> \<not> is_priority cmd \<and> \<not> c_Takeover cmd then busyWith ft io rd l request cmd (the old)
      else if c_Kind cmd = CommandKindCancel \<and>
         ((case old of None \<Rightarrow> [] | Some x \<Rightarrow> o_ID x) \<noteq> c_Target cmd \<or> map_option o_Phase old = Some ''cancelling'')
      then fail ErrOwnership
      else takeOver n ft io rd l request cmd plan s old)"

subsection \<open>The request\<close>

definition found :: "Operation result \<Rightarrow> bool" where
  "found x \<longleftrightarrow> (case x of Inl e \<Rightarrow> \<not> errors_Is e ErrNotFound | Inr _ \<Rightarrow> True)"

definition planFor :: "'w front \<Rightarrow> 'w ports \<Rightarrow> 'w reads \<Rightarrow> lane \<Rightarrow> Command \<Rightarrow> ('w, plan) admission" where
  "planFor ft io rd l cmd =
     (if c_Kind cmd = CommandKindPlayback then visit ft (resolvePlayback io rd (ln_config l) cmd)
      else done_with (zeroItem, {}, []))"

definition admitCommand :: "nat \<Rightarrow> 'w front \<Rightarrow> 'w ports \<Rightarrow> 'w reads \<Rightarrow> lane \<Rightarrow> Request \<Rightarrow> Command \<Rightarrow> ('w, Operation) admission" where
  "admitCommand n ft io rd l request cmd = do {
     x \<leftarrow> ask ft (ft_lookup ft request);
     if found x then State_Monad.return x
     else do {
       stopping \<leftarrow> ask ft (io_stopping io);
       if stopping then fail Canceled
       else require (commandCheck (ln_config l) cmd)
         (guarding (if is_priority cmd then State_Monad.return None else checkRevision ft request) (do {
            s \<leftarrow> ask ft (io_snapshot io);
            require (initialCheck (ln_config l) cmd s)
              (andThen (planFor ft io rd l cmd) (\<lambda>plan. do {
                 y \<leftarrow> ask ft (ft_active ft (rq_Player request));
                 case y of
                   Inl e \<Rightarrow> if \<not> errors_Is e ErrNotFound then fail e else contend n ft io rd l request cmd plan s None
                 | Inr old \<Rightarrow> contend n ft io rd l request cmd plan s (Some old)
               }))
          }))
     }
   }"

text \<open>The gates. A Stop also fences the connection; other commands wait for no one.\<close>

definition takePriority :: "Command \<Rightarrow> 'w desk \<Rightarrow> 'w desk" where
  "takePriority cmd d = d\<lparr>dk_priorityGate := True, dk_priority := dk_priority d + 1,
     dk_wire := dk_wire d + (if c_Kind cmd = CommandKindStop then 1 else 0)\<rparr>"

definition takeGate :: "'w desk \<Rightarrow> 'w desk" where
  "takeGate d = d\<lparr>dk_gate := True\<rparr>"

definition enterPriority :: "'w front \<Rightarrow> Command \<Rightarrow> ('w, unit) admission" where
  "enterPriority ft cmd = do {
     free \<leftarrow> ask ft (ft_priorityGate ft);
     if \<not> free then fail ErrQueueFull
     else do {
       touch (takePriority cmd);
       e \<leftarrow> ask ft (ft_awaitGate ft);
       case e of
         Some e \<Rightarrow> fail e
       | None \<Rightarrow> do { touch takeGate; done_with () }
     }
   }"

definition enterOrdinary :: "'w front \<Rightarrow> Command \<Rightarrow> ('w, unit) admission" where
  "enterOrdinary ft cmd = do {
     free \<leftarrow> ask ft (ft_gate ft);
     if \<not> free then fail ErrQueueFull
     else do {
       touch takeGate;
       others \<leftarrow> ask ft (ft_others ft);
       if others > 0 \<and> \<not> c_Takeover cmd then fail ErrQueueFull
       else do { touch (\<lambda>d. d\<lparr>dk_admitting := True\<rparr>); done_with () }
     }
   }"

text \<open>The deferred releases. The priority of a started worker is released when that worker ends.\<close>

definition leave :: "nat \<Rightarrow> 'w desk \<Rightarrow> 'w desk" where
  "leave started d =
     (let d = d\<lparr>dk_gate := False, dk_priorityGate := False, dk_admitting := False\<rparr>
      in if length (dk_started d) = started then d\<lparr>dk_priority := 0, dk_wire := 0\<rparr> else d)"

definition inLane :: "nat \<Rightarrow> 'w front \<Rightarrow> 'w ports \<Rightarrow> 'w reads \<Rightarrow> lane \<Rightarrow> Request \<Rightarrow> Command \<Rightarrow> ('w, Operation) admission" where
  "inLane n ft io rd l request cmd = do {
     started \<leftarrow> peek (\<lambda>d. length (dk_started d));
     x \<leftarrow> andThen (if is_priority cmd then enterPriority ft cmd else enterOrdinary ft cmd)
           (\<lambda>_. admitCommand n ft io rd l request cmd);
     touch (leave started);
     State_Monad.return x
   }"

definition Submit :: "nat \<Rightarrow> 'w front \<Rightarrow> 'w ports \<Rightarrow> 'w reads \<Rightarrow> (string \<Rightarrow> lane option) \<Rightarrow> Request \<Rightarrow> Command \<Rightarrow> ('w, Operation) admission" where
  "Submit n ft io rd lanes request cmd = do {
     x \<leftarrow> ask ft (ft_lookup ft request);
     if found x then State_Monad.return x
     else case lanes (rq_Player request) of
       None \<Rightarrow> fail ErrUnavailable
     | Some l \<Rightarrow>
         if is_priority cmd \<and> \<not> cp_WritesEnabled (ln_config l) then fail ErrReadOnly
         else inLane n ft io rd l request cmd
   }"

subsection \<open>Steps that leave the desk alone\<close>

lemma run_touch [run_simps]: "run_state (touch f) d = ((), f d)"
  by (simp add: touch_def)

lemma run_peek [run_simps]: "run_state (peek f) d = (f d, d)"
  by (simp add: peek_def)

text \<open>Nothing the request holds or did has changed; the lane and the world may have.\<close>

definition calm :: "'w desk \<Rightarrow> 'w desk \<Rightarrow> bool" where
  "calm d d' \<longleftrightarrow>
     dk_gate d' = dk_gate d \<and> dk_priorityGate d' = dk_priorityGate d \<and> dk_priority d' = dk_priority d \<and> dk_wire d' = dk_wire d \<and>
     dk_admitting d' = dk_admitting d \<and> dk_revoked d' = dk_revoked d \<and> dk_orphans d' = dk_orphans d \<and>
     dk_admissions d' = dk_admissions d \<and> dk_started d' = dk_started d"

lemma calm_visited: "calm d (visited ft w d)"
  by (simp add: calm_def visited_def)

locale desk_relation = change_relation R for R :: "'w desk \<Rightarrow> 'w desk \<Rightarrow> bool" +
  assumes R_calm: "calm d d' \<Longrightarrow> R d d'"
begin

lemma within_visit: "within R (visit ft m)"
  by (auto intro!: withinI R_calm calm_visited simp: visit_def split: prod.splits)

lemma within_ask: "within R (ask ft p)"
  unfolding ask_def by (rule within_visit)

lemma within_peek: "within R (peek f)"
  by (auto intro!: withinI R_refl simp: run_simps)

lemma within_touch: "(\<And>d. R d (f d)) \<Longrightarrow> within R (touch f)"
  by (auto intro!: withinI simp: run_simps)

lemma within_onWorker: "within R (touch (onWorker f))"
  by (rule within_touch) (simp add: R_calm onWorker_def calm_def)

lemmas desk_intros = within_structure within_visit within_ask within_peek within_onWorker

lemma within_currentRun: "within R (currentRun ft)"
  unfolding currentRun_def by (intro desk_intros within_touch) (simp add: R_calm calm_def)

lemma within_checkRevision: "within R (checkRevision ft request)" "within R (recheckRevision ft request)"
  unfolding checkRevision_def recheckRevision_def by (intro desk_intros)+

lemma within_refreshLoop: "within R (refreshLoop n ft io rd deadline)"
  by (induction n) (auto intro!: desk_intros)

lemma within_cancelTarget: "within R (cancelTarget previous cmd s)"
  unfolding cancelTarget_def by (intro desk_intros)

lemma within_freshState: "within R (freshState n ft io rd l cmd s)"
  unfolding freshState_def refreshed_def confirmTarget_def by (intro desk_intros within_refreshLoop)

lemma within_startState: "within R (startState ft io l cmd plan s)"
  unfolding startState_def by (intro desk_intros)

lemma within_planFor: "within R (planFor ft io rd l cmd)"
  unfolding planFor_def by (intro desk_intros)

lemmas prepare_rules =
  within_currentRun within_checkRevision within_cancelTarget within_freshState within_startState within_planFor

end

subsection \<open>What a request does in all\<close>

text \<open>
  A statement about a whole request relates the desk before it, its result and the desk after it. It
  is established at the few steps it is about when it does not see the other steps before them and
  holds of a request that fails without having taken any of those steps.
\<close>

definition outcome :: "('w, 'a) admission \<Rightarrow> ('w desk \<Rightarrow> 'a result \<Rightarrow> 'w desk \<Rightarrow> bool) \<Rightarrow> bool" where
  "outcome m Q \<longleftrightarrow> (\<forall>d x d'. run_state m d = (x, d') \<longrightarrow> Q d x d')"

lemma outcomeD: "outcome m Q \<Longrightarrow> run_state m d = (x, d') \<Longrightarrow> Q d x d'"
  by (simp add: outcome_def)

locale request_outcome = desk_relation R for R :: "'w desk \<Rightarrow> 'w desk \<Rightarrow> bool" +
  fixes Q :: "'w desk \<Rightarrow> 'a result \<Rightarrow> 'w desk \<Rightarrow> bool"
  assumes Q_prefix: "R d d1 \<Longrightarrow> Q d1 x d' \<Longrightarrow> Q d x d'"
    and Q_fail: "R d d' \<Longrightarrow> Q d (Inl e) d'"
begin

lemma outcome_bind:
  assumes "within R m" and "\<And>x. outcome (f x) Q"
  shows "outcome (State_Monad.bind m f) Q"
  unfolding outcome_def
proof (intro allI impI)
  fix d x d'
  assume run: "run_state (State_Monad.bind m f) d = (x, d')"
  obtain y d1 where m: "run_state m d = (y, d1)" by fastforce
  with run have "run_state (f y) d1 = (x, d')" by simp
  from Q_prefix [OF withinD [OF assms(1) m] outcomeD [OF assms(2) this]] show "Q d x d'" .
qed

lemma outcome_fail: "outcome (fail e) Q"
  by (auto simp: outcome_def run_simps intro: Q_fail R_refl)

lemma outcome_andThen:
  assumes "within R m" and "returns m (\<lambda>x d. P x)" and "\<And>x. P x \<Longrightarrow> outcome (f x) Q"
  shows "outcome (andThen m f) Q"
  unfolding outcome_def
proof (intro allI impI)
  fix d x d'
  assume run: "run_state (andThen m f) d = (x, d')"
  obtain y d1 where m: "run_state m d = (y, d1)" by fastforce
  note c = withinD [OF assms(1) m]
  show "Q d x d'"
  proof (cases y)
    case (Inl e)
    with m run c show ?thesis by (auto simp: run_simps intro: Q_fail)
  next
    case (Inr v)
    with m run have "run_state (f v) d1 = (x, d')" by (simp add: run_simps)
    moreover have "P v" using returnsD [OF assms(2)] m Inr by simp
    ultimately show ?thesis using Q_prefix [OF c] outcomeD [OF assms(3)] by blast
  qed
qed

lemma outcome_then: "within R m \<Longrightarrow> (\<And>x. outcome (f x) Q) \<Longrightarrow> outcome (andThen m f) Q"
  by (rule outcome_andThen [where P = "\<lambda>_. True"]) (simp_all add: returns_def)

lemma outcome_guarding: "within R m \<Longrightarrow> outcome f Q \<Longrightarrow> outcome (guarding m f) Q"
  unfolding guarding_def by (rule outcome_bind) (auto intro: outcome_fail split: option.splits)

lemma outcome_require: "(e = None \<Longrightarrow> outcome f Q) \<Longrightarrow> outcome (require e f) Q"
  by (cases e) (auto simp: require_def intro: outcome_fail)

lemma outcome_if: "(b \<Longrightarrow> outcome m Q) \<Longrightarrow> (\<not> b \<Longrightarrow> outcome n Q) \<Longrightarrow> outcome (if b then m else n) Q"
  by simp

lemma outcome_case_sum:
  "(\<And>e. x = Inl e \<Longrightarrow> outcome (f e) Q) \<Longrightarrow> (\<And>y. x = Inr y \<Longrightarrow> outcome (g y) Q) \<Longrightarrow> outcome (case_sum f g x) Q"
  by (cases x) auto

lemma outcome_case_option:
  "(x = None \<Longrightarrow> outcome f Q) \<Longrightarrow> (\<And>y. x = Some y \<Longrightarrow> outcome (g y) Q) \<Longrightarrow> outcome (case_option f g x) Q"
  by (cases x) auto

lemmas outcome_rules = outcome_bind outcome_fail outcome_then outcome_guarding outcome_require outcome_if
  outcome_case_sum outcome_case_option

end

subsection \<open>Only an admitted operation gets a worker\<close>

definition unadmitted :: "'w desk \<Rightarrow> 'w desk \<Rightarrow> bool" where
  "unadmitted d d' \<longleftrightarrow> dk_admissions d' = dk_admissions d \<and> dk_started d' = dk_started d"

text \<open>The state a worker may start from; a release starts from whatever its target expected.\<close>

definition admissible :: "lane \<Rightarrow> Command \<Rightarrow> Snapshot \<Rightarrow> bool" where
  "admissible l cmd s \<longleftrightarrow>
     commandCheck (ln_config l) cmd = None \<and> \<not> aboveCeiling (ln_config l) cmd \<and>
     (c_Kind cmd = CommandKindCancel \<and> c_Mode cmd = ''release'' \<or>
      writable_target (ln_config l) s \<and> PlayState_Writable (s_State s) \<and> \<not> tooLoud (ln_config l) cmd s)"

definition admitted_start :: "lane \<Rightarrow> Request \<Rightarrow> Command \<Rightarrow> Operation result \<Rightarrow> (Request \<times> Proposal \<times> Admission result) list \<Rightarrow> start \<Rightarrow> bool" where
  "admitted_start l request cmd x adm st \<longleftrightarrow>
     (\<exists>pr a. adm = [(request, pr, Inr a)] \<and> ad_Created a \<and> x = Inr (ad_Operation a) \<and> sa_op st = ad_Operation a \<and>
        pr_Kind pr = CommandKind_string (c_Kind cmd) \<and> pr_DeviceKey pr = cp_Serial (ln_config l)) \<and>
     sa_cmd st = cmd \<and> admissible l cmd (x_expected (sa_run st)) \<and> x_cause (sa_run st) = None"

definition submitted :: "lane \<Rightarrow> Request \<Rightarrow> Command \<Rightarrow> 'w desk \<Rightarrow> Operation result \<Rightarrow> 'w desk \<Rightarrow> bool" where
  "submitted l request cmd d x d' \<longleftrightarrow>
     (\<exists>adm sts. dk_admissions d' = dk_admissions d @ adm \<and> dk_started d' = dk_started d @ sts \<and> length adm \<le> 1 \<and>
        (sts = [] \<or> (\<exists>st. sts = [st] \<and> admitted_start l request cmd x adm st)))"

lemma started_grow: "submitted l request cmd d x d' \<Longrightarrow> \<exists>sts. dk_started d' = dk_started d @ sts"
  by (auto simp: submitted_def)

lemma submitted_quiet: "unadmitted d d' \<Longrightarrow> submitted l request cmd d x d'"
  by (simp add: unadmitted_def submitted_def)

interpretation admission: request_outcome unadmitted "submitted l request cmd" for l request cmd
  by unfold_locales (auto simp: unadmitted_def calm_def submitted_def)

lemma run_admitting:
  "\<exists>a d1. run_state (admitting ft request pr) d = (a, d1\<lparr>dk_admissions := dk_admissions d @ [(request, pr, a)]\<rparr>) \<and> calm d d1"
  by (auto simp: admitting_def ask_def visit_def run_simps calm_visited split: prod.splits
      simp: calm_def visited_def)

lemma newRun_expected [simp]: "x_expected (newRun cmd plan op s previous) = s" "x_cause (newRun cmd plan op s previous) = None"
  by (auto simp: newRun_def planned_def newExecution_def Let_def split: prod.splits list.splits option.splits)

lemma outcome_startAdmitted:
  assumes "admissible l cmd s" and "pr_Kind pr = CommandKind_string (c_Kind cmd)" and "pr_DeviceKey pr = cp_Serial (ln_config l)"
  shows "outcome (startAdmitted ft request pr cmd plan previous s) (submitted l request cmd)"
  unfolding outcome_def
proof (intro allI impI)
  fix d x d'
  obtain a d1 where a: "run_state (admitting ft request pr) d = (a, d1\<lparr>dk_admissions := dk_admissions d @ [(request, pr, a)]\<rparr>)"
    and c: "calm d d1" using run_admitting by blast
  assume "run_state (startAdmitted ft request pr cmd plan previous s) d = (x, d')"
  with a c assms show "submitted l request cmd d x d'"
    by (cases a)
      (auto simp: startAdmitted_def run_simps submitted_def admitted_start_def calm_def Let_def split: if_splits)
qed

lemma outcome_commitAdmission:
  "admissible l cmd s \<Longrightarrow> outcome (commitAdmission ft io rd l request cmd plan old previous s) (submitted l request cmd)"
  unfolding commitAdmission_def Let_def
  by (intro admission.outcome_rules admission.desk_intros outcome_startAdmitted) (simp_all add: proposalOf_def)

lemma returns_visit: "returns m (\<lambda>x w. P x) \<Longrightarrow> returns (visit ft m) (\<lambda>x d. P x)"
  by (auto simp: returns_def visit_def split: prod.splits)

lemma admissible_queue: "admissible l cmd (s\<lparr>s_Queue := q\<rparr>) = admissible l cmd s"
  by (auto simp: admissible_def tooLoud_def writable_target_def)

lemma returns_complete:
  "admissible l cmd s \<Longrightarrow> returns (visit ft (completeQueue io s)) (\<lambda>s d. admissible l cmd s)"
  by (rule returns_visit, rule returns_weaken [OF completePages_returns]) (auto simp: admissible_queue)

lemma returns_startState:
  assumes "admissible l cmd s"
  shows "returns (startState ft io l cmd plan s) (\<lambda>s d. admissible l cmd s)"
  unfolding startState_def
proof (rule returns_seq [where P = "admissible l cmd"])
  show "returns (if c_Kind cmd = CommandKindSkip
      then andThen (visit ft (completeQueue io s)) (\<lambda>s.
        case skipAdmissible (cp_VolumeCeiling (ln_config l)) (c_Direction cmd) s of Inl e \<Rightarrow> fail e | Inr _ \<Rightarrow> done_with s)
      else done_with s) (\<lambda>s d. admissible l cmd s)"
    using assms by (auto intro!: returns_seq [OF returns_complete] returns_done returns_fail split: sum.splits)
  show "returns (if c_Automation cmd \<noteq> None \<or> snd (snd plan) \<noteq> [] then visit ft (completeQueue io s) else done_with s)
      (\<lambda>s d. admissible l cmd s)" if "admissible l cmd s" for s
    using that by (auto intro: returns_complete returns_done)
qed

definition writable :: "lane \<Rightarrow> Snapshot \<Rightarrow> bool" where
  "writable l s \<longleftrightarrow> writable_target (ln_config l) s \<and> PlayState_Writable (s_State s)"

lemma returns_confirmTarget:
  assumes "writable l fresh"
  shows "returns (confirmTarget ft io cmd s fresh) (\<lambda>s d. writable l s)"
proof -
  have c: "returns (if b then visit ft (completeQueue io fresh) else done_with fresh) (\<lambda>s d. writable l s)" for b
    by (intro returns_if returns_visit returns_weaken [OF completePages_returns] returns_done)
      (use assms in \<open>auto simp: writable_def writable_target_def\<close>)
  show ?thesis
    unfolding confirmTarget_def
    by (intro returns_if returns_done returns_bind returns_seq [OF c] returns_fail) (simp_all add: assms)
qed

lemma returns_freshState:
  assumes "commandCheck (ln_config l) cmd = None" and "\<not> aboveCeiling (ln_config l) cmd"
  shows "returns (freshState n ft io rd l cmd s) (\<lambda>s d. admissible l cmd s)"
proof -
  have w: "writable l fresh" if "mutationSafety (ln_config l) fresh skip = None" for fresh skip
    using that by (simp add: mutationSafety_None writable_def)
  have "admissible l cmd s" if "writable l s \<or> c_Kind cmd = CommandKindCancel \<and> c_Mode cmd = ''release''" "\<not> tooLoud (ln_config l) cmd s" for s
    using that assms by (auto simp: admissible_def writable_def)
  moreover have "admissible l cmd s" if "c_Kind cmd = CommandKindCancel \<and> c_Mode cmd = ''release''" for s
    using that assms by (simp add: admissible_def)
  ultimately show ?thesis
    unfolding freshState_def
    by (intro returns_if returns_done returns_guarding returns_bind returns_require returns_seq [OF returns_confirmTarget] returns_fail)
      (auto intro: w)
qed

lemma outcome_proceed:
  assumes "commandCheck (ln_config l) cmd = None" and "\<not> aboveCeiling (ln_config l) cmd"
  shows "outcome (proceed n ft io rd l request cmd plan previous s old) (submitted l request cmd)"
  unfolding proceed_def
  by (intro admission.outcome_then admission.prepare_rules admission.desk_intros admission.outcome_guarding
      admission.outcome_andThen [OF admission.within_freshState returns_freshState [OF assms]]
      admission.outcome_andThen [OF admission.within_startState returns_startState] outcome_commitAdmission)

lemma outcome_orphaning:
  "outcome m (submitted l request cmd) \<Longrightarrow> outcome (orphaning previous old m) (submitted l request cmd)"
  by (fastforce simp: outcome_def orphaning_def run_simps submitted_def split: prod.splits)

lemma within_supersede: "within unadmitted (supersede ft previous old)"
  unfolding supersede_def by (intro admission.desk_intros admission.within_touch) (simp_all add: unadmitted_def)

lemma outcome_takeOver:
  assumes "commandCheck (ln_config l) cmd = None" and "\<not> aboveCeiling (ln_config l) cmd"
  shows "outcome (takeOver n ft io rd l request cmd plan s old) (submitted l request cmd)"
  unfolding takeOver_def
  by (intro admission.outcome_rules admission.prepare_rules admission.desk_intros within_supersede
      outcome_orphaning outcome_proceed [OF assms])

lemma outcome_admitChild: "outcome (admitChild ft request pr) (submitted l request cmd)"
  unfolding outcome_def
proof (intro allI impI)
  fix d x d'
  obtain a d1 where a: "run_state (admitting ft request pr) d = (a, d1\<lparr>dk_admissions := dk_admissions d @ [(request, pr, a)]\<rparr>)"
    and c: "calm d d1" using run_admitting by blast
  assume "run_state (admitChild ft request pr) d = (x, d')"
  with a c show "submitted l request cmd d x d'"
    by (cases a) (auto simp: admitChild_def run_simps submitted_def calm_def onWorker_def)
qed

lemma outcome_busyWith: "outcome (busyWith ft io rd l request cmd old) (submitted l request cmd)"
  unfolding busyWith_def submitBufferedSkip_def
  by (intro admission.outcome_rules admission.within_currentRun admission.desk_intros outcome_admitChild)

lemma initialCheck_ceiling: "initialCheck p cmd s = None \<Longrightarrow> \<not> aboveCeiling p cmd"
  by (auto simp: initialCheck_def split: option.splits if_splits)

lemma outcome_contend:
  assumes "commandCheck (ln_config l) cmd = None" and "\<not> aboveCeiling (ln_config l) cmd"
  shows "outcome (contend n ft io rd l request cmd plan s old) (submitted l request cmd)"
  unfolding contend_def
  by (intro admission.outcome_if admission.outcome_fail outcome_busyWith outcome_takeOver [OF assms])

lemma outcome_return: "outcome (State_Monad.return x) (submitted l request cmd)"
  by (auto simp: outcome_def unadmitted_def intro: submitted_quiet)

lemma outcome_admitCommand: "outcome (admitCommand n ft io rd l request cmd) (submitted l request cmd)"
  unfolding admitCommand_def
  by (intro admission.outcome_rules admission.prepare_rules admission.desk_intros outcome_return outcome_contend
      initialCheck_ceiling)

lemma within_enter: "within unadmitted (enterPriority ft cmd)" "within unadmitted (enterOrdinary ft cmd)"
  unfolding enterPriority_def enterOrdinary_def
  by (intro admission.desk_intros admission.within_touch; simp add: unadmitted_def takePriority_def takeGate_def)+

lemma leave_record [simp]: "dk_admissions (leave started d) = dk_admissions d" "dk_started (leave started d) = dk_started d"
  by (simp_all add: leave_def Let_def)

lemma outcome_inLane: "outcome (inLane n ft io rd l request cmd) (submitted l request cmd)"
proof -
  have "outcome (andThen (if is_priority cmd then enterPriority ft cmd else enterOrdinary ft cmd)
      (\<lambda>_. admitCommand n ft io rd l request cmd)) (submitted l request cmd)"
    by (intro admission.outcome_then admission.within_if within_enter outcome_admitCommand)
  then show ?thesis
    by (fastforce simp: outcome_def inLane_def run_simps submitted_def split: prod.splits)
qed

text \<open>
  C3. Only a confirmed, newly committed admission starts a worker. A request makes at most one
  admission and starts at most one worker; the worker runs the operation that this admission
  created, under the request's own kind and device, and that operation is what the request returns;
  its command passed every bound, including the volume ceiling; and except for a cancellation that
  only releases, it starts from an observation of the configured device that is verified, fresh,
  ungrouped, in a known state and would not become audible above the ceiling.
\<close>

theorem submit_starts_admitted:
  "case run_state (Submit n ft io rd lanes request cmd) d of (x, d') \<Rightarrow>
     \<exists>adm sts. dk_admissions d' = dk_admissions d @ adm \<and> dk_started d' = dk_started d @ sts \<and> length adm \<le> 1 \<and>
       (sts = [] \<or> (\<exists>st l. sts = [st] \<and> lanes (rq_Player request) = Some l \<and> admitted_start l request cmd x adm st))"
proof (cases "lanes (rq_Player request)")
  case None
  then have "within unadmitted (Submit n ft io rd lanes request cmd)"
    unfolding Submit_def by (auto intro!: admission.desk_intros)
  from within_snd [OF this, of d] show ?thesis by (auto simp: unadmitted_def split: prod.splits)
next
  case (Some l)
  then have "outcome (Submit n ft io rd lanes request cmd) (submitted l request cmd)"
    unfolding Submit_def
    by (auto intro!: admission.outcome_bind admission.outcome_if admission.outcome_fail admission.desk_intros outcome_return outcome_inLane)
  from outcomeD [OF this] Some show ?thesis by (fastforce simp: submitted_def split: prod.splits)
qed

subsection \<open>What a request holds\<close>

definition same_holds :: "'w desk \<Rightarrow> 'w desk \<Rightarrow> bool" where
  "same_holds d d' \<longleftrightarrow>
     dk_gate d' = dk_gate d \<and> dk_priorityGate d' = dk_priorityGate d \<and> dk_priority d' = dk_priority d \<and> dk_wire d' = dk_wire d \<and>
     dk_admitting d' = dk_admitting d"

interpretation holding: desk_relation same_holds
  by unfold_locales (auto simp: same_holds_def calm_def)

lemma within_holds_admitting: "within same_holds (admitting ft request pr)"
  unfolding admitting_def by (intro holding.desk_intros holding.within_touch) (simp add: same_holds_def)

lemma within_holds_commit: "within same_holds (commitAdmission ft io rd l request cmd plan old previous s)"
  unfolding commitAdmission_def startAdmitted_def
  by (intro holding.desk_intros within_holds_admitting holding.within_touch) (simp add: same_holds_def)

lemma within_holds_proceed: "within same_holds (proceed n ft io rd l request cmd plan previous s old)"
  unfolding proceed_def by (intro holding.desk_intros holding.prepare_rules within_holds_commit)

lemma within_holds_contend: "within same_holds (contend n ft io rd l request cmd plan s old)"
  unfolding contend_def busyWith_def submitBufferedSkip_def admitChild_def takeOver_def supersede_def orphaning_def
  by (intro holding.desk_intros holding.prepare_rules within_holds_proceed within_holds_admitting holding.within_touch)
    (simp_all add: same_holds_def)

lemma within_holds_admitCommand: "within same_holds (admitCommand n ft io rd l request cmd)"
  unfolding admitCommand_def by (intro holding.desk_intros holding.prepare_rules within_holds_contend)

definition empty_handed :: "'w desk \<Rightarrow> 'w desk" where
  "empty_handed d = d\<lparr>dk_gate := False, dk_priorityGate := False, dk_priority := 0, dk_wire := 0, dk_admitting := False\<rparr>"

lemma run_ask: "\<exists>x d'. run_state (ask ft p) d = (x, d') \<and> calm d d'"
  by (auto simp: ask_def visit_def run_simps calm_visited split: prod.splits)

definition entered :: "Command \<Rightarrow> 'w desk \<Rightarrow> bool" where
  "entered cmd d \<longleftrightarrow> dk_priority d = (if is_priority cmd then 1 else 0) \<and> dk_wire d = (if c_Kind cmd = CommandKindStop then 1 else 0)"

lemma enter_holds:
  assumes "run_state (if is_priority cmd then enterPriority ft cmd else enterOrdinary ft cmd) (empty_handed d) = (Inr u, d')"
  shows "entered cmd d'"
proof -
  obtain x1 d1 where 1: "run_state (ask ft (ft_priorityGate ft)) (empty_handed d) = (x1, d1)" "calm (empty_handed d) d1"
    using run_ask [of ft "ft_priorityGate ft" "empty_handed d"] by blast
  let ?d = "takePriority cmd d1"
  obtain x2 d2 where 2: "run_state (ask ft (ft_awaitGate ft)) ?d = (x2, d2)" "calm ?d d2"
    using run_ask [of ft "ft_awaitGate ft" ?d] by blast
  obtain x3 d3 where 3: "run_state (ask ft (ft_gate ft)) (empty_handed d) = (x3, d3)" "calm (empty_handed d) d3"
    using run_ask [of ft "ft_gate ft" "empty_handed d"] by blast
  obtain x4 d4 where 4: "run_state (ask ft (ft_others ft)) (takeGate d3) = (x4, d4)" "calm (takeGate d3) d4"
    using run_ask [of ft "ft_others ft" "takeGate d3"] by blast
  show ?thesis
    using assms 1 2 3 4
    by (auto simp: enterPriority_def enterOrdinary_def run_simps is_priority_def split: if_splits option.splits)
      (auto simp: entered_def empty_handed_def calm_def is_priority_def takePriority_def takeGate_def)
qed

definition released :: "Command \<Rightarrow> start list \<Rightarrow> 'w desk \<Rightarrow> bool" where
  "released cmd started d \<longleftrightarrow>
     \<not> dk_gate d \<and> \<not> dk_priorityGate d \<and> \<not> dk_admitting d \<and>
     (if dk_started d = started then dk_priority d = 0 \<and> dk_wire d = 0 else entered cmd d)"

lemma released_leave:
  assumes "dk_started d = started @ sts" and "sts = [] \<or> entered cmd d"
  shows "released cmd started (leave (length started) d)"
  using assms by (auto simp: released_def leave_def entered_def Let_def)

lemma inLane_releases:
  assumes "run_state (inLane n ft io rd l request cmd) (empty_handed d) = (x, d')"
  shows "released cmd (dk_started d) d'"
proof -
  let ?enter = "if is_priority cmd then enterPriority ft cmd else enterOrdinary ft cmd"
  have started: "dk_started (empty_handed d) = dk_started d" by (simp add: empty_handed_def)
  obtain y d1 where e: "run_state ?enter (empty_handed d) = (y, d1)" by fastforce
  show ?thesis
  proof (cases y)
    case (Inl err)
    have "within unadmitted ?enter" by (intro admission.within_if within_enter)
    from withinD [OF this e] have "dk_started d1 = dk_started d" by (simp add: unadmitted_def started)
    moreover have "d' = leave (length (dk_started d)) d1" using assms e Inl by (simp add: inLane_def run_simps started)
    ultimately show ?thesis using released_leave [of d1 "dk_started d" "[]"] by simp
  next
    case (Inr u)
    obtain z d2 where a: "run_state (admitCommand n ft io rd l request cmd) d1 = (z, d2)" by fastforce
    have "within unadmitted ?enter" by (intro admission.within_if within_enter)
    from withinD [OF this e] have "dk_started d1 = dk_started d" by (simp add: unadmitted_def started)
    with started_grow [OF outcomeD [OF outcome_admitCommand a]] obtain sts where sts: "dk_started d2 = dk_started d @ sts" by auto
    have "entered cmd d2"
      using enter_holds [OF e [unfolded Inr]] withinD [OF within_holds_admitCommand a] by (simp add: entered_def same_holds_def)
    moreover have "d' = leave (length (dk_started d)) d2" using assms e Inr a by (simp add: inLane_def run_simps started)
    ultimately show ?thesis using released_leave [OF sts] by simp
  qed
qed

lemma released_calm: "calm (empty_handed d) d' \<Longrightarrow> released cmd (dk_started d) d'"
  by (simp add: released_def calm_def empty_handed_def)

lemma empty_handed_calm: "calm (empty_handed d) d1 \<Longrightarrow> empty_handed d1 = d1 \<and> dk_started d1 = dk_started d"
  by (simp add: empty_handed_def calm_def)


subsection \<open>A revoked worker's operation\<close>

definition same_books :: "'w desk \<Rightarrow> 'w desk \<Rightarrow> bool" where
  "same_books d d' \<longleftrightarrow> dk_revoked d' = dk_revoked d \<and> dk_orphans d' = dk_orphans d"

interpretation books: desk_relation same_books
  by unfold_locales (auto simp: same_books_def calm_def)

text \<open>
  Every operation whose worker was revoked has a successor or is among those handed to the journal
  finisher. Operations have names.
\<close>

definition accounted :: "'w desk \<Rightarrow> 'a result \<Rightarrow> 'w desk \<Rightarrow> bool" where
  "accounted d x d' \<longleftrightarrow>
     (\<exists>rv orph sts. dk_revoked d' = dk_revoked d @ rv \<and> dk_orphans d' = dk_orphans d @ orph \<and> dk_started d' = dk_started d @ sts \<and>
        (if sts = [] then list_all (\<lambda>k. k = [] \<or> k \<in> set orph) rv else True))"

lemma accountedI:
  "dk_revoked d' = dk_revoked d @ rv \<Longrightarrow> dk_orphans d' = dk_orphans d @ orph \<Longrightarrow> dk_started d' = dk_started d @ sts \<Longrightarrow>
   (sts = [] \<Longrightarrow> list_all (\<lambda>k. k = [] \<or> k \<in> set orph) rv) \<Longrightarrow> accounted d x d'"
  unfolding accounted_def by auto

definition untouched :: "'w desk \<Rightarrow> 'w desk \<Rightarrow> bool" where
  "untouched d d' \<longleftrightarrow> same_books d d' \<and> dk_started d' = dk_started d"

interpretation accounting: request_outcome untouched accounted
  by unfold_locales (auto simp: untouched_def same_books_def calm_def accounted_def)

lemma within_books_admitting: "within same_books (admitting ft request pr)"
  unfolding admitting_def by (intro books.desk_intros books.within_touch) (simp add: same_books_def)

lemma within_books_proceed: "within same_books (proceed n ft io rd l request cmd plan previous s old)"
  unfolding proceed_def commitAdmission_def startAdmitted_def
  by (intro books.desk_intros books.prepare_rules within_books_admitting books.within_touch) (simp add: same_books_def)

text \<open>The worker's end is observed, and its operation is read back unfinished.\<close>

definition lane_reads_back :: "'w front \<Rightarrow> 'w ports \<Rightarrow> bool" where
  "lane_reads_back ft io \<longleftrightarrow>
     (\<forall>v. fst (ft_awaitDone ft v) = None) \<and>
     (\<forall>k v. \<exists>op. fst (io_get io k v) = Inr op \<and> o_ID op = k \<and> o_FinishedAt op = None)"

lemma fst_ask: "fst (run_state (ask ft p) d) = fst (p (wk_world (dk_worker d)))"
  by (simp add: ask_def visit_def run_simps split: prod.splits)

lemma supersede_run:
  assumes "\<And>v. fst (ft_awaitDone ft v) = None"
  obtains d' rv where "run_state (supersede ft previous old) d = (None, d')" and "dk_revoked d' = dk_revoked d @ rv"
    and "rv = [] \<or> rv = [old] \<and> previous" and "dk_orphans d' = dk_orphans d" and "dk_started d' = dk_started d"
proof (cases "previous \<and> old = run_id d")
  case False
  then have "run_state (supersede ft previous old) d = (None, d)" by (auto simp: supersede_def run_simps)
  with that [of d "[]"] show thesis by simp
next
  case True
  define e where "e = d\<lparr>dk_worker := (dk_worker d)\<lparr>wk_run := cancel_run errSuperseded (wk_run (dk_worker d))\<rparr>,
    dk_revoked := dk_revoked d @ [run_id d]\<rparr>"
  obtain x d1 where a: "run_state (ask ft (ft_awaitDone ft)) e = (x, d1)" "calm e d1"
    using run_ask [of ft "ft_awaitDone ft" e] by blast
  with fst_ask [of ft "ft_awaitDone ft" e] assms have "x = None" by simp
  with True a(1) have "run_state (supersede ft previous old) d = (None, d1\<lparr>dk_running := False\<rparr>)"
    by (simp add: supersede_def run_simps e_def)
  moreover have "dk_revoked d1 = dk_revoked d @ [old]" "dk_orphans d1 = dk_orphans d" "dk_started d1 = dk_started d"
    using a(2) True by (simp_all add: calm_def e_def)
  ultimately show thesis using that [of "d1\<lparr>dk_running := False\<rparr>" "[old]"] True by simp
qed

lemma outcome_accounted_takeOver:
  assumes "lane_reads_back ft io" and ok: "commandCheck (ln_config l) cmd = None" "\<not> aboveCeiling (ln_config l) cmd"
  shows "outcome (takeOver n ft io rd l request cmd plan s old) accounted"
  unfolding outcome_def
proof (intro allI impI)
  fix d x d'
  assume run: "run_state (takeOver n ft io rd l request cmd plan s old) d = (x, d')"
  let ?id = "case old of None \<Rightarrow> [] | Some x \<Rightarrow> o_ID x"
  obtain previous d1 where c: "run_state (currentRun ft) d = (previous, d1)" by fastforce
  have c': "untouched d d1" using withinD [OF accounting.within_currentRun c] .
  obtain d2 rv where sup: "run_state (supersede ft previous ?id) d1 = (None, d2)" "dk_revoked d2 = dk_revoked d1 @ rv"
      "rv = [] \<or> rv = [?id] \<and> previous" "dk_orphans d2 = dk_orphans d1" "dk_started d2 = dk_started d1"
    using supersede_run [of ft previous ?id d1] assms(1) unfolding lane_reads_back_def by metis
  have books: "same_books e e' \<and> (\<exists>sts. dk_started e' = dk_started e @ sts)"
    if "run_state (proceed n ft io rd l request cmd plan previous s older) e = (y, e')" for older e y e'
    using withinD [OF within_books_proceed that] started_grow [OF outcomeD [OF outcome_proceed [OF ok] that]] by blast
  show "accounted d x d'"
  proof (cases old)
    case None
    then have p: "run_state (proceed n ft io rd l request cmd plan previous s None) d2 = (x, d')"
      using run c sup(1) by (simp add: takeOver_def run_simps)
    obtain sts where b: "same_books d2 d'" "dk_started d' = dk_started d2 @ sts" using books [OF p] by blast
    have "dk_revoked d' = dk_revoked d @ rv" "dk_orphans d' = dk_orphans d @ []" "dk_started d' = dk_started d @ sts"
      using b sup c' by (auto simp: same_books_def untouched_def)
    then show ?thesis by (rule accountedI) (use sup(3) None in auto)
  next
    case (Some op)
    obtain y d3 where g: "run_state (ask ft (io_get io (o_ID op))) d2 = (y, d3)" "calm d2 d3"
      using run_ask [of ft "io_get io (o_ID op)" d2] by blast
    obtain op' where op': "y = Inr op'" "o_ID op' = o_ID op" "o_FinishedAt op' = None"
      using assms(1) g(1) fst_ask [of ft "io_get io (o_ID op)" d2] unfolding lane_reads_back_def by (metis fst_conv)
    have o: "run_state (orphaning previous (o_ID op) (proceed n ft io rd l request cmd plan previous s (Some op'))) d3 = (x, d')"
      using run c sup(1) Some g(1) op' by (simp add: takeOver_def run_simps)
    obtain z d4 where p: "run_state (proceed n ft io rd l request cmd plan previous s (Some op')) d3 = (z, d4)" by fastforce
    have d': "d' = (if previous \<and> length (dk_started d4) = length (dk_started d3) then d4\<lparr>dk_orphans := dk_orphans d4 @ [o_ID op]\<rparr> else d4)"
      using o p by (auto simp: orphaning_def run_simps split: if_splits)
    obtain sts where b: "same_books d3 d4" "dk_started d4 = dk_started d3 @ sts" using books [OF p] by blast
    have "dk_revoked d' = dk_revoked d @ rv" "dk_started d' = dk_started d @ sts"
      using b d' g(2) sup c' by (auto simp: same_books_def untouched_def calm_def)
    moreover have "dk_orphans d' = dk_orphans d @ (if previous \<and> sts = [] then [o_ID op] else [])"
      using b d' g(2) sup c' by (auto simp: same_books_def untouched_def calm_def)
    moreover have "list_all (\<lambda>k. k = [] \<or> k \<in> set (if previous \<and> sts = [] then [o_ID op] else [])) rv \<or> sts \<noteq> []"
      using sup(3) Some by auto
    ultimately show ?thesis by (intro accountedI) auto
  qed
qed

lemma outcome_untouched:
  assumes "within untouched m"
  shows "outcome m accounted"
  unfolding outcome_def
proof (intro allI impI)
  fix d x d'
  assume "run_state m d = (x, d')"
  from withinD [OF assms this] show "accounted d x d'"
    by (intro accountedI [where rv = "[]" and orph = "[]" and sts = "[]"]) (simp_all add: untouched_def same_books_def)
qed

lemma within_untouched_admitting: "within untouched (admitting ft request pr)"
  unfolding admitting_def
  by (intro accounting.desk_intros accounting.within_touch) (simp add: untouched_def same_books_def)

lemma outcome_accounted_busyWith: "outcome (busyWith ft io rd l request cmd old) accounted"
  unfolding busyWith_def submitBufferedSkip_def admitChild_def
  by (intro outcome_untouched accounting.desk_intros accounting.within_currentRun within_untouched_admitting)

lemma outcome_accounted_return: "outcome (State_Monad.return x) accounted"
  by (intro outcome_untouched accounting.desk_intros)

lemma outcome_accounted_admitCommand:
  assumes "lane_reads_back ft io"
  shows "outcome (admitCommand n ft io rd l request cmd) accounted"
  unfolding admitCommand_def contend_def
  by (intro accounting.outcome_rules accounting.prepare_rules accounting.desk_intros outcome_accounted_return
      outcome_accounted_busyWith outcome_accounted_takeOver [OF assms] initialCheck_ceiling)

lemma within_untouched_enter: "within untouched (enterPriority ft cmd)" "within untouched (enterOrdinary ft cmd)"
  unfolding enterPriority_def enterOrdinary_def
  by (intro accounting.desk_intros accounting.within_touch; simp add: untouched_def same_books_def takePriority_def takeGate_def)+

lemma leave_books [simp]: "dk_revoked (leave started d) = dk_revoked d" "dk_orphans (leave started d) = dk_orphans d"
  by (simp_all add: leave_def Let_def)

lemma outcome_accounted_inLane:
  assumes "lane_reads_back ft io"
  shows "outcome (inLane n ft io rd l request cmd) accounted"
proof -
  have "outcome (andThen (if is_priority cmd then enterPriority ft cmd else enterOrdinary ft cmd)
      (\<lambda>_. admitCommand n ft io rd l request cmd)) accounted"
    by (intro accounting.outcome_then accounting.within_if within_untouched_enter outcome_accounted_admitCommand [OF assms])
  then show ?thesis
    by (fastforce simp: outcome_def inLane_def run_simps accounted_def split: prod.splits)
qed


subsection \<open>Example requests\<close>

definition example_owner :: Operation where
  "example_owner = hd (j_operations example_admitted)"

text \<open>A lane whose worker runs \<open>example_owner\<close>; the journal refuses the admission.\<close>

definition example_front :: "device front" where
  "example_front =
     \<lparr>ft_lookup = (\<lambda>r v. (Inl ErrNotFound, [], v)), ft_active = (\<lambda>k v. (Inr example_owner, [], v)),
      ft_admit = (\<lambda>r pr v. (Inl ErrCapacity, [], v)), ft_revision = (\<lambda>k v. (Inr ''r'', [], v)),
      ft_priorityGate = (\<lambda>v. (True, [], v)), ft_gate = (\<lambda>v. (True, [], v)), ft_awaitGate = (\<lambda>v. (None, [], v)),
      ft_others = (\<lambda>v. (0, [], v)), ft_ended = (\<lambda>v. (False, [], v)), ft_awaitDone = (\<lambda>v. (None, [], v)),
      ft_wait = (\<lambda>d v. (None, [], v)), ft_closing = (\<lambda>v. (False, [], v)), ft_arguments = (\<lambda>pl c v. []),
      ft_childArguments = (\<lambda>k c. []), ft_configRevision = (\<lambda>p. []), ft_steps = (\<lambda>w. w)\<rparr>"

definition example_reads :: "device reads" where
  "example_reads = \<lparr>rd_sources = [], rd_players = [], rd_resolve = (\<lambda>k s r v. (None, [], v)), rd_err = (\<lambda>v. (None, [], v))\<rparr>"

definition example_desk :: "device desk" where
  "example_desk =
     \<lparr>dk_worker = example_replay, dk_running = True, dk_gate = False, dk_priorityGate = False, dk_priority = 0, dk_wire = 0,
      dk_admitting = False, dk_revoked = [], dk_orphans = [], dk_admissions = [], dk_started = []\<rparr>"

definition example_stop :: Command where
  "example_stop = zeroCommand\<lparr>c_Kind := CommandKindStop\<rparr>"

definition stopping :: "device ports \<Rightarrow> Operation result \<times> device desk" where
  "stopping io = run_state (Submit 3 example_front io example_reads (\<lambda>k. Some example_lane) (example_request ''k2'') example_stop) example_desk"

definition readable_ports :: "device ports" where
  "readable_ports = device_ports\<lparr>io_get := (\<lambda>k v. (Inr (example_owner\<lparr>o_ID := k, o_FinishedAt := None\<rparr>), [], v))\<rparr>"


text \<open>
  The account has a gap: when the operation cannot be read back after its worker was revoked, the
  request fails and neither replaces the operation nor hands it to the journal finisher. The
  revoked worker leaves its record to a successor, so the operation stays unfinished and keeps the
  device reserved.
\<close>

lemma example_owner_id: "o_ID example_owner = ''op1''" "o_ID (wk_op example_replay) = ''op1''"
  unfolding example_owner_def by code_simp+

lemma example_stop_checks:
  "is_priority example_stop" "c_Kind example_stop = CommandKindStop" "c_ExpectedOwner example_stop = []"
  "commandCheck (ln_config example_lane) example_stop = None" "initialCheck (ln_config example_lane) example_stop s = None"
  "cp_WritesEnabled (ln_config example_lane)"
  by (simp_all add: example_stop_def example_lane_def example_player_def zeroCommand_def is_priority_def commandCheck_def
      initialCheck_def validateExpectedOwner_def playingBusy_def aboveCeiling_def)

lemma ask_quiet: "p (wk_world (dk_worker d)) = (x, [], wk_world (dk_worker d)) \<Longrightarrow> run_state (ask example_front p) d = (x, d)"
  by (simp add: ask_def visit_def visited_def run_simps example_front_def)

lemma example_asks:
  "run_state (ask example_front (ft_lookup example_front r)) d = (Inl ErrNotFound, d)"
  "run_state (ask example_front (ft_active example_front k)) d = (Inr example_owner, d)"
  "run_state (ask example_front (ft_priorityGate example_front)) d = (True, d)"
  "run_state (ask example_front (ft_awaitGate example_front)) d = (None, d)"
  "run_state (ask example_front (ft_ended example_front)) d = (False, d)"
  "run_state (ask example_front (ft_awaitDone example_front)) d = (None, d)"
  "run_state (ask example_front (io_stopping device_ports)) d = (False, d)"
  "run_state (ask example_front (io_snapshot device_ports)) d = (dv_state (wk_world (dk_worker d)), d)"
  "run_state (ask example_front (io_get device_ports k)) d = (Inl ErrNotFound, d)"
  by (rule ask_quiet; simp add: example_front_def device_ports_def)+

lemma unreadable_takeOver:
  assumes "run_id d = o_ID old" and "dk_running d"
  shows "run_state (takeOver n example_front device_ports rd l request cmd plan s (Some old)) d =
    (Inl ErrNotFound, d\<lparr>dk_worker := (dk_worker d)\<lparr>wk_run := cancel_run errSuperseded (wk_run (dk_worker d))\<rparr>,
       dk_running := False, dk_revoked := dk_revoked d @ [o_ID old]\<rparr>)"
  using assms by (simp add: takeOver_def supersede_def currentRun_def run_simps example_asks)

lemma unreadable_admitCommand:
  assumes "run_id d = ''op1''" and "dk_running d"
  shows "run_state (admitCommand n example_front device_ports rd example_lane request example_stop) d =
    (Inl ErrNotFound, d\<lparr>dk_worker := (dk_worker d)\<lparr>wk_run := cancel_run errSuperseded (wk_run (dk_worker d))\<rparr>,
       dk_running := False, dk_revoked := dk_revoked d @ [''op1'']\<rparr>)"
  using assms
  by (simp add: admitCommand_def contend_def planFor_def require_def found_def run_simps example_asks
      example_stop_checks example_owner_id unreadable_takeOver)

theorem unreadable_operation_left_open:
  "case stopping device_ports of (x, d') \<Rightarrow>
     isl x \<and> dk_revoked d' = [''op1''] \<and> dk_started d' = [] \<and> dk_orphans d' = []"
  by (simp add: stopping_def Submit_def inLane_def enterPriority_def run_simps example_asks example_stop_checks found_def
      unreadable_admitCommand run_id_def takePriority_def takeGate_def example_desk_def example_owner_id leave_def)

end
