(* ===== verification/Catalogs.thy ===== *)
theory Catalogs
  imports Programs "HOL-Library.AList"
begin

section \<open>Catalog browsing\<close>

text \<open>
  \<open>internal/heos/catalog.go\<close>: the bounds of a page, browsing one page and a whole container, and the
  cache of opaque references a client browses with; and \<open>Queue\<close> of \<open>observations.go\<close>, which pages in
  the same way. The connection is a reader on an arbitrary state, the JSON decoder a parameter. A
  catalog is changed by the last critical section of \<open>Browse\<close> only, so the reachable catalogs are
  those of any interleaving of such sections.
\<close>

subsection \<open>Pages\<close>

type_synonym 's reader = "string \<Rightarrow> url_Values \<Rightarrow> ('s, Response result) state"

definition payload :: "(string \<Rightarrow> 'a option) \<Rightarrow> Response \<Rightarrow> 'a result" where
  "payload decode r =
     (if r_Payload r = [] \<or> r_Payload r = ''null'' then Inl ErrProtocol
      else case decode (r_Payload r) of
             None \<Rightarrow> Inl (Wrapped (OtherError ''HEOS payload'') ErrProtocol)
           | Some x \<Rightarrow> Inr x)"

definition page_total :: "Response \<Rightarrow> int \<Rightarrow> int option result" where
  "page_total r stop =
     (if \<not> Values_Has (r_Params r) ''count'' then Inr None
      else case Atoi (Values_Get (r_Params r) ''count'') of
             None \<Rightarrow> Inl ErrProtocol
           | Some n \<Rightarrow>
               if n < 0 then Inl ErrProtocol
               else if n = 0 then Inr None
               else if stop > n then Inl ErrProtocol else Inr (Some n))"

definition pageBounds :: "Response \<Rightarrow> int \<Rightarrow> int \<Rightarrow> int \<Rightarrow> (int option \<times> int option) result" where
  "pageBounds r start limit count =
     (let returned = Values_Get (r_Params r) ''returned'' in
      if count > limit then Inl ErrProtocol
      else if returned \<noteq> [] \<and> Atoi returned \<noteq> Some count then Inl ErrProtocol
      else case page_total r (start + count) of
             Inl e \<Rightarrow> Inl e
           | Inr t \<Rightarrow>
               if count = 0
               then if (case t of Some n \<Rightarrow> start < n | None \<Rightarrow> False) then Inl ErrProtocol else Inr (t, None)
               else if (case t of Some n \<Rightarrow> n \<le> start + count | None \<Rightarrow> False) then Inr (t, None)
               else if \<not> Values_Has (r_Params r) ''count'' \<and> count < limit then Inr (None, None)
               else Inr (t, Some (start + count)))"

definition range_arg :: "int \<Rightarrow> int \<Rightarrow> string" where
  "range_arg start limit = Itoa start @ '','' @ Itoa (start + limit - 1)"

definition queue_page :: "int \<Rightarrow> int \<Rightarrow> Response \<Rightarrow> Media list \<Rightarrow> QueuePage result" where
  "queue_page start limit r items =
     (if list_ex (\<lambda>i. md_QueueID i = []) items then Inl ErrProtocol
      else case pageBounds r start limit (int (length items)) of
             Inl e \<Rightarrow> Inl e
           | Inr (t, n) \<Rightarrow> Inr \<lparr>q_Items = items, q_Total = t, q_Next = n, q_Token = r_Token r\<rparr>)"

definition Client_Queue ::
  "'s reader \<Rightarrow> (string \<Rightarrow> Media list option) \<Rightarrow> ID \<Rightarrow> int \<Rightarrow> int \<Rightarrow> ('s, QueuePage result) state" where
  "Client_Queue read decode pid start limit =
     (if pid = [] \<or> start < 0 \<or> start > MaxBrowseItems \<or> limit < 1 \<or> limit > 100 then fail ErrBounds
      else andThen (read ''player/get_queue'' [(''pid'', [pid]), (''range'', [range_arg start limit])])
        (\<lambda>r. State_Monad.return
           (case payload decode r of Inl e \<Rightarrow> Inl e | Inr items \<Rightarrow> queue_page start limit r items)))"

record BrowsePage =
  bg_Items :: "Item list"
  bg_Total :: "int option"
  bg_Next :: "int option"
  bg_Token :: Token
  bg_unpaged :: "Item list option"

definition sourcePage :: "Item list \<Rightarrow> int option \<Rightarrow> Token \<Rightarrow> int \<Rightarrow> int \<Rightarrow> BrowsePage result" where
  "sourcePage items t token start limit =
     (if start > int (length items) then Inl ErrBounds
      else let stop = min (start + limit) (int (length items))
           in Inr \<lparr>bg_Items = take (nat (stop - start)) (drop (nat start) items), bg_Total = t,
                   bg_Next = (if stop < int (length items) then Some stop else None), bg_Token = token,
                   bg_unpaged = Some items\<rparr>)"

text \<open>Only Favorites (1028) and containers take a range; any other source answers as a whole.\<close>

definition browse_args :: "ID \<Rightarrow> ID \<Rightarrow> int \<Rightarrow> int \<Rightarrow> url_Values" where
  "browse_args sid cid start limit =
     (let args = [(''sid'', [sid])];
          args = (if cid \<noteq> [] \<or> sid = ''1028'' then Values_Set args ''range'' (range_arg start limit) else args)
      in if cid \<noteq> [] then Values_Set args ''cid'' cid else args)"

definition browsed_page :: "ID \<Rightarrow> ID \<Rightarrow> int \<Rightarrow> int \<Rightarrow> Response \<Rightarrow> Item list \<Rightarrow> BrowsePage result" where
  "browsed_page sid cid start limit r items =
     (if cid \<noteq> [] \<or> sid = ''1028''
      then case pageBounds r start limit (int (length items)) of
             Inl e \<Rightarrow> Inl e
           | Inr (t, n) \<Rightarrow> Inr \<lparr>bg_Items = items, bg_Total = t, bg_Next = n, bg_Token = r_Token r, bg_unpaged = None\<rparr>
      else case pageBounds r 0 100 (int (length items)) of
             Inl e \<Rightarrow> Inl e
           | Inr (t, _) \<Rightarrow>
               if (case t of Some k \<Rightarrow> k \<noteq> int (length items) | None \<Rightarrow> 50 \<le> length items) then Inl ErrIncompleteSource
               else sourcePage items t (r_Token r) start limit)"

definition browsePage ::
  "'s reader \<Rightarrow> (string \<Rightarrow> Item list option) \<Rightarrow> ID \<Rightarrow> ID \<Rightarrow> int \<Rightarrow> int \<Rightarrow> ('s, BrowsePage result) state" where
  "browsePage read decode sid cid start limit =
     (if sid = [] \<or> start < 0 \<or> start > MaxBrowseItems \<or> limit < 1 \<or> limit > 100 then fail ErrBounds
      else andThen (read ''browse/browse'' (browse_args sid cid start limit))
        (\<lambda>r. State_Monad.return
           (case payload decode r of Inl e \<Rightarrow> Inl e | Inr items \<Rightarrow> browsed_page sid cid start limit r items)))"

text \<open>\<open>token\<close> is the token of the first page; the number of pages left bounds the loop.\<close>

fun browseLoop ::
  "nat \<Rightarrow> 's reader \<Rightarrow> (string \<Rightarrow> Item list option) \<Rightarrow> ID \<Rightarrow> ID \<Rightarrow> int \<Rightarrow> Token option \<Rightarrow> Item list \<Rightarrow> ('s, Item list result) state" where
  "browseLoop 0 read decode sid cid start token items = fail ErrBounds"
| "browseLoop (Suc k) read decode sid cid start token items =
     andThen (browsePage read decode sid cid start 100) (\<lambda>page.
       if (case token of Some t \<Rightarrow> \<not> catalogSame t (bg_Token page) | None \<Rightarrow> False) then fail ErrStaleReference
       else if int (length items + length (bg_Items page)) > MaxBrowseItems then fail ErrBounds
       else case bg_Next page of
              None \<Rightarrow> done_with (items @ bg_Items page)
            | Some next \<Rightarrow>
                browseLoop k read decode sid cid next (Some (case token of Some t \<Rightarrow> t | None \<Rightarrow> bg_Token page))
                  (items @ bg_Items page))"

definition BrowseAll ::
  "'s reader \<Rightarrow> (string \<Rightarrow> Item list option) \<Rightarrow> ID \<Rightarrow> ID \<Rightarrow> ('s, Item list result) state" where
  "BrowseAll read decode sid cid = browseLoop MaxBrowsePages read decode sid cid 0 None []"

declare browseLoop.simps [simp del]

subsection \<open>The reference cache\<close>

record CatalogItem =
  ci_Name :: string
  ci_Ref :: string
  ci_Container :: bool
  ci_Playable :: bool
  ci_Kind :: string
  ci_Browsable :: bool

record CatalogPage =
  cg_Items :: "CatalogItem list"
  cg_Total :: "int option"
  cg_Next :: string

record reference =
  rf_source :: ID
  rf_target :: ID
  rf_item :: Item
  rf_cursor :: bool
  rf_start :: int
  rf_limit :: int
  rf_token :: Token
  rf_expires :: time
  rf_snapshot :: "Item list option"
  rf_total :: "int option"

record Catalog =
  ct_capacity :: int
  ct_ttl :: duration
  ct_refs :: "(string \<times> reference) list"

definition NewCatalog :: "int \<Rightarrow> duration \<Rightarrow> Catalog result" where
  "NewCatalog capacity ttl =
     (if capacity < 1 \<or> capacity > 4096 \<or> ttl \<le> 0 \<or> ttl > 300 * Second then Inl ErrBounds
      else Inr \<lparr>ct_capacity = capacity, ct_ttl = ttl, ct_refs = []\<rparr>)"

definition reference_valid :: "reference \<Rightarrow> ID \<Rightarrow> View \<Rightarrow> time \<Rightarrow> bool" where
  "reference_valid ref source view now \<longleftrightarrow>
     rf_source ref = source \<and> v_Connected view \<and> catalogSame (rf_token ref) (v_Token view) \<and> now < rf_expires ref"

text \<open>The reference a key names when it is of the wanted sort and valid.\<close>

definition live_reference :: "Catalog \<Rightarrow> bool \<Rightarrow> ID \<Rightarrow> View \<Rightarrow> time \<Rightarrow> string \<Rightarrow> reference option" where
  "live_reference c cursor source view now key =
     (case map_of (ct_refs c) key of
        Some r \<Rightarrow> if rf_cursor r = cursor \<and> reference_valid r source view now then Some r else None
      | None \<Rightarrow> None)"

definition Catalog_Resolve :: "Catalog \<Rightarrow> View \<Rightarrow> time \<Rightarrow> ID \<Rightarrow> string \<Rightarrow> Item result" where
  "Catalog_Resolve c view now source ref =
     (case live_reference c False source view now ref of None \<Rightarrow> Inl ErrStaleReference | Some r \<Rightarrow> Inr (rf_item r))"

text \<open>The source and container a reference of a container or a source opens.\<close>

definition browse_target :: "Catalog \<Rightarrow> ID \<Rightarrow> View \<Rightarrow> time \<Rightarrow> string \<Rightarrow> (ID \<times> ID) result" where
  "browse_target c source view now parent =
     (if parent = [] then Inr (source, [])
      else case live_reference c False source view now parent of
             None \<Rightarrow> Inl ErrStaleReference
           | Some r \<Rightarrow>
               if Item_isSource (rf_item r) then Inr (it_Source (rf_item r), [])
               else if it_Container (rf_item r) = ''yes'' \<and> it_ContainerID (rf_item r) \<noteq> []
               then Inr (rf_target r, it_ContainerID (rf_item r))
               else Inl ErrStaleReference)"

definition browse_cursor :: "Catalog \<Rightarrow> ID \<Rightarrow> View \<Rightarrow> time \<Rightarrow> string \<Rightarrow> int \<Rightarrow> ID \<Rightarrow> ID \<Rightarrow> reference option result" where
  "browse_cursor c source view now cursor limit target cid =
     (if cursor = [] then Inr None
      else case live_reference c True source view now cursor of
             None \<Rightarrow> Inl ErrStaleReference
           | Some r \<Rightarrow>
               if rf_target r \<noteq> target \<or> it_ContainerID (rf_item r) \<noteq> cid \<or> rf_limit r \<noteq> limit then Inl ErrStaleReference
               else Inr (Some r))"

definition browse_read ::
  "'s reader \<Rightarrow> (string \<Rightarrow> Item list option) \<Rightarrow> reference option \<Rightarrow> ID \<Rightarrow> ID \<Rightarrow> int \<Rightarrow> ('s, BrowsePage result) state" where
  "browse_read read decode cached target cid limit =
     (let start = (case cached of Some r \<Rightarrow> rf_start r | None \<Rightarrow> 0) in
      case cached of
        Some r \<Rightarrow>
          (case rf_snapshot r of
             Some items \<Rightarrow> State_Monad.return (sourcePage items (rf_total r) (rf_token r) start limit)
           | None \<Rightarrow> browsePage read decode target cid start limit)
      | None \<Rightarrow> browsePage read decode target cid start limit)"

definition purged :: "View \<Rightarrow> time \<Rightarrow> (string \<times> reference) list \<Rightarrow> (string \<times> reference) list" where
  "purged current now refs =
     filter (\<lambda>(k, r). v_Connected current \<and> catalogSame (rf_token r) (v_Token current) \<and> now < rf_expires r) refs"

definition snapshot_size :: "reference \<Rightarrow> nat" where
  "snapshot_size r = (case rf_snapshot r of Some items \<Rightarrow> length items | None \<Rightarrow> 0)"

definition cache_used :: "(string \<times> reference) list \<Rightarrow> nat" where
  "cache_used refs = length refs + sum_list (map (\<lambda>(k, r). snapshot_size r) refs)"

definition cache_needed :: "BrowsePage \<Rightarrow> nat" where
  "cache_needed page =
     length (bg_Items page) +
     (if bg_Next page \<noteq> None then 1 + (case bg_unpaged page of Some items \<Rightarrow> length items | None \<Rightarrow> 0) else 0)"

definition item_kind :: "Item \<Rightarrow> string" where
  "item_kind i = (if Item_isSource i then ''source'' else if it_Container i = ''yes'' then ''container'' else ''media'')"

text \<open>A listed item is completed with the source and container it was found in.\<close>

definition stored_item :: "ID \<Rightarrow> ID \<Rightarrow> Item \<Rightarrow> Item" where
  "stored_item target cid i =
     (let i' = (if it_Source i = [] then i\<lparr>it_Source := target\<rparr> else i)
      in if item_kind i = ''media'' \<and> it_ContainerID i = [] then i'\<lparr>it_ContainerID := cid\<rparr> else i')"

definition item_entry :: "string \<Rightarrow> Item \<Rightarrow> CatalogItem" where
  "item_entry ref i =
     \<lparr>ci_Name = it_Name i, ci_Ref = ref, ci_Container = (item_kind i = ''container''), ci_Playable = (it_Playable i = ''yes''),
      ci_Kind = item_kind i, ci_Browsable = (item_kind i \<noteq> ''media'')\<rparr>"

definition item_reference :: "ID \<Rightarrow> ID \<Rightarrow> ID \<Rightarrow> Token \<Rightarrow> time \<Rightarrow> Item \<Rightarrow> reference" where
  "item_reference source target cid token expires i =
     \<lparr>rf_source = source, rf_target = target, rf_item = stored_item target cid i, rf_cursor = False, rf_start = 0,
      rf_limit = 0, rf_token = token, rf_expires = expires, rf_snapshot = None, rf_total = None\<rparr>"

definition cursor_reference :: "ID \<Rightarrow> ID \<Rightarrow> ID \<Rightarrow> int \<Rightarrow> int \<Rightarrow> time \<Rightarrow> BrowsePage \<Rightarrow> reference" where
  "cursor_reference source target cid start limit expires page =
     \<lparr>rf_source = source, rf_target = target, rf_item = zeroItem\<lparr>it_ContainerID := cid\<rparr>, rf_cursor = True, rf_start = start,
      rf_limit = limit, rf_token = bg_Token page, rf_expires = expires, rf_snapshot = bg_unpaged page, rf_total = bg_Total page\<rparr>"

text \<open>\<open>rand n\<close> is the \<open>n\<close>-th text \<open>rand.Text\<close> returns in the call.\<close>

definition item_ref :: "(nat \<Rightarrow> string) \<Rightarrow> nat \<Rightarrow> string" where
  "item_ref rand n = ''item_'' @ rand n"

fun store_items ::
  "(nat \<Rightarrow> string) \<Rightarrow> nat \<Rightarrow> (Item \<Rightarrow> reference) \<Rightarrow> Item list \<Rightarrow> (string \<times> reference) list \<Rightarrow> (string \<times> reference) list" where
  "store_items rand n mk [] refs = refs"
| "store_items rand n mk (i # is) refs = store_items rand (Suc n) mk is (AList.update (item_ref rand n) (mk i) refs)"

definition entries :: "(nat \<Rightarrow> string) \<Rightarrow> Item list \<Rightarrow> CatalogItem list" where
  "entries rand items = map (\<lambda>(n, i). item_entry (item_ref rand n) i) (zip [0..<length items] items)"

text \<open>A page cut from a cached listing expires no later than the listing.\<close>

definition page_expiry :: "Catalog \<Rightarrow> reference option \<Rightarrow> time \<Rightarrow> time" where
  "page_expiry c cached now =
     (case cached of
        Some r \<Rightarrow> if rf_snapshot r \<noteq> None \<and> rf_expires r < now + ct_ttl c then rf_expires r else now + ct_ttl c
      | None \<Rightarrow> now + ct_ttl c)"

definition stored_refs ::
  "(nat \<Rightarrow> string) \<Rightarrow> ID \<Rightarrow> ID \<Rightarrow> ID \<Rightarrow> int \<Rightarrow> time \<Rightarrow> BrowsePage \<Rightarrow> (string \<times> reference) list \<Rightarrow> string \<times> (string \<times> reference) list" where
  "stored_refs rand source target cid limit expires page refs =
     (let refs = store_items rand 0 (item_reference source target cid (bg_Token page) expires) (bg_Items page) refs in
      case bg_Next page of
        None \<Rightarrow> ([], refs)
      | Some start \<Rightarrow>
          (let key = ''cursor_'' @ rand (length (bg_Items page))
           in (key, AList.update key (cursor_reference source target cid start limit expires page) refs)))"

text \<open>
  The critical section after the read. \<open>view\<close> is the view before it, \<open>current\<close> the one now; the clock
  is read once.
\<close>

definition still_valid :: "Catalog \<Rightarrow> ID \<Rightarrow> View \<Rightarrow> time \<Rightarrow> string \<Rightarrow> bool" where
  "still_valid c source current now key \<longleftrightarrow>
     key = [] \<or> (case map_of (ct_refs c) key of Some r \<Rightarrow> reference_valid r source current now | None \<Rightarrow> False)"

definition browse_store ::
  "(nat \<Rightarrow> string) \<Rightarrow> ID \<Rightarrow> string \<Rightarrow> string \<Rightarrow> int \<Rightarrow> ID \<Rightarrow> ID \<Rightarrow> reference option \<Rightarrow> View \<Rightarrow> View \<Rightarrow> time \<Rightarrow> BrowsePage \<Rightarrow>
   Catalog \<Rightarrow> CatalogPage result \<times> Catalog" where
  "browse_store rand source parent cursor limit target cid cached view current now page c =
     (if \<not> v_Connected current \<or> \<not> catalogSame (bg_Token page) (v_Token current) \<or>
         ((parent \<noteq> [] \<or> cursor \<noteq> []) \<and> \<not> catalogSame (v_Token view) (bg_Token page)) \<or>
         \<not> still_valid c source current now parent \<or> \<not> still_valid c source current now cursor
      then (Inl ErrStaleReference, c)
      else
        let refs = purged current now (ct_refs c) in
        if int (cache_used refs + cache_needed page) > ct_capacity c then (Inl ErrCatalogFull, c\<lparr>ct_refs := refs\<rparr>)
        else case stored_refs rand source target cid limit (page_expiry c cached now) page refs of
               (next, refs) \<Rightarrow>
                 (Inr \<lparr>cg_Items = entries rand (bg_Items page), cg_Total = bg_Total page, cg_Next = next\<rparr>,
                  c\<lparr>ct_refs := refs\<rparr>))"

text \<open>
  A whole call on a catalog that nobody else uses meanwhile. \<open>err\<close> is \<open>ctx.Err()\<close> before the read.
\<close>

definition Catalog_Browse ::
  "'s reader \<Rightarrow> (string \<Rightarrow> Item list option) \<Rightarrow> (nat \<Rightarrow> string) \<Rightarrow> ID \<Rightarrow> string \<Rightarrow> string \<Rightarrow> int \<Rightarrow> View \<Rightarrow> time \<Rightarrow>
   error option \<Rightarrow> View \<Rightarrow> time \<Rightarrow> Catalog \<Rightarrow> ('s, CatalogPage result \<times> Catalog) state" where
  "Catalog_Browse read decode rand source parent cursor limit view now err current now' c =
     (if source = [] \<or> limit < 1 \<or> limit > 100 then State_Monad.return (Inl ErrBounds, c)
      else case browse_target c source view now parent of
             Inl e \<Rightarrow> State_Monad.return (Inl e, c)
           | Inr (target, cid) \<Rightarrow>
               (case browse_cursor c source view now cursor limit target cid of
                  Inl e \<Rightarrow> State_Monad.return (Inl e, c)
                | Inr cached \<Rightarrow>
                    (case err of
                       Some e \<Rightarrow> State_Monad.return (Inl e, c)
                     | None \<Rightarrow> do {
                         x \<leftarrow> browse_read read decode cached target cid limit;
                         State_Monad.return
                           (case x of
                              Inl e \<Rightarrow> (Inl e, c)
                            | Inr page \<Rightarrow> browse_store rand source parent cursor limit target cid cached view current now' page c)
                       })))"

subsection \<open>Browsing a container\<close>

lemma pageBounds_next:
  assumes "pageBounds r start limit count = Inr (t, Some n)" and "0 \<le> count"
  shows "n = start + count" and "0 < count" and "count \<le> limit" and "t = Some k \<Longrightarrow> n < k"
  using assms by (auto simp: pageBounds_def Let_def split: if_splits sum.splits option.splits)

text \<open>A reader that answers with a given list and records what it was asked for.\<close>

definition script_read :: "(url_Values list \<times> Response result list) reader" where
  "script_read name args = State (\<lambda>(log, rs). case rs of
     [] \<Rightarrow> (Inl ErrOffline, (log @ [args], []))
   | r # rs' \<Rightarrow> (r, (log @ [args], rs')))"

definition page_items :: "(string \<Rightarrow> Item list option) \<Rightarrow> Response \<Rightarrow> Item list" where
  "page_items decode r = (case payload decode r of Inr items \<Rightarrow> items | Inl _ \<Rightarrow> [])"

fun ranges :: "ID \<Rightarrow> ID \<Rightarrow> int \<Rightarrow> Item list list \<Rightarrow> url_Values list" where
  "ranges sid cid start [] = []"
| "ranges sid cid start (p # ps) = browse_args sid cid start 100 # ranges sid cid (start + int (length p)) ps"

lemma browsePage_script:
  assumes "run_state (browsePage script_read decode sid cid start 100) (log, rs) = (Inr page, z)" and "cid \<noteq> []"
  obtains r rs' where "rs = Inr r # rs'" and "z = (log @ [browse_args sid cid start 100], rs')"
    and "bg_Items page = page_items decode r" and "bg_Token page = r_Token r"
    and "\<And>n. bg_Next page = Some n \<Longrightarrow> n = start + int (length (page_items decode r))"
proof -
  have "\<exists>r rs'. rs = Inr r # rs' \<and> z = (log @ [browse_args sid cid start 100], rs') \<and>
    (\<exists>items. payload decode r = Inr items \<and> browsed_page sid cid start 100 r items = Inr page)"
    using assms(1)
    by (auto simp: browsePage_def run_simps script_read_def split: if_splits list.splits sum.splits)
  then obtain r rs' items where rs: "rs = Inr r # rs'" "z = (log @ [browse_args sid cid start 100], rs')"
    and p: "payload decode r = Inr items" "browsed_page sid cid start 100 r items = Inr page" by blast
  from p(2) assms(2) have "bg_Items page = items" "bg_Token page = r_Token r"
    "\<And>n. bg_Next page = Some n \<Longrightarrow> n = start + int (length items)"
    by (auto simp: browsed_page_def split: sum.splits dest: pageBounds_next(1) [OF _ of_nat_0_le_iff])
  with rs p(1) that show thesis by (simp add: page_items_def)
qed

definition same_catalog :: "Token option \<Rightarrow> Response list \<Rightarrow> bool" where
  "same_catalog token used \<longleftrightarrow>
     list_all (\<lambda>r. catalogSame (case token of Some t \<Rightarrow> t | None \<Rightarrow> r_Token (hd used)) (r_Token r)) used"

lemma browseLoop_script:
  assumes "run_state (browseLoop k script_read decode sid cid start token items) (log, rs) = (Inr out, (log', rs'))"
    and "cid \<noteq> []"
  shows "\<exists>used. rs = map Inr used @ rs' \<and> used \<noteq> [] \<and> length used \<le> k \<and>
    out = items @ concat (map (page_items decode) used) \<and> int (length out) \<le> MaxBrowseItems \<and>
    log' = log @ ranges sid cid start (map (page_items decode) used) \<and> same_catalog token used"
  using assms(1)
proof (induction k arbitrary: start token items log rs)
  case 0
  then show ?case by (simp add: browseLoop.simps run_simps)
next
  case (Suc k)
  obtain page z where page: "run_state (browsePage script_read decode sid cid start 100) (log, rs) = (Inr page, z)"
    and rest: "run_state (if (case token of Some t \<Rightarrow> \<not> catalogSame t (bg_Token page) | None \<Rightarrow> False) then fail ErrStaleReference
       else if int (length items + length (bg_Items page)) > MaxBrowseItems then fail ErrBounds
       else case bg_Next page of
              None \<Rightarrow> done_with (items @ bg_Items page)
            | Some next \<Rightarrow>
                browseLoop k script_read decode sid cid next (Some (case token of Some t \<Rightarrow> t | None \<Rightarrow> bg_Token page))
                  (items @ bg_Items page)) z = (Inr out, (log', rs'))"
    using Suc.prems by (auto simp: browseLoop.simps run_simps split: prod.splits sum.splits)
  obtain r rs1 where r: "rs = Inr r # rs1" "z = (log @ [browse_args sid cid start 100], rs1)"
    and items: "bg_Items page = page_items decode r" and tok: "bg_Token page = r_Token r"
    and nx: "\<And>n. bg_Next page = Some n \<Longrightarrow> n = start + int (length (page_items decode r))"
    using browsePage_script [OF page assms(2)] by metis
  have same: "case token of Some t \<Rightarrow> catalogSame t (r_Token r) | None \<Rightarrow> True"
    and small: "int (length items + length (page_items decode r)) \<le> MaxBrowseItems"
    using rest by (auto simp: run_simps tok items split: if_splits option.splits)
  show ?case
  proof (cases "bg_Next page")
    case None
    with rest r same small have "out = items @ page_items decode r" "log' = log @ [browse_args sid cid start 100]" "rs' = rs1"
      by (auto simp: run_simps tok items split: if_splits)
    with r same small show ?thesis
      by (intro exI [of _ "[r]"]) (auto simp: same_catalog_def catalogSame_def split: option.splits)
  next
    case (Some n)
    let ?token = "Some (case token of Some t \<Rightarrow> t | None \<Rightarrow> r_Token r)"
    have "run_state (browseLoop k script_read decode sid cid n ?token (items @ page_items decode r))
        (log @ [browse_args sid cid start 100], rs1) = (Inr out, (log', rs'))"
      using rest r same small Some by (cases token) (auto simp: run_simps tok items split: if_splits)
    from Suc.IH [OF this] obtain used where u: "rs1 = map Inr used @ rs'" "length used \<le> k"
        "out = (items @ page_items decode r) @ concat (map (page_items decode) used)"
        "int (length out) \<le> MaxBrowseItems"
        "log' = (log @ [browse_args sid cid start 100]) @ ranges sid cid n (map (page_items decode) used)"
        "same_catalog ?token used" by blast
    show ?thesis using u r same nx [OF Some]
      by (intro exI [of _ "r # used"]) (auto simp: same_catalog_def catalogSame_def list_all_iff split: option.splits)
  qed
qed

text \<open>
  C27. Browsing a whole container is one consistent read: the answer is the concatenation, in order,
  of at most a hundred pages that were requested with adjoining ranges from 0 on, all of them of one
  catalog of one connection, and at most 10,000 items.
\<close>

theorem BrowseAll_consistent:
  assumes "run_state (BrowseAll script_read decode sid cid) ([], rs) = (Inr out, (log, rs'))" and "cid \<noteq> []"
  shows "\<exists>used. rs = map Inr used @ rs' \<and> used \<noteq> [] \<and> length used \<le> 100 \<and>
    out = concat (map (page_items decode) used) \<and> length out \<le> 10000 \<and>
    log = ranges sid cid 0 (map (page_items decode) used) \<and>
    list_all (\<lambda>r. catalogSame (r_Token (hd used)) (r_Token r)) used"
  using browseLoop_script [OF assms(1) [unfolded BrowseAll_def] assms(2)]
  by (auto simp: same_catalog_def command_limits)

definition example_item :: "ID \<Rightarrow> Item" where
  "example_item mid = zeroItem\<lparr>it_MediaID := mid, it_Playable := ''yes'', it_Type := ''song''\<rparr>"

definition example_answer :: "string \<Rightarrow> Response" where
  "example_answer body =
     \<lparr>r_Command = ''browse/browse'', r_Result = ''success'', r_Params = [(''count'', [''3''])], r_Payload = body, r_Options = [],
      r_Event = False, r_Pending = False, r_Token = zeroToken\<rparr>"

definition example_decode :: "string \<Rightarrow> Item list option" where
  "example_decode body = Some (if body = ''1'' then [example_item ''a'', example_item ''b''] else [example_item ''c''])"

theorem BrowseAll_consistent_witness:
  "let rs = [Inr (example_answer ''1''), Inr (example_answer ''2'')] in
   fst (run_state (BrowseAll script_read example_decode ''5'' ''album'') ([], rs)) =
     Inr [example_item ''a'', example_item ''b'', example_item ''c''] \<and>
   (\<exists>used. rs = map Inr used \<and> list_all (\<lambda>r. catalogSame (r_Token (hd used)) (r_Token r)) used)"
proof -
  let ?rs = "[Inr (example_answer ''1''), Inr (example_answer ''2'')] :: Response result list"
  let ?z = "run_state (BrowseAll script_read example_decode ''5'' ''album'') ([], ?rs)"
  have a: "fst ?z = Inr [example_item ''a'', example_item ''b'', example_item ''c'']" and b: "snd (snd ?z) = []" by code_simp+
  obtain log where z: "?z = (Inr [example_item ''a'', example_item ''b'', example_item ''c''], (log, []))"
    using a b by (metis prod.collapse)
  have "''album'' \<noteq> []" by simp
  from BrowseAll_consistent [OF z this] obtain used
    where "?rs = map Inr used @ []" "list_all (\<lambda>r. catalogSame (r_Token (hd used)) (r_Token r)) used" by blast
  with a show ?thesis unfolding Let_def by (metis append_Nil2)
qed

subsection \<open>The reference cache is bounded and never outlives its catalog\<close>

lemma cache_used_Nil [simp]: "cache_used [] = 0"
  by (simp add: cache_used_def)

lemma cache_used_Cons [simp]: "cache_used ((k, r) # refs) = Suc (snapshot_size r + cache_used refs)"
  by (simp add: cache_used_def)

lemma cache_used_update: "cache_used (AList.update k r refs) \<le> cache_used refs + 1 + snapshot_size r"
  by (induction refs) auto

lemma cache_used_purged: "cache_used (purged current now refs) \<le> cache_used refs"
  by (induction refs) (auto simp: purged_def)

lemma store_items_used:
  assumes "\<And>i. snapshot_size (mk i) = 0"
  shows "cache_used (store_items rand n mk is refs) \<le> cache_used refs + length is"
proof (induction "is" arbitrary: n refs)
  case (Cons i "is")
  show ?case
    using Cons [of "Suc n" "AList.update (item_ref rand n) (mk i) refs"]
      cache_used_update [of "item_ref rand n" "mk i" refs] assms [of i] by simp
qed simp

lemma stored_refs_used:
  "cache_used (snd (stored_refs rand source target cid limit expires page refs)) \<le> cache_used refs + cache_needed page"
proof -
  let ?items = "store_items rand 0 (item_reference source target cid (bg_Token page) expires) (bg_Items page) refs"
  have i: "cache_used ?items \<le> cache_used refs + length (bg_Items page)"
    by (rule store_items_used) (simp add: item_reference_def snapshot_size_def)
  have "snapshot_size (cursor_reference source target cid start limit expires page) =
      (case bg_unpaged page of Some items \<Rightarrow> length items | None \<Rightarrow> 0)" for start
    by (simp add: cursor_reference_def snapshot_size_def)
  then show ?thesis
    using i cache_used_update [of "''cursor_'' @ rand (length (bg_Items page))" _ ?items]
    by (fastforce simp: stored_refs_def cache_needed_def Let_def split: option.splits
        intro: order.trans [OF cache_used_update])
qed

definition listed :: "(ID \<times> ID \<times> BrowsePage) list \<Rightarrow> reference \<Rightarrow> bool" where
  "listed h r \<longleftrightarrow> rf_cursor r \<or>
     (\<exists>(target, cid, page) \<in> set h. rf_token r = bg_Token page \<and> rf_item r \<in> stored_item target cid ` set (bg_Items page))"

lemma set_update_subset: "set (AList.update k r refs) \<subseteq> insert (k, r) (set refs)"
  by (induction refs) auto

lemma store_items_from:
  "(k, r) \<in> set (store_items rand n mk is refs) \<Longrightarrow> (k, r) \<in> set refs \<or> r \<in> mk ` set is"
proof (induction "is" arbitrary: n refs)
  case (Cons i "is")
  from Cons.IH Cons.prems show ?case using set_update_subset [of "item_ref rand n" "mk i" refs] by fastforce
qed simp

lemma stored_refs_listed:
  assumes "(k, r) \<in> set (snd (stored_refs rand source target cid limit expires page refs))"
  shows "(k, r) \<in> set refs \<or> listed [(target, cid, page)] r"
proof -
  let ?mk = "item_reference source target cid (bg_Token page) expires"
  have item: "listed [(target, cid, page)] (?mk i)" if "i \<in> set (bg_Items page)" for i
    using that by (simp add: listed_def item_reference_def)
  have cursor: "listed h (cursor_reference source target cid start limit expires page)" for h start
    by (simp add: listed_def cursor_reference_def)
  have "(k, r) \<in> set (store_items rand 0 ?mk (bg_Items page) refs) \<or> (\<exists>start. r = cursor_reference source target cid start limit expires page)"
    using assms set_update_subset by (fastforce simp: stored_refs_def Let_def split: option.splits)
  then show ?thesis using store_items_from item cursor by blast
qed

inductive catalog_reachable :: "Catalog \<Rightarrow> (ID \<times> ID \<times> BrowsePage) list \<Rightarrow> bool" where
  new: "NewCatalog capacity ttl = Inr c \<Longrightarrow> catalog_reachable c []"
| browse: "catalog_reachable c h \<Longrightarrow>
    catalog_reachable (snd (browse_store rand source parent cursor limit target cid cached view current now page c))
      ((target, cid, page) # h)"

lemma browse_store_refs:
  fixes rand source parent cursor limit target cid cached view current now page c
  defines "c' \<equiv> snd (browse_store rand source parent cursor limit target cid cached view current now page c)"
  shows "ct_refs c' = ct_refs c \<or> ct_refs c' = purged current now (ct_refs c) \<or>
    int (cache_used (purged current now (ct_refs c)) + cache_needed page) \<le> ct_capacity c \<and>
    ct_refs c' = snd (stored_refs rand source target cid limit (page_expiry c cached now) page (purged current now (ct_refs c)))"
    and "ct_capacity c' = ct_capacity c"
  by (auto simp: browse_store_def Let_def c'_def split: prod.splits)

lemma catalog_within:
  assumes "catalog_reachable c h"
  shows "int (cache_used (ct_refs c)) \<le> ct_capacity c \<and> ct_capacity c \<le> 4096"
  using assms
proof induction
  case (browse c h rand source parent cursor limit target cid cached view current now page)
  let ?c = "snd (browse_store rand source parent cursor limit target cid cached view current now page c)"
  have "int (cache_used (ct_refs ?c)) \<le> ct_capacity c"
    using browse.IH cache_used_purged [of current now "ct_refs c"]
      stored_refs_used [of rand source target cid limit "page_expiry c cached now" page "purged current now (ct_refs c)"]
      browse_store_refs(1) [of rand source parent cursor limit target cid cached view current now page c]
    by auto
  with browse.IH show ?case by (simp add: browse_store_refs(2))
qed (auto simp: NewCatalog_def split: if_splits)

lemma catalog_listed:
  assumes "catalog_reachable c h" and "(k, r) \<in> set (ct_refs c)"
  shows "listed h r"
  using assms
proof (induction arbitrary: k r)
  case (browse c h rand source parent cursor limit target cid cached view current now page)
  have "(k, r) \<in> set (ct_refs c) \<or> listed [(target, cid, page)] r"
    using browse.prems browse_store_refs(1) [of rand source parent cursor limit target cid cached view current now page c]
    by (auto simp: purged_def dest!: stored_refs_listed)
  then show ?case using browse.IH by (fastforce simp: listed_def)
qed (auto simp: NewCatalog_def split: if_splits)

text \<open>
  C28. The reference cache is bounded and truthful: in every reachable catalog the references and the
  listings they keep fit the configured capacity, at most 4096; and a reference that resolves names
  an item that the device listed, completed with the source and container of its listing, under the
  very catalog and connection the client has now.
\<close>

theorem catalog_references_sound:
  assumes "catalog_reachable c h" and "Catalog_Resolve c view now source ref = Inr item"
  shows "int (cache_used (ct_refs c)) \<le> ct_capacity c \<and> ct_capacity c \<le> 4096 \<and> v_Connected view \<and>
    (\<exists>target cid page. (target, cid, page) \<in> set h \<and> catalogSame (bg_Token page) (v_Token view) \<and>
       item \<in> stored_item target cid ` set (bg_Items page))"
proof -
  from assms(2) obtain r where r: "map_of (ct_refs c) ref = Some r" "\<not> rf_cursor r" "reference_valid r source view now" "item = rf_item r"
    by (auto simp: Catalog_Resolve_def live_reference_def split: option.splits if_splits)
  with catalog_listed [OF assms(1), of ref r] have "listed h r" by (simp add: map_of_SomeD)
  with r catalog_within [OF assms(1)] show ?thesis by (fastforce simp: listed_def reference_valid_def)
qed

definition example_listing :: BrowsePage where
  "example_listing = \<lparr>bg_Items = [example_item ''a''], bg_Total = Some 1, bg_Next = None, bg_Token = zeroToken, bg_unpaged = None\<rparr>"

definition example_catalog :: Catalog where
  "example_catalog =
     snd (browse_store (\<lambda>n. ''x'') ''5'' [] [] 10 ''5'' ''album'' None \<lparr>v_Token = zeroToken, v_Connected = True\<rparr>
       \<lparr>v_Token = zeroToken, v_Connected = True\<rparr> 0 example_listing \<lparr>ct_capacity = 9, ct_ttl = Second, ct_refs = []\<rparr>)"

theorem catalog_references_sound_witness:
  "Catalog_Resolve example_catalog \<lparr>v_Token = zeroToken, v_Connected = True\<rparr> 1 ''5'' ''item_x'' =
     Inr ((example_item ''a'')\<lparr>it_Source := ''5'', it_ContainerID := ''album''\<rparr>) \<and>
   cache_used (ct_refs example_catalog) \<le> 9"
proof -
  let ?v = "\<lparr>v_Token = zeroToken, v_Connected = True\<rparr>" and ?i = "(example_item ''a'')\<lparr>it_Source := ''5'', it_ContainerID := ''album''\<rparr>"
  have new: "NewCatalog 9 Second = Inr \<lparr>ct_capacity = 9, ct_ttl = Second, ct_refs = []\<rparr>" by code_simp
  have r: "catalog_reachable example_catalog [(''5'', ''album'', example_listing)]"
    unfolding example_catalog_def by (rule catalog_reachable.browse [OF catalog_reachable.new [OF new]])
  have e: "Catalog_Resolve example_catalog ?v 1 ''5'' ''item_x'' = Inr ?i" "ct_capacity example_catalog = 9" by code_simp+
  from catalog_references_sound [OF r e(1)] e(1,2) show ?thesis by simp
qed

end
