(* ===== verification/Observers.thy ===== *)
theory Observers
  imports Catalogs
begin

section \<open>The observer of a player\<close>

text \<open>
  \<open>Observer\<close> of \<open>internal/heos/observations.go\<close> with \<open>observation_events.go\<close>, \<open>scalar_observation.go\<close>,
  \<open>playback_observation.go\<close> and \<open>observation_loop.go\<close>: one snapshot that complete reads replace,
  contiguous notifications update and targeted reads repair.

  The critical sections of \<open>o.mu\<close> are functions on the record \<open>Observer\<close>. The operations around them are
  programs on a \<open>site\<close>: the observer, the world (client, device and clock) and a history of what was
  heard. While an operation reads from the device the world changes, notifications are consumed and a
  worker may confirm its scalars: a \<open>tide\<close> lists what happened beside it. Under \<open>o.mu\<close> only the world
  moves on. The operations that hold the observation gate follow each other; one that waits for the
  gate continues from what the holder before it left. Observation metrics are left out.
\<close>

subsection \<open>State\<close>

text \<open>The flags of \<open>observedFields\<close>; a set of them is the bit mask.\<close>

datatype observedField = observedVolume | observedRepeat | observedShuffle | observedOther

record Observer =
  ov_identity :: Identity
  ov_ttl :: duration
  ov_last :: Snapshot
  ov_invalid :: bool
  ov_mediaPending :: bool
  ov_writePending :: "observedField set"
  ov_progressAfter :: uint64
  ov_wake :: bool
  ov_changed :: nat

definition IdleObservationInterval :: duration where
  "IdleObservationInterval = 5 * Minute"

definition ObservationCacheTTL :: duration where
  "ObservationCacheTTL = IdleObservationInterval + 10 * Second"

definition observationDebounce :: duration where
  "observationDebounce = 250 * Millisecond"

definition observationHeartbeat :: duration where
  "observationHeartbeat = Minute"

definition NewObserver :: "Identity \<Rightarrow> duration \<Rightarrow> Observer result" where
  "NewObserver identity ttl =
     (if i_Key identity = [] \<or> i_Serial identity = [] \<or> ttl \<le> 0 \<or> ttl > 10 * Minute then Inl ErrIdentity
      else Inr \<lparr>ov_identity = identity, ov_ttl = ttl,
                ov_last = zeroSnapshot\<lparr>s_Key := i_Key identity, s_State := PlayStateUnknown, s_Stale := True\<rparr>,
                ov_invalid = True, ov_mediaPending = False, ov_writePending = {}, ov_progressAfter = 0,
                ov_wake = False, ov_changed = 0\<rparr>)"

text \<open>\<open>signalChanged\<close> replaces the channel the waiters watch: a new number.\<close>

definition signalChanged :: "Observer \<Rightarrow> Observer" where
  "signalChanged ob = ob\<lparr>ov_changed := ov_changed ob + 1\<rparr>"

definition requestRefresh :: "Observer \<Rightarrow> Observer" where
  "requestRefresh ob = ob\<lparr>ov_wake := True\<rparr>"

definition invalidate :: "Observer \<Rightarrow> Observer" where
  "invalidate ob = signalChanged (ob\<lparr>ov_invalid := True\<rparr>)"

definition in_age :: "Observer \<Rightarrow> Snapshot \<Rightarrow> time \<Rightarrow> bool" where
  "in_age ob s now \<longleftrightarrow> 0 \<le> Sub now (s_ObservedAt s) \<and> Sub now (s_ObservedAt s) < ov_ttl ob"

definition snapshot_of :: "Observer \<Rightarrow> View \<Rightarrow> time \<Rightarrow> Snapshot" where
  "snapshot_of ob view now =
     (let s = ov_last ob;
          stale = (ov_invalid ob \<or> ov_mediaPending ob \<or> ov_writePending ob \<noteq> {} \<or> \<not> v_Connected view \<or>
                   v_Token view \<noteq> s_Token s \<or> \<not> in_age ob s now)
      in s\<lparr>s_Connected := v_Connected view, s_MediaUnavailable := (t_Generation (v_Token view) \<noteq> t_Generation (s_Token s)),
           s_Stale := stale, s_Verified := (\<not> stale \<and> p_Serial (s_Player s) = i_Serial (ov_identity ob))\<rparr>)"

subsection \<open>Notifications\<close>

definition coveredEvent :: "Token \<Rightarrow> Token \<Rightarrow> bool" where
  "coveredEvent event snapshot =
     (if t_Generation event \<noteq> t_Generation snapshot then t_Generation event < t_Generation snapshot
      else if t_Revision event \<noteq> t_Revision snapshot then t_Revision event < t_Revision snapshot
      else t_Catalog event = t_Catalog snapshot \<and> t_Player event \<le> t_Player snapshot \<and> t_Write event \<le> t_Write snapshot)"

definition changedWriteFields :: "Snapshot \<Rightarrow> Mutation \<Rightarrow> observedField set" where
  "changedWriteFields s m =
     (case m_Kind m of
        MutationKindVolume \<Rightarrow> {observedVolume}
      | MutationKindMute \<Rightarrow> {observedVolume}
      | MutationKindMode \<Rightarrow>
          (if s_Repeat s \<noteq> m_Repeat m then {observedRepeat} else {}) \<union>
          (if s_Shuffle s \<noteq> m_Shuffle m then {observedShuffle} else {})
      | _ \<Rightarrow> {observedOther})"

definition observedEventFields :: "EventKind \<Rightarrow> observedField set" where
  "observedEventFields kind =
     (case kind of
        EventVolume \<Rightarrow> {observedVolume}
      | EventRepeat \<Rightarrow> {observedRepeat}
      | EventShuffle \<Rightarrow> {observedShuffle}
      | _ \<Rightarrow> {})"

text \<open>The snapshot with the values of an event, or nothing for an event that needs a complete read.\<close>

definition applyObservedEvent :: "Snapshot \<Rightarrow> Event \<Rightarrow> Snapshot option" where
  "applyObservedEvent s e =
     (let d = Event_Data e in
      if \<not> d_Valid d then None
      else case d_Kind d of
             EventState \<Rightarrow>
               Some (let s = s\<lparr>s_State := d_State d\<rparr>
                     in if d_State d = PlayStateStop \<or> d_State d = PlayStateUnknown
                        then s\<lparr>s_MediaStale := True, s_Playhead := None\<rparr> else s)
           | EventVolume \<Rightarrow> Some (s\<lparr>s_Volume := Some (d_Volume d), s_Muted := Some (d_Muted d)\<rparr>)
           | EventRepeat \<Rightarrow> Some (s\<lparr>s_Repeat := d_Repeat d\<rparr>)
           | EventShuffle \<Rightarrow> Some (s\<lparr>s_Shuffle := d_Shuffle d\<rparr>)
           | EventNowPlaying \<Rightarrow> Some (s\<lparr>s_MediaStale := True\<rparr>)
           | _ \<Rightarrow> None)"

definition progressRecordable :: "Observer \<Rightarrow> View \<Rightarrow> time \<Rightarrow> ID \<Rightarrow> Token \<Rightarrow> bool" where
  "progressRecordable ob view now player token \<longleftrightarrow>
     (let s = ov_last ob in
      \<not> ov_invalid ob \<and> \<not> ov_mediaPending ob \<and> \<not> s_MediaStale s \<and> s_Media s \<noteq> None \<and> player \<noteq> [] \<and> player = p_ID (s_Player s) \<and>
      PlayState_Active (s_State s) \<and>
      v_Connected view \<and> sameGlobal (v_Token view) (s_Token s) \<and> t_Player (v_Token view) = t_Player (s_Token s) \<and>
      sameGlobal token (s_Token s) \<and> t_Player token = t_Player (s_Token s) \<and> in_age ob s now)"

definition playhead_at :: "EventData \<Rightarrow> time \<Rightarrow> Media \<Rightarrow> Playhead" where
  "playhead_at d now m =
     \<lparr>ph_PositionMS = d_Position d, ph_DurationMS = d_Duration d, ph_At = now,
      ph_Source = md_Source m, ph_Media = md_ID m, ph_Queue = md_QueueID m\<rparr>"

definition recordProgress :: "View \<Rightarrow> time \<Rightarrow> Event \<Rightarrow> Observer \<Rightarrow> Observer" where
  "recordProgress view now e ob =
     (let d = Event_Data e in
      if e_progressSequence e \<le> ov_progressAfter ob \<or> \<not> progressRecordable ob view now (d_Player d) (e_Token e) then ob
      else ob\<lparr>ov_progressAfter := e_progressSequence e,
              ov_last := (ov_last ob)\<lparr>s_Playhead := map_option (playhead_at d now) (s_Media (ov_last ob))\<rparr>\<rparr>)"

text \<open>An event that follows the snapshot without a gap, on a valid snapshot of the same player.\<close>

definition contiguous :: "Observer \<Rightarrow> View \<Rightarrow> time \<Rightarrow> Event \<Rightarrow> bool" where
  "contiguous ob view now e \<longleftrightarrow>
     (let s = ov_last ob; d = Event_Data e in
      \<not> e_Gap e \<and> \<not> ov_invalid ob \<and> v_Connected view \<and> sameGlobal (v_Token view) (s_Token s) \<and>
      sameGlobal (e_Token e) (s_Token s) \<and> t_Player (e_Token e) = t_Player (s_Token s) + 1 \<and>
      d_Player d = p_ID (s_Player s) \<and> d_Valid d \<and> in_age ob s now)"

definition follows_write :: "Token \<Rightarrow> Token \<Rightarrow> playerWrite \<Rightarrow> bool" where
  "follows_write t s w \<longleftrightarrow> t_Write t = t_Write s + 1 \<and> w_revision w = t_Write t"

definition consume :: "View \<Rightarrow> time \<Rightarrow> playerWrite \<Rightarrow> Event \<Rightarrow> Observer \<Rightarrow> Observer" where
  "consume view now w e ob =
     (let s = ov_last ob; d = Event_Data e;
          written = (contiguous ob view now e \<and> t_Write (e_Token e) \<noteq> t_Write (s_Token s));
          continuous = (contiguous ob view now e \<and> (written \<longrightarrow> follows_write (e_Token e) (s_Token s) w));
          ob' = (if written \<and> continuous then ob\<lparr>ov_writePending := changedWriteFields s (w_mutation w)\<rparr> else ob)
      in case (if continuous then applyObservedEvent s e else None) of
           Some s' \<Rightarrow>
             (let ob' = signalChanged (ob'\<lparr>ov_last := s'\<lparr>s_Token := e_Token e, s_EventUpdated := True\<rparr>,
                                           ov_writePending := ov_writePending ob' - observedEventFields (d_Kind d)\<rparr>)
              in if d_Kind d = EventNowPlaying then requestRefresh (ob'\<lparr>ov_mediaPending := True\<rparr>) else ob')
         | None \<Rightarrow> requestRefresh (invalidate ob'))"

definition Notify :: "View \<Rightarrow> time \<Rightarrow> playerWrite \<Rightarrow> Event \<Rightarrow> Observer \<Rightarrow> Observer" where
  "Notify view now w e ob =
     (let s = ov_last ob; d = Event_Data e in
      if \<not> e_Gap e \<and> d_Kind d = EventProgress \<and> d_Valid d
      then if d_HasProgress d then recordProgress view now e ob else ob
      else if \<not> e_Gap e \<and> coveredEvent (e_Token e) (s_Token s) then ob
      else if \<not> e_Gap e \<and> sameGlobal (e_Token e) (s_Token s) \<and> d_Player d \<noteq> [] \<and> d_Player d \<noteq> p_ID (s_Player s) then ob
      else consume view now w e ob)"

subsection \<open>Scalars confirmed by a worker\<close>

definition scalarFields :: "MutationKind \<Rightarrow> observedField set" where
  "scalarFields kind =
     (case kind of
        MutationKindVolume \<Rightarrow> {observedVolume}
      | MutationKindMute \<Rightarrow> {observedVolume}
      | MutationKindMode \<Rightarrow> {observedRepeat, observedShuffle}
      | _ \<Rightarrow> {})"

definition projectionBaselineValid :: "Observer \<Rightarrow> Snapshot \<Rightarrow> time \<Rightarrow> bool" where
  "projectionBaselineValid ob s now \<longleftrightarrow>
     \<not> ov_invalid ob \<and> in_age ob s now \<and> p_ID (s_Player s) \<noteq> [] \<and> p_Serial (s_Player s) = i_Serial (ov_identity ob)"

definition scalarBaselineValid :: "Observer \<Rightarrow> Snapshot \<Rightarrow> time \<Rightarrow> bool" where
  "scalarBaselineValid ob s now \<longleftrightarrow> \<not> ov_mediaPending ob \<and> projectionBaselineValid ob s now"

definition confirmable :: "View \<Rightarrow> time \<Rightarrow> Snapshot \<Rightarrow> Observer \<Rightarrow> bool" where
  "confirmable view now s ob \<longleftrightarrow>
     (let l = ov_last ob in
      scalarBaselineValid ob l now \<and> v_Connected view \<and> v_Token view = s_Token s \<and> sameGlobal (s_Token l) (s_Token s) \<and>
      p_ID (s_Player s) = p_ID (s_Player l) \<and> p_Serial (s_Player s) = p_Serial (s_Player l) \<and>
      s_ObservedAt l \<le> s_ObservedAt s \<and> observedOther \<notin> ov_writePending ob)"

definition ConfirmScalars :: "View \<Rightarrow> time \<Rightarrow> playerWrite \<Rightarrow> Snapshot \<Rightarrow> Observer \<Rightarrow> error option \<times> Observer" where
  "ConfirmScalars view now w s ob =
     (let l = ov_last ob in
      if \<not> confirmable view now s ob then (Some ErrStale, ob)
      else if t_Write (s_Token l) \<noteq> t_Write (s_Token s) \<and>
              (w_revision w \<noteq> t_Write (s_Token s) \<or> scalarFields (m_Kind (w_mutation w)) = {})
      then (Some ErrStale, ob)
      else if (case s_Volume s of None \<Rightarrow> True | Some v \<Rightarrow> v < 0 \<or> v > 100) \<or> s_Muted s = None \<or> \<not> Repeat_Known (s_Repeat s)
      then (Some ErrProtocol, ob)
      else (None, signalChanged
              (ob\<lparr>ov_last := l\<lparr>s_Volume := s_Volume s, s_Muted := s_Muted s, s_Repeat := s_Repeat s, s_Shuffle := s_Shuffle s,
                              s_Token := s_Token s, s_EventUpdated := True\<rparr>,
                  ov_writePending := {}\<rparr>)))"

subsection \<open>Sites\<close>

text \<open>What happens beside an operation: the event consumer delivers an event, a worker confirms its scalars.\<close>

datatype aside = Delivered Event | Confirmed Snapshot

type_synonym ('w, 'a) glance = "'w \<Rightarrow> 'a \<times> 'w"
type_synonym ('w, 'a) tide = "'w \<Rightarrow> 'a \<times> (aside \<times> 'w) list \<times> 'w"

record 'w feed =
  fd_view :: "ID \<Rightarrow> ('w, View) glance"
  fd_observe :: "ID \<Rightarrow> ('w, View) glance"
  fd_now :: "('w, time) glance"
  fd_write :: "ID \<Rightarrow> ('w, playerWrite) glance"
  fd_progress :: "('w, uint64) glance"
  fd_err :: "('w, error option) glance"
  fd_gate :: "('w, error option) tide"
  fd_changed :: "nat \<Rightarrow> ('w, error option) tide"
  fd_read :: "string \<Rightarrow> url_Values \<Rightarrow> ('w, Response result) tide"
  fd_players :: "string \<Rightarrow> Player list option"
  fd_groups :: "string \<Rightarrow> Group list option"
  fd_media :: "string \<Rightarrow> Media option"
  fd_queue :: "string \<Rightarrow> Media list option"

text \<open>
  The history: the views the observer looked at, the answers to its reads, the notifications and the
  confirmations with the observer they met, and the writes it took into account.
\<close>

datatype heard =
    Saw ID View
  | Answered string url_Values Response
  | Reported Observer playerWrite Event
  | Vouched Observer Snapshot
  | Written Observer Token playerWrite

record 'w site =
  st_observer :: Observer
  st_world :: 'w
  st_heard :: "heard list"

type_synonym ('w, 'a) survey = "('w site, 'a result) state"

definition hear :: "heard \<Rightarrow> ('w site, unit) state" where
  "hear h = State (\<lambda>st. ((), st\<lparr>st_heard := st_heard st @ [h]\<rparr>))"

definition glance :: "('w, 'a) glance \<Rightarrow> ('w site, 'a) state" where
  "glance p = State (\<lambda>st. case p (st_world st) of (x, v) \<Rightarrow> (x, st\<lparr>st_world := v\<rparr>))"

definition observer :: "('w site, Observer) state" where
  "observer = State (\<lambda>st. (st_observer st, st))"

definition update :: "(Observer \<Rightarrow> Observer) \<Rightarrow> ('w site, unit) state" where
  "update f = State (\<lambda>st. ((), st\<lparr>st_observer := f (st_observer st)\<rparr>))"

definition look :: "'w feed \<Rightarrow> ID \<Rightarrow> ('w site, View) state" where
  "look fd pid = do { view \<leftarrow> glance (fd_view fd pid); hear (Saw pid view); State_Monad.return view }"

text \<open>One critical section with the client's view of the observed player and the clock.\<close>

definition aside_program :: "'w feed \<Rightarrow> aside \<Rightarrow> ('w site, unit) state" where
  "aside_program fd a = do {
     ob \<leftarrow> observer;
     view \<leftarrow> look fd (p_ID (s_Player (ov_last ob)));
     now \<leftarrow> glance (fd_now fd);
     w \<leftarrow> glance (fd_write fd (p_ID (s_Player (ov_last ob))));
     case a of
       Delivered e \<Rightarrow> do { hear (Reported ob w e); update (Notify view now w e) }
     | Confirmed s \<Rightarrow> do { hear (Vouched ob s); update (\<lambda>ob. snd (ConfirmScalars view now w s ob)) }
   }"

definition befall :: "'w feed \<Rightarrow> aside \<times> 'w \<Rightarrow> 'w site \<Rightarrow> 'w site" where
  "befall fd a st = snd (run_state (aside_program fd (fst a)) (st\<lparr>st_world := snd a\<rparr>))"

definition await :: "'w feed \<Rightarrow> ('w, 'a) tide \<Rightarrow> ('w site, 'a) state" where
  "await fd p = State (\<lambda>st. case p (st_world st) of
     (x, as, v) \<Rightarrow> (x, (fold (befall fd) as st)\<lparr>st_world := v\<rparr>))"

definition client_read :: "'w feed \<Rightarrow> 'w site reader" where
  "client_read fd name args =
     andThen (await fd (fd_read fd name args)) (\<lambda>r. do { hear (Answered name args r); done_with r })"

definition pid_args :: "ID \<Rightarrow> url_Values" where
  "pid_args pid = [(''pid'', [pid])]"

definition Observer_Snapshot :: "'w feed \<Rightarrow> ('w site, Snapshot) state" where
  "Observer_Snapshot fd = do {
     ob \<leftarrow> observer;
     view \<leftarrow> look fd (p_ID (s_Player (ov_last ob)));
     now \<leftarrow> glance (fd_now fd);
     State_Monad.return (snapshot_of ob view now)
   }"

text \<open>
  The sample to keep when a targeted read publishes \<open>media\<close>: it has to belong to that media, else
  samples that were queued before are fenced.
\<close>

definition playheadForMedia :: "uint64 \<Rightarrow> Observer \<Rightarrow> Media option \<Rightarrow> PlayState \<Rightarrow> Playhead option \<times> Observer" where
  "playheadForMedia seq ob media state =
     (let fenced = (None, ob\<lparr>ov_progressAfter := seq\<rparr>) in
      case (s_Media (ov_last ob), media) of
        (Some old, Some m) \<Rightarrow>
          if md_Source old \<noteq> md_Source m \<or> md_ID old \<noteq> md_ID m \<or> md_QueueID old \<noteq> md_QueueID m \<or>
             \<not> PlayState_Active (s_State (ov_last ob)) \<or> \<not> PlayState_Active state
          then fenced
          else (case s_Playhead (ov_last ob) of
                  Some ph \<Rightarrow>
                    if ph_Source ph \<noteq> md_Source m \<or> ph_Media ph \<noteq> md_ID m \<or> ph_Queue ph \<noteq> md_QueueID m then (None, ob)
                    else (Some ph, ob)
                | None \<Rightarrow> (None, ob))
      | _ \<Rightarrow> fenced)"

text \<open>What the last critical section of a targeted read stores; \<open>seq\<close> is the client's sample counter.\<close>

definition store :: "uint64 \<Rightarrow> Snapshot \<Rightarrow> Observer \<Rightarrow> Observer" where
  "store seq s ob =
     (case playheadForMedia seq ob (s_Media s) (s_State s) of
        (ph, ob) \<Rightarrow> signalChanged (ob\<lparr>ov_last := s\<lparr>s_Playhead := ph\<rparr>\<rparr>))"

subsection \<open>Complete reads\<close>

definition grouped :: "Player \<Rightarrow> Group list \<Rightarrow> bool" where
  "grouped p gs \<longleftrightarrow> p_GroupID p \<noteq> [] \<or> list_ex (\<lambda>g. list_ex (\<lambda>m. gm_ID m = p_ID p) (g_Players g)) gs"

definition groups_named :: "Group list \<Rightarrow> bool" where
  "groups_named gs = list_all (\<lambda>g. g_ID g \<noteq> [] \<and> list_all (\<lambda>m. gm_ID m \<noteq> []) (g_Players g)) gs"

text \<open>The closure \<open>read\<close>: an answer counts when no event of the player arrived with it.\<close>

definition steady_read :: "'w feed \<Rightarrow> Token \<Rightarrow> ID \<Rightarrow> string \<Rightarrow> url_Values \<Rightarrow> ('w, Response) survey" where
  "steady_read fd t pid name args = do {
     x \<leftarrow> client_read fd name args;
     case x of
       Inl e \<Rightarrow> fail (Wrapped (OtherError name) e)
     | Inr r \<Rightarrow> do {
         view \<leftarrow> look fd pid;
         if \<not> sameGlobal (r_Token r) t \<or> v_Token view \<noteq> t then fail (Wrapped (OtherError name) ErrStale)
         else done_with r
       }
   }"

definition level_of :: "Response \<Rightarrow> int result" where
  "level_of r =
     (case Atoi (Values_Get (r_Params r) ''level'') of
        Some v \<Rightarrow> if v < 0 \<or> v > 100 then Inl ErrProtocol else Inr v
      | None \<Rightarrow> Inl ErrProtocol)"

definition switch_of :: "Response \<Rightarrow> string \<Rightarrow> bool result" where
  "switch_of r key =
     (let v = Values_Get (r_Params r) key in
      if v \<noteq> ''on'' \<and> v \<noteq> ''off'' then Inl ErrProtocol else Inr (v = ''on''))"

definition state_of :: "Response \<Rightarrow> PlayState result" where
  "state_of r =
     (let v = PlayState_of (Values_Get (r_Params r) ''state'') in if \<not> PlayState_Known v then Inl ErrProtocol else Inr v)"

definition repeat_of :: "Response \<Rightarrow> Repeat result" where
  "repeat_of r =
     (let v = Repeat_of (Values_Get (r_Params r) ''repeat'') in if \<not> Repeat_Known v then Inl ErrProtocol else Inr v)"

definition decoded :: "'a result \<Rightarrow> ('w, 'a) survey" where
  "decoded x = State_Monad.return x"

text \<open>The player of the configured identity and the token the snapshot is bound to.\<close>

definition readPlayer :: "'w feed \<Rightarrow> Identity \<Rightarrow> ('w, Player \<times> Token) survey" where
  "readPlayer fd identity =
     andThen (client_read fd ''player/get_players'' []) (\<lambda>r.
     andThen (decoded (payload (fd_players fd) r)) (\<lambda>players.
     andThen (decoded (ResolveIdentity players identity)) (\<lambda>player. do {
       view \<leftarrow> glance (fd_observe fd (p_ID player));
       hear (Saw (p_ID player) view);
       if \<not> v_Connected view \<or> \<not> sameGlobal (v_Token view) (r_Token r) then fail ErrStale
       else done_with (player, v_Token view)
     })))"

definition readControls :: "'w feed \<Rightarrow> Token \<Rightarrow> ID \<Rightarrow> Snapshot \<Rightarrow> ('w, Snapshot) survey" where
  "readControls fd t pid s =
     andThen (steady_read fd t pid ''player/get_play_state'' (pid_args pid)) (\<lambda>r.
     andThen (decoded (state_of r)) (\<lambda>state.
     andThen (steady_read fd t pid ''player/get_volume'' (pid_args pid)) (\<lambda>r.
     andThen (decoded (level_of r)) (\<lambda>volume.
     andThen (steady_read fd t pid ''player/get_mute'' (pid_args pid)) (\<lambda>r.
     andThen (decoded (switch_of r ''state'')) (\<lambda>muted.
     andThen (steady_read fd t pid ''player/get_play_mode'' (pid_args pid)) (\<lambda>r.
     andThen (decoded (repeat_of r)) (\<lambda>rp.
     andThen (decoded (switch_of r ''shuffle'')) (\<lambda>shuffle.
       done_with (s\<lparr>s_State := state, s_Volume := Some volume, s_Muted := Some muted, s_Repeat := rp, s_Shuffle := shuffle\<rparr>))))))))))"

definition readQueue :: "'w feed \<Rightarrow> ID \<Rightarrow> ('w, QueuePage) survey" where
  "readQueue fd pid = do {
     x \<leftarrow> Client_Queue (client_read fd) (fd_queue fd) pid 0 100;
     case x of Inl e \<Rightarrow> fail (Wrapped (OtherError ''player/get_queue'') e) | Inr q \<Rightarrow> done_with q
   }"

definition readContents :: "'w feed \<Rightarrow> Token \<Rightarrow> ID \<Rightarrow> Snapshot \<Rightarrow> ('w, Snapshot) survey" where
  "readContents fd t pid s =
     andThen (steady_read fd t pid ''player/get_now_playing_media'' (pid_args pid)) (\<lambda>r.
     andThen (decoded (payload (fd_media fd) r)) (\<lambda>media.
     andThen (readQueue fd pid) (\<lambda>q. do {
       now \<leftarrow> glance (fd_now fd);
       done_with (s\<lparr>s_Media := Some media, s_MediaStale := (\<not> PlayState_Active (s_State s)), s_Queue := q,
                    s_ObservedAt := now, s_Connected := True, s_Verified := True\<rparr>)
     })))"

definition readAll :: "'w feed \<Rightarrow> Identity \<Rightarrow> ('w, Snapshot) survey" where
  "readAll fd identity =
     andThen (readPlayer fd identity) (\<lambda>(player, t).
     andThen (steady_read fd t (p_ID player) ''group/get_groups'' []) (\<lambda>r.
     andThen (decoded (payload (fd_groups fd) r)) (\<lambda>gs.
       if \<not> groups_named gs then fail ErrProtocol
       else andThen (readControls fd t (p_ID player)
              (zeroSnapshot\<lparr>s_Key := i_Key identity, s_Player := player, s_Groups := gs, s_Grouped := grouped player gs,
                            s_Token := t\<rparr>)) (readContents fd t (p_ID player)))))"

definition publish_full :: "'w feed \<Rightarrow> Snapshot \<Rightarrow> ('w, unit) survey" where
  "publish_full fd s = do {
     view \<leftarrow> look fd (p_ID (s_Player s));
     if q_Token (s_Queue s) \<noteq> s_Token s \<or> v_Token view \<noteq> s_Token s \<or> \<not> v_Connected view then fail ErrStale
     else do {
       seq \<leftarrow> glance (fd_progress fd);
       seq' \<leftarrow> glance (fd_progress fd);
       update (\<lambda>ob. (store seq s ob)\<lparr>ov_progressAfter := seq', ov_invalid := False, ov_mediaPending := False, ov_writePending := {}\<rparr>);
       done_with ()
     }
   }"

definition refreshFull :: "'w feed \<Rightarrow> ('w, unit) survey" where
  "refreshFull fd = do {
     update invalidate;
     ob \<leftarrow> observer;
     andThen (readAll fd (ov_identity ob)) (publish_full fd)
   }"

subsection \<open>Targeted reads\<close>

text \<open>The stricter closures of the targeted reads: the answer carries the very token of the snapshot.\<close>

definition exact_read :: "'w feed \<Rightarrow> Token \<Rightarrow> ID \<Rightarrow> string \<Rightarrow> ('w, Response) survey" where
  "exact_read fd t pid name =
     andThen (client_read fd name (pid_args pid)) (\<lambda>r. do {
       view \<leftarrow> look fd pid;
       if r_Token r \<noteq> t \<or> v_Token view \<noteq> t then fail ErrStale else done_with r
     })"

definition publish_media :: "'w feed \<Rightarrow> Snapshot \<Rightarrow> Token \<Rightarrow> Media \<Rightarrow> ('w, unit) survey" where
  "publish_media fd s answered media = do {
     view \<leftarrow> look fd (p_ID (s_Player s));
     ob \<leftarrow> observer;
     if ov_invalid ob \<or> s_Token (ov_last ob) \<noteq> s_Token s \<or> answered \<noteq> s_Token s \<or> v_Token view \<noteq> s_Token s \<or> \<not> v_Connected view
     then fail ErrStale
     else do {
       seq \<leftarrow> glance (fd_progress fd);
       update (\<lambda>ob. (store seq (s\<lparr>s_Media := Some media, s_MediaStale := (\<not> PlayState_Active (s_State s)), s_EventUpdated := True\<rparr>) ob)
                      \<lparr>ov_mediaPending := False\<rparr>);
       done_with ()
     }
   }"

definition refreshMedia :: "'w feed \<Rightarrow> Snapshot \<Rightarrow> ('w, unit) survey" where
  "refreshMedia fd s = do {
     x \<leftarrow> andThen (client_read fd ''player/get_now_playing_media'' (pid_args (p_ID (s_Player s)))) (\<lambda>r.
           andThen (decoded (payload (fd_media fd) r)) (publish_media fd s (r_Token r)));
     update (if isl x then invalidate else (\<lambda>ob. ob));
     State_Monad.return x
   }"

definition gated :: "'w feed \<Rightarrow> ('w, unit) survey \<Rightarrow> ('w, unit) survey" where
  "gated fd m = guarding (await fd (fd_gate fd)) m"

text \<open>The event consumer or a pending setter has not caught up with the client.\<close>

definition lagging :: "Observer \<Rightarrow> View \<Rightarrow> time \<Rightarrow> bool" where
  "lagging ob view now \<longleftrightarrow>
     (let s = ov_last ob in
      \<not> ov_invalid ob \<and> v_Connected view \<and> sameGlobal (v_Token view) (s_Token s) \<and> in_age ob s now \<and>
      (v_Token view \<noteq> s_Token s \<or> ov_writePending ob \<noteq> {}))"

text \<open>
  Whether a background refresh has to read everything: the consumer may lag behind, or only the
  media changed.
\<close>

definition refreshCached :: "'w feed \<Rightarrow> ('w, unit) survey" where
  "refreshCached fd = do {
     ob \<leftarrow> observer;
     view \<leftarrow> look fd (p_ID (s_Player (ov_last ob)));
     now \<leftarrow> glance (fd_now fd);
     if lagging ob view now then fail ErrStale
     else if ov_mediaPending ob \<and> \<not> ov_invalid ob \<and> v_Connected view \<and> v_Token view = s_Token (ov_last ob) \<and>
             0 \<le> Sub now (s_ObservedAt (ov_last ob)) \<and>
             Sub now (s_ObservedAt (ov_last ob)) < min (ov_ttl ob) IdleObservationInterval
     then refreshMedia fd (ov_last ob)
     else refreshFull fd
   }"

definition refresh :: "'w feed \<Rightarrow> bool \<Rightarrow> ('w, unit) survey" where
  "refresh fd force = gated fd
     (if force then refreshFull fd
      else do {
        cached \<leftarrow> Observer_Snapshot fd;
        now \<leftarrow> glance (fd_now fd);
        if \<not> s_Stale cached \<and> Sub now (s_ObservedAt cached) < IdleObservationInterval then done_with ()
        else refreshCached fd
      })"

definition Refresh :: "'w feed \<Rightarrow> ('w, unit) survey" where
  "Refresh fd = do {
     x \<leftarrow> refresh fd True;
     update (if isl x then requestRefresh else (\<lambda>ob. ob));
     State_Monad.return x
   }"

definition single :: "Response \<Rightarrow> string \<Rightarrow> bool" where
  "single r key \<longleftrightarrow> length (Values_All (r_Params r) key) = 1"

text \<open>Volume and mute, or both play modes, read under the token \<open>t\<close>.\<close>

definition readScalars :: "'w feed \<Rightarrow> Token \<Rightarrow> observedField set \<Rightarrow> Snapshot \<Rightarrow> ('w, Snapshot) survey" where
  "readScalars fd t flds s =
     (let pid = p_ID (s_Player s) in
      if flds = {observedVolume} then
        andThen (exact_read fd t pid ''player/get_volume'') (\<lambda>r.
        andThen (decoded (if single r ''level'' then level_of r else Inl ErrProtocol)) (\<lambda>level.
        andThen (exact_read fd t pid ''player/get_mute'') (\<lambda>r.
        andThen (decoded (if single r ''state'' then switch_of r ''state'' else Inl ErrProtocol)) (\<lambda>muted.
          done_with (s\<lparr>s_Volume := Some level, s_Muted := Some muted\<rparr>)))))
      else
        andThen (exact_read fd t pid ''player/get_play_mode'') (\<lambda>r.
        andThen (decoded (if single r ''repeat'' \<and> single r ''shuffle'' then repeat_of r else Inl ErrProtocol)) (\<lambda>rp.
        andThen (decoded (switch_of r ''shuffle'')) (\<lambda>shuffle.
          done_with (s\<lparr>s_Repeat := rp, s_Shuffle := shuffle\<rparr>)))))"

definition scalar_readable :: "Observer \<Rightarrow> View \<Rightarrow> time \<Rightarrow> playerWrite \<Rightarrow> observedField set \<Rightarrow> bool" where
  "scalar_readable ob view now w flds \<longleftrightarrow>
     (let t = s_Token (ov_last ob) in
      scalarBaselineValid ob (ov_last ob) now \<and> v_Connected view \<and> sameGlobal (v_Token view) t \<and>
      t_Player (v_Token view) = t_Player t \<and> t_Write t \<le> t_Write (v_Token view) \<and> t_Write (v_Token view) - t_Write t \<le> 1 \<and>
      ov_writePending ob \<subseteq> flds \<and>
      (t_Write (v_Token view) \<noteq> t_Write t \<longrightarrow>
         w_revision w = t_Write (v_Token view) \<and> scalarFields (m_Kind (w_mutation w)) = flds))"

definition publish_scalars :: "'w feed \<Rightarrow> Token \<Rightarrow> observedField set \<Rightarrow> Snapshot \<Rightarrow> ('w, unit) survey" where
  "publish_scalars fd before flds s =
     guarding (glance (fd_err fd)) (do {
       view \<leftarrow> look fd (p_ID (s_Player s));
       now \<leftarrow> glance (fd_now fd);
       ob \<leftarrow> observer;
       if \<not> scalarBaselineValid ob (ov_last ob) now \<or> s_Token (ov_last ob) \<noteq> before \<or> \<not> v_Connected view \<or> v_Token view \<noteq> s_Token s
       then fail ErrStale
       else do {
         seq \<leftarrow> glance (fd_progress fd);
         update (\<lambda>ob. (store seq (s\<lparr>s_EventUpdated := True\<rparr>) ob)\<lparr>ov_writePending := ov_writePending ob - flds\<rparr>);
         done_with ()
       }
     })"

definition scalarReads :: "'w feed \<Rightarrow> observedField set \<Rightarrow> ('w, unit) survey" where
  "scalarReads fd flds = do {
     ob \<leftarrow> observer;
     view \<leftarrow> look fd (p_ID (s_Player (ov_last ob)));
     now \<leftarrow> glance (fd_now fd);
     w \<leftarrow> glance (fd_write fd (p_ID (s_Player (ov_last ob))));
     hear (Written ob (v_Token view) w);
     if \<not> scalar_readable ob view now w flds then fail ErrStale
     else andThen (readScalars fd (v_Token view) flds ((ov_last ob)\<lparr>s_Token := v_Token view\<rparr>))
            (publish_scalars fd (s_Token (ov_last ob)) flds)
   }"

definition RefreshScalars :: "'w feed \<Rightarrow> MutationKind \<Rightarrow> ('w, unit) survey" where
  "RefreshScalars fd kind =
     (let flds = scalarFields kind in
      if flds = {} then fail ErrBounds
      else gated fd (scalarReads fd flds))"

text \<open>The wait for the event consumer ends with the context; the number of rounds is the fuel.\<close>

fun waitForConsumer :: "nat \<Rightarrow> 'w feed \<Rightarrow> ('w site, error option) state" where
  "waitForConsumer 0 fd = State_Monad.return (Some outOfFuel)"
| "waitForConsumer (Suc n) fd = do {
     e \<leftarrow> glance (fd_err fd);
     if e \<noteq> None then State_Monad.return e
     else do {
       ob \<leftarrow> observer;
       view \<leftarrow> look fd (p_ID (s_Player (ov_last ob)));
       now \<leftarrow> glance (fd_now fd);
       if \<not> lagging ob view now then State_Monad.return None
       else do {
         e \<leftarrow> await fd (fd_changed fd (ov_changed ob));
         if e \<noteq> None then State_Monad.return e else waitForConsumer n fd
       }
     }
   }"

fun Reconcile :: "nat \<Rightarrow> 'w feed \<Rightarrow> ('w, unit) survey" where
  "Reconcile 0 fd = fail outOfFuel"
| "Reconcile (Suc n) fd = guarding (waitForConsumer (Suc n) fd) (do {
     x \<leftarrow> refresh fd False;
     ob \<leftarrow> observer;
     if (case x of Inl e \<Rightarrow> errors_Is e ErrStale | Inr _ \<Rightarrow> False) \<and> \<not> ov_invalid ob then Reconcile n fd
     else State_Monad.return x
   })"

definition readPlayback :: "'w feed \<Rightarrow> Snapshot \<Rightarrow> ('w, Snapshot) survey" where
  "readPlayback fd s =
     (let pid = p_ID (s_Player s) in
      andThen (exact_read fd (s_Token s) pid ''player/get_play_state'') (\<lambda>r.
      andThen (decoded (if single r ''state'' then state_of r else Inl ErrProtocol)) (\<lambda>state.
      andThen (exact_read fd (s_Token s) pid ''player/get_now_playing_media'') (\<lambda>r.
      andThen (decoded (payload (fd_media fd) r)) (\<lambda>media.
        done_with (s\<lparr>s_State := state, s_Media := Some media, s_EventUpdated := True, s_MediaStale := (\<not> PlayState_Active state)\<rparr>))))))"

definition publish_playback :: "'w feed \<Rightarrow> Snapshot \<Rightarrow> ('w, unit) survey" where
  "publish_playback fd s =
     guarding (glance (fd_err fd)) (do {
       view \<leftarrow> look fd (p_ID (s_Player s));
       now \<leftarrow> glance (fd_now fd);
       ob \<leftarrow> observer;
       if \<not> projectionBaselineValid ob (ov_last ob) now \<or> ov_writePending ob \<noteq> {} \<or> s_Token (ov_last ob) \<noteq> s_Token s \<or>
          \<not> v_Connected view \<or> v_Token view \<noteq> s_Token s
       then fail ErrStale
       else do {
         seq \<leftarrow> glance (fd_progress fd);
         update (\<lambda>ob. (store seq s ob)\<lparr>ov_mediaPending := False\<rparr>);
         done_with ()
       }
     })"

definition playbackReads :: "'w feed \<Rightarrow> ('w, unit) survey" where
  "playbackReads fd = do {
     ob \<leftarrow> observer;
     view \<leftarrow> look fd (p_ID (s_Player (ov_last ob)));
     now \<leftarrow> glance (fd_now fd);
     if \<not> (projectionBaselineValid ob (ov_last ob) now \<and> ov_writePending ob = {} \<and> v_Connected view \<and>
           v_Token view = s_Token (ov_last ob))
     then fail ErrStale
     else andThen (readPlayback fd (ov_last ob)) (publish_playback fd)
   }"

definition RefreshPlayback :: "nat \<Rightarrow> 'w feed \<Rightarrow> ('w, unit) survey" where
  "RefreshPlayback n fd = guarding (waitForConsumer n fd) (do {
     now \<leftarrow> glance (fd_now fd);
     s \<leftarrow> Observer_Snapshot fd;
     if Sub now (s_ObservedAt s) \<ge> IdleObservationInterval then refresh fd False else gated fd (playbackReads fd)
   })"

subsection \<open>The observation loop\<close>

text \<open>
  \<open>Run\<close>: its local variables and the delays its two timers were last reset to; \<open>None\<close> is a timer that
  was stopped or has fired. One round is what the \<open>select\<close> does after it chose a channel.
\<close>

record loop =
  lp_pending :: bool
  lp_recovering :: bool
  lp_retry :: duration
  lp_refresh :: "duration option"
  lp_heartbeat :: "duration option"

datatype wakeup = Woken | RefreshFired | HeartbeatFired

definition schedule :: "'w feed \<Rightarrow> duration \<Rightarrow> unit result \<Rightarrow> loop \<Rightarrow> ('w site, loop) state" where
  "schedule fd interval x lp =
     (if isl x
      then State_Monad.return
             (lp\<lparr>lp_pending := False, lp_recovering := True, lp_refresh := Some (lp_retry lp),
                 lp_retry := min (2 * lp_retry lp) (30 * Second), lp_heartbeat := None\<rparr>)
      else do {
        now \<leftarrow> glance (fd_now fd);
        s \<leftarrow> Observer_Snapshot fd;
        State_Monad.return
          (lp\<lparr>lp_pending := False, lp_recovering := False, lp_retry := Second,
              lp_refresh := Some (max 0 (interval - (Sub now (s_ObservedAt s)))), lp_heartbeat := Some observationHeartbeat\<rparr>)
      })"

definition beat :: "'w feed \<Rightarrow> duration \<Rightarrow> loop \<Rightarrow> ('w site, loop) state" where
  "beat fd interval lp = do {
     now \<leftarrow> glance (fd_now fd);
     s \<leftarrow> Observer_Snapshot fd;
     let age = Sub now (s_ObservedAt s);
     if 0 \<le> age \<and> age < observationHeartbeat
     then State_Monad.return (lp\<lparr>lp_heartbeat := Some (observationHeartbeat - age)\<rparr>)
     else do {
       x \<leftarrow> client_read fd ''system/heart_beat'' [];
       case x of
         Inl e \<Rightarrow> do { update invalidate; schedule fd interval (Inl e) lp }
       | Inr _ \<Rightarrow> State_Monad.return (lp\<lparr>lp_heartbeat := Some observationHeartbeat\<rparr>)
     }
   }"

fun turn :: "'w feed \<Rightarrow> duration \<Rightarrow> wakeup \<Rightarrow> loop \<Rightarrow> ('w site, loop) state" where
  "turn fd interval Woken lp = do {
     update (\<lambda>ob. ob\<lparr>ov_wake := False\<rparr>);
     if lp_recovering lp \<or> lp_pending lp then State_Monad.return lp
     else do {
       s \<leftarrow> Observer_Snapshot fd;
       State_Monad.return
         (if s_Stale s then lp\<lparr>lp_pending := True, lp_refresh := Some observationDebounce\<rparr> else lp)
     }
   }"
| "turn fd interval RefreshFired lp = do {
     x \<leftarrow> refresh fd (\<not> lp_pending lp);
     schedule fd interval x (lp\<lparr>lp_refresh := None\<rparr>)
   }"
| "turn fd interval HeartbeatFired lp = beat fd interval (lp\<lparr>lp_heartbeat := None\<rparr>)"

definition startLoop :: "'w feed \<Rightarrow> duration \<Rightarrow> ('w, loop) survey" where
  "startLoop fd interval =
     (if interval < 100 * Millisecond \<or> interval > IdleObservationInterval then fail ErrBounds
      else do {
        x \<leftarrow> Refresh fd;
        lp \<leftarrow> schedule fd interval x
          \<lparr>lp_pending = False, lp_recovering = False, lp_retry = Second, lp_refresh = Some interval, lp_heartbeat = Some observationHeartbeat\<rparr>;
        done_with lp
      })"

text \<open>A timer that is not armed does not fire.\<close>

definition may_wake :: "loop \<Rightarrow> wakeup \<Rightarrow> bool" where
  "may_wake lp w = (case w of Woken \<Rightarrow> True | RefreshFired \<Rightarrow> lp_refresh lp \<noteq> None | HeartbeatFired \<Rightarrow> lp_heartbeat lp \<noteq> None)"

fun rounds :: "'w feed \<Rightarrow> duration \<Rightarrow> wakeup list \<Rightarrow> loop \<Rightarrow> ('w site, loop) state" where
  "rounds fd interval [] lp = State_Monad.return lp"
| "rounds fd interval (w # ws) lp = do {
     lp \<leftarrow> (if may_wake lp w then turn fd interval w lp else State_Monad.return lp);
     rounds fd interval ws lp
   }"

definition Run :: "'w feed \<Rightarrow> duration \<Rightarrow> wakeup list \<Rightarrow> ('w, loop) survey" where
  "Run fd interval ws = andThen (startLoop fd interval) (\<lambda>lp. do { lp \<leftarrow> rounds fd interval ws lp; done_with lp })"

subsection \<open>Operations step by step\<close>

lemma run_hear [run_simps]: "run_state (hear h) st = ((), st\<lparr>st_heard := st_heard st @ [h]\<rparr>)"
  by (simp add: hear_def)

lemma run_glance [run_simps]: "run_state (glance p) st = (case p (st_world st) of (x, v) \<Rightarrow> (x, st\<lparr>st_world := v\<rparr>))"
  by (simp add: glance_def)

lemma run_observer [run_simps]: "run_state observer st = (st_observer st, st)"
  by (simp add: observer_def)

lemma run_update [run_simps]: "run_state (update f) st = ((), st\<lparr>st_observer := f (st_observer st)\<rparr>)"
  by (simp add: update_def)

lemma run_await [run_simps]:
  "run_state (await fd p) st = (case p (st_world st) of (x, as, v) \<Rightarrow> (x, (fold (befall fd) as st)\<lparr>st_world := v\<rparr>))"
  by (simp add: await_def)

text \<open>
  A relation that allows the world to move, the history to grow and what happens beside an operation
  holds of every operation that only reads; a client adds the critical sections that publish.
\<close>

locale site_relation = change_relation R for R :: "'w site \<Rightarrow> 'w site \<Rightarrow> bool" +
  fixes fd :: "'w feed"
  assumes R_world: "R st (st\<lparr>st_world := v\<rparr>)"
    and R_hear: "R st (st\<lparr>st_heard := st_heard st @ [h]\<rparr>)"
    and R_aside: "within R (aside_program fd a)"
begin

lemma within_hear: "within R (hear h)"
  by (auto intro!: withinI R_hear simp: run_simps)

lemma within_glance: "within R (glance p)"
  by (auto intro!: withinI R_world simp: run_simps split: prod.splits)

lemma within_observer: "within R observer"
  by (auto intro!: withinI R_refl simp: run_simps)

lemma R_befall: "R st (befall fd a st)"
proof -
  obtain u where "run_state (aside_program fd (fst a)) (st\<lparr>st_world := snd a\<rparr>) = (u, befall fd a st)"
    unfolding befall_def by (metis prod.collapse)
  from R_trans [OF R_world withinD [OF R_aside this]] show ?thesis .
qed

lemma R_tide: "R st (fold (befall fd) as st)"
  by (induction as arbitrary: st) (auto intro: R_refl R_trans R_befall)

lemma within_await: "within R (await fd p)"
  by (auto intro!: withinI R_trans [OF R_tide R_world] simp: run_simps split: prod.splits)

lemma within_decoded: "within R (decoded x)"
  unfolding decoded_def by (rule within_return)

lemma within_update: "(\<And>st. R st (st\<lparr>st_observer := f (st_observer st)\<rparr>)) \<Longrightarrow> within R (update f)"
  by (auto intro!: withinI simp: run_simps)

lemmas plain_intros = within_structure within_hear within_glance within_observer within_await within_decoded

lemma within_look: "within R (look fd pid)"
  unfolding look_def by (intro plain_intros)

lemma within_client_read: "within R (client_read fd name args)"
  unfolding client_read_def by (intro plain_intros)

lemma within_Client_Queue: "within R (Client_Queue (client_read fd) decode pid start limit)"
  unfolding Client_Queue_def by (intro plain_intros within_client_read)

lemmas read_intros = plain_intros within_look within_client_read within_Client_Queue

lemma within_steady_read: "within R (steady_read fd t pid name args)"
  unfolding steady_read_def by (intro read_intros)

lemma within_exact_read: "within R (exact_read fd t pid name)"
  unfolding exact_read_def by (intro read_intros)

lemma within_Observer_Snapshot: "within R (Observer_Snapshot fd)"
  unfolding Observer_Snapshot_def by (intro read_intros)

lemmas survey_intros = read_intros within_steady_read within_exact_read within_Observer_Snapshot

lemma within_readPlayer: "within R (readPlayer fd identity)"
  unfolding readPlayer_def by (intro survey_intros)

lemma within_readControls: "within R (readControls fd t pid s)"
  unfolding readControls_def by (intro survey_intros)

lemma within_readQueue: "within R (readQueue fd pid)"
  unfolding readQueue_def by (intro survey_intros)

lemma within_readContents: "within R (readContents fd t pid s)"
  unfolding readContents_def by (intro survey_intros within_readQueue)

lemma within_readAll: "within R (readAll fd identity)"
  unfolding readAll_def by (intro survey_intros within_readPlayer within_readControls within_readContents)

lemma within_readScalars: "within R (readScalars fd t flds s)"
  unfolding readScalars_def Let_def by (intro survey_intros)

lemma within_readPlayback: "within R (readPlayback fd s)"
  unfolding readPlayback_def Let_def by (intro survey_intros)

lemma within_waitForConsumer: "within R (waitForConsumer n fd)"
  by (induction n) (auto intro!: survey_intros)

lemma within_returned:
  assumes "returns m (\<lambda>x st. P x)" and "within R m" and "\<And>x. P x \<Longrightarrow> within R (f x)"
  shows "within R (andThen m f)"
proof (rule withinI)
  fix st y st'
  assume run: "run_state (andThen m f) st = (y, st')"
  obtain x st1 where m: "run_state m st = (x, st1)" by fastforce
  show "R st st'"
  proof (cases x)
    case (Inl e)
    with run m withinD [OF assms(2) m] show ?thesis by (simp add: run_simps)
  next
    case (Inr v)
    with run m have f: "run_state (f v) st1 = (y, st')" by (simp add: run_simps)
    have "P v" using returnsD [OF assms(1)] m Inr by blast
    from R_trans [OF withinD [OF assms(2) m] withinD [OF assms(3) [OF this] f]] show ?thesis .
  qed
qed

lemma within_gated: "within R m \<Longrightarrow> within R (gated fd m)"
  unfolding gated_def by (intro survey_intros)

end

text \<open>The operations of an observer, given that the sections of each that publish are allowed.\<close>

locale observer_relation = site_relation R fd for R :: "'w site \<Rightarrow> 'w site \<Rightarrow> bool" and fd :: "'w feed" +
  assumes R_invalidate: "R st (st\<lparr>st_observer := invalidate (st_observer st)\<rparr>)"
    and R_request: "R st (st\<lparr>st_observer := requestRefresh (st_observer st)\<rparr>)"
    and R_unwake: "R st (st\<lparr>st_observer := (st_observer st)\<lparr>ov_wake := False\<rparr>\<rparr>)"
    and R_full: "within R (refreshFull fd)"
    and R_cached: "within R (refreshCached fd)"
    and R_scalars: "scalarFields kind \<noteq> {} \<Longrightarrow> within R (scalarReads fd (scalarFields kind))"
    and R_playback: "within R (playbackReads fd)"
begin

lemma within_refresh: "within R (refresh fd force)"
  unfolding refresh_def by (intro within_gated survey_intros R_full R_cached)

lemma within_Refresh: "within R (Refresh fd)"
  unfolding Refresh_def
  by (intro survey_intros within_refresh within_update) (simp add: R_request R_refl)

lemma within_RefreshScalars: "within R (RefreshScalars fd kind)"
  unfolding RefreshScalars_def Let_def by (intro within_gated survey_intros R_scalars)

lemma within_Reconcile: "within R (Reconcile n fd)"
  by (induction n) (auto intro!: survey_intros within_waitForConsumer within_refresh simp del: waitForConsumer.simps)

lemma within_RefreshPlayback: "within R (RefreshPlayback n fd)"
  unfolding RefreshPlayback_def
  by (intro survey_intros within_waitForConsumer within_refresh within_gated R_playback)

lemma within_schedule: "within R (schedule fd interval x lp)"
  unfolding schedule_def by (intro survey_intros)

lemma within_beat: "within R (beat fd interval lp)"
  unfolding beat_def by (intro survey_intros within_schedule within_update R_invalidate)

lemma within_turn: "within R (turn fd interval w lp)"
  by (cases w) (auto intro!: survey_intros within_schedule within_beat within_refresh within_update R_unwake)

lemma within_rounds: "within R (rounds fd interval ws lp)"
  by (induction ws arbitrary: lp) (auto intro!: survey_intros within_turn)

lemma within_Run: "within R (Run fd interval ws)"
  unfolding Run_def startLoop_def by (intro survey_intros within_Refresh within_schedule within_rounds)

end

text \<open>A life of an observer: any operations in turn, by the loop and by its other users.\<close>

datatype use =
    Looping duration "wakeup list"
  | Refreshing
  | Reconciling nat
  | RefreshingScalars MutationKind
  | RefreshingPlayback nat
  | Looking

fun used :: "'w feed \<Rightarrow> use \<Rightarrow> ('w site, unit) state" where
  "used fd (Looping interval ws) = do { x \<leftarrow> Run fd interval ws; State_Monad.return () }"
| "used fd Refreshing = do { x \<leftarrow> Refresh fd; State_Monad.return () }"
| "used fd (Reconciling n) = do { x \<leftarrow> Reconcile n fd; State_Monad.return () }"
| "used fd (RefreshingScalars kind) = do { x \<leftarrow> RefreshScalars fd kind; State_Monad.return () }"
| "used fd (RefreshingPlayback n) = do { x \<leftarrow> RefreshPlayback n fd; State_Monad.return () }"
| "used fd Looking = do { s \<leftarrow> Observer_Snapshot fd; State_Monad.return () }"

fun uses_of :: "'w feed \<Rightarrow> use list \<Rightarrow> ('w site, unit) state" where
  "uses_of fd [] = State_Monad.return ()"
| "uses_of fd (u # us) = do { used fd u; uses_of fd us }"

context observer_relation
begin

lemma within_used: "within R (used fd u)"
  by (cases u)
    (auto intro!: survey_intros within_Run within_Refresh within_Reconcile within_RefreshScalars within_RefreshPlayback)

lemma within_uses: "within R (uses_of fd us)"
  by (induction us) (auto intro!: survey_intros within_used)

end

end
