(* ===== verification/Truthful.thy ===== *)
theory Truthful
  imports Observers
begin

section \<open>What a verified snapshot is worth\<close>

text \<open>
  The observer against the device. The device's state is given at every token of the client: the
  events that the client numbered up to the token have happened. What the device says is credible
  when an answer tells the state at the token it is stamped with, a notification the change to the
  next token, and when a command changes nothing but what it commands. Then everything an observer
  does, in any order and with anything beside it, keeps its snapshot true.
\<close>

subsection \<open>A credible device\<close>

definition contents :: "QueuePage \<Rightarrow> Media list \<times> int option \<times> int option" where
  "contents q = (q_Items q, q_Total q, q_Next q)"

text \<open>\<open>matches d s P mp\<close>: the snapshot \<open>s\<close> shows the device state \<open>d\<close>, apart from pending fields and media.\<close>

definition solid :: "Snapshot \<Rightarrow> PlayState \<times> Player \<times> Group list \<times> bool \<times> Media list \<times> int option \<times> int option" where
  "solid s = (s_State s, s_Player s, s_Groups s, s_Grouped s, contents (s_Queue s))"

definition matches :: "Snapshot \<Rightarrow> Snapshot \<Rightarrow> observedField set \<Rightarrow> bool \<Rightarrow> bool" where
  "matches d s P mp \<longleftrightarrow>
     (observedOther \<notin> P \<longrightarrow>
        solid s = solid d \<and> (\<not> mp \<longrightarrow> s_Media s = s_Media d) \<and>
        (observedVolume \<notin> P \<longrightarrow> s_Volume s = s_Volume d \<and> s_Muted s = s_Muted d) \<and>
        (observedRepeat \<notin> P \<longrightarrow> s_Repeat s = s_Repeat d) \<and> (observedShuffle \<notin> P \<longrightarrow> s_Shuffle s = s_Shuffle d))"

text \<open>The state an answer tells of: the one at its own token, or at any of its connection for a device-wide read.\<close>

definition spoken_at :: "url_Values \<Rightarrow> Response \<Rightarrow> Token \<Rightarrow> bool" where
  "spoken_at args r t = (if Values_Has args ''pid'' then r_Token r = t else sameGlobal (r_Token r) t)"

definition answers_truly :: "'w feed \<Rightarrow> Identity \<Rightarrow> string \<Rightarrow> Response \<Rightarrow> Snapshot \<Rightarrow> bool" where
  "answers_truly fd idn name r d =
     (if name = ''player/get_players''
      then \<forall>ps p. payload (fd_players fd) r = Inr ps \<longrightarrow> ResolveIdentity ps idn = Inr p \<longrightarrow> s_Player d = p
      else if name = ''group/get_groups''
      then \<forall>gs. payload (fd_groups fd) r = Inr gs \<longrightarrow> s_Groups d = gs \<and> s_Grouped d = grouped (s_Player d) gs
      else if name = ''player/get_play_state'' then \<forall>v. state_of r = Inr v \<longrightarrow> s_State d = v
      else if name = ''player/get_volume'' then \<forall>v. level_of r = Inr v \<longrightarrow> s_Volume d = Some v
      else if name = ''player/get_mute'' then \<forall>v. switch_of r ''state'' = Inr v \<longrightarrow> s_Muted d = Some v
      else if name = ''player/get_play_mode''
      then (\<forall>v. repeat_of r = Inr v \<longrightarrow> s_Repeat d = v) \<and> (\<forall>v. switch_of r ''shuffle'' = Inr v \<longrightarrow> s_Shuffle d = v)
      else if name = ''player/get_now_playing_media''
      then \<forall>m. payload (fd_media fd) r = Inr m \<longrightarrow> s_Media d = Some m
      else if name = ''player/get_queue''
      then \<forall>q items. payload (fd_queue fd) r = Inr items \<longrightarrow> queue_page 0 100 r items = Inr q \<longrightarrow> contents (s_Queue d) = contents q
      else True)"

text \<open>
  A notification changes the state at the snapshot's token into the state at its own; a command in
  between changed what it commands. Commands are issued on settled snapshots.
\<close>

definition reports_truly :: "(Token \<Rightarrow> Snapshot) \<Rightarrow> Observer \<Rightarrow> playerWrite \<Rightarrow> Event \<Rightarrow> bool" where
  "reports_truly truth ob w e \<longleftrightarrow>
     (let t = s_Token (ov_last ob); kind = d_Kind (Event_Data e) in
      case applyObservedEvent (truth t) e of
        None \<Rightarrow> True
      | Some d \<Rightarrow>
          sameGlobal (e_Token e) t \<and> t_Player (e_Token e) = t_Player t + 1 \<and> d_Player (Event_Data e) = p_ID (s_Player (ov_last ob)) \<longrightarrow>
          (if t_Write (e_Token e) = t_Write t then matches (truth (e_Token e)) d {} (kind = EventNowPlaying)
           else follows_write (e_Token e) t w \<longrightarrow>
             ov_writePending ob = {} \<and>
             matches (truth (e_Token e)) d (changedWriteFields (ov_last ob) (w_mutation w) - observedEventFields kind)
               (kind = EventNowPlaying)))"

text \<open>What \<open>ConfirmScalars\<close> asks of its caller: the scalars are true at the token, and nothing else changed up to it.\<close>

definition vouches_truly :: "(Token \<Rightarrow> Snapshot) \<Rightarrow> Observer \<Rightarrow> Snapshot \<Rightarrow> bool" where
  "vouches_truly truth ob s \<longleftrightarrow>
     (sameGlobal (s_Token (ov_last ob)) (s_Token s) \<longrightarrow>
      matches (truth (s_Token s))
        ((truth (s_Token (ov_last ob)))\<lparr>s_Volume := s_Volume s, s_Muted := s_Muted s, s_Repeat := s_Repeat s, s_Shuffle := s_Shuffle s\<rparr>)
        {} False)"

definition writes_truly :: "(Token \<Rightarrow> Snapshot) \<Rightarrow> Observer \<Rightarrow> Token \<Rightarrow> playerWrite \<Rightarrow> bool" where
  "writes_truly truth ob t w \<longleftrightarrow>
     (let t0 = s_Token (ov_last ob); changed = scalarFields (m_Kind (w_mutation w)) in
      sameGlobal t t0 \<and> t_Player t = t_Player t0 \<and> follows_write t t0 w \<and> changed \<noteq> {} \<longrightarrow>
      matches (truth t) (truth t0) changed False)"

fun tells :: "'w feed \<Rightarrow> Identity \<Rightarrow> (Token \<Rightarrow> Snapshot) \<Rightarrow> heard \<Rightarrow> bool" where
  "tells fd idn truth (Saw pid view) = True"
| "tells fd idn truth (Answered name args r) = (\<forall>t. spoken_at args r t \<longrightarrow> answers_truly fd idn name r (truth t))"
| "tells fd idn truth (Reported ob w e) = reports_truly truth ob w e"
| "tells fd idn truth (Vouched ob s) = vouches_truly truth ob s"
| "tells fd idn truth (Written ob t w) = writes_truly truth ob t w"

text \<open>The client's revisions of one player never go back within a connection.\<close>

definition older :: "Token \<Rightarrow> Token \<Rightarrow> bool" where
  "older a b \<longleftrightarrow> (sameGlobal a b \<longrightarrow> t_Player a \<le> t_Player b \<and> t_Write a \<le> t_Write b)"

fun token_of :: "ID \<Rightarrow> heard \<Rightarrow> Token option" where
  "token_of pid (Saw p view) = (if p = pid then Some (v_Token view) else None)"
| "token_of pid (Answered name args r) = (if Values_Has args ''pid'' \<and> Values_Get args ''pid'' = pid then Some (r_Token r) else None)"
| "token_of pid _ = None"

definition tokens :: "ID \<Rightarrow> heard list \<Rightarrow> Token list" where
  "tokens pid log = List.map_filter (token_of pid) log"

definition credible :: "'w feed \<Rightarrow> Identity \<Rightarrow> (Token \<Rightarrow> Snapshot) \<Rightarrow> heard list \<Rightarrow> bool" where
  "credible fd idn truth log \<longleftrightarrow>
     list_all (tells fd idn truth) log \<and> (\<forall>pid. sorted_wrt older (tokens pid log))"

lemma tokens_append [simp]: "tokens pid (xs @ ys) = tokens pid xs @ tokens pid ys"
  by (simp add: tokens_def List.map_filter_def)

lemma tokens_Cons [simp]: "tokens pid (x # xs) = (case token_of pid x of None \<Rightarrow> tokens pid xs | Some t \<Rightarrow> t # tokens pid xs)"
  by (simp add: tokens_def List.map_filter_simps split: option.splits)

lemma tokens_Nil [simp]: "tokens pid [] = []"
  by (simp add: tokens_def List.map_filter_simps)

lemma credible_prefix: "credible fd idn truth (xs @ ys) \<Longrightarrow> credible fd idn truth xs"
  by (auto simp: credible_def sorted_wrt_append)

lemma credible_tells: "credible fd idn truth log \<Longrightarrow> h \<in> set log \<Longrightarrow> tells fd idn truth h"
  by (auto simp: credible_def list_all_iff)

subsection \<open>Matching states\<close>

lemma matches_refl: "matches d d P mp"
  by (simp add: matches_def)

lemma matches_mono: "matches d s P mp \<Longrightarrow> P \<subseteq> Q \<Longrightarrow> (mp \<Longrightarrow> mq) \<Longrightarrow> matches d s Q mq"
  by (auto simp: matches_def)

lemma matches_trans:
  "matches d s P mp \<Longrightarrow> matches d' d Q mq \<Longrightarrow> matches d' s (P \<union> Q) (mp \<or> mq)"
  by (simp add: matches_def)

lemma matches_irrelevant [simp]:
  "matches d (s\<lparr>s_Token := t\<rparr>) P mp = matches d s P mp" "matches d (s\<lparr>s_Playhead := ph\<rparr>) P mp = matches d s P mp"
  "matches d (s\<lparr>s_EventUpdated := b\<rparr>) P mp = matches d s P mp" "matches d (s\<lparr>s_MediaStale := b\<rparr>) P mp = matches d s P mp"
  by (simp_all add: matches_def solid_def)

text \<open>An event applied to the device and to its snapshot keeps them matching.\<close>

lemma applyObservedEvent_total:
  "applyObservedEvent s e = Some s1 \<Longrightarrow> \<exists>d1. applyObservedEvent d e = Some d1"
  by (simp add: applyObservedEvent_def Let_def split: if_splits EventKind.splits)

lemma applyObservedEvent_matches:
  assumes "matches d s P mp" and "applyObservedEvent s e = Some s1" and "applyObservedEvent d e = Some d1"
  shows "matches d1 s1 (P - observedEventFields (d_Kind (Event_Data e))) mp"
  using assms
  by (cases "d_Kind (Event_Data e)"; clarsimp simp: applyObservedEvent_def matches_def solid_def observedEventFields_def Let_def split: if_splits)

subsection \<open>Critical sections keep the snapshot true\<close>

definition sincere :: "Identity \<Rightarrow> (Token \<Rightarrow> Snapshot) \<Rightarrow> Observer \<Rightarrow> bool" where
  "sincere idn truth ob \<longleftrightarrow>
     ov_identity ob = idn \<and>
     (\<not> ov_invalid ob \<longrightarrow> matches (truth (s_Token (ov_last ob))) (ov_last ob) (ov_writePending ob) (ov_mediaPending ob))"

lemma sincere_invalid: "ov_identity ob = idn \<Longrightarrow> ov_invalid ob \<Longrightarrow> sincere idn truth ob"
  by (simp add: sincere_def)

lemma sincere_signals [simp]:
  "sincere idn truth (signalChanged ob) = sincere idn truth ob" "sincere idn truth (requestRefresh ob) = sincere idn truth ob"
  "sincere idn truth (ob\<lparr>ov_wake := b\<rparr>) = sincere idn truth ob" "sincere idn truth (ob\<lparr>ov_progressAfter := k\<rparr>) = sincere idn truth ob"
  by (simp_all add: sincere_def signalChanged_def requestRefresh_def)

lemma signals_keep [simp]:
  "ov_identity (signalChanged ob) = ov_identity ob" "ov_identity (requestRefresh ob) = ov_identity ob"
  "ov_identity (invalidate ob) = ov_identity ob" "ov_invalid (invalidate ob)"
  by (simp_all add: signalChanged_def requestRefresh_def invalidate_def)

lemma contiguousD:
  assumes "contiguous ob view now e"
  shows "\<not> ov_invalid ob" "sameGlobal (e_Token e) (s_Token (ov_last ob))"
    "t_Player (e_Token e) = t_Player (s_Token (ov_last ob)) + 1" "d_Player (Event_Data e) = p_ID (s_Player (ov_last ob))"
  using assms by (simp_all add: contiguous_def Let_def)

text \<open>The event follows the snapshot: what it leaves is true at its token.\<close>

lemma contiguous_matches:
  assumes "sincere idn truth ob" and "reports_truly truth ob w e" and "contiguous ob view now e"
    and "t_Write (e_Token e) \<noteq> t_Write (s_Token (ov_last ob)) \<longrightarrow> follows_write (e_Token e) (s_Token (ov_last ob)) w"
    and "applyObservedEvent (ov_last ob) e = Some s1"
  shows "matches (truth (e_Token e)) s1
    ((if t_Write (e_Token e) = t_Write (s_Token (ov_last ob)) then ov_writePending ob
      else changedWriteFields (ov_last ob) (w_mutation w)) - observedEventFields (d_Kind (Event_Data e)))
    (ov_mediaPending ob \<or> d_Kind (Event_Data e) = EventNowPlaying)"
proof -
  let ?t = "s_Token (ov_last ob)" and ?kind = "d_Kind (Event_Data e)"
  note c = contiguousD [OF assms(3)]
  have m: "matches (truth ?t) (ov_last ob) (ov_writePending ob) (ov_mediaPending ob)"
    using assms(1) c(1) by (simp add: sincere_def)
  obtain d1 where d1: "applyObservedEvent (truth ?t) e = Some d1"
    using applyObservedEvent_total [OF assms(5)] by blast
  have s1: "matches d1 s1 (ov_writePending ob - observedEventFields ?kind) (ov_mediaPending ob)"
    by (rule applyObservedEvent_matches [OF m assms(5) d1])
  show ?thesis
  proof (cases "t_Write (e_Token e) = t_Write ?t")
    case True
    then have "matches (truth (e_Token e)) d1 {} (?kind = EventNowPlaying)"
      using assms(2) c d1 by (simp add: reports_truly_def Let_def)
    from matches_trans [OF s1 this] show ?thesis using True by simp
  next
    case False
    then have "ov_writePending ob = {}" and
      "matches (truth (e_Token e)) d1 (changedWriteFields (ov_last ob) (w_mutation w) - observedEventFields ?kind) (?kind = EventNowPlaying)"
      using assms(2,4) c d1 by (simp_all add: reports_truly_def Let_def)
    with matches_trans [OF s1 this(2)] show ?thesis using False by simp
  qed
qed

lemma sincere_consume:
  assumes "sincere idn truth ob" and "reports_truly truth ob w e"
  shows "sincere idn truth (consume view now w e ob)"
proof (cases "contiguous ob view now e \<and>
    (t_Write (e_Token e) \<noteq> t_Write (s_Token (ov_last ob)) \<longrightarrow> follows_write (e_Token e) (s_Token (ov_last ob)) w) \<and>
    applyObservedEvent (ov_last ob) e \<noteq> None")
  case True
  then obtain s1 where s1: "applyObservedEvent (ov_last ob) e = Some s1" by blast
  from True have c: "contiguous ob view now e"
    "t_Write (e_Token e) \<noteq> t_Write (s_Token (ov_last ob)) \<longrightarrow> follows_write (e_Token e) (s_Token (ov_last ob)) w" by blast+
  from contiguous_matches [OF assms c s1] c s1 assms(1) show ?thesis
    by (auto simp: consume_def Let_def sincere_def signalChanged_def requestRefresh_def)
next
  case False
  then have "ov_identity (consume view now w e ob) = ov_identity ob \<and> ov_invalid (consume view now w e ob)"
    by (auto simp: consume_def Let_def requestRefresh_def invalidate_def signalChanged_def split: option.splits)
  then show ?thesis using assms(1) by (simp add: sincere_def)
qed

lemma sincere_recordProgress: "sincere idn truth ob \<Longrightarrow> sincere idn truth (recordProgress view now e ob)"
  by (simp add: recordProgress_def Let_def sincere_def)

lemma sincere_Notify:
  "sincere idn truth ob \<Longrightarrow> reports_truly truth ob w e \<Longrightarrow> sincere idn truth (Notify view now w e ob)"
  by (simp add: Notify_def Let_def sincere_consume sincere_recordProgress)

lemma sincere_ConfirmScalars:
  assumes "sincere idn truth ob" and "vouches_truly truth ob s"
  shows "sincere idn truth (snd (ConfirmScalars view now w s ob))"
proof (cases "fst (ConfirmScalars view now w s ob)")
  case None
  then have c: "confirmable view now s ob" by (auto simp: ConfirmScalars_def Let_def split: if_splits)
  then have "\<not> ov_invalid ob" and "\<not> ov_mediaPending ob" and "observedOther \<notin> ov_writePending ob"
    and g: "sameGlobal (s_Token (ov_last ob)) (s_Token s)"
    by (auto simp: confirmable_def scalarBaselineValid_def projectionBaselineValid_def Let_def)
  then have m: "matches (truth (s_Token (ov_last ob))) (ov_last ob) (ov_writePending ob) False"
    and o: "observedOther \<notin> ov_writePending ob" and i: "ov_identity ob = idn"
    using assms(1) by (simp_all add: sincere_def)
  let ?upd = "\<lambda>l. l\<lparr>s_Volume := s_Volume s, s_Muted := s_Muted s, s_Repeat := s_Repeat s, s_Shuffle := s_Shuffle s\<rparr>"
  have "matches (?upd (truth (s_Token (ov_last ob)))) (?upd (ov_last ob)) {} False"
    using m o by (simp add: matches_def solid_def)
  moreover have "matches (truth (s_Token s)) (?upd (truth (s_Token (ov_last ob)))) {} False"
    using assms(2) g by (simp add: vouches_truly_def)
  ultimately have "matches (truth (s_Token s)) (?upd (ov_last ob)) {} False"
    using matches_trans by fastforce
  with None i show ?thesis
    by (auto simp: ConfirmScalars_def Let_def sincere_def signalChanged_def matches_def solid_def split: if_splits)
next
  case (Some x)
  then have "snd (ConfirmScalars view now w s ob) = ob" by (auto simp: ConfirmScalars_def Let_def split: if_splits)
  with assms(1) show ?thesis by simp
qed

subsection \<open>The history grows\<close>

definition grows :: "'w site \<Rightarrow> 'w site \<Rightarrow> bool" where
  "grows st st' \<longleftrightarrow> (\<exists>hs. st_heard st' = st_heard st @ hs)"

lemma grows_aside:
  fixes fd :: "'w feed"
  shows "within grows (aside_program fd a)"
  by (rule withinI)
    (auto simp: aside_program_def look_def run_simps grows_def split: prod.splits aside.splits)

interpretation growth: site_relation grows fd for fd :: "'w feed"
  by unfold_locales (auto simp: grows_def intro: grows_aside)

lemma grows_update: "within grows (update f)"
  by (rule growth.within_update) (simp add: grows_def)

lemma grows_publish:
  "within grows (publish_full fd s)" "within grows (publish_media fd s t m)" "within grows (publish_scalars fd before flds s)"
  "within grows (publish_playback fd s)"
  unfolding publish_full_def publish_media_def publish_scalars_def publish_playback_def
  by (intro growth.survey_intros grows_update)+

lemma grows_refreshFull: "within grows (refreshFull fd)"
  unfolding refreshFull_def by (intro growth.survey_intros grows_update growth.within_readAll grows_publish)

lemma grows_refreshMedia: "within grows (refreshMedia fd s)"
  unfolding refreshMedia_def by (intro growth.survey_intros grows_update grows_publish)

lemma growsD: "within grows m \<Longrightarrow> run_state m st = (x, st') \<Longrightarrow> \<exists>hs. st_heard st' = st_heard st @ hs"
  using withinD [of grows m st x st'] by (simp add: grows_def)

lemma heard_mono: "within grows m \<Longrightarrow> run_state m st = (x, st') \<Longrightarrow> set (st_heard st) \<subseteq> set (st_heard st')"
  using growsD by fastforce

lemma credible_before:
  "within grows m \<Longrightarrow> run_state m st = (x, st') \<Longrightarrow> credible fd idn truth (st_heard st') \<Longrightarrow> credible fd idn truth (st_heard st)"
  using growsD credible_prefix by metis

subsection \<open>What a read teaches\<close>

text \<open>
  \<open>learns fd idn truth A m P\<close>: when \<open>m\<close> succeeds after the history \<open>A\<close> was heard, and what was heard in the
  end is credible, its value satisfies \<open>P\<close>.
\<close>

definition learns ::
  "'w feed \<Rightarrow> Identity \<Rightarrow> (Token \<Rightarrow> Snapshot) \<Rightarrow> heard set \<Rightarrow> ('w, 'a) survey \<Rightarrow> ('a \<Rightarrow> bool) \<Rightarrow> bool" where
  "learns fd idn truth A m P \<longleftrightarrow>
     (\<forall>st x st'. run_state m st = (Inr x, st') \<longrightarrow> A \<subseteq> set (st_heard st) \<longrightarrow> credible fd idn truth (st_heard st') \<longrightarrow> P x)"

lemma learnsD:
  "learns fd idn truth A m P \<Longrightarrow> run_state m st = (Inr x, st') \<Longrightarrow> A \<subseteq> set (st_heard st) \<Longrightarrow>
   credible fd idn truth (st_heard st') \<Longrightarrow> P x"
  by (simp add: learns_def)

lemma learns_andThen:
  assumes "learns fd idn truth A m P" and "within grows m" and "\<And>x. within grows (f x)"
    and "\<And>x. P x \<Longrightarrow> learns fd idn truth A (f x) Q"
  shows "learns fd idn truth A (andThen m f) Q"
  unfolding learns_def
proof (intro allI impI)
  fix st y st'
  assume run: "run_state (andThen m f) st = (Inr y, st')" and A: "A \<subseteq> set (st_heard st)"
    and c: "credible fd idn truth (st_heard st')"
  then obtain x st1 where m: "run_state m st = (Inr x, st1)" and f: "run_state (f x) st1 = (Inr y, st')"
    by (auto simp: run_simps split: prod.splits sum.splits)
  have "P x" using learnsD [OF assms(1) m A] credible_before [OF assms(3) f c] by simp
  moreover have "A \<subseteq> set (st_heard st1)" using A heard_mono [OF assms(2) m] by simp
  ultimately show "Q y" using learnsD [OF assms(4) f _ c] by simp
qed

lemma learns_done: "P x \<Longrightarrow> learns fd idn truth A (done_with x) P"
  by (simp add: learns_def run_simps)

lemma learns_decoded: "learns fd idn truth A (decoded x) (\<lambda>v. x = Inr v)"
  by (simp add: learns_def decoded_def)

lemma client_read_heard:
  assumes "run_state (client_read fd name args) st = (Inr r, st')"
  obtains hs where "st_heard st' = st_heard st @ hs @ [Answered name args r]"
proof -
  obtain st1 where a: "run_state (await fd (fd_read fd name args)) st = (Inr r, st1)"
    and st': "st' = st1\<lparr>st_heard := st_heard st1 @ [Answered name args r]\<rparr>"
    using assms by (auto simp: client_read_def run_simps split: prod.splits sum.splits)
  from growsD [OF growth.within_await a] st' that show ?thesis by auto
qed

lemma look_heard:
  assumes "run_state (look fd pid) st = (view, st')"
  shows "st_heard st' = st_heard st @ [Saw pid view]" and "st_observer st' = st_observer st"
  using assms by (auto simp: look_def run_simps split: prod.splits)

lemma answered_truly:
  "credible fd idn truth log \<Longrightarrow> Answered name args r \<in> set log \<Longrightarrow> spoken_at args r t \<Longrightarrow>
   answers_truly fd idn name r (truth t)"
  using credible_tells by fastforce

lemma pid_args_simps [simp]: "Values_Has (pid_args pid) ''pid''" "Values_Get (pid_args pid) ''pid'' = pid"
  by (simp_all add: pid_args_def Values_Has_def Values_Get_def Values_All_def)

lemma learns_client_read:
  "learns fd idn truth A (client_read fd name (pid_args pid)) (\<lambda>r. answers_truly fd idn name r (truth (r_Token r)))"
  unfolding learns_def
  by (auto elim!: client_read_heard intro!: answered_truly simp: spoken_at_def)

lemma learns_exact_read:
  "learns fd idn truth A (exact_read fd t pid name) (\<lambda>r. answers_truly fd idn name r (truth t))"
  unfolding exact_read_def
  by (rule learns_andThen [OF learns_client_read growth.within_client_read])
    (auto intro!: growth.survey_intros simp: learns_def run_simps split: prod.splits if_splits)

text \<open>A token seen before and after an answer is the token of the answer.\<close>

lemma older_antisym: "older a b \<Longrightarrow> older b a \<Longrightarrow> sameGlobal a b \<Longrightarrow> a = b"
  unfolding older_def sameGlobal_def by (cases a, cases b) auto

lemma steady_read_heard:
  assumes "run_state (steady_read fd t pid name args) st = (Inr r, st')"
  obtains hs view where "st_heard st' = st_heard st @ hs @ [Answered name args r, Saw pid view]"
    and "sameGlobal (r_Token r) t" and "v_Token view = t"
proof -
  obtain st1 where r: "run_state (client_read fd name args) st = (Inr r, st1)"
    using assms by (auto simp: steady_read_def run_simps split: prod.splits sum.splits if_splits)
  obtain view st2 where l: "run_state (look fd pid) st1 = (view, st2)" by fastforce
  have "st' = st2" and "sameGlobal (r_Token r) t" and "v_Token view = t"
    using assms r l by (auto simp: steady_read_def run_simps split: if_splits)
  moreover obtain hs where "st_heard st1 = st_heard st @ hs @ [Answered name args r]" by (rule client_read_heard [OF r])
  ultimately show ?thesis using that look_heard(1) [OF l] by simp
qed

lemma learns_steady_read:
  assumes "Saw pid view \<in> A" and "v_Token view = t"
  shows "learns fd idn truth A (steady_read fd t pid name (pid_args pid)) (\<lambda>r. answers_truly fd idn name r (truth t))"
  unfolding learns_def
proof (intro allI impI)
  fix st r st'
  assume run: "run_state (steady_read fd t pid name (pid_args pid)) st = (Inr r, st')" and A: "A \<subseteq> set (st_heard st)"
    and c: "credible fd idn truth (st_heard st')"
  obtain hs view' where h: "st_heard st' = st_heard st @ hs @ [Answered name (pid_args pid) r, Saw pid view']"
    and g: "sameGlobal (r_Token r) t" and t: "v_Token view' = t" by (rule steady_read_heard [OF run])
  obtain xs ys where xs: "st_heard st = xs @ Saw pid view # ys" using assms(1) A by (meson in_mono split_list)
  have "sorted_wrt older (tokens pid (st_heard st'))" using c by (simp add: credible_def)
  then have "older t (r_Token r)" and "older (r_Token r) t"
    using t assms(2) by (simp_all add: h xs sorted_wrt_append)
  with g have "r_Token r = t" by (metis older_antisym)
  then show "answers_truly fd idn name r (truth t)"
    using answered_truly [OF c, of name "pid_args pid" r t] h by (simp add: spoken_at_def)
qed

lemma learns_group_read:
  "learns fd idn truth A (steady_read fd t pid name []) (\<lambda>r. answers_truly fd idn name r (truth t))"
  unfolding learns_def
  by (auto elim!: steady_read_heard intro!: answered_truly simp: spoken_at_def Values_Has_def)

lemmas learns_steady = learns_andThen [OF learns_steady_read growth.within_steady_read]
lemmas learns_decode = learns_andThen [OF learns_decoded growth.within_decoded]

lemma readPlayer_learned:
  assumes "run_state (readPlayer fd idn) st = (Inr (player, t), st')"
  obtains view where "Saw (p_ID player) view \<in> set (st_heard st')" and "v_Token view = t"
    and "credible fd idn truth (st_heard st') \<Longrightarrow> s_Player (truth t) = player" and "p_Serial player = i_Serial idn"
proof -
  obtain r st1 where r: "run_state (client_read fd ''player/get_players'' []) st = (Inr r, st1)"
    using assms by (auto simp: readPlayer_def run_simps split: prod.splits sum.splits)
  obtain view v where v: "fd_observe fd (p_ID player) (st_world st1) = (view, v)" by fastforce
  obtain players where p: "payload (fd_players fd) r = Inr players" and i: "ResolveIdentity players idn = Inr player"
    and g: "sameGlobal (v_Token view) (r_Token r)" and t: "v_Token view = t"
    and st': "st_heard st' = st_heard st1 @ [Saw (p_ID player) view]"
    using assms r v by (auto simp: readPlayer_def decoded_def run_simps split: prod.splits sum.splits if_splits)
  obtain hs where "st_heard st1 = st_heard st @ hs @ [Answered ''player/get_players'' [] r]" by (rule client_read_heard [OF r])
  then have "Answered ''player/get_players'' [] r \<in> set (st_heard st')" using st' by simp
  moreover have "sameGlobal (r_Token r) t" using g t by (auto simp: sameGlobal_def)
  ultimately have "s_Player (truth t) = player" if "credible fd idn truth (st_heard st')"
    using answered_truly [OF that, of "''player/get_players''" "[]" r t] p i
    by (simp add: spoken_at_def Values_Has_def answers_truly_def)
  moreover have "p_Serial player = i_Serial idn"
    using ResolveIdentity_filters(1) [OF i] filter_singleton_unique(2) by fastforce
  moreover have "Saw (p_ID player) view \<in> set (st_heard st')" using st' by simp
  ultimately show ?thesis using that t by blast
qed

lemma learns_readControls:
  assumes "Saw pid view \<in> A" and "v_Token view = t"
  shows "learns fd idn truth A (readControls fd t pid s) (\<lambda>s'.
    s' = s\<lparr>s_State := s_State (truth t), s_Volume := s_Volume (truth t), s_Muted := s_Muted (truth t),
           s_Repeat := s_Repeat (truth t), s_Shuffle := s_Shuffle (truth t)\<rparr>)"
  unfolding readControls_def
  by (rule learns_andThen [OF learns_steady_read [OF assms]] learns_andThen [OF learns_decoded] growth.survey_intros learns_done)+
    (simp add: answers_truly_def)

lemma learns_readQueue:
  "learns fd idn truth A (readQueue fd pid) (\<lambda>q. contents (s_Queue (truth (q_Token q))) = contents q)"
  unfolding learns_def
proof (intro allI impI)
  fix st q st'
  let ?args = "[(''pid'', [pid]), (''range'', [range_arg 0 100])]"
  assume run: "run_state (readQueue fd pid) st = (Inr q, st')" and c: "credible fd idn truth (st_heard st')"
  then obtain r where r: "run_state (client_read fd ''player/get_queue'' ?args) st = (Inr r, st')"
    and q: "\<exists>items. payload (fd_queue fd) r = Inr items \<and> queue_page 0 100 r items = Inr q"
    by (auto simp: readQueue_def Client_Queue_def run_simps split: prod.splits sum.splits if_splits)
  obtain hs where h: "st_heard st' = st_heard st @ hs @ [Answered ''player/get_queue'' ?args r]" by (rule client_read_heard [OF r])
  have "q_Token q = r_Token r" using q by (auto simp: queue_page_def split: if_splits sum.splits prod.splits)
  then show "contents (s_Queue (truth (q_Token q))) = contents q"
    using answered_truly [OF c, of "''player/get_queue''" ?args r "r_Token r"] h q
    by (auto simp: spoken_at_def answers_truly_def Values_Has_def)
qed

lemma learns_readContents:
  assumes "Saw pid view \<in> A" and "v_Token view = t"
  shows "learns fd idn truth A (readContents fd t pid s) (\<lambda>s'.
    s_Media s' = s_Media (truth t) \<and> contents (s_Queue s') = contents (s_Queue (truth (q_Token (s_Queue s')))) \<and>
    s_State s' = s_State s \<and> s_Player s' = s_Player s \<and> s_Groups s' = s_Groups s \<and> s_Grouped s' = s_Grouped s \<and>
    s_Volume s' = s_Volume s \<and> s_Muted s' = s_Muted s \<and> s_Repeat s' = s_Repeat s \<and> s_Shuffle s' = s_Shuffle s \<and>
    s_Token s' = s_Token s)"
  unfolding readContents_def
proof (intro learns_steady [OF assms] learns_decode)
  fix r media
  assume "answers_truly fd idn ''player/get_now_playing_media'' r (truth t)" and "payload (fd_media fd) r = Inr media"
  then have "s_Media (truth t) = Some media" by (simp add: answers_truly_def)
  then show "learns fd idn truth A (andThen (readQueue fd pid) (\<lambda>q. do {
       now \<leftarrow> glance (fd_now fd);
       done_with (s\<lparr>s_Media := Some media, s_MediaStale := (\<not> PlayState_Active (s_State s)), s_Queue := q,
                    s_ObservedAt := now, s_Connected := True, s_Verified := True\<rparr>)
     })) (\<lambda>s'. s_Media s' = s_Media (truth t) \<and> contents (s_Queue s') = contents (s_Queue (truth (q_Token (s_Queue s')))) \<and>
    s_State s' = s_State s \<and> s_Player s' = s_Player s \<and> s_Groups s' = s_Groups s \<and> s_Grouped s' = s_Grouped s \<and>
    s_Volume s' = s_Volume s \<and> s_Muted s' = s_Muted s \<and> s_Repeat s' = s_Repeat s \<and> s_Shuffle s' = s_Shuffle s \<and>
    s_Token s' = s_Token s)"
    by (intro learns_andThen [OF learns_readQueue growth.within_readQueue] growth.survey_intros)
      (auto simp: learns_def run_simps split: prod.splits)
qed (intro growth.survey_intros growth.within_readQueue)+

text \<open>A complete read: everything it found was so at the one token it is bound to.\<close>

definition readRest :: "'w feed \<Rightarrow> Identity \<Rightarrow> Player \<times> Token \<Rightarrow> ('w, Snapshot) survey" where
  "readRest fd idn = (\<lambda>(player, t).
     andThen (steady_read fd t (p_ID player) ''group/get_groups'' []) (\<lambda>r.
     andThen (decoded (payload (fd_groups fd) r)) (\<lambda>gs.
       if \<not> groups_named gs then fail ErrProtocol
       else andThen (readControls fd t (p_ID player)
              (zeroSnapshot\<lparr>s_Key := i_Key idn, s_Player := player, s_Groups := gs, s_Grouped := grouped player gs,
                            s_Token := t\<rparr>)) (readContents fd t (p_ID player)))))"

lemma learns_fail: "learns fd idn truth A (fail e) P"
  by (simp add: learns_def run_simps)

lemma learns_if: "(b \<Longrightarrow> learns fd idn truth A m P) \<Longrightarrow> (\<not> b \<Longrightarrow> learns fd idn truth A n P) \<Longrightarrow> learns fd idn truth A (if b then m else n) P"
  by simp

lemma learns_weaken: "learns fd idn truth A m P \<Longrightarrow> (\<And>x. P x \<Longrightarrow> Q x) \<Longrightarrow> learns fd idn truth A m Q"
  by (auto simp: learns_def)

lemma learns_readRest:
  assumes "Saw (p_ID player) view \<in> A" and "v_Token view = t" and "s_Player (truth t) = player"
  shows "learns fd idn truth A (readRest fd idn (player, t))
    (\<lambda>s. q_Token (s_Queue s) = s_Token s \<longrightarrow> matches (truth (s_Token s)) s {} False)"
  unfolding readRest_def prod.case
proof (intro learns_andThen [OF learns_group_read growth.within_steady_read] learns_decode learns_if learns_fail
    learns_andThen [OF learns_readControls [OF assms(1,2)] growth.within_readControls])
  fix r gs s
  assume "answers_truly fd idn ''group/get_groups'' r (truth t)" and "payload (fd_groups fd) r = Inr gs"
  then have g: "s_Groups (truth t) = gs" "s_Grouped (truth t) = grouped player gs"
    using assms(3) by (simp_all add: answers_truly_def)
  let ?s = "zeroSnapshot\<lparr>s_Key := i_Key idn, s_Player := player, s_Groups := gs, s_Grouped := grouped player gs, s_Token := t\<rparr>"
  assume s: "s = ?s\<lparr>s_State := s_State (truth t), s_Volume := s_Volume (truth t), s_Muted := s_Muted (truth t),
    s_Repeat := s_Repeat (truth t), s_Shuffle := s_Shuffle (truth t)\<rparr>"
  show "learns fd idn truth A (readContents fd t (p_ID player) s)
    (\<lambda>s. q_Token (s_Queue s) = s_Token s \<longrightarrow> matches (truth (s_Token s)) s {} False)"
    by (rule learns_weaken [OF learns_readContents [OF assms(1,2)]]) (auto simp: matches_def solid_def s g assms(3))
qed (intro growth.survey_intros growth.within_readControls growth.within_readContents)+

lemma readAll_true:
  assumes "run_state (readAll fd idn) st = (Inr s, st')" and "credible fd idn truth (st_heard st')"
    and "q_Token (s_Queue s) = s_Token s"
  shows "matches (truth (s_Token s)) s {} False"
proof -
  have "readAll fd idn = andThen (readPlayer fd idn) (readRest fd idn)"
    by (simp add: readAll_def readRest_def case_prod_beta)
  then obtain player t st1 where p: "run_state (readPlayer fd idn) st = (Inr (player, t), st1)"
    and r: "run_state (readRest fd idn (player, t)) st1 = (Inr s, st')"
    using assms(1) by (auto simp: run_simps split: prod.splits sum.splits)
  have g: "within grows (readRest fd idn (player, t))"
    unfolding readRest_def prod.case by (intro growth.survey_intros growth.within_readControls growth.within_readContents)
  obtain view where "Saw (p_ID player) view \<in> set (st_heard st1)" "v_Token view = t"
    "credible fd idn truth (st_heard st1) \<Longrightarrow> s_Player (truth t) = player"
    by (rule readPlayer_learned [OF p, where truth = truth]) blast
  with learnsD [OF learns_readRest r, of view "set (st_heard st1)"] credible_before [OF g r assms(2)] assms(2,3)
  show ?thesis by simp
qed

subsection \<open>Every operation keeps the snapshot true\<close>

definition heeds :: "'w feed \<Rightarrow> Identity \<Rightarrow> (Token \<Rightarrow> Snapshot) \<Rightarrow> 'w site \<Rightarrow> 'w site \<Rightarrow> bool" where
  "heeds fd idn truth st st' \<longleftrightarrow>
     grows st st' \<and>
     (credible fd idn truth (st_heard st') \<longrightarrow> sincere idn truth (st_observer st) \<longrightarrow> sincere idn truth (st_observer st'))"

lemma heedsI:
  "grows st st' \<Longrightarrow>
   (credible fd idn truth (st_heard st') \<Longrightarrow> sincere idn truth (st_observer st) \<Longrightarrow> sincere idn truth (st_observer st')) \<Longrightarrow>
   heeds fd idn truth st st'"
  by (simp add: heeds_def)

lemma heeds_trans: "heeds fd idn truth a b \<Longrightarrow> heeds fd idn truth b c \<Longrightarrow> heeds fd idn truth a c"
proof -
  assume ab: "heeds fd idn truth a b" and bc: "heeds fd idn truth b c"
  then obtain hs hs' where h: "st_heard b = st_heard a @ hs" "st_heard c = st_heard b @ hs'" by (auto simp: heeds_def grows_def)
  show ?thesis
  proof (rule heedsI)
    show "grows a c" using h by (simp add: grows_def)
    assume c: "credible fd idn truth (st_heard c)" and s: "sincere idn truth (st_observer a)"
    have "credible fd idn truth (st_heard b)" using c h(2) credible_prefix by metis
    with ab bc c s show "sincere idn truth (st_observer c)" by (simp add: heeds_def)
  qed
qed

lemma heeds_observer:
  "(sincere idn truth (st_observer st) \<Longrightarrow> sincere idn truth ob) \<Longrightarrow> heeds fd idn truth st (st\<lparr>st_observer := ob\<rparr>)"
  by (simp add: heeds_def grows_def)

lemma heeds_aside: "within (heeds fd idn truth) (aside_program fd a)"
proof (rule withinI)
  fix st x st'
  assume run: "run_state (aside_program fd a) st = (x, st')"
  let ?ob = "st_observer st"
  obtain view st1 where l: "run_state (look fd (p_ID (s_Player (ov_last ?ob)))) st = (view, st1)" by fastforce
  obtain now v2 where n: "fd_now fd (st_world st1) = (now, v2)" by fastforce
  obtain w v3 where w: "fd_write fd (p_ID (s_Player (ov_last ?ob))) v2 = (w, v3)" by fastforce
  show "heeds fd idn truth st st'"
  proof (rule heedsI)
    show "grows st st'" using withinD [OF grows_aside run] .
    assume c: "credible fd idn truth (st_heard st')" and s: "sincere idn truth ?ob"
    show "sincere idn truth (st_observer st')"
    proof (cases a)
      case (Delivered e)
      with run l n w have st': "st_observer st' = Notify view now w e ?ob" and h: "Reported ?ob w e \<in> set (st_heard st')"
        using look_heard [OF l] by (auto simp: aside_program_def run_simps)
      from credible_tells [OF c h] st' s show ?thesis by (simp add: sincere_Notify)
    next
      case (Confirmed c1)
      with run l n w have st': "st_observer st' = snd (ConfirmScalars view now w c1 ?ob)" and h: "Vouched ?ob c1 \<in> set (st_heard st')"
        using look_heard [OF l] by (auto simp: aside_program_def run_simps)
      from credible_tells [OF c h] st' s show ?thesis by (simp add: sincere_ConfirmScalars)
    qed
  qed
qed

interpretation faith: site_relation "heeds fd idn truth" fd for fd :: "'w feed" and idn truth
proof unfold_locales
  show "heeds fd idn truth a b \<Longrightarrow> heeds fd idn truth b c \<Longrightarrow> heeds fd idn truth a c" for a b c :: "'w site"
    by (rule heeds_trans)
  show "within (heeds fd idn truth) (aside_program fd a)" for a by (rule heeds_aside)
qed (simp_all add: heeds_def grows_def)

lemma heeds_learned:
  assumes "learns fd idn truth {} m P" and "within (heeds fd idn truth) m"
    and "\<And>x. within grows (f x)" and "\<And>x. P x \<Longrightarrow> within (heeds fd idn truth) (f x)"
  shows "within (heeds fd idn truth) (andThen m f)"
proof (rule withinI)
  fix st y st'
  assume run: "run_state (andThen m f) st = (y, st')"
  obtain x st1 where m: "run_state m st = (x, st1)" by fastforce
  note h = withinD [OF assms(2) m]
  show "heeds fd idn truth st st'"
  proof (cases x)
    case (Inl e)
    with run m h show ?thesis by (simp add: run_simps)
  next
    case (Inr v)
    with run m have f: "run_state (f v) st1 = (y, st')" by (simp add: run_simps)
    show ?thesis
    proof (rule heedsI)
      show "grows st st'" using h withinD [OF assms(3) f] by (auto simp: heeds_def grows_def)
      assume c: "credible fd idn truth (st_heard st')" and s: "sincere idn truth (st_observer st)"
      have c1: "credible fd idn truth (st_heard st1)" by (rule credible_before [OF assms(3) f c])
      then have "P v" using learnsD [OF assms(1)] m Inr by simp
      from heeds_trans [OF h withinD [OF assms(4) [OF this] f]] c s
      show "sincere idn truth (st_observer st')" by (simp add: heeds_def)
    qed
  qed
qed

lemma heeds_captured:
  assumes "within grows m"
    and "\<And>st x st'. run_state m st = (x, st') \<Longrightarrow> credible fd idn truth (st_heard st') \<Longrightarrow> sincere idn truth (st_observer st) \<Longrightarrow>
      sincere idn truth (st_observer st')"
  shows "within (heeds fd idn truth) m"
  using assms(2) withinD [OF assms(1)] by (auto intro!: withinI heedsI)

lemma store_keeps [simp]:
  "ov_identity (store seq s ob) = ov_identity ob" "ov_invalid (store seq s ob) = ov_invalid ob"
  "ov_mediaPending (store seq s ob) = ov_mediaPending ob" "ov_writePending (store seq s ob) = ov_writePending ob"
  "s_Token (ov_last (store seq s ob)) = s_Token s" "matches d (ov_last (store seq s ob)) P mp = matches d s P mp"
  by (auto simp: store_def playheadForMedia_def signalChanged_def Let_def split: option.splits prod.splits)

lemma sincere_store:
  "sincere idn truth ob \<Longrightarrow> matches (truth (s_Token s)) s {} False \<Longrightarrow>
   sincere idn truth ((store seq s ob)\<lparr>ov_writePending := P, ov_mediaPending := mp\<rparr>)"
  by (auto simp: sincere_def elim: matches_mono)

lemma heeds_update:
  "(\<And>ob. sincere idn truth ob \<Longrightarrow> sincere idn truth (f ob)) \<Longrightarrow> within (heeds fd idn truth) (update f)"
  by (rule faith.within_update) (simp add: heeds_observer)

lemma heeds_publish_full:
  assumes "q_Token (s_Queue s) = s_Token s \<Longrightarrow> matches (truth (s_Token s)) s {} False"
  shows "within (heeds fd idn truth) (publish_full fd s)"
  unfolding publish_full_def
  by (intro faith.survey_intros heeds_update) (use assms in \<open>auto simp: sincere_def\<close>)

lemma heeds_publish_media:
  assumes "matches (truth (s_Token s)) s {} True" and "s_Media (truth answered) = Some media"
  shows "within (heeds fd idn truth) (publish_media fd s answered media)"
proof -
  let ?s = "s\<lparr>s_Media := Some media, s_MediaStale := (\<not> PlayState_Active (s_State s)), s_EventUpdated := True\<rparr>"
  have "matches (truth (s_Token s)) ?s P False" if "answered = s_Token s" for P
    using assms that by (auto simp: matches_def solid_def)
  then show ?thesis
    unfolding publish_media_def by (intro faith.survey_intros heeds_update) (auto simp: sincere_def)
qed

lemma heeds_publish_scalars:
  assumes "matches (truth (s_Token s)) s {} False"
  shows "within (heeds fd idn truth) (publish_scalars fd before flds s)"
  unfolding publish_scalars_def
  by (intro faith.survey_intros heeds_update) (use assms in \<open>auto simp: sincere_def elim: matches_mono\<close>)

lemma heeds_publish_playback:
  assumes "matches (truth (s_Token s)) s {} False"
  shows "within (heeds fd idn truth) (publish_playback fd s)"
  unfolding publish_playback_def
  by (intro faith.survey_intros heeds_update) (use assms in \<open>auto simp: sincere_def elim: matches_mono\<close>)

lemma heeds_refreshFull: "within (heeds fd idn truth) (refreshFull fd)"
proof (rule heeds_captured [OF grows_refreshFull])
  fix st x st'
  assume run: "run_state (refreshFull fd) st = (x, st')" and c: "credible fd idn truth (st_heard st')"
    and s: "sincere idn truth (st_observer st)"
  let ?st = "st\<lparr>st_observer := invalidate (st_observer st)\<rparr>"
  have i: "ov_identity (st_observer ?st) = idn" using s by (simp add: sincere_def)
  then have r: "run_state (andThen (readAll fd idn) (publish_full fd)) ?st = (x, st')"
    using run by (simp add: refreshFull_def run_simps)
  have "learns fd idn truth {} (readAll fd idn) (\<lambda>s. q_Token (s_Queue s) = s_Token s \<longrightarrow> matches (truth (s_Token s)) s {} False)"
    using readAll_true by (fastforce simp: learns_def)
  then have "within (heeds fd idn truth) (andThen (readAll fd idn) (publish_full fd))"
    by (rule heeds_learned [OF _ faith.within_readAll grows_publish(1)]) (simp add: heeds_publish_full)
  from withinD [OF this r] c i show "sincere idn truth (st_observer st')" by (simp add: heeds_def sincere_invalid)
qed

lemma heeds_refreshMedia:
  assumes "matches (truth (s_Token s)) s {} True"
  shows "within (heeds fd idn truth) (refreshMedia fd s)"
proof -
  have "within (heeds fd idn truth) (andThen (decoded (payload (fd_media fd) r)) (publish_media fd s (r_Token r)))"
    if "answers_truly fd idn ''player/get_now_playing_media'' r (truth (r_Token r))" for r
    by (rule heeds_learned [OF learns_decoded faith.within_decoded grows_publish(2)])
      (use that assms in \<open>simp add: answers_truly_def heeds_publish_media\<close>)
  then have "within (heeds fd idn truth)
    (andThen (client_read fd ''player/get_now_playing_media'' (pid_args (p_ID (s_Player s))))
      (\<lambda>r. andThen (decoded (payload (fd_media fd) r)) (publish_media fd s (r_Token r))))"
    by (intro heeds_learned [OF learns_client_read faith.within_client_read] growth.survey_intros grows_publish)
  then show ?thesis
    unfolding refreshMedia_def
    by (rule faith.within_bind) (auto intro!: faith.survey_intros heeds_update simp: sincere_def)
qed

lemma heeds_refreshCached: "within (heeds fd idn truth) (refreshCached fd)"
proof (rule heeds_captured)
  show "within grows (refreshCached fd)"
    unfolding refreshCached_def by (intro growth.survey_intros grows_refreshFull grows_refreshMedia)
  fix st x st'
  assume run: "run_state (refreshCached fd) st = (x, st')" and c: "credible fd idn truth (st_heard st')"
    and s: "sincere idn truth (st_observer st)"
  let ?ob = "st_observer st"
  obtain view st1 where l: "run_state (look fd (p_ID (s_Player (ov_last ?ob)))) st = (view, st1)" by fastforce
  obtain now v where n: "fd_now fd (st_world st1) = (now, v)" by fastforce
  let ?st = "st1\<lparr>st_world := v\<rparr>"
  have o: "st_observer ?st = ?ob" using look_heard(2) [OF l] by simp
  have rest: "run_state (if lagging ?ob view now then fail ErrStale
     else if ov_mediaPending ?ob \<and> \<not> ov_invalid ?ob \<and> v_Connected view \<and> v_Token view = s_Token (ov_last ?ob) \<and>
             0 \<le> Sub now (s_ObservedAt (ov_last ?ob)) \<and> Sub now (s_ObservedAt (ov_last ?ob)) < min (ov_ttl ?ob) IdleObservationInterval
     then refreshMedia fd (ov_last ?ob) else refreshFull fd) ?st = (x, st')" (is "run_state (if ?lag then _ else if ?media then _ else _) _ = _")
    using run l n by (simp add: refreshCached_def run_simps)
  consider (lag) ?lag | (media) "\<not> ?lag" ?media | (full) "\<not> ?lag" "\<not> ?media" by blast
  then show "sincere idn truth (st_observer st')"
  proof cases
    case lag
    with rest s o show ?thesis by (auto simp: run_simps)
  next
    case media
    then have "ov_writePending ?ob = {}" by (auto simp: lagging_def in_age_def sameGlobal_def Let_def)
    with media s have "matches (truth (s_Token (ov_last ?ob))) (ov_last ?ob) {} True" by (auto simp: sincere_def)
    then have "within (heeds fd idn truth) (refreshMedia fd (ov_last ?ob))" by (rule heeds_refreshMedia)
    moreover have "run_state (refreshMedia fd (ov_last ?ob)) ?st = (x, st')" using rest media by simp
    ultimately have "heeds fd idn truth ?st st'" by (rule withinD)
    with c s o show ?thesis by (simp add: heeds_def)
  next
    case full
    then have "run_state (refreshFull fd) ?st = (x, st')" using rest by (simp only: if_False)
    then have "heeds fd idn truth ?st st'" by (rule withinD [OF heeds_refreshFull])
    with c s o show ?thesis by (simp add: heeds_def)
  qed
qed

lemma scalarFields_cases: "scalarFields kind = {} \<or> scalarFields kind = {observedVolume} \<or> scalarFields kind = {observedRepeat, observedShuffle}"
  by (cases kind) (auto simp: scalarFields_def)

lemma learns_readScalars:
  assumes "matches (truth t) s flds False" and "flds = {observedVolume} \<or> flds = {observedRepeat, observedShuffle}"
  shows "learns fd idn truth A (readScalars fd t flds s) (\<lambda>s'. matches (truth t) s' {} False \<and> s_Token s' = s_Token s)"
  using assms(2)
proof
  assume "flds = {observedVolume}"
  then show ?thesis
    using assms(1) unfolding readScalars_def Let_def
    by (simp, intro learns_andThen [OF learns_exact_read growth.within_exact_read] learns_decode growth.survey_intros learns_done)
      (auto simp: answers_truly_def matches_def solid_def split: if_splits)
next
  assume f: "flds = {observedRepeat, observedShuffle}"
  then have "flds \<noteq> {observedVolume}" by blast
  then show ?thesis
    using assms(1) f unfolding readScalars_def Let_def
    by (simp, intro learns_andThen [OF learns_exact_read growth.within_exact_read] learns_decode growth.survey_intros learns_done)
      (auto simp: answers_truly_def matches_def solid_def split: if_splits)
qed

lemma learns_readPlayback:
  assumes "matches (truth (s_Token s)) s {} True"
  shows "learns fd idn truth A (readPlayback fd s) (\<lambda>s'. matches (truth (s_Token s')) s' {} False)"
  using assms unfolding readPlayback_def Let_def
  by (intro learns_andThen [OF learns_exact_read growth.within_exact_read] learns_decode growth.survey_intros learns_done)
    (auto simp: answers_truly_def matches_def solid_def split: if_splits)

lemma word_one_left: "x \<le> 1 \<Longrightarrow> x \<noteq> 0 \<Longrightarrow> x = (1 :: uint64)"
  by (auto simp: word_le_nat_alt word_unat_eq_iff)

lemma token_eqI: "sameGlobal a b \<Longrightarrow> t_Player a = t_Player b \<Longrightarrow> t_Write a = t_Write b \<Longrightarrow> a = (b :: Token)"
  by (cases a, cases b) (auto simp: sameGlobal_def)

lemma scalar_baseline_true:
  assumes "scalar_readable ob view now w flds" and "flds \<noteq> {}" and "sincere idn truth ob"
    and "writes_truly truth ob (v_Token view) w"
  shows "matches (truth (v_Token view)) (ov_last ob) flds False"
proof -
  let ?t = "v_Token view" and ?before = "s_Token (ov_last ob)"
  have p: "ov_writePending ob \<subseteq> flds" and "\<not> ov_invalid ob" and "\<not> ov_mediaPending ob"
    using assms(1) by (auto simp: scalar_readable_def scalarBaselineValid_def projectionBaselineValid_def Let_def)
  then have "matches (truth ?before) (ov_last ob) (ov_writePending ob) False" using assms(3) by (simp add: sincere_def)
  then have m: "matches (truth ?before) (ov_last ob) flds False" using p by (rule matches_mono)
  have g: "sameGlobal ?t ?before" "t_Player ?t = t_Player ?before" "t_Write ?t - t_Write ?before \<le> 1"
    and w: "t_Write ?t \<noteq> t_Write ?before \<Longrightarrow> w_revision w = t_Write ?t \<and> scalarFields (m_Kind (w_mutation w)) = flds"
    using assms(1) by (auto simp: scalar_readable_def Let_def)
  show ?thesis
  proof (cases "t_Write ?t = t_Write ?before")
    case True
    with g(1,2) have "?t = ?before" by (rule token_eqI)
    with m show ?thesis by simp
  next
    case False
    then have "t_Write ?t - t_Write ?before \<noteq> 0" by simp
    with g(3) have "t_Write ?t - t_Write ?before = 1" by (rule word_one_left)
    then have "t_Write ?t = t_Write ?before + 1" by (simp add: diff_eq_eq add.commute)
    with w [OF False] g assms(2,4) have "matches (truth ?t) (truth ?before) flds False"
      by (simp add: writes_truly_def follows_write_def Let_def)
    from matches_trans [OF m this] show ?thesis by simp
  qed
qed

lemma heeds_scalarReads:
  assumes "scalarFields kind \<noteq> {}"
  shows "within (heeds fd idn truth) (scalarReads fd (scalarFields kind))"
  (is "within _ (scalarReads fd ?flds)")
proof (rule heeds_captured)
  show "within grows (scalarReads fd ?flds)"
    unfolding scalarReads_def by (intro growth.survey_intros growth.within_readScalars grows_publish)
  fix st x st'
  assume run: "run_state (scalarReads fd ?flds) st = (x, st')" and c: "credible fd idn truth (st_heard st')"
    and s: "sincere idn truth (st_observer st)"
  let ?ob = "st_observer st"
  obtain view st1 where l: "run_state (look fd (p_ID (s_Player (ov_last ?ob)))) st = (view, st1)" by fastforce
  obtain now v where n: "fd_now fd (st_world st1) = (now, v)" by fastforce
  obtain w v' where w: "fd_write fd (p_ID (s_Player (ov_last ?ob))) v = (w, v')" by fastforce
  let ?st = "st1\<lparr>st_world := v', st_heard := st_heard st1 @ [Written ?ob (v_Token view) w]\<rparr>"
  let ?m = "andThen (readScalars fd (v_Token view) ?flds ((ov_last ?ob)\<lparr>s_Token := v_Token view\<rparr>))
     (publish_scalars fd (s_Token (ov_last ?ob)) ?flds)"
  have o: "st_observer ?st = ?ob" using look_heard(2) [OF l] by simp
  have rest: "run_state (if \<not> scalar_readable ?ob view now w ?flds then fail ErrStale else ?m) ?st = (x, st')"
    using run l n w look_heard(2) [OF l] by (simp add: scalarReads_def run_simps)
  show "sincere idn truth (st_observer st')"
  proof (cases "scalar_readable ?ob view now w ?flds")
    case False
    with rest s o show ?thesis by (auto simp: run_simps)
  next
    case True
    then have r: "run_state ?m ?st = (x, st')" using rest by simp
    have "within grows ?m" by (intro growth.survey_intros growth.within_readScalars grows_publish)
    from heard_mono [OF this r] have "Written ?ob (v_Token view) w \<in> set (st_heard st')" by auto
    from credible_tells [OF c this] have "writes_truly truth ?ob (v_Token view) w" by simp
    with scalar_baseline_true [OF True assms s]
    have "matches (truth (v_Token view)) ((ov_last ?ob)\<lparr>s_Token := v_Token view\<rparr>) ?flds False" by simp
    moreover have "?flds = {observedVolume} \<or> ?flds = {observedRepeat, observedShuffle}"
      using scalarFields_cases [of kind] assms by blast
    ultimately have "within (heeds fd idn truth) ?m"
      by (intro heeds_learned [OF learns_readScalars faith.within_readScalars grows_publish(3)] heeds_publish_scalars) auto
    from withinD [OF this r] c s o show ?thesis by (simp add: heeds_def)
  qed
qed

lemma heeds_playbackReads: "within (heeds fd idn truth) (playbackReads fd)"
proof (rule heeds_captured)
  show "within grows (playbackReads fd)"
    unfolding playbackReads_def by (intro growth.survey_intros growth.within_readPlayback grows_publish)
  fix st x st'
  assume run: "run_state (playbackReads fd) st = (x, st')" and c: "credible fd idn truth (st_heard st')"
    and s: "sincere idn truth (st_observer st)"
  let ?ob = "st_observer st"
  obtain view st1 where l: "run_state (look fd (p_ID (s_Player (ov_last ?ob)))) st = (view, st1)" by fastforce
  obtain now v where n: "fd_now fd (st_world st1) = (now, v)" by fastforce
  let ?st = "st1\<lparr>st_world := v\<rparr>" and ?m = "andThen (readPlayback fd (ov_last ?ob)) (publish_playback fd)"
  let ?ready = "projectionBaselineValid ?ob (ov_last ?ob) now \<and> ov_writePending ?ob = {} \<and> v_Connected view \<and> v_Token view = s_Token (ov_last ?ob)"
  have o: "st_observer ?st = ?ob" using look_heard(2) [OF l] by simp
  have rest: "run_state (if \<not> ?ready then fail ErrStale else ?m) ?st = (x, st')"
    using run l n by (simp add: playbackReads_def run_simps)
  show "sincere idn truth (st_observer st')"
  proof (cases ?ready)
    case False
    with rest s o show ?thesis by (auto simp: run_simps)
  next
    case True
    then have r: "run_state ?m ?st = (x, st')" using rest by simp
    have "matches (truth (s_Token (ov_last ?ob))) (ov_last ?ob) {} True"
      using True s by (auto simp: projectionBaselineValid_def sincere_def elim: matches_mono)
    then have "within (heeds fd idn truth) ?m"
      by (intro heeds_learned [OF learns_readPlayback faith.within_readPlayback grows_publish(4)] heeds_publish_playback) auto
    from withinD [OF this r] c s o show ?thesis by (simp add: heeds_def)
  qed
qed

interpretation observing: observer_relation "heeds fd idn truth" fd for fd :: "'w feed" and idn truth
proof unfold_locales
  show "within (heeds fd idn truth) (refreshFull fd)" by (rule heeds_refreshFull)
  show "within (heeds fd idn truth) (refreshCached fd)" by (rule heeds_refreshCached)
  show "scalarFields kind \<noteq> {} \<Longrightarrow> within (heeds fd idn truth) (scalarReads fd (scalarFields kind))" for kind
    by (rule heeds_scalarReads)
  show "within (heeds fd idn truth) (playbackReads fd)" by (rule heeds_playbackReads)
qed (auto intro!: heeds_observer simp: sincere_def requestRefresh_def)

subsection \<open>The worth of a verified snapshot\<close>

lemma snapshot_run:
  assumes "run_state (Observer_Snapshot fd) st = (s, st')"
  obtains view now where "s = snapshot_of (st_observer st) view now"
    and "Saw (p_ID (s_Player (ov_last (st_observer st)))) view \<in> set (st_heard st')"
proof -
  obtain view st1 where l: "run_state (look fd (p_ID (s_Player (ov_last (st_observer st))))) st = (view, st1)" by fastforce
  with assms that look_heard(1) [OF l] show ?thesis
    by (auto simp: Observer_Snapshot_def run_simps split: prod.splits)
qed

lemma new_observer_sincere: "NewObserver idn ttl = Inr ob \<Longrightarrow> sincere idn truth ob"
  by (auto simp: NewObserver_def sincere_def split: if_splits)

text \<open>
  C4. A verified snapshot is true. Whatever operations an observer has gone through since it was
  made, with any notifications and confirmations beside them: if the device was credible in
  everything the observer heard, then a snapshot that is reported as verified shows the play state,
  volume, mute, repeat, shuffle, media, queue, grouping and identity of the device as they are at
  its token; that token is the one the client has for the player at that moment, on an open
  connection; the player has the configured serial number; and the complete read the snapshot goes
  back to is younger than the time to live.
\<close>

theorem verified_snapshot_true:
  assumes "NewObserver idn ttl = Inr ob"
    and "run_state (uses_of fd us) \<lparr>st_observer = ob, st_world = v, st_heard = []\<rparr> = ((), st)"
    and "run_state (Observer_Snapshot fd) st = (s, st')" and "s_Verified s"
    and "credible fd idn truth (st_heard st')"
  shows "matches (truth (s_Token s)) s {} False \<and> p_Serial (s_Player s) = i_Serial idn \<and>
    (\<exists>view now. Saw (p_ID (s_Player s)) view \<in> set (st_heard st') \<and> v_Connected view \<and> v_Token view = s_Token s \<and>
       0 \<le> Sub now (s_ObservedAt s) \<and> Sub now (s_ObservedAt s) < ov_ttl (st_observer st))"
proof -
  have "heeds fd idn truth \<lparr>st_observer = ob, st_world = v, st_heard = []\<rparr> st"
    by (rule withinD [OF observing.within_uses assms(2)])
  with credible_before [OF growth.within_Observer_Snapshot assms(3,5)] new_observer_sincere [OF assms(1)]
  have sc: "sincere idn truth (st_observer st)" by (simp add: heeds_def)
  obtain view now where s: "s = snapshot_of (st_observer st) view now"
    and view: "Saw (p_ID (s_Player (ov_last (st_observer st)))) view \<in> set (st_heard st')"
    by (rule snapshot_run [OF assms(3)])
  with assms(4) sc show ?thesis
    by (auto simp: snapshot_of_def sincere_def matches_def solid_def in_age_def Let_def)
qed

subsection \<open>An example\<close>

definition example_token :: Token where
  "example_token = \<lparr>t_Generation = 1, t_Revision = 1, t_Catalog = 0, t_Player = 2, t_Write = 0\<rparr>"

definition example_identity :: Identity where
  "example_identity = \<lparr>i_Key = ''kitchen'', i_Serial = ''S1'', i_Model = []\<rparr>"

definition example_home :: Player where
  "example_home = zeroPlayer\<lparr>p_ID := ''7'', p_Serial := ''S1''\<rparr>"

definition example_song :: Media where
  "example_song = \<lparr>md_Source = ''5'', md_ID = ''m1'', md_QueueID = ''1'', md_Song = ''song'', md_Album = [], md_Artist = []\<rparr>"

definition example_state :: Snapshot where
  "example_state = zeroSnapshot\<lparr>s_Player := example_home, s_State := PlayStatePlay, s_Volume := Some 20, s_Muted := Some False,
     s_Repeat := RepeatOff, s_Media := Some example_song,
     s_Queue := \<lparr>q_Items = [example_song], q_Total = Some 1, q_Next = None, q_Token = example_token\<rparr>\<rparr>"

definition example_reply :: "url_Values \<Rightarrow> Response" where
  "example_reply params = \<lparr>r_Command = [], r_Result = ''success'', r_Params = params, r_Payload = ''p'', r_Options = [],
     r_Event = False, r_Pending = False, r_Token = example_token\<rparr>"

definition example_replies :: "string \<Rightarrow> Response" where
  "example_replies name =
     example_reply
       (if name = ''player/get_play_state'' then [(''state'', [''play''])]
        else if name = ''player/get_volume'' then [(''level'', [''20''])]
        else if name = ''player/get_mute'' then [(''state'', [''off''])]
        else if name = ''player/get_play_mode'' then [(''repeat'', [''off'']), (''shuffle'', [''off''])]
        else if name = ''player/get_queue'' then [(''count'', [''1''])] else [])"

definition example_view :: View where
  "example_view = \<lparr>v_Token = example_token, v_Connected = True\<rparr>"

definition example_feed :: "unit feed" where
  "example_feed = \<lparr>fd_view = (\<lambda>pid v. (example_view, v)), fd_observe = (\<lambda>pid v. (example_view, v)), fd_now = (\<lambda>v. (10, v)),
     fd_write = (\<lambda>pid v. (\<lparr>w_revision = 0, w_mutation = zeroMutation\<rparr>, v)), fd_progress = (\<lambda>v. (0, v)), fd_err = (\<lambda>v. (None, v)),
     fd_gate = (\<lambda>v. (None, [], v)), fd_changed = (\<lambda>k v. (None, [], v)), fd_read = (\<lambda>name args v. (Inr (example_replies name), [], v)),
     fd_players = (\<lambda>p. Some [example_home]), fd_groups = (\<lambda>p. Some []), fd_media = (\<lambda>p. Some example_song),
     fd_queue = (\<lambda>p. Some [example_song])\<rparr>"

definition example_observer :: Observer where
  "example_observer = projr (NewObserver example_identity ObservationCacheTTL)"

definition example_site :: "unit site" where
  "example_site = \<lparr>st_observer = example_observer, st_world = (), st_heard = []\<rparr>"

lemma example_reads:
  "run_state (client_read example_feed name args) st =
     (Inr (example_replies name), st\<lparr>st_heard := st_heard st @ [Answered name args (example_replies name)]\<rparr>)"
  "run_state (look example_feed pid) st = (example_view, st\<lparr>st_heard := st_heard st @ [Saw pid example_view]\<rparr>)"
  "run_state (steady_read example_feed example_token pid name args) st =
     (Inr (example_replies name), st\<lparr>st_heard := st_heard st @ [Answered name args (example_replies name), Saw pid example_view]\<rparr>)"
  by (simp_all add: client_read_def look_def steady_read_def run_simps example_feed_def example_replies_def example_reply_def
      example_view_def sameGlobal_def)

lemma example_values:
  "payload (fd_players example_feed) (example_replies name) = Inr [example_home]"
  "payload (fd_groups example_feed) (example_replies name) = Inr []"
  "payload (fd_media example_feed) (example_replies name) = Inr example_song"
  "payload (fd_queue example_feed) (example_replies name) = Inr [example_song]"
  "ResolveIdentity [example_home] example_identity = Inr example_home"
  "state_of (example_replies ''player/get_play_state'') = Inr PlayStatePlay"
  "level_of (example_replies ''player/get_volume'') = Inr 20"
  "switch_of (example_replies ''player/get_mute'') ''state'' = Inr False"
  "repeat_of (example_replies ''player/get_play_mode'') = Inr RepeatOff"
  "switch_of (example_replies ''player/get_play_mode'') ''shuffle'' = Inr False"
  "queue_page 0 100 (example_replies ''player/get_queue'') [example_song] =
     Inr \<lparr>q_Items = [example_song], q_Total = Some 1, q_Next = None, q_Token = example_token\<rparr>"
  by (simp_all add: payload_def example_feed_def example_replies_def example_reply_def) code_simp+

definition example_fresh :: Snapshot where
  "example_fresh = zeroSnapshot\<lparr>s_Key := ''kitchen'', s_Player := example_home, s_Token := example_token, s_State := PlayStatePlay,
     s_Volume := Some 20, s_Muted := Some False, s_Repeat := RepeatOff, s_Shuffle := False, s_Media := Some example_song,
     s_MediaStale := False, s_Queue := \<lparr>q_Items = [example_song], q_Total = Some 1, q_Next = None, q_Token = example_token\<rparr>,
     s_ObservedAt := 10, s_Connected := True, s_Verified := True\<rparr>"

definition example_log :: "heard list" where
  "example_log =
     [Answered ''player/get_players'' [] (example_replies ''player/get_players''), Saw ''7'' example_view,
      Answered ''group/get_groups'' [] (example_replies ''group/get_groups''), Saw ''7'' example_view,
      Answered ''player/get_play_state'' (pid_args ''7'') (example_replies ''player/get_play_state''), Saw ''7'' example_view,
      Answered ''player/get_volume'' (pid_args ''7'') (example_replies ''player/get_volume''), Saw ''7'' example_view,
      Answered ''player/get_mute'' (pid_args ''7'') (example_replies ''player/get_mute''), Saw ''7'' example_view,
      Answered ''player/get_play_mode'' (pid_args ''7'') (example_replies ''player/get_play_mode''), Saw ''7'' example_view,
      Answered ''player/get_now_playing_media'' (pid_args ''7'') (example_replies ''player/get_now_playing_media''), Saw ''7'' example_view,
      Answered ''player/get_queue'' [(''pid'', [''7'']), (''range'', [range_arg 0 100])] (example_replies ''player/get_queue'')]"

lemma example_ports:
  "fd_observe example_feed pid v = (example_view, v)" "fd_now example_feed v = (10, v)" "fd_progress example_feed v = (0, v)"
  "fd_gate example_feed v = (None, [], v)" "v_Connected example_view" "v_Token example_view = example_token"
  "r_Token (example_replies name) = example_token" "p_ID example_home = ''7''" "MaxBrowseItems = 10000"
  "i_Key example_identity = ''kitchen''" "i_Serial example_identity = ''S1''" "p_GroupID example_home = []" "p_Serial example_home = ''S1''"
  by (simp_all add: example_identity_def zeroPlayer_def example_feed_def example_view_def example_replies_def example_reply_def example_home_def MaxBrowseItems_def)

lemma example_readAll:
  "run_state (readAll example_feed example_identity) st = (Inr example_fresh, st\<lparr>st_heard := st_heard st @ example_log\<rparr>)"
  by (simp add: readAll_def readPlayer_def readControls_def readContents_def readQueue_def Client_Queue_def decoded_def run_simps
      example_reads example_values example_ports sameGlobal_def groups_named_def grouped_def example_log_def example_fresh_def
      pid_args_def, simp add: zeroSnapshot_def)

definition example_ready :: Observer where
  "example_ready = (store 0 example_fresh (invalidate example_observer))
     \<lparr>ov_progressAfter := 0, ov_invalid := False, ov_mediaPending := False, ov_writePending := {}\<rparr>"

definition example_later :: "unit site" where
  "example_later = \<lparr>st_observer = example_ready, st_world = (), st_heard = example_log @ [Saw ''7'' example_view]\<rparr>"

lemma example_observer_fields:
  "NewObserver example_identity ObservationCacheTTL = Inr example_observer" "ov_identity example_observer = example_identity"
  "ov_ttl example_observer = ObservationCacheTTL"
  by (simp_all add: example_observer_def NewObserver_def example_identity_def ObservationCacheTTL_def IdleObservationInterval_def duration_defs)

lemma example_fresh_fields:
  "s_Token example_fresh = example_token" "q_Token (s_Queue example_fresh) = example_token" "s_Player example_fresh = example_home"
  "s_ObservedAt example_fresh = 10"
  by (simp_all add: example_fresh_def)

lemma example_refreshed: "run_state (uses_of example_feed [Refreshing]) example_site = ((), example_later)"
  by (simp add: Refresh_def refresh_def gated_def refreshFull_def publish_full_def run_simps example_readAll example_reads example_ports
      example_site_def example_later_def example_ready_def example_observer_fields example_fresh_fields)

lemma example_ready_last:
  "ov_last example_ready = example_fresh" "ov_identity example_ready = example_identity" "ov_ttl example_ready = ObservationCacheTTL"
  "\<not> ov_invalid example_ready" "\<not> ov_mediaPending example_ready" "ov_writePending example_ready = {}"
  by (simp_all add: example_ready_def store_def playheadForMedia_def example_observer_def NewObserver_def example_identity_def
      ObservationCacheTTL_def IdleObservationInterval_def duration_defs invalidate_def signalChanged_def example_fresh_def zeroSnapshot_def)

definition example_seen :: Snapshot where
  "example_seen = snapshot_of example_ready example_view 10"

lemma example_looked:
  "run_state (Observer_Snapshot example_feed) example_later =
     (example_seen, example_later\<lparr>st_heard := example_log @ [Saw ''7'' example_view, Saw ''7'' example_view]\<rparr>)"
  by (simp add: Observer_Snapshot_def run_simps example_reads example_ports example_later_def example_ready_last example_fresh_fields
      example_seen_def)

lemma example_seen_fields: "s_Verified example_seen" "s_Token example_seen = example_token" "s_Player example_seen = example_home"
  by (simp_all add: example_seen_def snapshot_of_def example_ready_last example_ports example_fresh_fields in_age_def Sub_def maxDuration_def minDuration_def
      ObservationCacheTTL_def IdleObservationInterval_def duration_defs)

lemma example_credible:
  "credible example_feed example_identity (\<lambda>t. example_state) (example_log @ [Saw ''7'' example_view, Saw ''7'' example_view])"
proof -
  have "sorted_wrt older (tokens pid (example_log @ [Saw ''7'' example_view, Saw ''7'' example_view]))" for pid
    by (simp add: example_log_def pid_args_def Values_Has_def Values_Get_def Values_All_def example_ports older_def)
  moreover have "list_all (tells example_feed example_identity (\<lambda>t. example_state)) (example_log @ [Saw ''7'' example_view, Saw ''7'' example_view])"
    by (simp add: example_log_def answers_truly_def example_values example_state_def grouped_def example_ports zeroSnapshot_def contents_def)
  ultimately show ?thesis by (simp add: credible_def)
qed

theorem verified_snapshot_true_witness:
  "s_Verified example_seen \<and> matches example_state example_seen {} False \<and> s_Volume example_state = Some 20"
  using verified_snapshot_true [OF example_observer_fields(1) example_refreshed [unfolded example_site_def] example_looked
      example_seen_fields(1), where truth = "\<lambda>t. example_state"] example_credible
  by (simp add: example_seen_fields example_state_def)

end
