(* ===== verification/Polling.thy ===== *)
theory Polling
  imports Observers
begin

section \<open>A well-formed and untiring observer\<close>

text \<open>
  Two properties of the observer that hold whatever the device says: a snapshot that is not known to
  be invalid is complete and within its ranges, with a playhead that belongs to its media; and the
  observation loop always has its next read scheduled.
\<close>

subsection \<open>Complete snapshots\<close>

definition of_media :: "Playhead \<Rightarrow> Media \<Rightarrow> bool" where
  "of_media ph m \<longleftrightarrow>
     0 \<le> ph_PositionMS ph \<and> (ph_DurationMS ph = 0 \<or> ph_PositionMS ph \<le> ph_DurationMS ph) \<and>
     ph_Source ph = md_Source m \<and> ph_Media ph = md_ID m \<and> ph_Queue ph = md_QueueID m"

definition playhead_bound :: "Snapshot \<Rightarrow> bool" where
  "playhead_bound s \<longleftrightarrow>
     (\<forall>ph. s_Playhead s = Some ph \<longrightarrow> PlayState_Active (s_State s) \<and> (\<exists>m. s_Media s = Some m \<and> of_media ph m))"

definition complete :: "Identity \<Rightarrow> Snapshot \<Rightarrow> bool" where
  "complete idn s \<longleftrightarrow>
     p_ID (s_Player s) \<noteq> [] \<and> p_Serial (s_Player s) = i_Serial idn \<and> PlayState_Known (s_State s) \<and> Repeat_Known (s_Repeat s) \<and>
     (case s_Volume s of None \<Rightarrow> False | Some v \<Rightarrow> 0 \<le> v \<and> v \<le> 100) \<and> s_Muted s \<noteq> None \<and> s_Media s \<noteq> None \<and>
     s_Grouped s = grouped (s_Player s) (s_Groups s)"

definition well_formed :: "Identity \<Rightarrow> Observer \<Rightarrow> bool" where
  "well_formed idn ob \<longleftrightarrow>
     ov_identity ob = idn \<and> playhead_bound (ov_last ob) \<and> (\<not> ov_invalid ob \<longrightarrow> complete idn (ov_last ob))"

lemma complete_irrelevant [simp]:
  "complete idn (s\<lparr>s_Token := t\<rparr>) = complete idn s" "complete idn (s\<lparr>s_Playhead := ph\<rparr>) = complete idn s"
  "complete idn (s\<lparr>s_EventUpdated := b\<rparr>) = complete idn s" "complete idn (s\<lparr>s_MediaStale := b\<rparr>) = complete idn s"
  by (simp_all add: complete_def)

lemma playhead_bound_irrelevant [simp]:
  "playhead_bound (s\<lparr>s_Token := t\<rparr>) = playhead_bound s" "playhead_bound (s\<lparr>s_EventUpdated := b\<rparr>) = playhead_bound s"
  "playhead_bound (s\<lparr>s_MediaStale := b\<rparr>) = playhead_bound s" "playhead_bound (s\<lparr>s_Playhead := None\<rparr>)"
  "playhead_bound (s\<lparr>s_Volume := v, s_Muted := m, s_Repeat := r, s_Shuffle := h\<rparr>) = playhead_bound s"
  by (simp_all add: playhead_bound_def)

lemma well_formed_signals [simp]:
  "well_formed idn (signalChanged ob) = well_formed idn ob" "well_formed idn (requestRefresh ob) = well_formed idn ob"
  "well_formed idn (ob\<lparr>ov_wake := b\<rparr>) = well_formed idn ob" "well_formed idn (ob\<lparr>ov_writePending := P\<rparr>) = well_formed idn ob"
  "well_formed idn (ob\<lparr>ov_mediaPending := b\<rparr>) = well_formed idn ob" "well_formed idn (ob\<lparr>ov_progressAfter := k\<rparr>) = well_formed idn ob"
  by (simp_all add: well_formed_def signalChanged_def requestRefresh_def)

lemma well_formed_invalidate: "well_formed idn ob \<Longrightarrow> well_formed idn (invalidate ob)"
  by (simp add: well_formed_def invalidate_def signalChanged_def)

lemma applyObservedEvent_complete:
  assumes "applyObservedEvent s e = Some s'"
  shows "complete idn s \<Longrightarrow> complete idn s'" and "playhead_bound s \<Longrightarrow> playhead_bound s'"
proof -
  have "d_Valid (Event_Data e)" using assms by (auto simp: applyObservedEvent_def Let_def split: if_splits)
  from valid_event_fields [OF this] have d: "event_complete (Event_Data e)" by simp
  show "complete idn s \<Longrightarrow> complete idn s'"
    using assms d
    by (cases "d_Kind (Event_Data e)"; clarsimp simp: applyObservedEvent_def complete_def event_complete_def Let_def split: if_splits)
  have "PlayState_Active (d_State (Event_Data e)) \<or> d_State (Event_Data e) = PlayStateStop \<or> d_State (Event_Data e) = PlayStateUnknown"
    if "d_Kind (Event_Data e) = EventState"
    using d that by (cases "d_State (Event_Data e)") (simp_all add: event_complete_def)
  then show "playhead_bound s \<Longrightarrow> playhead_bound s'"
    using assms
    by (cases "d_Kind (Event_Data e)") (auto simp: applyObservedEvent_def playhead_bound_def Let_def split: if_splits)
qed

lemma well_formed_consume: "well_formed idn ob \<Longrightarrow> well_formed idn (consume view now w e ob)"
  unfolding consume_def Let_def
  by (auto simp: well_formed_def signalChanged_def requestRefresh_def invalidate_def contiguous_def Let_def
      dest: applyObservedEvent_complete split: option.splits if_splits)

lemma well_formed_recordProgress:
  assumes "well_formed idn ob" and "d_Valid (Event_Data e)" and "d_HasProgress (Event_Data e)"
  shows "well_formed idn (recordProgress view now e ob)"
proof -
  have "event_complete (Event_Data e)" using valid_event_fields [OF assms(2)] by simp
  with assms show ?thesis
    by (auto simp: recordProgress_def progressRecordable_def well_formed_def playhead_bound_def playhead_at_def
        of_media_def event_complete_def Let_def)
qed

lemma well_formed_Notify: "well_formed idn ob \<Longrightarrow> well_formed idn (Notify view now w e ob)"
  unfolding Notify_def Let_def by (simp add: well_formed_consume well_formed_recordProgress)

lemma well_formed_ConfirmScalars: "well_formed idn ob \<Longrightarrow> well_formed idn (snd (ConfirmScalars view now w s ob))"
  by (auto simp: ConfirmScalars_def well_formed_def signalChanged_def complete_def Let_def split: option.splits)

lemma store_bound: "playhead_bound (ov_last ob) \<Longrightarrow> playhead_bound (ov_last (store seq s ob))"
  by (auto simp: store_def playheadForMedia_def playhead_bound_def of_media_def signalChanged_def Let_def
      split: option.splits prod.splits if_splits)

lemma store_complete [simp]:
  "complete idn (ov_last (store seq s ob)) = complete idn s" "ov_identity (store seq s ob) = ov_identity ob"
  "ov_invalid (store seq s ob) = ov_invalid ob"
  by (auto simp: store_def playheadForMedia_def signalChanged_def Let_def split: option.splits prod.splits)

lemma well_formed_store:
  "well_formed idn ob \<Longrightarrow> complete idn s \<Longrightarrow> well_formed idn (store seq s ob)"
  by (simp add: well_formed_def store_bound)

subsection \<open>Every operation keeps them\<close>

definition keeps_form :: "Identity \<Rightarrow> 'w site \<Rightarrow> 'w site \<Rightarrow> bool" where
  "keeps_form idn st st' \<longleftrightarrow> (well_formed idn (st_observer st) \<longrightarrow> well_formed idn (st_observer st'))"

lemma form_aside: "within (keeps_form idn) (aside_program fd a)"
  by (rule withinI)
    (auto simp: aside_program_def look_def run_simps keeps_form_def well_formed_Notify well_formed_ConfirmScalars
      split: prod.splits aside.splits)

interpretation form: site_relation "keeps_form idn" fd for fd :: "'w feed" and idn
  by unfold_locales (auto simp: keeps_form_def form_aside)

lemma form_update: "(\<And>ob. well_formed idn ob \<Longrightarrow> well_formed idn (f ob)) \<Longrightarrow> within (keeps_form idn) (update f)"
  by (rule form.within_update) (simp add: keeps_form_def)

lemma returns_decoded: "(\<And>v. x = Inr v \<Longrightarrow> P v) \<Longrightarrow> returns (decoded x) (\<lambda>v st. P v)"
  by (simp add: returns_def decoded_def)

text \<open>What the controls and the contents of a complete read are.\<close>

definition controlled :: "Snapshot \<Rightarrow> bool" where
  "controlled s \<longleftrightarrow>
     PlayState_Known (s_State s) \<and> Repeat_Known (s_Repeat s) \<and>
     (case s_Volume s of None \<Rightarrow> False | Some v \<Rightarrow> 0 \<le> v \<and> v \<le> 100) \<and> s_Muted s \<noteq> None"

lemma decoded_ranges:
  "state_of r = Inr st \<Longrightarrow> PlayState_Known st" "repeat_of r = Inr rp \<Longrightarrow> Repeat_Known rp"
  "level_of r = Inr v \<Longrightarrow> 0 \<le> v \<and> v \<le> 100"
  by (auto simp: state_of_def repeat_of_def level_of_def Let_def split: if_splits option.splits)

lemma returns_readControls:
  "returns (readControls fd t pid s)
     (\<lambda>s' st. controlled s' \<and> s_Player s' = s_Player s \<and> s_Groups s' = s_Groups s \<and> s_Grouped s' = s_Grouped s)"
  unfolding readControls_def
  by (intro returns_andThen returns_seq [OF returns_decoded [OF decoded_ranges(1)]]
      returns_seq [OF returns_decoded [OF decoded_ranges(2)]] returns_seq [OF returns_decoded [OF decoded_ranges(3)]] returns_done)
    (auto simp: controlled_def)

lemma returns_readContents:
  "controlled s \<Longrightarrow> returns (readContents fd t pid s)
     (\<lambda>s' st. controlled s' \<and> s_Media s' \<noteq> None \<and> s_Player s' = s_Player s \<and> s_Groups s' = s_Groups s \<and> s_Grouped s' = s_Grouped s)"
  unfolding readContents_def by (intro returns_andThen returns_bind returns_done) (simp add: controlled_def)

lemma returns_readPlayer:
  "returns (readPlayer fd idn) (\<lambda>(p, t) st. p_ID p \<noteq> [] \<and> p_Serial p = i_Serial idn)"
proof -
  have "p_ID p \<noteq> [] \<and> p_Serial p = i_Serial idn" if "ResolveIdentity ps idn = Inr p" for ps p
    using ResolveIdentity_filters(1,3) [OF that] filter_singleton_unique(2) by fastforce
  then show ?thesis
    unfolding readPlayer_def
    by (intro returns_andThen returns_seq [OF returns_decoded] returns_bind returns_if returns_fail returns_done) auto
qed

lemma returns_readAll: "returns (readAll fd idn) (\<lambda>s st. complete idn s)"
proof -
  have "returns (case pt of (player, t) \<Rightarrow>
     andThen (steady_read fd t (p_ID player) ''group/get_groups'' []) (\<lambda>r.
     andThen (decoded (payload (fd_groups fd) r)) (\<lambda>gs.
       if \<not> groups_named gs then fail ErrProtocol
       else andThen (readControls fd t (p_ID player)
              (zeroSnapshot\<lparr>s_Key := i_Key idn, s_Player := player, s_Groups := gs, s_Grouped := grouped player gs,
                            s_Token := t\<rparr>)) (readContents fd t (p_ID player))))) (\<lambda>s st. complete idn s)"
    if "case pt of (p, t) \<Rightarrow> p_ID p \<noteq> [] \<and> p_Serial p = i_Serial idn" for pt
    using that
    by (cases pt)
      (auto intro!: returns_andThen returns_fail returns_seq [OF returns_readControls] returns_weaken [OF returns_readContents]
        simp: complete_def controlled_def)
  then show ?thesis
    unfolding readAll_def by (rule returns_seq [OF returns_weaken [OF returns_readPlayer]]) (auto split: prod.splits)
qed

lemma form_publish:
  assumes "complete idn s"
  shows "within (keeps_form idn) (publish_full fd s)" "within (keeps_form idn) (publish_media fd s t m)"
    "within (keeps_form idn) (publish_scalars fd before flds s)" "within (keeps_form idn) (publish_playback fd s)"
proof -
  have "complete idn (s\<lparr>s_Media := Some m, s_MediaStale := (\<not> PlayState_Active (s_State s)), s_EventUpdated := True\<rparr>)"
    using assms by (simp add: complete_def)
  then show "within (keeps_form idn) (publish_media fd s t m)"
    unfolding publish_media_def by (intro form.survey_intros form_update) (simp add: well_formed_store)
  show "within (keeps_form idn) (publish_full fd s)" "within (keeps_form idn) (publish_scalars fd before flds s)"
    "within (keeps_form idn) (publish_playback fd s)"
    unfolding publish_full_def publish_scalars_def publish_playback_def
    by (intro form.survey_intros form_update; use assms in \<open>simp add: well_formed_def store_bound\<close>)+
qed

lemma form_captured:
  assumes "\<And>ob. well_formed idn ob \<Longrightarrow> within (keeps_form idn) (f ob)"
  shows "within (keeps_form idn) (State_Monad.bind observer f)"
proof (rule withinI)
  fix st x st'
  assume "run_state (State_Monad.bind observer f) st = (x, st')"
  then have "run_state (f (st_observer st)) st = (x, st')" by (simp add: run_simps)
  then show "keeps_form idn st st'" using withinD [OF assms] by (fastforce simp: keeps_form_def)
qed

lemma form_refreshFull: "within (keeps_form idn) (refreshFull fd)"
  unfolding refreshFull_def
  by (intro form.within_bind form_captured form_update well_formed_invalidate)
    (auto intro!: form.within_returned [OF returns_readAll form.within_readAll] form_publish simp: well_formed_def)

lemma form_refreshMedia: "complete idn s \<Longrightarrow> within (keeps_form idn) (refreshMedia fd s)"
  unfolding refreshMedia_def
  by (intro form.survey_intros form_publish form_update) (simp_all add: well_formed_invalidate)

lemma form_refreshCached: "within (keeps_form idn) (refreshCached fd)"
  unfolding refreshCached_def
  by (intro form_captured form.survey_intros form_refreshFull form_refreshMedia) (simp add: well_formed_def)

lemma complete_scalars:
  "complete idn s \<Longrightarrow> returns (readScalars fd t flds s) (\<lambda>s' st. complete idn s')"
  unfolding readScalars_def Let_def
  by (intro returns_if returns_andThen returns_seq [OF returns_decoded] returns_done)
    (auto simp: complete_def dest: decoded_ranges split: if_splits)

lemma form_scalarReads: "within (keeps_form idn) (scalarReads fd flds)"
  unfolding scalarReads_def
  by (intro form_captured form.within_bind form.within_look form.within_glance form.within_hear form.within_if form.within_fail
      form.within_returned [OF complete_scalars form.within_readScalars] form_publish)
    (simp_all add: well_formed_def scalar_readable_def scalarBaselineValid_def projectionBaselineValid_def Let_def)

lemma complete_playback:
  "complete idn s \<Longrightarrow> returns (readPlayback fd s) (\<lambda>s' st. complete idn s')"
  unfolding readPlayback_def Let_def
  by (intro returns_andThen returns_seq [OF returns_decoded] returns_done)
    (auto simp: complete_def dest: decoded_ranges split: if_splits)

lemma form_playbackReads: "within (keeps_form idn) (playbackReads fd)"
  unfolding playbackReads_def
  by (intro form_captured form.within_bind form.within_look form.within_glance form.within_if form.within_fail
      form.within_returned [OF complete_playback form.within_readPlayback] form_publish)
    (simp_all add: well_formed_def projectionBaselineValid_def)

interpretation forming: observer_relation "keeps_form idn" fd for fd :: "'w feed" and idn
  by unfold_locales
    (auto simp: keeps_form_def well_formed_invalidate intro: form_refreshFull form_refreshCached form_scalarReads form_playbackReads)

text \<open>
  C29. Snapshots are well formed. Whatever operations an observer has gone through and whatever the
  device answered and notified: a snapshot that is not stale has the configured serial number, a
  named player, a known play state and repeat mode, a volume within 0 and 100, a mute value and a
  media entry, and says that the player is grouped exactly when its group or any group it lists says
  so; and a playhead, stale or not, lies within its duration, belongs to the media the snapshot shows
  and is shown only while that plays or is paused.
\<close>

theorem snapshot_well_formed:
  "case NewObserver idn ttl of
     Inl e \<Rightarrow> e = ErrIdentity
   | Inr ob \<Rightarrow>
       (let st = snd (run_state (uses_of fd us) \<lparr>st_observer = ob, st_world = v, st_heard = []\<rparr>);
            s = fst (run_state (Observer_Snapshot fd) st)
        in (if s_Stale s then True else complete idn s) \<and> playhead_bound s)"
proof (cases "NewObserver idn ttl")
  case (Inl e)
  then show ?thesis by (simp add: NewObserver_def split: if_splits)
next
  case (Inr ob)
  then have wf: "well_formed idn ob"
    by (auto simp: NewObserver_def well_formed_def playhead_bound_def zeroSnapshot_def split: if_splits)
  let ?st = "snd (run_state (uses_of fd us) \<lparr>st_observer = ob, st_world = v, st_heard = []\<rparr>)"
  have "keeps_form idn \<lparr>st_observer = ob, st_world = v, st_heard = []\<rparr> ?st"
    by (rule withinD [OF forming.within_uses]) (rule prod.collapse [symmetric])
  with wf have "well_formed idn (st_observer ?st)" by (simp add: keeps_form_def)
  moreover have "\<exists>view now. fst (run_state (Observer_Snapshot fd) ?st) = snapshot_of (st_observer ?st) view now"
    by (auto simp: Observer_Snapshot_def look_def run_simps split: prod.splits)
  ultimately show ?thesis
    using Inr by (auto simp: snapshot_of_def well_formed_def complete_def playhead_bound_def Let_def)
qed

subsection \<open>The loop\<close>

text \<open>The next complete or pending read is always scheduled, and failures are retried with a bounded delay.\<close>

definition armed :: "loop \<Rightarrow> bool" where
  "armed lp \<longleftrightarrow>
     Second \<le> lp_retry lp \<and> lp_retry lp \<le> 30 * Second \<and>
     (case lp_refresh lp of
        None \<Rightarrow> False
      | Some d \<Rightarrow>
          if lp_recovering lp then \<not> lp_pending lp \<and> lp_heartbeat lp = None \<and> Second \<le> d \<and> d \<le> 30 * Second
          else lp_heartbeat lp \<noteq> None \<and> 0 \<le> d \<and> (if lp_pending lp then d \<le> observationDebounce else True))"

definition rearms :: "('w site, loop) state \<Rightarrow> bool" where
  "rearms m \<longleftrightarrow> (\<forall>st. armed (fst (run_state m st)))"

lemma rearms_bind: "(\<And>x. rearms (f x)) \<Longrightarrow> rearms (State_Monad.bind m f)"
  by (simp add: rearms_def split: prod.splits)

lemma rearms_then:
  assumes "rearms m" and "\<And>lp. armed lp \<Longrightarrow> rearms (f lp)"
  shows "rearms (State_Monad.bind m f)"
  unfolding rearms_def
proof
  fix st
  obtain lp st' where m: "run_state m st = (lp, st')" by fastforce
  with assms(1) have "armed lp" unfolding rearms_def by (metis fst_conv)
  with assms(2) m show "armed (fst (run_state (State_Monad.bind m f) st))" by (simp add: rearms_def)
qed

lemma rearms_return: "armed lp \<Longrightarrow> rearms (State_Monad.return lp)"
  by (simp add: rearms_def)

lemma rearms_if: "(b \<Longrightarrow> rearms m) \<Longrightarrow> (\<not> b \<Longrightarrow> rearms n) \<Longrightarrow> rearms (if b then m else n)"
  by simp

lemma rearms_case: "(\<And>e. rearms (f e)) \<Longrightarrow> (\<And>y. rearms (g y)) \<Longrightarrow> rearms (case_sum f g x)"
  by (cases x) auto

lemma rearms_Let: "rearms (f x) \<Longrightarrow> rearms (Let x f)"
  by simp

lemmas rearms_intros = rearms_bind rearms_return rearms_if rearms_case rearms_Let

lemma rearms_schedule: "Second \<le> lp_retry lp \<Longrightarrow> lp_retry lp \<le> 30 * Second \<Longrightarrow> rearms (schedule fd interval x lp)"
  unfolding schedule_def
  by (intro rearms_intros) (auto simp: armed_def Second_def observationDebounce_def Millisecond_def)

lemma rearms_turn:
  assumes "armed lp" and "may_wake lp w"
  shows "rearms (turn fd interval w lp)"
proof (cases w)
  case Woken
  show ?thesis
    unfolding Woken turn.simps
    by (intro rearms_intros) (use assms in \<open>auto simp: armed_def observationDebounce_def Millisecond_def split: option.splits\<close>)
next
  case RefreshFired
  show ?thesis
    unfolding RefreshFired turn.simps by (intro rearms_intros rearms_schedule) (use assms in \<open>auto simp: armed_def\<close>)
next
  case HeartbeatFired
  show ?thesis
    unfolding HeartbeatFired turn.simps beat_def
    by (intro rearms_intros rearms_schedule)
      (use assms HeartbeatFired in \<open>auto simp: armed_def may_wake_def split: option.splits if_splits\<close>)
qed

lemma rearms_rounds: "armed lp \<Longrightarrow> rearms (rounds fd interval ws lp)"
proof (induction ws arbitrary: lp)
  case (Cons w ws)
  have "rearms (if may_wake lp w then turn fd interval w lp else State_Monad.return lp)"
    by (intro rearms_intros rearms_turn Cons.prems)
  then show ?case unfolding rounds.simps by (rule rearms_then) (rule Cons.IH)
qed (simp add: rearms_return)

text \<open>
  C30. The observer never stops observing. After any number of rounds of its loop, whatever the
  device answered, a next read is scheduled: in at most thirty seconds while the device fails, with
  a delay that doubles from one second and no heartbeat beside it, and a quarter of a second after
  the notification that made the snapshot stale, however many follow; otherwise the heartbeat is
  armed too. Only an interval out of its bounds is refused.
\<close>

theorem observer_keeps_polling:
  "case fst (run_state (Run fd interval ws) st) of
     Inl e \<Rightarrow> e = ErrBounds \<and> (if 100 * Millisecond \<le> interval then IdleObservationInterval < interval else True)
   | Inr lp \<Rightarrow> armed lp"
proof (cases "interval < 100 * Millisecond \<or> interval > IdleObservationInterval")
  case True
  then show ?thesis by (auto simp: Run_def startLoop_def run_simps)
next
  case False
  let ?lp = "\<lparr>lp_pending = False, lp_recovering = False, lp_retry = Second, lp_refresh = Some interval, lp_heartbeat = Some observationHeartbeat\<rparr>"
  obtain x st1 where r: "run_state (Refresh fd) st = (x, st1)" by fastforce
  obtain lp st2 where s: "run_state (schedule fd interval x ?lp) st1 = (lp, st2)" by fastforce
  have "rearms (schedule fd interval x ?lp)" by (rule rearms_schedule) (simp_all add: Second_def)
  then have "armed lp" using s unfolding rearms_def by (metis fst_conv)
  then have "rearms (rounds fd interval ws lp)" by (rule rearms_rounds)
  moreover have "fst (run_state (Run fd interval ws) st) = Inr (fst (run_state (rounds fd interval ws lp) st2))"
    using False r s by (auto simp: Run_def startLoop_def run_simps split: prod.splits)
  ultimately show ?thesis by (simp add: rearms_def)
qed

end
