(* ===== verification/Histories.thy ===== *)
theory Histories
  imports Journal "HOL-Library.Multiset"
begin

section \<open>Pages of the operation history\<close>

text \<open>
  \<open>internal/journal/history.go\<close> with its statement \<open>ListOperationHistory\<close>, and the cursor of
  \<open>internal/api/history.go\<close>: a reader walks the operations it may see, newest first, page by page. The
  order of identifiers is the one the journal's other statements use. Times are instants in UTC;
  PostgreSQL keeps them in microseconds.
\<close>

subsection \<open>The query\<close>

fun JState_string :: "JState \<Rightarrow> string" where
  "JState_string Accepted = ''accepted''"
| "JState_string Running = ''running''"
| "JState_string Succeeded = ''succeeded''"
| "JState_string Failed = ''failed''"
| "JState_string Cancelled = ''cancelled''"
| "JState_string Released = ''released''"
| "JState_string Interrupted = ''interrupted''"
| "JState_string OpUncertain = ''uncertain''"

record HistoryPosition =
  hp_CreatedAt :: time
  hp_ID :: string

record HistoryQuery =
  hq_Principal :: string
  hq_Operator :: bool
  hq_Players :: "string list"
  hq_Player :: string
  hq_State :: string
  hq_Kind :: string
  hq_Delivery :: string
  hq_CreatedFrom :: "time option"
  hq_CreatedBefore :: "time option"
  hq_Before :: "HistoryPosition option"
  hq_Limit :: int

record HistoryPage =
  hg_Items :: "Operation list"
  hg_Next :: "HistoryPosition option"

definition Microsecond :: duration where
  "Microsecond = 1000"

text \<open>The first instant of the year 10000.\<close>

definition year10000 :: time where
  "year10000 = 3652059 * 24 * Hour"

definition historyTimeValid :: "time \<Rightarrow> bool" where
  "historyTimeValid t \<longleftrightarrow> \<not> IsZero t \<and> 0 \<le> t \<and> t < year10000"

definition states :: "JState list" where
  "states = [Accepted, Running, Succeeded, Failed, Cancelled, Released, Interrupted, OpUncertain]"

definition deliveries :: "string list" where
  "deliveries = [''confirmed'', ''rejected'', ''not_sent'', ''unknown'']"

definition opt_all :: "('a \<Rightarrow> bool) \<Rightarrow> 'a option \<Rightarrow> bool" where
  "opt_all p x = (case x of None \<Rightarrow> True | Some y \<Rightarrow> p y)"

definition scope_valid :: "HistoryQuery \<Rightarrow> bool" where
  "scope_valid q \<longleftrightarrow>
     textWithin (hq_Principal q) 256 \<and> length (hq_Players q) \<le> 16 \<and> 1 \<le> hq_Limit q \<and> hq_Limit q \<le> 100 \<and>
     list_all (\<lambda>p. textWithin p 256) (hq_Players q) \<and>
     (hq_Player q = [] \<or> textWithin (hq_Player q) 256)"

definition filters_valid :: "HistoryQuery \<Rightarrow> bool" where
  "filters_valid q \<longleftrightarrow>
     (hq_State q = [] \<or> hq_State q \<in> set (map JState_string states)) \<and>
     (hq_Kind q = [] \<or> hq_Kind q \<in> set operation_kinds) \<and>
     (hq_Delivery q = [] \<or> hq_Delivery q \<in> set deliveries) \<and>
     opt_all historyTimeValid (hq_CreatedFrom q) \<and> opt_all historyTimeValid (hq_CreatedBefore q) \<and>
     (case (hq_CreatedFrom q, hq_CreatedBefore q) of (Some a, Some b) \<Rightarrow> a < b | _ \<Rightarrow> True)"

definition position_valid :: "HistoryPosition \<Rightarrow> bool" where
  "position_valid p \<longleftrightarrow> textWithin (hp_ID p) 256 \<and> historyTimeValid (hp_CreatedAt p) \<and> hp_CreatedAt p mod Microsecond = 0"

definition HistoryQuery_validate :: "HistoryQuery \<Rightarrow> unit result" where
  "HistoryQuery_validate q =
     (if scope_valid q \<and> filters_valid q \<and> opt_all position_valid (hq_Before q) then Inr () else Inl ErrInvalid)"

text \<open>Bounds are raised to the next microsecond.\<close>

definition Truncate :: "time \<Rightarrow> duration \<Rightarrow> time" where
  "Truncate t d = t - t mod d"

definition raised :: "time \<Rightarrow> time" where
  "raised t = (let bound = Truncate t Microsecond in if bound \<noteq> t then bound + Microsecond else bound)"

definition historyTimestamp :: "time option \<Rightarrow> time option" where
  "historyTimestamp t = map_option raised t"

subsection \<open>The statement and the page\<close>

text \<open>\<open>delivery\<close> is the value of \<open>outcome->>'delivery'\<close>.\<close>

definition history_row :: "(string \<Rightarrow> string option) \<Rightarrow> HistoryQuery \<Rightarrow> Operation \<Rightarrow> bool" where
  "history_row delivery q x \<longleftrightarrow>
     o_Player x \<in> set (hq_Players q) \<and>
     (hq_Operator q \<or> o_Principal x = hq_Principal q) \<and>
     (hq_Player q = [] \<or> o_Player x = hq_Player q) \<and>
     (hq_State q = [] \<or> JState_string (o_State x) = hq_State q) \<and>
     (hq_Kind q = [] \<or> o_Kind x = hq_Kind q) \<and>
     (hq_Delivery q = [] \<or> delivery (o_Outcome x) = Some (hq_Delivery q)) \<and>
     opt_all (\<lambda>t. t \<le> o_CreatedAt x) (historyTimestamp (hq_CreatedFrom q)) \<and>
     opt_all (\<lambda>t. o_CreatedAt x < t) (historyTimestamp (hq_CreatedBefore q)) \<and>
     opt_all (\<lambda>p. (o_CreatedAt x, o_ID x) < (hp_CreatedAt p, hp_ID p)) (hq_Before q)"

abbreviation row_key :: "Operation \<Rightarrow> time \<times> string" where
  "row_key x \<equiv> (o_CreatedAt x, o_ID x)"

definition newest_first :: "Operation list \<Rightarrow> Operation list" where
  "newest_first xs = rev (sort_key row_key xs)"

definition ListOperationHistory :: "(string \<Rightarrow> string option) \<Rightarrow> HistoryQuery \<Rightarrow> nat \<Rightarrow> journal_db \<Rightarrow> Operation list" where
  "ListOperationHistory delivery q limit db = take limit (newest_first (filter (history_row delivery q) (j_operations db)))"

text \<open>The columns the statement selects; the others are zero.\<close>

definition listed :: "Operation \<Rightarrow> Operation" where
  "listed x = x\<lparr>o_DeviceKey := [], o_Principal := [], o_Epoch := [], o_EffectiveArguments := [], o_ScheduledFor := 0, o_NotAfter := 0\<rparr>"

definition List :: "(string \<Rightarrow> string option) \<Rightarrow> journal_db \<Rightarrow> HistoryQuery \<Rightarrow> HistoryPage result" where
  "List delivery db q =
     (case HistoryQuery_validate q of
        Inl e \<Rightarrow> Inl e
      | Inr _ \<Rightarrow>
          if hq_Players q = [] then Inr \<lparr>hg_Items = [], hg_Next = None\<rparr>
          else let rows = ListOperationHistory delivery q (nat (hq_Limit q + 1)) db in
               if int (length rows) > hq_Limit q
               then let rows = take (nat (hq_Limit q)) rows; x = rows ! (length rows - 1)
                    in Inr \<lparr>hg_Items = map listed rows, hg_Next = Some \<lparr>hp_CreatedAt = o_CreatedAt x, hp_ID = o_ID x\<rparr>\<rparr>
               else Inr \<lparr>hg_Items = map listed rows, hg_Next = None\<rparr>)"

subsection \<open>What a reader may see\<close>

text \<open>The reference: the operations a reader asked for, with the times as it gave them.\<close>

definition asked_for :: "(string \<Rightarrow> string option) \<Rightarrow> HistoryQuery \<Rightarrow> Operation \<Rightarrow> bool" where
  "asked_for delivery q x \<longleftrightarrow>
     o_Player x \<in> set (hq_Players q) \<and> (hq_Operator q \<or> o_Principal x = hq_Principal q) \<and>
     (hq_Player q = [] \<or> o_Player x = hq_Player q) \<and> (hq_State q = [] \<or> JState_string (o_State x) = hq_State q) \<and>
     (hq_Kind q = [] \<or> o_Kind x = hq_Kind q) \<and> (hq_Delivery q = [] \<or> delivery (o_Outcome x) = Some (hq_Delivery q)) \<and>
     opt_all (\<lambda>t. t \<le> o_CreatedAt x) (hq_CreatedFrom q) \<and> opt_all (\<lambda>t. o_CreatedAt x < t) (hq_CreatedBefore q)"

definition visible :: "(string \<Rightarrow> string option) \<Rightarrow> HistoryQuery \<Rightarrow> journal_db \<Rightarrow> Operation list" where
  "visible delivery q db = newest_first (filter (asked_for delivery q) (j_operations db))"

text \<open>A reader that follows the positions it is given; the fuel bounds the pages.\<close>

fun walk :: "nat \<Rightarrow> (string \<Rightarrow> string option) \<Rightarrow> journal_db \<Rightarrow> HistoryQuery \<Rightarrow> Operation list result" where
  "walk 0 delivery db q = Inl (OtherError ''out of fuel'')"
| "walk (Suc n) delivery db q =
     (case List delivery db q of
        Inl e \<Rightarrow> Inl e
      | Inr page \<Rightarrow>
          (case hg_Next page of
             None \<Rightarrow> Inr (hg_Items page)
           | Some p \<Rightarrow> (case walk n delivery db (q\<lparr>hq_Before := Some p\<rparr>) of
                           Inl e \<Rightarrow> Inl e
                         | Inr xs \<Rightarrow> Inr (hg_Items page @ xs))))"

text \<open>Stored rows: identifiers are the primary key, and times are valid and in microseconds.\<close>

definition stored :: "journal_db \<Rightarrow> bool" where
  "stored db \<longleftrightarrow>
     distinct (map o_ID (j_operations db)) \<and>
     list_all (\<lambda>x. position_valid \<lparr>hp_CreatedAt = o_CreatedAt x, hp_ID = o_ID x\<rparr>) (j_operations db)"

lemma raised_le:
  assumes "t mod Microsecond = 0"
  shows "raised u \<le> t \<longleftrightarrow> u \<le> t"
proof -
  obtain m where t: "t = 1000 * m" using assms by (auto simp: Microsecond_def)
  obtain k r where u: "u = 1000 * k + r" "0 \<le> r" "r < 1000" using div_mult_mod_eq [of u 1000] pos_mod_bound [of 1000 u] pos_mod_sign [of 1000 u]
    by (metis mult.commute zero_less_numeral)
  have r: "raised u = (if r = 0 then 1000 * k else 1000 * k + 1000)" using u by (simp add: raised_def Truncate_def Microsecond_def)
  have "u \<le> t \<longleftrightarrow> 1000 * k + r \<le> 1000 * m" by (simp only: u(1) t)
  moreover have "raised u \<le> t \<longleftrightarrow> (if r = 0 then 1000 * k else 1000 * k + 1000) \<le> 1000 * m" by (simp only: r t)
  moreover have "(if r = 0 then 1000 * k else 1000 * k + 1000) \<le> 1000 * m \<longleftrightarrow> 1000 * k + r \<le> 1000 * m"
    using u(2, 3) by (cases "k < m") auto
  ultimately show ?thesis by simp
qed

lemma less_raised:
  assumes "t mod Microsecond = 0"
  shows "t < raised u \<longleftrightarrow> t < u"
  using raised_le [OF assms, of u] by linarith

lemma history_row_asked:
  assumes "o_CreatedAt x mod Microsecond = 0"
  shows "history_row delivery q x \<longleftrightarrow>
    asked_for delivery q x \<and> opt_all (\<lambda>p. row_key x < (hp_CreatedAt p, hp_ID p)) (hq_Before q)"
  using assms unfolding history_row_def asked_for_def historyTimestamp_def
  by (cases "hq_CreatedFrom q"; cases "hq_CreatedBefore q") (simp_all add: opt_all_def raised_le less_raised del: less_prod_simp)

lemma newest_first_filter: "newest_first (filter p xs) = filter p (newest_first xs)"
  by (simp add: newest_first_def filter_sort rev_filter [symmetric])

lemma newest_first_descends:
  assumes "distinct (map o_ID xs)"
  shows "sorted_wrt (\<lambda>x y. row_key y < row_key x) (newest_first xs)"
proof -
  let ?s = "sort_key row_key xs"
  have "mset (map row_key ?s) = mset (map row_key xs)" by simp
  moreover have "distinct (map row_key xs)" using assms by (auto simp: distinct_map inj_on_def)
  ultimately have "distinct (map row_key ?s)" by (metis mset_eq_imp_distinct_iff)
  then have "sorted_wrt (<) (map row_key ?s)" by (simp add: strict_sorted_iff del: sorted_wrt_map less_prod_simp)
  then show ?thesis by (simp add: newest_first_def sorted_wrt_rev sorted_wrt_map del: less_prod_simp)
qed

lemma filter_after:
  assumes "sorted_wrt (\<lambda>x y. row_key y < row_key x) xs" and "0 < k" and "k \<le> length xs"
  shows "filter (\<lambda>x. row_key x < row_key (xs ! (k - 1))) xs = drop k xs"
proof -
  have "\<not> row_key (xs ! i) < row_key (xs ! (k - 1))" if "i < k" for i
  proof (cases "i = k - 1")
    case False
    then have "row_key (xs ! (k - 1)) < row_key (xs ! i)" using that assms by (intro sorted_wrt_nth_less [OF assms(1)]) auto
    then show ?thesis by (rule less_not_sym)
  qed simp
  moreover have "row_key (xs ! i) < row_key (xs ! (k - 1))" if "k \<le> i" "i < length xs" for i
    using that assms by (intro sorted_wrt_nth_less [OF assms(1)]) auto
  ultimately have "\<forall>x \<in> set (take k xs). \<not> row_key x < row_key (xs ! (k - 1))"
    "\<forall>x \<in> set (drop k xs). row_key x < row_key (xs ! (k - 1))"
    using assms(3) by (simp_all add: all_set_conv_all_nth del: less_prod_simp)
  then have "filter (\<lambda>x. row_key x < row_key (xs ! (k - 1))) (take k xs) = []"
    "filter (\<lambda>x. row_key x < row_key (xs ! (k - 1))) (drop k xs) = drop k xs"
    by (simp_all only: filter_empty_conv filter_id_conv)
  then show ?thesis by (subst (2) append_take_drop_id [of k xs, symmetric]) (simp only: filter_append append_Nil)
qed

text \<open>One page of a query that continues after the first \<open>k\<close> operations.\<close>

definition continues :: "(string \<Rightarrow> string option) \<Rightarrow> journal_db \<Rightarrow> HistoryQuery \<Rightarrow> nat \<Rightarrow> HistoryQuery" where
  "continues delivery db q k =
     q\<lparr>hq_Before := (if k = 0 then None
                     else let x = visible delivery q db ! (k - 1) in Some \<lparr>hp_CreatedAt = o_CreatedAt x, hp_ID = o_ID x\<rparr>)\<rparr>"

lemma asked_for_Before [simp]: "asked_for delivery (q\<lparr>hq_Before := p\<rparr>) = asked_for delivery q"
  by (simp add: fun_eq_iff asked_for_def)

lemma visible_simps [simp]:
  "visible delivery (q\<lparr>hq_Before := p\<rparr>) db = visible delivery q db"
  "hq_Limit (continues delivery db q k) = hq_Limit q" "hq_Players (continues delivery db q k) = hq_Players q"
  "visible delivery (continues delivery db q k) db = visible delivery q db"
  by (simp_all add: visible_def continues_def)

lemma set_visible: "set (visible delivery q db) = {x \<in> set (j_operations db). asked_for delivery q x}"
  by (auto simp: visible_def newest_first_def)

lemma continues_rows:
  assumes "stored db" and "k \<le> length (visible delivery q db)"
  shows "newest_first (filter (history_row delivery (continues delivery db q k)) (j_operations db)) = drop k (visible delivery q db)"
proof -
  let ?q = "continues delivery db q k" and ?after = "\<lambda>x. opt_all (\<lambda>p. row_key x < (hp_CreatedAt p, hp_ID p)) (hq_Before (continues delivery db q k))"
  have "history_row delivery ?q x \<longleftrightarrow> asked_for delivery q x \<and> ?after x" if "x \<in> set (j_operations db)" for x
  proof -
    have "o_CreatedAt x mod Microsecond = 0" using assms(1) that by (simp add: stored_def position_valid_def list_all_iff)
    then show ?thesis using history_row_asked [of x delivery ?q] by (simp add: continues_def)
  qed
  then have "filter (history_row delivery ?q) (j_operations db) = filter ?after (filter (asked_for delivery q) (j_operations db))"
    by (simp only: filter_filter cong: filter_cong)
  then have rows: "newest_first (filter (history_row delivery ?q) (j_operations db)) = filter ?after (visible delivery q db)"
    by (simp add: newest_first_filter visible_def)
  have "sorted_wrt (\<lambda>x y. row_key y < row_key x) (visible delivery q db)"
    unfolding visible_def using assms(1) by (intro newest_first_descends) (simp add: stored_def distinct_map_filter)
  then show ?thesis
    unfolding rows using filter_after [of "visible delivery q db" k] assms(2)
    by (cases "k = 0") (simp_all add: continues_def opt_all_def Let_def del: less_prod_simp)
qed

lemma continues_valid:
  assumes "stored db" and "HistoryQuery_validate q = Inr ()" and "k \<le> length (visible delivery q db)"
  shows "HistoryQuery_validate (continues delivery db q k) = Inr ()"
proof (cases "k = 0")
  case True
  then show ?thesis using assms(2)
    by (auto simp: HistoryQuery_validate_def continues_def scope_valid_def filters_valid_def opt_all_def split: if_splits)
next
  case False
  let ?x = "visible delivery q db ! (k - 1)"
  have "?x \<in> set (j_operations db)" using False assms(3) set_visible [of delivery q db] nth_mem [of "k - 1" "visible delivery q db"] by auto
  then have "position_valid \<lparr>hp_CreatedAt = o_CreatedAt ?x, hp_ID = o_ID ?x\<rparr>" using assms(1) by (simp add: stored_def list_all_iff)
  then show ?thesis using False assms(2)
    by (auto simp: HistoryQuery_validate_def continues_def scope_valid_def filters_valid_def opt_all_def Let_def split: if_splits)
qed

lemma List_page:
  assumes "stored db" and "HistoryQuery_validate q = Inr ()" and "hq_Players q \<noteq> []" and "k \<le> length (visible delivery q db)"
  defines "n \<equiv> nat (hq_Limit q)" and "S \<equiv> visible delivery q db"
  shows "List delivery db (continues delivery db q k) = Inr
    \<lparr>hg_Items = map listed (take n (drop k S)), hg_Next = (if k + n < length S then hq_Before (continues delivery db q (k + n)) else None)\<rparr>"
proof -
  have n: "0 < n" "hq_Limit q = int n" "nat (hq_Limit q + 1) = Suc n"
    using assms(2) by (auto simp: n_def HistoryQuery_validate_def scope_valid_def nat_add_distrib split: if_splits)
  have rows: "ListOperationHistory delivery (continues delivery db q k) (Suc n) db = take (Suc n) (drop k S)"
    using continues_rows [OF assms(1, 4)] by (simp add: ListOperationHistory_def S_def)
  show ?thesis
  proof (cases "k + n < length S")
    case True
    then have "take n (take (Suc n) (drop k S)) = take n (drop k S)" "length (take n (drop k S)) = n" by simp_all
    moreover have "take n (drop k S) ! (n - 1) = S ! (k + n - 1)" using n(1) True by (simp add: nth_append)
    ultimately show ?thesis
      using True n continues_valid [OF assms(1, 2, 4)] assms(3) rows
      by (simp add: List_def Let_def continues_def S_def [symmetric])
  next
    case False
    then show ?thesis
      using n continues_valid [OF assms(1, 2, 4)] assms(3) rows by (simp add: List_def Let_def)
  qed
qed

lemma walk_continues:
  assumes "stored db" and "HistoryQuery_validate q = Inr ()" and "hq_Players q \<noteq> []" and "k \<le> length (visible delivery q db)"
    and "length (visible delivery q db) < k + n"
  shows "walk n delivery db (continues delivery db q k) = Inr (map listed (drop k (visible delivery q db)))"
  using assms(4, 5)
proof (induction n arbitrary: k)
  case (Suc n)
  let ?S = "visible delivery q db" and ?l = "nat (hq_Limit q)"
  have l: "0 < ?l" using assms(2) by (auto simp: HistoryQuery_validate_def scope_valid_def split: if_splits)
  note page = List_page [OF assms(1, 2, 3) Suc.prems(1)]
  show ?case
  proof (cases "k + ?l < length ?S")
    case True
    have "hq_Before (continues delivery db q (k + ?l)) \<noteq> None" using l by (simp add: continues_def Let_def)
    moreover have "(continues delivery db q k)\<lparr>hq_Before := hq_Before (continues delivery db q (k + ?l))\<rparr> = continues delivery db q (k + ?l)"
      by (simp add: continues_def)
    moreover have "walk n delivery db (continues delivery db q (k + ?l)) = Inr (map listed (drop (k + ?l) ?S))"
      using True Suc.prems l by (intro Suc.IH) auto
    moreover have "take ?l (drop k ?S) @ drop (k + ?l) ?S = drop k ?S"
      by (metis add.commute append_take_drop_id drop_drop)
    ultimately show ?thesis using True page by (auto simp flip: map_append)
  next
    case False
    then show ?thesis using page by simp
  qed
qed simp

text \<open>
  C35. Reading the history page by page visits every operation the reader may see exactly once, from
  the newest to the oldest. Following the positions of the pages from the first one ends after at
  most as many pages as there are operations, and what the pages hold together is the list of all
  operations of the reader's players (of its own principal, unless it is an operator) that match its
  filters at the instants it gave, finer than the microseconds the database keeps, in descending order of creation.
\<close>

theorem history_pages_exact:
  assumes "stored db" and "HistoryQuery_validate q = Inr ()" and "hq_Before q = None"
    and "length (visible delivery q db) < n"
  shows "walk n delivery db q = Inr (map listed (visible delivery q db)) \<and>
    distinct (visible delivery q db) \<and>
    sorted_wrt (\<lambda>x y. o_CreatedAt y \<le> o_CreatedAt x) (visible delivery q db) \<and>
    set (visible delivery q db) = {x \<in> set (j_operations db). asked_for delivery q x}"
proof -
  have "distinct (map o_ID (filter (asked_for delivery q) (j_operations db)))" using assms(1) by (simp add: stored_def distinct_map_filter)
  then have desc: "sorted_wrt (\<lambda>x y. row_key y < row_key x) (visible delivery q db)"
    unfolding visible_def by (rule newest_first_descends)
  have q: "continues delivery db q 0 = q" using assms(3) by (simp add: continues_def)
  have "walk n delivery db q = Inr (map listed (visible delivery q db))"
  proof (cases "hq_Players q = []")
    case True
    then have "visible delivery q db = []" by (simp add: visible_def asked_for_def newest_first_def)
    then show ?thesis using assms True by (cases n) (simp_all add: List_def)
  next
    case False
    then show ?thesis using walk_continues [OF assms(1, 2) False, of 0 delivery n] assms(4) by (simp add: q)
  qed
  moreover have "sorted_wrt (\<lambda>x y. o_CreatedAt y \<le> o_CreatedAt x) (visible delivery q db)"
    using desc by (rule sorted_wrt_mono_rel [rotated]) auto
  moreover have "distinct (visible delivery q db)"
    using \<open>distinct (map o_ID _)\<close> by (auto simp: visible_def newest_first_def distinct_map)
  ultimately show ?thesis using set_visible by blast
qed

text \<open>
  Three operations of two principals, one of them of a player the reader was not given; pages of one
  operation, from an instant between two microseconds.
\<close>

definition past_operation :: "string \<Rightarrow> string \<Rightarrow> string \<Rightarrow> time \<Rightarrow> Operation" where
  "past_operation ident player owner at =
     \<lparr>o_ID = ident, o_Kind = ''volume'', o_Player = player, o_DeviceKey = ''d'', o_Principal = owner, o_Epoch = ''e'',
      o_State = Succeeded, o_Revision = 3, o_Phase = ''complete'', o_ConfigRevision = ''c'', o_EffectiveArguments = ''{}'',
      o_SelectedAlbum = None, o_Progress = ''{}'', o_Outcome = ''{}'', o_ErrorCode = [], o_ScheduledFor = at, o_NotAfter = at,
      o_CreatedAt = at, o_UpdatedAt = at, o_StartedAt = Some at, o_FinishedAt = Some at\<rparr>"

definition past_journal :: journal_db where
  "past_journal =
     \<lparr>j_epoch = ''e'', j_ready = True,
      j_operations = [past_operation ''1'' ''den'' ''ann'' 2000, past_operation ''2'' ''attic'' ''ann'' 3000,
        past_operation ''3'' ''den'' ''bob'' 3000, past_operation ''4'' ''den'' ''ann'' 4000, past_operation ''5'' ''den'' ''ann'' 4000],
      j_requests = [], j_reservations = []\<rparr>"

definition past_query :: HistoryQuery where
  "past_query =
     \<lparr>hq_Principal = ''ann'', hq_Operator = False, hq_Players = [''den''], hq_Player = [], hq_State = [], hq_Kind = [],
      hq_Delivery = [], hq_CreatedFrom = Some 1001, hq_CreatedBefore = None, hq_Before = None, hq_Limit = 1\<rparr>"

theorem history_pages_exact_witness:
  "stored past_journal \<and> HistoryQuery_validate past_query = Inr () \<and>
   (case walk 4 (\<lambda>_. None) past_journal past_query of Inl _ \<Rightarrow> False | Inr xs \<Rightarrow> map o_ID xs = [''5'', ''4'', ''1''])"
proof -
  let ?none = "\<lambda>_. None :: string option"
  have ok: "stored past_journal" "HistoryQuery_validate past_query = Inr ()"
    by (simp_all add: stored_def past_journal_def past_operation_def position_valid_def textWithin_def historyTimeValid_def IsZero_def
        year10000_def duration_defs Microsecond_def HistoryQuery_validate_def past_query_def scope_valid_def filters_valid_def opt_all_def)
  have seen: "map o_ID (visible ?none past_query past_journal) = [''5'', ''4'', ''1'']"
    by (simp add: visible_def newest_first_def past_journal_def past_query_def past_operation_def asked_for_def opt_all_def)
  have "length (visible ?none past_query past_journal) = 3" using arg_cong [OF seen, of length] by simp
  then have "length (visible ?none past_query past_journal) < 4" by simp
  from history_pages_exact [OF ok _ this] show ?thesis
    using ok seen by (auto simp: past_query_def listed_def comp_def)
qed

end
