(* ===== verification/Projections.thy ===== *)
theory Projections
  imports Admission Catalogs Histories
begin

section \<open>What the API shows\<close>

text \<open>
  The read side of \<open>internal/control\<close>: \<open>reads.go\<close>, \<open>now_playing.go\<close>, \<open>operation.go\<close> and \<open>preflight.go\<close>. A
  player is shown with a revision, a digest of everything a client may have based a decision on; a
  command names the revision it was decided at. The programs run beside the worker of the device's
  lane, like those of the theory Plans. \<open>encoding/json\<close> and SHA-256 are arguments.
\<close>

subsection \<open>Now playing\<close>

record NowPlayingProgress =
  np_PositionMS :: int
  np_DurationMS :: "int option"
  np_SampledAt :: time

record NowPlaying =
  nw_Song :: string
  nw_Album :: string
  nw_Artist :: string
  nw_QueueID :: string
  nw_MediaID :: string
  nw_Stale :: bool
  nw_Progress :: "NowPlayingProgress option"

text \<open>What a revision is the digest of.\<close>

record revision_input =
  ri_Epoch :: string
  ri_Token :: Token
  ri_At :: time
  ri_Stale :: bool
  ri_Connected :: bool
  ri_Verified :: bool
  ri_NowPlaying :: "NowPlaying option"

text \<open>The devices the server knows: their configuration, ports, page reads and catalogs.\<close>

record 'w Device =
  dv_Config :: config_Player
  dv_ports :: "'w ports"
  dv_queue :: "ID \<Rightarrow> int \<Rightarrow> int \<Rightarrow> ('w, QueuePage result) port"
  dv_browse :: "string \<Rightarrow> (ID \<Rightarrow> string \<Rightarrow> string \<Rightarrow> int \<Rightarrow> ('w, CatalogPage result) port) option"

record 'w Reads =
  rs_epoch :: string
  rs_devices :: "'w Device list"
  rs_reads :: "'w reads"
  rs_digest :: "revision_input \<Rightarrow> string"
  rs_mediaDigest :: "string list \<Rightarrow> string"

definition playheadProgress :: "Snapshot \<Rightarrow> NowPlayingProgress option" where
  "playheadProgress v =
     (case (s_Playhead v, s_Media v) of
        (Some sample, Some media) \<Rightarrow>
          if ph_Source sample \<noteq> md_Source media \<or> ph_Media sample \<noteq> md_ID media \<or> ph_Queue sample \<noteq> md_QueueID media then None
          else Some \<lparr>np_PositionMS = ph_PositionMS sample,
                     np_DurationMS = (if ph_DurationMS sample > 0 then Some (ph_DurationMS sample) else None),
                     np_SampledAt = ph_At sample\<rparr>
      | _ \<Rightarrow> None)"

definition shows_media :: "config_Player \<Rightarrow> Snapshot \<Rightarrow> bool" where
  "shows_media p v \<longleftrightarrow>
     \<not> (\<not> s_Connected v \<or> s_MediaUnavailable v \<or> IsZero (s_ObservedAt v) \<or> s_Media v = None \<or>
        \<not> PlayState_Active (s_State v) \<or> p_ID (s_Player v) = [] \<or> cp_Serial p = [] \<or>
        p_Serial (s_Player v) \<noteq> cp_Serial p \<or> (cp_Model p \<noteq> [] \<and> p_Model (s_Player v) \<noteq> cp_Model p))"

definition nowPlaying :: "'w Reads \<Rightarrow> config_Player \<Rightarrow> Snapshot \<Rightarrow> NowPlaying option" where
  "nowPlaying rs p v =
     (if \<not> shows_media p v then None
      else let m = the (s_Media v); stale = (s_Stale v \<or> s_MediaStale v) in
        Some \<lparr>nw_Song = md_Song m, nw_Album = md_Album m, nw_Artist = md_Artist m, nw_QueueID = md_QueueID m,
              nw_MediaID = (if md_ID m \<noteq> [] then rs_mediaDigest rs [rs_epoch rs, cp_Key p, md_Source m, md_ID m] else []),
              nw_Stale = stale, nw_Progress = (if stale then None else playheadProgress v)\<rparr>)"

definition revisionNowPlaying :: "NowPlaying option \<Rightarrow> NowPlaying option" where
  "revisionNowPlaying x = map_option (\<lambda>n. n\<lparr>nw_Progress := None\<rparr>) x"

subsection \<open>Players\<close>

record Capabilities =
  ca_Read :: string
  ca_Playback :: string
  ca_Volume :: string

record control_Player =
  pl_Key :: string
  pl_Availability :: string
  pl_ObservedAt :: "time option"
  pl_Stale :: bool
  pl_Revision :: string
  pl_PlaybackState :: string
  pl_NowPlaying :: "NowPlaying option"
  pl_Level :: "int option"
  pl_VolumeCeiling :: "int option"
  pl_Muted :: "bool option"
  pl_Grouped :: "bool option"
  pl_Capabilities :: Capabilities
  pl_ActiveOperation :: "string option"

definition availability :: "Snapshot \<Rightarrow> string" where
  "availability v =
     (if s_Verified v \<and> \<not> s_Stale v then ''online'' else if s_Connected v then ''unknown'' else ''offline'')"

definition capabilities :: "config_Player \<Rightarrow> Snapshot \<Rightarrow> Capabilities" where
  "capabilities p v =
     (let read = (s_Verified v \<and> \<not> s_Stale v);
          control = (read \<and> cp_WritesEnabled p \<and> cp_VolumeCeiling p \<noteq> None \<and> \<not> s_Grouped v);
          word = (\<lambda>b. if b then ''supported'' else ''unverified'')
      in \<lparr>ca_Read = word read, ca_Playback = word control, ca_Volume = word control\<rparr>)"

definition revision_input_of :: "'w Reads \<Rightarrow> config_Player \<Rightarrow> Snapshot \<Rightarrow> revision_input" where
  "revision_input_of rs p v =
     \<lparr>ri_Epoch = rs_epoch rs, ri_Token = s_Token v, ri_At = s_ObservedAt v, ri_Stale = s_Stale v, ri_Connected = s_Connected v,
      ri_Verified = s_Verified v, ri_NowPlaying = revisionNowPlaying (nowPlaying rs p v)\<rparr>"

definition player_revision :: "'w Reads \<Rightarrow> config_Player \<Rightarrow> Snapshot \<Rightarrow> string" where
  "player_revision rs p v = rs_epoch rs @ ''-'' @ rs_digest rs (revision_input_of rs p v)"

definition project_player :: "'w Reads \<Rightarrow> string \<Rightarrow> config_Player \<Rightarrow> Snapshot \<Rightarrow> control_Player" where
  "project_player rs key p v =
     (let seen = \<not> IsZero (s_ObservedAt v) in
      \<lparr>pl_Key = key, pl_Availability = availability v, pl_ObservedAt = (if seen then Some (s_ObservedAt v) else None),
       pl_Stale = s_Stale v, pl_Revision = player_revision rs p v,
       pl_PlaybackState = PlayState_string (if seen then s_State v else PlayStateUnknown), pl_NowPlaying = nowPlaying rs p v,
       pl_Level = s_Volume v, pl_VolumeCeiling = cp_VolumeCeiling p, pl_Muted = s_Muted v,
       pl_Grouped = (if seen then Some (s_Grouped v) else None), pl_Capabilities = capabilities p v, pl_ActiveOperation = None\<rparr>)"

definition Reads_device :: "'w Reads \<Rightarrow> string \<Rightarrow> 'w Device result" where
  "Reads_device rs key =
     (case find (\<lambda>d. cp_Key (dv_Config d) = key) (rs_devices rs) of None \<Rightarrow> Inl errResourceNotFound | Some d \<Rightarrow> Inr d)"

text \<open>\<open>Reads.Player\<close> for a device that was found.\<close>

definition shown :: "'w Reads \<Rightarrow> string \<Rightarrow> 'w Device \<Rightarrow> ('w worker, control_Player) state" where
  "shown rs key d = do {
     v \<leftarrow> call (io_snapshot (dv_ports d));
     State_Monad.return (project_player rs key (dv_Config d) v)
   }"

definition Reads_Player :: "'w Reads \<Rightarrow> string \<Rightarrow> ('w, control_Player) work" where
  "Reads_Player rs key =
     (case Reads_device rs key of
        Inl e \<Rightarrow> fail e
      | Inr d \<Rightarrow> do { p \<leftarrow> shown rs key d; done_with p })"

subsection \<open>Groups, sources and items\<close>

record control_Group =
  gr_ID :: string
  gr_Player :: string
  gr_Name :: string
  gr_Members :: "string list"
  gr_Stale :: bool

fun group_entries :: "string \<Rightarrow> Snapshot \<Rightarrow> Group list \<Rightarrow> string list \<Rightarrow> control_Group list \<times> string list" where
  "group_entries key v [] seen = ([], seen)"
| "group_entries key v (g # gs) seen =
     (let ident = key @ '':'' @ g_ID g in
      if \<not> list_ex (\<lambda>m. gm_ID m = p_ID (s_Player v)) (g_Players g) \<or> ident \<in> set seen then group_entries key v gs seen
      else case group_entries key v gs (ident # seen) of
             (out, seen) \<Rightarrow>
               (\<lparr>gr_ID = ident, gr_Player = key, gr_Name = g_Name g, gr_Members = [key], gr_Stale = s_Stale v\<rparr> # out, seen))"

fun groups_of :: "(string \<Rightarrow> bool) \<Rightarrow> 'w Device list \<Rightarrow> string list \<Rightarrow> ('w worker, control_Group list) state" where
  "groups_of allowed [] seen = State_Monad.return []"
| "groups_of allowed (d # ds) seen =
     (if \<not> allowed (cp_Key (dv_Config d)) then groups_of allowed ds seen
      else do {
        v \<leftarrow> call (io_snapshot (dv_ports d));
        let (out, seen) = group_entries (cp_Key (dv_Config d)) v (s_Groups v) seen;
        rest \<leftarrow> groups_of allowed ds seen;
        State_Monad.return (out @ rest)
      })"

definition Reads_Groups :: "'w Reads \<Rightarrow> (string \<Rightarrow> bool) \<Rightarrow> ('w worker, control_Group list) state" where
  "Reads_Groups rs allowed = groups_of allowed (rs_devices rs) []"

definition SourcePlayer :: "'w Reads \<Rightarrow> string \<Rightarrow> string result" where
  "SourcePlayer rs key =
     (case find (\<lambda>s. so_Key s = key) (rd_sources (rs_reads rs)) of None \<Rightarrow> Inl errResourceNotFound | Some s \<Rightarrow> Inr (so_Player s))"

definition Reads_source :: "'w Reads \<Rightarrow> string \<Rightarrow> 'w Device result" where
  "Reads_source rs key = (case SourcePlayer rs key of Inl e \<Rightarrow> Inl e | Inr player \<Rightarrow> Reads_device rs player)"

definition resolve_here :: "'w Reads \<Rightarrow> string \<Rightarrow> ('w, 'w Device \<times> ID) work" where
  "resolve_here rs key =
     (case Reads_source rs key of
        Inl e \<Rightarrow> fail e
      | Inr d \<Rightarrow> andThen (resolveSource (dv_ports d) (rs_reads rs) key) (\<lambda>ident. done_with (d, ident)))"

record control_Source =
  cs_Key :: string
  cs_Player :: string
  cs_Name :: string
  cs_Availability :: string

definition source_entry :: "Source \<Rightarrow> 'a result \<Rightarrow> control_Source" where
  "source_entry c x =
     \<lparr>cs_Key = so_Key c, cs_Player = so_Player c, cs_Name = so_Name c,
      cs_Availability = (case x of Inr _ \<Rightarrow> ''available'' | Inl e \<Rightarrow> if errors_Is e ErrAmbiguous then ''ambiguous'' else ''unavailable'')\<rparr>"

fun sources_of :: "'w Reads \<Rightarrow> (string \<Rightarrow> bool) \<Rightarrow> Source list \<Rightarrow> ('w worker, control_Source list) state" where
  "sources_of rs allowed [] = State_Monad.return []"
| "sources_of rs allowed (c # cs) =
     (if \<not> allowed (so_Player c) then sources_of rs allowed cs
      else do {
        x \<leftarrow> resolve_here rs (so_Key c);
        rest \<leftarrow> sources_of rs allowed cs;
        State_Monad.return (source_entry c x # rest)
      })"

definition Reads_Sources :: "'w Reads \<Rightarrow> (string \<Rightarrow> bool) \<Rightarrow> ('w worker, control_Source list) state" where
  "Reads_Sources rs allowed = sources_of rs allowed (rd_sources (rs_reads rs))"

record control_Item =
  im_Name :: string
  im_Ref :: string
  im_Kind :: string
  im_Browsable :: bool
  im_Playable :: bool

record control_Items =
  is_Items :: "control_Item list"
  is_Total :: "int option"
  is_Next :: "string option"

definition project_items :: "CatalogPage \<Rightarrow> control_Items" where
  "project_items page =
     \<lparr>is_Items = map (\<lambda>i. \<lparr>im_Name = ci_Name i, im_Ref = ci_Ref i, im_Kind = ci_Kind i, im_Browsable = ci_Browsable i,
                          im_Playable = ci_Playable i\<rparr>) (cg_Items page),
      is_Total = cg_Total page, is_Next = (if cg_Next page = [] then None else Some (cg_Next page))\<rparr>"

definition Reads_Items :: "'w Reads \<Rightarrow> string \<Rightarrow> string \<Rightarrow> string \<Rightarrow> int \<Rightarrow> ('w, control_Items) work" where
  "Reads_Items rs key parent cursor limit =
     andThen (resolve_here rs key) (\<lambda>(d, ident).
       case dv_browse d key of
         None \<Rightarrow> fail ErrUnavailable
       | Some browse \<Rightarrow> andThen (call (browse ident parent cursor limit)) (\<lambda>page. done_with (project_items page)))"

subsection \<open>Queues\<close>

record control_Track =
  tr_QueueID :: string
  tr_Song :: string
  tr_Album :: string
  tr_Artist :: string

record control_Queue =
  qu_Revision :: string
  qu_Stale :: bool
  qu_Items :: "control_Track list"
  qu_Total :: "int option"
  qu_Next :: "int option"

definition project_queue :: "string \<Rightarrow> bool \<Rightarrow> QueuePage \<Rightarrow> control_Queue" where
  "project_queue revision stale q =
     \<lparr>qu_Revision = revision, qu_Stale = stale,
      qu_Items = map (\<lambda>m. \<lparr>tr_QueueID = md_QueueID m, tr_Song = md_Song m, tr_Album = md_Album m, tr_Artist = md_Artist m\<rparr>) (q_Items q),
      qu_Total = q_Total q, qu_Next = q_Next q\<rparr>"

text \<open>A page read from the device counts only if neither its token nor the player's revision moved meanwhile.\<close>

definition live_queue :: "'w Reads \<Rightarrow> string \<Rightarrow> 'w Device \<Rightarrow> control_Player \<Rightarrow> Snapshot \<Rightarrow> int \<Rightarrow> int \<Rightarrow> ('w, QueuePage) work" where
  "live_queue rs key d p v start limit =
     andThen (call (dv_queue d (p_ID (s_Player v)) start limit)) (\<lambda>q.
       if q_Token q \<noteq> s_Token v then fail ErrStale
       else do {
         view \<leftarrow> call (io_view (dv_ports d) (p_ID (s_Player v)));
         if v_Token view \<noteq> s_Token v then fail ErrStale
         else do {
           current \<leftarrow> shown rs key d;
           if pl_Revision current \<noteq> pl_Revision p then fail ErrStale else done_with q
         }
       })"

definition cached_queue :: "string \<Rightarrow> QueuePage \<Rightarrow> int \<Rightarrow> int \<Rightarrow> QueuePage result" where
  "cached_queue revision q start limit =
     (if start \<noteq> 0 \<or> revision \<noteq> [] then Inl ErrStaleReference
      else Inr (if int (length (q_Items q)) > limit then q\<lparr>q_Items := take (nat limit) (q_Items q), q_Next := Some limit\<rparr> else q))"

definition Reads_Queue :: "'w Reads \<Rightarrow> string \<Rightarrow> string \<Rightarrow> int \<Rightarrow> int \<Rightarrow> ('w, control_Queue) work" where
  "Reads_Queue rs key revision start limit =
     (case Reads_device rs key of
        Inl e \<Rightarrow> fail e
      | Inr d \<Rightarrow> do {
          p \<leftarrow> shown rs key d;
          v \<leftarrow> call (io_snapshot (dv_ports d));
          if revision \<noteq> [] \<and> pl_Revision p \<noteq> revision then fail ErrStaleReference
          else if start > 0 \<and> revision = [] then fail ErrStaleReference
          else andThen (if s_Stale v then State_Monad.return (cached_queue revision (s_Queue v) start limit)
                        else live_queue rs key d p v start limit)
                 (\<lambda>q. done_with (project_queue (pl_Revision p) (s_Stale v) q))
        })"

subsection \<open>Preflight\<close>

record Preflight =
  pf_Ready :: bool
  pf_Player :: control_Player
  pf_Warnings :: "string list"

definition preflightInput :: "Command \<Rightarrow> error option" where
  "preflightInput cmd =
     (if c_Kind cmd \<noteq> CommandKindPlayback \<or> isl (validatePlaybackSelection cmd) \<or> isl (validateExpectedOwner cmd) \<or>
         c_Level cmd < 0 \<or> c_Level cmd > 100
      then Some ErrBounds
      else case c_Automation cmd of
             None \<Rightarrow> None
           | Some a \<Rightarrow> (case Automation_validate a cmd (Some 100) of Inl e \<Rightarrow> Some e | Inr _ \<Rightarrow> None))"

definition safety_warnings :: "config_Player \<Rightarrow> error option \<Rightarrow> error option \<Rightarrow> string list" where
  "safety_warnings p refreshErr safety =
     (case safety of
        None \<Rightarrow> []
      | Some e \<Rightarrow>
          if errors_Is e ErrReadOnly
          then (if \<not> cp_WritesEnabled p then [''writes_disabled''] else []) @
               (if cp_VolumeCeiling p = None then [''volume_policy_unverified''] else [])
          else if errors_Is e ErrGrouped then [''grouped_target'']
          else if refreshErr = None then [''state_unavailable''] else [])"

definition exceeds :: "config_Player \<Rightarrow> Command \<Rightarrow> bool" where
  "exceeds p cmd \<longleftrightarrow>
     (case cp_VolumeCeiling p of
        None \<Rightarrow> False
      | Some c \<Rightarrow> c_Level cmd > c \<or> (case c_Automation cmd of None \<Rightarrow> False | Some a \<Rightarrow> a_TargetLevel a > c))"

definition preflight_warnings :: "config_Player \<Rightarrow> Command \<Rightarrow> error option \<Rightarrow> Snapshot \<Rightarrow> string list" where
  "preflight_warnings p cmd refreshErr s =
     (if refreshErr \<noteq> None then [''state_unavailable''] else []) @ safety_warnings p refreshErr (deviceSafety p s) @
     (if exceeds p cmd then [''volume_policy_exceeded''] else []) @
     (if playingBusy cmd s then [''player_busy''] else [])"

definition settled :: "'w Reads \<Rightarrow> string \<Rightarrow> 'w Device \<Rightarrow> control_Player \<Rightarrow> Snapshot \<Rightarrow> ('w worker, bool) state" where
  "settled rs key d player before = do {
     current \<leftarrow> shown rs key d;
     if pl_Revision current \<noteq> pl_Revision player then State_Monad.return False
     else do {
       now \<leftarrow> call (io_snapshot (dv_ports d));
       if \<not> sameState before now then State_Monad.return False
       else do { err \<leftarrow> call (rd_err (rs_reads rs)); State_Monad.return (err = None) }
     }
   }"

definition Reads_Preflight :: "'w Reads \<Rightarrow> string \<Rightarrow> Command \<Rightarrow> ('w, Preflight) work" where
  "Reads_Preflight rs key cmd =
     (case Reads_device rs key of
        Inl e \<Rightarrow> fail e
      | Inr d \<Rightarrow> require (preflightInput cmd) (do {
          refreshErr \<leftarrow> call (io_refresh (dv_ports d));
          before \<leftarrow> call (io_snapshot (dv_ports d));
          player \<leftarrow> shown rs key d;
          let warnings = preflight_warnings (dv_Config d) cmd refreshErr before;
          if warnings \<noteq> [] then done_with \<lparr>pf_Ready = False, pf_Player = player, pf_Warnings = warnings\<rparr>
          else andThen (resolvePlayback (dv_ports d) (rs_reads rs) (dv_Config d) cmd) (\<lambda>_. do {
            same \<leftarrow> settled rs key d player before;
            done_with \<lparr>pf_Ready = same, pf_Player = player, pf_Warnings = (if same then [] else [''state_changed''])\<rparr>
          })
        }))"

subsection \<open>Operations\<close>

record operationProgress =
  og_PlaybackProgress :: "PlaybackProgress option"
  og_QueueLoading :: "QueueLoadingProgress option"

text \<open>
  \<open>json.Unmarshal\<close> of the stored progress (what it filled in, and whether it succeeded) and of the plan
  in the effective arguments: the tracks of its parts, if it has a plan, and whether it is buffered.
\<close>

record projection_json =
  pj_progress :: "string \<Rightarrow> operationProgress \<times> bool"
  pj_arguments :: "string \<Rightarrow> (int list option \<times> bool) option"

record control_Operation =
  po_QueueLoading :: "QueueLoadingProgress option"
  po_Playback :: "PlaybackProgress option"
  po_Outcome :: string
  po_ID :: string
  po_Kind :: string
  po_Player :: string
  po_State :: string
  po_Phase :: string
  po_Revision :: int
  po_ConfigRevision :: string
  po_SelectedAlbum :: "string option"
  po_CreatedAt :: time
  po_UpdatedAt :: time
  po_StartedAt :: "time option"
  po_FinishedAt :: "time option"
  po_ErrorCode :: "string option"

definition planned_loading :: "projection_json \<Rightarrow> string \<Rightarrow> QueueLoadingProgress option" where
  "planned_loading js args =
     (case (if args = [] then None else pj_arguments js args) of
        Some (Some tracks, buffered) \<Rightarrow>
          if tracks = [] then None
          else Some \<lparr>ql_Mode = (if buffered then ''buffered'' else []), ql_BufferedTracks = None, ql_RemainingTracks = None,
                     ql_CurrentIndex = None, ql_PrunedTracks = None, ql_SessionExpiresAt = None,
                     ql_TotalParts = int (length tracks), ql_ConfirmedParts = 0, ql_TotalTracks = sum_list tracks, ql_ConfirmedTracks = 0\<rparr>
      | _ \<Rightarrow> None)"

definition ProjectOperation :: "projection_json \<Rightarrow> Operation \<Rightarrow> control_Operation" where
  "ProjectOperation js x =
     (case pj_progress js (o_Progress x) of (progress, ok) \<Rightarrow>
        \<lparr>po_QueueLoading = (case og_QueueLoading progress of
                               Some q \<Rightarrow> Some q | None \<Rightarrow> planned_loading js (o_EffectiveArguments x)),
         po_Playback = (case og_PlaybackProgress progress of
                          Some b \<Rightarrow> if ok \<and> \<not> IsZero (pp_PlaybackStartedAt b) then Some b else None
                        | None \<Rightarrow> None),
         po_Outcome = (if o_Outcome x = [] then ''{}'' else o_Outcome x),
         po_ID = o_ID x, po_Kind = o_Kind x, po_Player = o_Player x, po_State = JState_string (o_State x), po_Phase = o_Phase x,
         po_Revision = o_Revision x, po_ConfigRevision = o_ConfigRevision x, po_SelectedAlbum = o_SelectedAlbum x,
         po_CreatedAt = o_CreatedAt x, po_UpdatedAt = o_UpdatedAt x, po_StartedAt = o_StartedAt x, po_FinishedAt = o_FinishedAt x,
         po_ErrorCode = (if o_ErrorCode x = [] then None else Some (o_ErrorCode x))\<rparr>)"

text \<open>
  An operation of a history page is shown as the operation itself, except for the counts of a plan
  that no worker has recorded progress for yet: the page does not hold the effective arguments they
  are derived from.
\<close>

theorem history_projection:
  "ProjectOperation js (listed x) =
     (ProjectOperation js x)\<lparr>po_QueueLoading := og_QueueLoading (fst (pj_progress js (o_Progress x)))\<rparr>"
  by (simp add: ProjectOperation_def listed_def planned_loading_def split: prod.splits option.splits)

subsection \<open>Revisions\<close>

text \<open>The state a revision stands for: everything the projection is computed from but the playhead.\<close>

definition same_basis :: "'w Reads \<Rightarrow> config_Player \<Rightarrow> Snapshot \<Rightarrow> Snapshot \<Rightarrow> bool" where
  "same_basis rs p v w \<longleftrightarrow>
     s_Token v = s_Token w \<and> s_ObservedAt v = s_ObservedAt w \<and> s_Stale v = s_Stale w \<and> s_Connected v = s_Connected w \<and>
     s_Verified v = s_Verified w \<and> revisionNowPlaying (nowPlaying rs p v) = revisionNowPlaying (nowPlaying rs p w)"

text \<open>What a digest promises for the two states it is asked about.\<close>

definition no_collision :: "'w Reads \<Rightarrow> config_Player \<Rightarrow> Snapshot \<Rightarrow> Snapshot \<Rightarrow> bool" where
  "no_collision rs p v w \<longleftrightarrow>
     revision_input_of rs p v = revision_input_of rs p w \<or>
     rs_digest rs (revision_input_of rs p v) \<noteq> rs_digest rs (revision_input_of rs p w)"

lemma revision_input_basis: "revision_input_of rs p v = revision_input_of rs p w \<longleftrightarrow> same_basis rs p v w"
  by (auto simp: revision_input_of_def same_basis_def)

lemma revision_iff: "no_collision rs p v w \<Longrightarrow> player_revision rs p v = player_revision rs p w \<longleftrightarrow> same_basis rs p v w"
  by (auto simp: player_revision_def no_collision_def revision_input_basis [symmetric])

lemma nowPlaying_playhead:
  "revisionNowPlaying (nowPlaying rs p (v\<lparr>s_Playhead := x\<rparr>)) = revisionNowPlaying (nowPlaying rs p v)"
  by (simp add: nowPlaying_def revisionNowPlaying_def shows_media_def Let_def)

text \<open>
  The revision of a player identifies what its projection was computed from. A moving playhead
  never changes it; and as long as the digest does not collide, two projections with the same
  revision come from observations of the same token, instant and freshness showing the same media, so a command
  that names a revision was decided on exactly that state.
\<close>

theorem revision_identifies_state:
  "pl_Revision (project_player rs key p (v\<lparr>s_Playhead := x\<rparr>)) = pl_Revision (project_player rs key p v) \<and>
   (if no_collision rs p v w
    then (pl_Revision (project_player rs key p v) = pl_Revision (project_player rs key p w)) = same_basis rs p v w else True)"
proof -
  have "player_revision rs p (v\<lparr>s_Playhead := x\<rparr>) = player_revision rs p v"
    by (simp add: player_revision_def revision_input_of_def nowPlaying_playhead)
  then show ?thesis using revision_iff [of rs p v w] by (simp add: project_player_def Let_def)
qed

subsection \<open>Preflight and admission\<close>

lemma automation_ceiling:
  assumes "Automation_validate a cmd (Some 100) = Inr ()"
  shows "Automation_validate a cmd (Some c) = Inr () \<longleftrightarrow> a_TargetLevel a \<le> c"
  using assms by (auto simp: Automation_validate_def)

lemma preflight_agrees:
  assumes input: "preflightInput cmd = None" and fade: "0 \<le> c_FadeSeconds cmd" "c_FadeSeconds cmd \<le> 60"
    and clear: "preflight_warnings p cmd None s = []"
  shows "commandCheck p cmd = None \<and> initialCheck p cmd s = None"
proof -
  have "deviceSafety p s = None"
    using clear by (auto simp: preflight_warnings_def safety_warnings_def deviceSafety_def deviceObservationSafety_def split: option.splits if_splits)
  then have safe: "mutationSafety p s False = None" "\<exists>c. cp_VolumeCeiling p = Some c"
    by (auto simp: policy_simps writable_target_def)
  obtain c where c: "cp_VolumeCeiling p = Some c" using safe(2) by blast
  have low: "c_Level cmd \<le> c" "\<And>a. c_Automation cmd = Some a \<Longrightarrow> a_TargetLevel a \<le> c" "\<not> playingBusy cmd s"
    using clear c by (auto simp: preflight_warnings_def exceeds_def split: if_splits option.splits)
  have "c_Kind cmd = CommandKindPlayback" "\<not> isl (validateExpectedOwner cmd)" "0 \<le> c_Level cmd" "c_Level cmd \<le> 100"
    "\<And>a. c_Automation cmd = Some a \<Longrightarrow> Automation_validate a cmd (Some 100) = Inr ()"
    using input by (auto simp: preflightInput_def split: if_splits option.splits sum.splits)
  moreover have "Automation_validate a cmd (Some c) = Inr ()" if "c_Automation cmd = Some a" for a
    using that low(2) calculation(5) automation_ceiling by blast
  ultimately show ?thesis
    using fade safe(1) low c
    by (auto simp: commandCheck_def initialCheck_def is_priority_def aboveCeiling_def split: option.splits sum.splits)
qed

lemma returns_bind_call:
  fixes p :: "('w, 'b) port" and f :: "'b \<Rightarrow> ('w, 'c) work"
  assumes "\<And>v. returns (f (fst (p v))) Q"
  shows "returns (State_Monad.bind (call p) f) Q"
  unfolding returns_def
proof clarsimp
  fix w :: "'w worker" and x w'
  obtain y hs v where p: "p (wk_world w) = (y, hs, v)" by (metis prod_cases3)
  assume "(case run_state (call p) w of (x, xa) \<Rightarrow> run_state (f x) xa) = (Inr x, w')"
  then show "Q x w'" using returnsD [OF assms [of "wk_world w"]] by (simp add: run_simps p)
qed

text \<open>The device's own checks in an admission pass for a command in a state the observer reported.\<close>

definition would_admit :: "'w Device \<Rightarrow> Command \<Rightarrow> bool" where
  "would_admit d cmd \<longleftrightarrow>
     commandCheck (dv_Config d) cmd = None \<and>
     (\<exists>v. initialCheck (dv_Config d) cmd (fst (io_snapshot (dv_ports d) v)) = None)"

lemma returns_Preflight:
  assumes "0 \<le> c_FadeSeconds cmd" "c_FadeSeconds cmd \<le> 60"
  shows "returns (Reads_Preflight rs key cmd) (\<lambda>r w. pf_Ready r \<longrightarrow> (\<exists>d. Reads_device rs key = Inr d \<and> would_admit d cmd))"
proof (cases "Reads_device rs key")
  case (Inl e)
  then show ?thesis by (simp add: Reads_Preflight_def returns_fail)
next
  case (Inr d)
  have "would_admit d cmd" if "preflightInput cmd = None" "preflight_warnings (dv_Config d) cmd r (fst (io_snapshot (dv_ports d) v)) = []" for r v
  proof -
    have "r = None" using that(2) by (cases r) (simp_all add: preflight_warnings_def)
    then show ?thesis using preflight_agrees [OF that(1) assms, of "dv_Config d"] that(2) by (auto simp: would_admit_def)
  qed
  then show ?thesis
    unfolding Reads_Preflight_def Inr
    by (simp only: sum.case Let_def)
      (rule returns_require, rule returns_bind, rule returns_bind_call, rule returns_bind, rule returns_if,
        auto intro!: returns_done returns_andThen returns_bind)
qed

context step_relation begin

lemma within_shown: "within R (shown rs key d)"
  unfolding shown_def by (intro within_intros)

lemma within_Reads_Player: "within R (Reads_Player rs key)"
  unfolding Reads_Player_def by (intro within_intros within_shown)

lemma within_groups_of: "within R (groups_of allowed ds seen)"
  by (induction ds arbitrary: seen) (auto intro!: within_intros split: prod.splits)

lemma within_resolve_here: "within R (resolve_here rs key)"
  unfolding resolve_here_def by (intro within_intros within_resolveSource)

lemma within_sources_of: "within R (sources_of rs allowed cs)"
  by (induction cs) (auto intro!: within_intros within_resolve_here)

lemma within_Reads_Items: "within R (Reads_Items rs key parent cursor limit)"
  unfolding Reads_Items_def by (auto intro!: within_intros within_resolve_here split: option.splits)

lemma within_Reads_Queue: "within R (Reads_Queue rs key revision start limit)"
  unfolding Reads_Queue_def live_queue_def by (intro within_intros within_shown)

lemma within_Reads_Preflight: "within R (Reads_Preflight rs key cmd)"
  unfolding Reads_Preflight_def settled_def by (intro within_intros within_shown within_resolvePlayback)

end

end
