(* ===== verification/Cursors.thy ===== *)
theory Cursors
  imports Histories
begin

section \<open>Cursors of the history\<close>

text \<open>
  \<open>internal/api/history.go\<close>: the opaque cursor of a history page holds the position and the filters it
  was issued for, as JSON in unpadded URL-safe base64. The alphabet and the strict decoder of
  \<open>base64.RawURLEncoding\<close> are written out; \<open>encoding/json\<close> for the cursor's type and the check for repeated
  keys are the argument \<open>cursor_json\<close>.
\<close>

subsection \<open>Unpadded URL-safe base64\<close>

definition b64_char :: "nat \<Rightarrow> char" where
  "b64_char n =
     (if n < 26 then char_of (65 + n) else if n < 52 then char_of (71 + n) else if n < 62 then char_of (n - 4)
      else if n = 62 then CHR ''-'' else CHR ''_'')"

definition b64_value :: "char \<Rightarrow> nat option" where
  "b64_value c =
     (let n = code c in
      if 65 \<le> n \<and> n \<le> 90 then Some (n - 65) else if 97 \<le> n \<and> n \<le> 122 then Some (n - 71)
      else if 48 \<le> n \<and> n \<le> 57 then Some (n + 4) else if c = CHR ''-'' then Some 62 else if c = CHR ''_'' then Some 63 else None)"

fun b64_encode :: "string \<Rightarrow> string" where
  "b64_encode [] = []"
| "b64_encode [a] = [b64_char (code a div 4), b64_char (code a mod 4 * 16)]"
| "b64_encode [a, b] = [b64_char (code a div 4), b64_char (code a mod 4 * 16 + code b div 16), b64_char (code b mod 16 * 4)]"
| "b64_encode (a # b # c # s) =
     b64_char (code a div 4) # b64_char (code a mod 4 * 16 + code b div 16) # b64_char (code b mod 16 * 4 + code c div 64) #
     b64_char (code c mod 64) # b64_encode s"

text \<open>Strict: the bits that are left over must be zero. Line ends are skipped.\<close>

fun b64_values :: "nat list \<Rightarrow> string option" where
  "b64_values [] = Some []"
| "b64_values [v] = None"
| "b64_values [v, w] = (if w mod 16 = 0 then Some [char_of (v * 4 + w div 16)] else None)"
| "b64_values [v, w, x] =
     (if x mod 4 = 0 then Some [char_of (v * 4 + w div 16), char_of (w mod 16 * 16 + x div 4)] else None)"
| "b64_values (v # w # x # y # s) =
     map_option (\<lambda>t. char_of (v * 4 + w div 16) # char_of (w mod 16 * 16 + x div 4) # char_of (x mod 4 * 64 + y) # t) (b64_values s)"

definition b64_decode :: "string \<Rightarrow> string option" where
  "b64_decode s = Option.bind (those (map b64_value (filter (\<lambda>c. c \<noteq> CR \<and> c \<noteq> LF) s))) b64_values"

lemma code_b64_char:
  assumes "n < 64"
  shows "code (b64_char n) = (if n < 26 then 65 + n else if n < 52 then 71 + n else if n < 62 then n - 4 else if n = 62 then 45 else 95)"
  using assms by (auto simp: b64_char_def code_char_of) (simp_all add: code_def)

lemma b64_value_char [simp]:
  assumes "n < 64"
  shows "b64_value (b64_char n) = Some n" and "b64_char n \<noteq> CR" and "b64_char n \<noteq> LF"
proof -
  have "code CR = 13" "code LF = 10" "code CHR ''-'' = 45" "code CHR ''_'' = 95" by (simp_all add: code_def)
  then show "b64_char n \<noteq> CR" and "b64_char n \<noteq> LF" using code_b64_char [OF assms] by (auto split: if_splits)
  have "b64_char n = CHR ''-'' \<longleftrightarrow> n = 62" "b64_char n = CHR ''_'' \<longleftrightarrow> n = 63"
    using code_b64_char [OF assms] \<open>code CHR ''-'' = 45\<close> \<open>code CHR ''_'' = 95\<close> assms code_inj
    by (auto split: if_splits simp: b64_char_def)
  then show "b64_value (b64_char n) = Some n"
    using assms by (auto simp: b64_value_def code_b64_char Let_def)
qed

lemma code_div:
  "code a div 4 < 64" "code a div 16 < 16" "code a div 64 < 4"
  using code_less [of a] by (simp_all add: less_mult_imp_div_less)

lemma b64_sextets [simp]:
  "code a div 4 < 64" "code a mod 4 * 16 + code b div 16 < 64" "code b mod 16 * 4 + code c div 64 < 64" "code c mod 64 < 64"
  "code a mod 4 * 16 < 64" "code b mod 16 * 4 < 64"
proof -
  have "code a mod 4 < 4" "code b mod 16 < 16" "code c mod 64 < 64" by simp_all
  then show "code a div 4 < 64" "code a mod 4 * 16 + code b div 16 < 64" "code b mod 16 * 4 + code c div 64 < 64" "code c mod 64 < 64"
    "code a mod 4 * 16 < 64" "code b mod 16 * 4 < 64"
    using code_div [of a] code_div [of b] code_div [of c] by linarith+
qed

lemma b64_octets [simp]:
  "code b div 16 div 16 = 0" "code b div 16 mod 16 = code b div 16" "code c div 64 div 4 = 0" "code c div 64 mod 4 = code c div 64"
  using code_div [of b] code_div [of c] by simp_all

lemma b64_decode_encode [simp]: "b64_decode (b64_encode s) = Some s"
proof (induction s rule: b64_encode.induct)
  case (4 a b c s)
  then show ?case
    by (cases "those (map b64_value (filter (\<lambda>c. c \<noteq> CR \<and> c \<noteq> LF) (b64_encode s)))") (simp_all add: b64_decode_def)
qed (simp_all add: b64_decode_def)

subsection \<open>The cursor\<close>

record historyFilters =
  hf_Player :: string
  hf_State :: string
  hf_Kind :: string
  hf_Delivery :: string
  hf_CreatedFrom :: string
  hf_CreatedBefore :: string
  hf_Limit :: int

record historyCursor =
  hc_Version :: int
  hc_Filters :: historyFilters
  hc_Position :: HistoryPosition

text \<open>\<open>json.Marshal\<close> of a cursor, the check for repeated keys, and the decoder that refuses unknown fields.\<close>

record cursor_json =
  cj_marshal :: "historyCursor \<Rightarrow> string"
  cj_unique :: "string \<Rightarrow> bool"
  cj_decode :: "string \<Rightarrow> historyCursor option"

definition historyCursorMax :: nat where
  "historyCursorMax = 2048"

definition history_id_char :: "char \<Rightarrow> bool" where
  "history_id_char c \<longleftrightarrow>
     (CHR ''a'' \<le> c \<and> c \<le> CHR ''z'') \<or> (CHR ''A'' \<le> c \<and> c \<le> CHR ''Z'') \<or> (CHR ''0'' \<le> c \<and> c \<le> CHR ''9'') \<or>
     c = CHR ''_'' \<or> c = CHR ''-''"

definition historyIDValid :: "string \<Rightarrow> bool" where
  "historyIDValid s \<longleftrightarrow> s \<noteq> [] \<and> length s \<le> 128 \<and> list_all history_id_char s"

definition encodeHistoryCursor :: "cursor_json \<Rightarrow> HistoryPosition \<Rightarrow> historyFilters \<Rightarrow> string result" where
  "encodeHistoryCursor js position filters =
     (let encoded = b64_encode (cj_marshal js \<lparr>hc_Version = 1, hc_Filters = filters, hc_Position = position\<rparr>) in
      if length encoded > historyCursorMax then Inl (OtherError ''history cursor exceeds bound'') else Inr encoded)"

definition cursor_valid :: "historyFilters \<Rightarrow> historyCursor \<Rightarrow> bool" where
  "cursor_valid filters c \<longleftrightarrow>
     hc_Version c = 1 \<and> hc_Filters c = filters \<and> \<not> IsZero (hp_CreatedAt (hc_Position c)) \<and>
     hp_CreatedAt (hc_Position c) mod Microsecond = 0 \<and> historyIDValid (hp_ID (hc_Position c))"

definition decodeHistoryCursor :: "cursor_json \<Rightarrow> string \<Rightarrow> historyFilters \<Rightarrow> HistoryPosition result" where
  "decodeHistoryCursor js encoded filters =
     (let invalid = Inl (OtherError ''invalid history cursor'') in
      if encoded = [] \<or> length encoded > historyCursorMax then invalid
      else case b64_decode encoded of
             None \<Rightarrow> invalid
           | Some b \<Rightarrow>
               if \<not> cj_unique js b then invalid
               else case cj_decode js b of
                      None \<Rightarrow> invalid
                    | Some c \<Rightarrow> if cursor_valid filters c then Inr (hc_Position c) else invalid)"

text \<open>What \<open>encoding/json\<close> promises for a cursor: it decodes what it encoded.\<close>

definition issued :: "HistoryPosition \<Rightarrow> historyFilters \<Rightarrow> historyCursor" where
  "issued position filters = \<lparr>hc_Version = 1, hc_Filters = filters, hc_Position = position\<rparr>"

definition json_faithful :: "cursor_json \<Rightarrow> historyCursor \<Rightarrow> bool" where
  "json_faithful js c \<longleftrightarrow>
     cj_marshal js c \<noteq> [] \<and> cj_unique js (cj_marshal js c) \<and> cj_decode js (cj_marshal js c) = Some c"

text \<open>
  C39. A cursor stands for one position of one query. A cursor the server issued is accepted with
  exactly the filters it was issued for, and then yields the position it was issued at; with any other
  filters it is refused. Every byte of its document survives the base64 encoding and the strict
  decoder.
\<close>

theorem cursor_round_trip:
  assumes "encodeHistoryCursor js position filters = Inr encoded" and "json_faithful js (issued position filters)"
    and "position_valid position" and "historyIDValid (hp_ID position)"
  shows "decodeHistoryCursor js encoded given = (if given = filters then Inr position else Inl (OtherError ''invalid history cursor''))"
proof -
  have enc: "encoded = b64_encode (cj_marshal js (issued position filters))" "length encoded \<le> historyCursorMax"
    using assms(1) by (auto simp: encodeHistoryCursor_def issued_def Let_def split: if_splits)
  have "b64_decode encoded = Some (cj_marshal js (issued position filters))" by (simp add: enc(1))
  moreover have "encoded \<noteq> []" using calculation assms(2) by (auto simp: b64_decode_def json_faithful_def)
  ultimately show ?thesis
    using enc(2) assms
    by (auto simp: decodeHistoryCursor_def Let_def json_faithful_def issued_def cursor_valid_def position_valid_def historyTimeValid_def)
qed

definition past_filters :: "int \<Rightarrow> historyFilters" where
  "past_filters limit =
     \<lparr>hf_Player = [], hf_State = [], hf_Kind = [], hf_Delivery = [], hf_CreatedFrom = [], hf_CreatedBefore = [], hf_Limit = limit\<rparr>"

definition past_position :: HistoryPosition where
  "past_position = \<lparr>hp_CreatedAt = 4000, hp_ID = ''5''\<rparr>"

definition sample_json :: cursor_json where
  "sample_json = \<lparr>cj_marshal = \<lambda>_. ''{}'', cj_unique = \<lambda>_. True, cj_decode = \<lambda>_. Some (issued past_position (past_filters 1))\<rparr>"

theorem cursor_round_trip_witness:
  "encodeHistoryCursor sample_json past_position (past_filters 1) = Inr ''e30'' \<and>
   decodeHistoryCursor sample_json ''e30'' (past_filters 1) = Inr past_position \<and>
   isl (decodeHistoryCursor sample_json ''e30'' (past_filters 2))"
proof -
  have "char_of (101 :: nat) = CHR ''e''" "char_of (51 :: nat) = CHR ''3''" "char_of (48 :: nat) = CHR ''0''" by code_simp+
  then have enc: "encodeHistoryCursor sample_json past_position (past_filters 1) = Inr ''e30''"
    by (simp add: encodeHistoryCursor_def sample_json_def historyCursorMax_def code_def b64_char_def)
  have "json_faithful sample_json (issued past_position (past_filters 1))" by (simp add: json_faithful_def sample_json_def)
  moreover have "position_valid past_position" "historyIDValid (hp_ID past_position)"
    by (simp_all add: position_valid_def past_position_def textWithin_def historyTimeValid_def IsZero_def year10000_def duration_defs
        Microsecond_def historyIDValid_def history_id_char_def)
  ultimately show ?thesis
    using enc cursor_round_trip [OF enc, of "past_filters 1"] cursor_round_trip [OF enc, of "past_filters 2"]
    by (simp add: past_filters_def)
qed

end
