(* ===== verification/Streams.thy ===== *)
theory Streams
  imports Strings "HOL-Library.Sublist"
begin

section \<open>The event stream of the API\<close>

text \<open>
  \<open>internal/api/events.go\<close>: the broker that numbers published events, keeps a bounded history for
  clients that reconnect, and feeds the subscriptions; and the stream that writes a subscription to
  its client. A subscription is a numbered entry of the broker; one that was removed stays with its
  channel of \<open>done\<close> closed. The history and what each stream wrote are compared with everything that
  was ever published.
\<close>

subsection \<open>The broker\<close>

record api_Event =
  ae_ID :: string
  ae_Kind :: string
  ae_Player :: string
  ae_Operation :: string
  ae_Principal :: string

text \<open>\<open>sb_replay\<close> and \<open>sb_sent\<close> are the stream's: what it still has to replay and what it wrote.\<close>

record subscription =
  sb_events :: "api_Event list"
  sb_done :: bool
  sb_allow :: "api_Event \<Rightarrow> bool"
  sb_replay :: "api_Event list"
  sb_sent :: "api_Event list"

record api_Events =
  ev_epoch :: string
  ev_seq :: uint64
  ev_history :: "api_Event list"
  ev_capacity :: nat
  ev_buffer :: nat
  ev_max :: nat
  ev_subs :: "subscription list"
  ev_closed :: bool

definition errEventCapacity :: error where
  "errEventCapacity = OtherError ''event subscriber capacity reached''"

text \<open>Bounds out of range are a programming error that panics: \<open>None\<close>.\<close>

definition NewEvents :: "string \<Rightarrow> nat \<Rightarrow> nat \<Rightarrow> nat \<Rightarrow> api_Events option" where
  "NewEvents epoch capacity buffer m =
     (if epoch = [] \<or> capacity < 1 \<or> capacity > 1024 \<or> buffer < 1 \<or> buffer > 256 \<or> m < 1 \<or> m > 128 then None
      else Some \<lparr>ev_epoch = epoch, ev_seq = 0, ev_history = [], ev_capacity = capacity, ev_buffer = buffer, ev_max = m,
                 ev_subs = [], ev_closed = False\<rparr>)"

definition event_id :: "string \<Rightarrow> uint64 \<Rightarrow> string" where
  "event_id epoch n = epoch @ '':'' @ show_nat (unat n)"

definition close_sub :: "subscription \<Rightarrow> subscription" where
  "close_sub s = s\<lparr>sb_done := True\<rparr>"

definition subscription_Close :: "nat \<Rightarrow> api_Events \<Rightarrow> api_Events" where
  "subscription_Close i b = (if i < length (ev_subs b) then b\<lparr>ev_subs := (ev_subs b)[i := close_sub (ev_subs b ! i)]\<rparr> else b)"

definition Events_Close :: "api_Events \<Rightarrow> api_Events" where
  "Events_Close b = b\<lparr>ev_closed := True, ev_subs := map close_sub (ev_subs b)\<rparr>"

text \<open>A live subscription takes an event it may see, or is closed when its buffer is full.\<close>

definition offer :: "nat \<Rightarrow> api_Event \<Rightarrow> subscription \<Rightarrow> subscription" where
  "offer buffer e s =
     (if sb_done s \<or> \<not> sb_allow s e then s
      else if length (sb_events s) < buffer then s\<lparr>sb_events := sb_events s @ [e]\<rparr>
      else close_sub s)"

definition remember :: "nat \<Rightarrow> api_Event list \<Rightarrow> api_Event \<Rightarrow> api_Event list" where
  "remember capacity history e = (if length history = capacity then tl history else history) @ [e]"

definition Publish :: "api_Event \<Rightarrow> api_Events \<Rightarrow> api_Events" where
  "Publish e b =
     (if ev_closed b then b
      else let n = ev_seq b + 1; e = e\<lparr>ae_ID := event_id (ev_epoch b) n\<rparr>
           in b\<lparr>ev_seq := n, ev_history := remember (ev_capacity b) (ev_history b) e,
                ev_subs := map (offer (ev_buffer b) e) (ev_subs b)\<rparr>)"

definition live :: "api_Events \<Rightarrow> nat" where
  "live b = length (filter (\<lambda>s. \<not> sb_done s) (ev_subs b))"

definition missed :: "api_Events \<Rightarrow> string \<Rightarrow> bool" where
  "missed b last_id =
     (let (epoch, n, ok) = Cut CHR '':'' last_id; parsed = ParseUint n;
          seq = (case parsed of Some k \<Rightarrow> of_nat k | None \<Rightarrow> 0)
      in (\<not> ok \<or> parsed = None \<or> epoch \<noteq> ev_epoch b \<or> ev_seq b < seq) \<or>
         (ev_history b \<noteq> [] \<and> seq < ev_seq b - of_nat (length (ev_history b))))"

definition id_number :: "string \<Rightarrow> uint64" where
  "id_number s = (case Cut CHR '':'' s of (_, n, _) \<Rightarrow> case ParseUint n of Some k \<Rightarrow> of_nat k | None \<Rightarrow> 0)"

definition snapshot_required :: "api_Events \<Rightarrow> api_Event" where
  "snapshot_required b =
     \<lparr>ae_ID = event_id (ev_epoch b) (ev_seq b), ae_Kind = ''snapshot_required'', ae_Player = [], ae_Operation = [], ae_Principal = []\<rparr>"

definition replay_of :: "api_Events \<Rightarrow> string \<Rightarrow> (api_Event \<Rightarrow> bool) \<Rightarrow> api_Event list" where
  "replay_of b last_id allow =
     (if missed b last_id then [snapshot_required b]
      else filter (\<lambda>e. id_number last_id < id_number (ae_ID e) \<and> allow e) (ev_history b))"

definition Subscribe :: "string \<Rightarrow> (api_Event \<Rightarrow> bool) \<Rightarrow> api_Events \<Rightarrow> nat result \<times> api_Events" where
  "Subscribe last_id allow b =
     (if ev_closed b \<or> live b \<ge> ev_max b then (Inl errEventCapacity, b)
      else (Inr (length (ev_subs b)),
            b\<lparr>ev_subs := ev_subs b @
               [\<lparr>sb_events = [], sb_done = False, sb_allow = allow, sb_replay = replay_of b last_id allow, sb_sent = []\<rparr>]\<rparr>))"

text \<open>
  One write of \<open>VisitGetEventsResponse\<close>: the replay comes first, then the channel. A subscription that
  was removed is written no more. A failed write, the end of the request and the keepalive are
  \<open>subscription_Close\<close> or nothing here.
\<close>

definition stream_write :: "subscription \<Rightarrow> subscription" where
  "stream_write s =
     (if sb_done s then s
      else case sb_replay s of
             e # es \<Rightarrow> s\<lparr>sb_replay := es, sb_sent := sb_sent s @ [e]\<rparr>
           | [] \<Rightarrow> (case sb_events s of
                      e # es \<Rightarrow> s\<lparr>sb_events := es, sb_sent := sb_sent s @ [e]\<rparr>
                    | [] \<Rightarrow> s))"

definition Stream :: "nat \<Rightarrow> api_Events \<Rightarrow> api_Events" where
  "Stream i b = (if i < length (ev_subs b) then b\<lparr>ev_subs := (ev_subs b)[i := stream_write (ev_subs b ! i)]\<rparr> else b)"

subsection \<open>Histories\<close>

text \<open>
  \<open>broker P L b\<close>: \<open>b\<close> is a broker that published \<open>P\<close> so far; \<open>L\<close> lists the subscriptions with the last ID
  the client gave and the number of events published before.
\<close>

inductive broker :: "api_Event list \<Rightarrow> (string \<times> nat) list \<Rightarrow> api_Events \<Rightarrow> bool" where
  started: "NewEvents epoch capacity buffer m = Some b \<Longrightarrow> broker [] [] b"
| published: "broker P L b \<Longrightarrow> \<not> ev_closed b \<Longrightarrow> length P + 1 < 2 ^ 64 \<Longrightarrow>
    broker (P @ [e\<lparr>ae_ID := event_id (ev_epoch b) (ev_seq b + 1)\<rparr>]) L (Publish e b)"
| refused: "broker P L b \<Longrightarrow> ev_closed b \<Longrightarrow> broker P L (Publish e b)"
| subscribed: "broker P L b \<Longrightarrow> Subscribe last_id allow b = (Inr i, b') \<Longrightarrow> broker P (L @ [(last_id, length P)]) b'"
| unsubscribed: "broker P L b \<Longrightarrow> broker P L (subscription_Close i b)"
| streamed: "broker P L b \<Longrightarrow> broker P L (Stream i b)"
| stopped: "broker P L b \<Longrightarrow> broker P L (Events_Close b)"

text \<open>What a stream owes its client: a notice and the events since then, or every event after the last one seen.\<close>

definition owed :: "api_Event list \<Rightarrow> string \<Rightarrow> nat \<Rightarrow> (api_Event \<Rightarrow> bool) \<Rightarrow> api_Event list \<Rightarrow> bool" where
  "owed P last_id n allow xs \<longleftrightarrow>
     n \<le> length P \<and>
     ((\<exists>note. ae_Kind note = ''snapshot_required'' \<and> xs = note # filter allow (drop n P)) \<or>
      unat (id_number last_id) \<le> n \<and> xs = filter allow (drop (unat (id_number last_id)) P))"

definition fed :: "api_Event list \<Rightarrow> string \<times> nat \<Rightarrow> subscription \<Rightarrow> bool" where
  "fed P l s \<longleftrightarrow>
     (\<exists>xs. owed P (fst l) (snd l) (sb_allow s) xs \<and> prefix (sb_sent s @ sb_replay s @ sb_events s) xs \<and>
        (\<not> sb_done s \<longrightarrow> sb_sent s @ sb_replay s @ sb_events s = xs))"

definition numbered :: "api_Event list \<Rightarrow> api_Events \<Rightarrow> bool" where
  "numbered P b \<longleftrightarrow>
     length P < 2 ^ 64 \<and> ev_seq b = of_nat (length P) \<and> 1 \<le> ev_capacity b \<and>
     (\<forall>i < length P. ae_ID (P ! i) = event_id (ev_epoch b) (of_nat (i + 1))) \<and>
     ev_history b = drop (length P - ev_capacity b) P"

definition kept :: "api_Event list \<Rightarrow> (string \<times> nat) list \<Rightarrow> api_Events \<Rightarrow> bool" where
  "kept P L b \<longleftrightarrow> numbered P b \<and> list_all2 (fed P) L (ev_subs b)"

lemma remember_drop:
  assumes "1 \<le> c"
  shows "remember c (drop (length P - c) P) e = drop (length (P @ [e]) - c) (P @ [e])"
proof (cases "length P < c")
  case True
  then show ?thesis by (simp add: remember_def)
next
  case False
  then have "length (drop (length P - c) P) = c" by simp
  moreover have "tl (drop (length P - c) P) = drop (Suc (length P) - c) P"
    using False by (simp add: drop_Suc tl_drop Suc_diff_le)
  moreover have "Suc (length P) - c \<le> length P" using assms by simp
  ultimately show ?thesis using assms by (simp add: remember_def)
qed

lemma numbered_Publish:
  assumes "numbered P b" and "\<not> ev_closed b" and "length P + 1 < 2 ^ 64"
  shows "numbered (P @ [e\<lparr>ae_ID := event_id (ev_epoch b) (ev_seq b + 1)\<rparr>]) (Publish e b)"
  using assms remember_drop [of "ev_capacity b" P]
  by (auto simp: numbered_def Publish_def Let_def nth_append less_Suc_eq add.commute)

lemma fed_offer:
  assumes "fed P l s"
  shows "fed (P @ [e]) l (offer buffer e s)"
proof -
  obtain xs where xs: "owed P (fst l) (snd l) (sb_allow s) xs" "prefix (sb_sent s @ sb_replay s @ sb_events s) xs"
    "\<not> sb_done s \<Longrightarrow> sb_sent s @ sb_replay s @ sb_events s = xs" using assms by (auto simp: fed_def)
  let ?xs = "xs @ filter (sb_allow s) [e]"
  have "owed (P @ [e]) (fst l) (snd l) (sb_allow s) ?xs" using xs(1) by (auto simp: owed_def)
  moreover have "prefix (sb_sent s @ sb_replay s @ sb_events s) ?xs" using xs(2) by (rule prefix_prefix)
  ultimately show ?thesis
    unfolding fed_def using xs(3)
    by (intro exI [of _ ?xs]) (auto simp: offer_def close_sub_def)
qed

lemma id_number_event_id:
  assumes "CHR '':'' \<notin> set epoch"
  shows "id_number (event_id epoch n) = n"
proof -
  have "unat n < 2 ^ 64" using unsigned_less [of n] by simp
  then show ?thesis
    using assms by (simp add: id_number_def event_id_def Cut_found ParseUint_def)
qed

lemma filter_newer:
  assumes ids: "\<And>i. i < length P \<Longrightarrow> f (P ! i) = Suc i" and "d \<le> k"
  shows "filter (\<lambda>e. k < f e \<and> allow e) (drop d P) = filter allow (drop k P)"
  using assms
proof (induction P rule: rev_induct)
  case (snoc x P)
  have "\<And>i. i < length P \<Longrightarrow> f (P ! i) = Suc i" using snoc.prems(1) by (metis nth_append length_append_singleton less_SucI)
  moreover have "f x = Suc (length P)" using snoc.prems(1) [of "length P"] by simp
  ultimately show ?case using snoc.IH snoc.prems(2) by (cases "d \<le> length P"; cases "k \<le> length P") auto
qed simp

lemma numbered_ids:
  assumes "numbered P b" and "CHR '':'' \<notin> set (ev_epoch b)" and "i < length P"
  shows "unat (id_number (ae_ID (P ! i))) = Suc i"
  using assms by (simp add: numbered_def id_number_event_id unat_of_nat del: of_nat_Suc)

lemma Cut_head: "Cut c s = (a, b, ok) \<Longrightarrow> c \<notin> set a"
  by (induction s arbitrary: a) (auto split: if_splits prod.splits)

lemma not_missed_cases:
  assumes "\<not> missed b last_id"
  shows "CHR '':'' \<notin> set (ev_epoch b) \<and> id_number last_id \<le> ev_seq b \<and>
    (ev_history b \<noteq> [] \<longrightarrow> ev_seq b - of_nat (length (ev_history b)) \<le> id_number last_id)"
proof -
  obtain epoch n ok where cut: "Cut CHR '':'' last_id = (epoch, n, ok)" by (metis prod_cases3)
  then show ?thesis
    using assms Cut_head [OF cut] by (auto simp: missed_def id_number_def Let_def not_less)
qed

lemma not_missedD:
  assumes "numbered P b" and "\<not> missed b last_id"
  shows "CHR '':'' \<notin> set (ev_epoch b)" and "unat (id_number last_id) \<le> length P"
    and "length P - ev_capacity b \<le> unat (id_number last_id)"
proof -
  note num = assms(1) [unfolded numbered_def]
  show "CHR '':'' \<notin> set (ev_epoch b)" using not_missed_cases [OF assms(2)] by simp
  have len: "unat (of_nat (length P) :: uint64) = length P" using num by (simp add: unat_of_nat)
  show "unat (id_number last_id) \<le> length P"
    using not_missed_cases [OF assms(2)] num len by (simp add: word_le_nat_alt)
  show "length P - ev_capacity b \<le> unat (id_number last_id)"
  proof (cases "ev_history b = []")
    case True
    then have "length P \<le> length P - ev_capacity b" "1 \<le> ev_capacity b" using num by auto
    then have "length P = 0" by linarith
    then show ?thesis by simp
  next
    case False
    let ?h = "length (ev_history b)"
    have h: "?h \<le> length P" "length P - ?h = length P - ev_capacity b" using num by auto
    have "ev_seq b - of_nat ?h = of_nat (length P - ev_capacity b)" using num h(2) of_nat_diff [OF h(1), where 'a = uint64] by simp
    moreover have "unat (of_nat (length P - ev_capacity b) :: uint64) = length P - ev_capacity b"
      using num by (simp add: unat_of_nat less_imp_diff_less)
    ultimately show ?thesis using not_missed_cases [OF assms(2)] False by (simp add: word_le_nat_alt)
  qed
qed

lemma replay_owed:
  assumes "numbered P b"
  shows "owed P last_id (length P) allow (replay_of b last_id allow)"
proof (cases "missed b last_id")
  case True
  then show ?thesis by (simp add: owed_def replay_of_def snapshot_required_def)
next
  case False
  note new = not_missedD [OF assms False]
  have "replay_of b last_id allow = filter allow (drop (unat (id_number last_id)) P)"
    using False assms filter_newer [of P "\<lambda>e. unat (id_number (ae_ID e))", OF numbered_ids [OF assms new(1)] new(3), of allow]
    by (simp add: replay_of_def numbered_def word_less_nat_alt)
  then show ?thesis using new(2) by (simp add: owed_def)
qed

lemma fed_close: "fed P l s \<Longrightarrow> fed P l (close_sub s)"
  by (auto simp: fed_def close_sub_def)

lemma fed_stream: "fed P l s \<Longrightarrow> fed P l (stream_write s)"
  by (cases "sb_replay s"; cases "sb_events s") (auto simp: fed_def stream_write_def)

lemma kept_update:
  assumes "kept P L b" and "\<And>l. fed P l (ev_subs b ! i) \<Longrightarrow> fed P l s" and "i < length (ev_subs b)"
  shows "kept P L (b\<lparr>ev_subs := (ev_subs b)[i := s]\<rparr>)"
  using assms by (auto simp: kept_def numbered_def list_all2_conv_all_nth nth_list_update)

lemma broker_kept: "broker P L b \<Longrightarrow> kept P L b"
proof (induction rule: broker.induct)
  case (started epoch capacity buffer m b)
  then show ?case by (auto simp: NewEvents_def kept_def numbered_def split: if_splits)
next
  case (published P L b e)
  then show ?case
    using numbered_Publish [of P b e] fed_offer
    by (auto simp: kept_def Publish_def Let_def list_all2_map2 elim: list_all2_mono)
next
  case (refused P L b e)
  then show ?case by (simp add: Publish_def)
next
  case (subscribed P L b last_id allow i b')
  then have "fed P (last_id, length P)
      \<lparr>sb_events = [], sb_done = False, sb_allow = allow, sb_replay = replay_of b last_id allow, sb_sent = []\<rparr>"
    using replay_owed [of P b last_id allow] by (simp add: fed_def kept_def)
  then show ?case
    using subscribed by (auto simp: Subscribe_def kept_def numbered_def list_all2_appendI split: if_splits)
next
  case (unsubscribed P L b i)
  then show ?case by (simp add: subscription_Close_def kept_update fed_close)
next
  case (streamed P L b i)
  then show ?case by (simp add: Stream_def kept_update fed_stream)
next
  case (stopped P L b)
  then show ?case by (auto simp: Events_Close_def kept_def numbered_def list_all2_map2 fed_close elim: list_all2_mono)
qed

text \<open>
  C36. An event stream has no gaps, duplicates or reorderings. Whatever was published, however the
  subscriptions came and went and however slowly each client was written to, what a client has been
  sent is a prefix of what it is owed: every event it may see published after the last one it named,
  in order; or, when the broker no longer knows what the client missed, a notice that a snapshot is
  required, followed by every event it may see since it subscribed. A client whose subscription
  stands and whose buffers are drained has been sent all of it.
\<close>

theorem event_stream_complete:
  assumes "broker P L b" and "i < length L"
  shows "i < length (ev_subs b) \<and>
    (\<exists>xs. owed P (fst (L ! i)) (snd (L ! i)) (sb_allow (ev_subs b ! i)) xs \<and>
       prefix (sb_sent (ev_subs b ! i)) xs \<and>
       (\<not> sb_done (ev_subs b ! i) \<and> sb_replay (ev_subs b ! i) = [] \<and> sb_events (ev_subs b ! i) = [] \<longrightarrow>
          sb_sent (ev_subs b ! i) = xs))"
proof -
  have "i < length (ev_subs b)" "fed P (L ! i) (ev_subs b ! i)"
    using broker_kept [OF assms(1)] assms(2) by (auto simp: kept_def list_all2_conv_all_nth)
  then show ?thesis unfolding fed_def by (metis append_Nil2 append_prefixD)
qed

text \<open>
  A broker that keeps one event: a client that saw the first of two events is sent the second, one
  that saw none is told to take a snapshot.
\<close>

definition small_broker :: api_Events where
  "small_broker = \<lparr>ev_epoch = ''e'', ev_seq = 0, ev_history = [], ev_capacity = 1, ev_buffer = 1, ev_max = 2, ev_subs = [],
     ev_closed = False\<rparr>"

definition sample_event :: "string \<Rightarrow> api_Event" where
  "sample_event kind = \<lparr>ae_ID = [], ae_Kind = kind, ae_Player = [], ae_Operation = [], ae_Principal = []\<rparr>"

definition streamed_broker :: api_Events where
  "streamed_broker =
     Stream 1 (Stream 0 (snd (Subscribe ''e:0'' (\<lambda>_. True) (snd (Subscribe ''e:1'' (\<lambda>_. True)
       (Publish (sample_event ''b'') (Publish (sample_event ''a'') small_broker)))))))"

theorem event_stream_complete_witness:
  "broker [sample_event ''a''\<lparr>ae_ID := ''e:1''\<rparr>, sample_event ''b''\<lparr>ae_ID := ''e:2''\<rparr>] [(''e:1'', 2), (''e:0'', 2)] streamed_broker \<and>
   map (map ae_Kind \<circ> sb_sent) (ev_subs streamed_broker) = [[''b''], [''snapshot_required'']] \<and>
   (\<exists>xs. owed [sample_event ''a''\<lparr>ae_ID := ''e:1''\<rparr>, sample_event ''b''\<lparr>ae_ID := ''e:2''\<rparr>] ''e:1'' 2 (\<lambda>_. True) xs \<and>
      sb_sent (ev_subs streamed_broker ! 0) = xs)"
proof -
  let ?P = "[sample_event ''a''\<lparr>ae_ID := ''e:1''\<rparr>, sample_event ''b''\<lparr>ae_ID := ''e:2''\<rparr>]"
  let ?b = "Publish (sample_event ''b'') (Publish (sample_event ''a'') small_broker)"
  have ids: "event_id ''e'' 1 = ''e:1''" "event_id ''e'' 2 = ''e:2''" by code_simp+
  have "broker [] [] small_broker" by (rule broker.started [of "''e''" 1 1 2]) (simp add: NewEvents_def small_broker_def)
  from broker.published [OF this, of "sample_event ''a''"]
  have "broker [sample_event ''a''\<lparr>ae_ID := ''e:1''\<rparr>] [] (Publish (sample_event ''a'') small_broker)"
    by (simp add: small_broker_def ids)
  from broker.published [OF this, of "sample_event ''b''"]
  have "broker ?P [] ?b" by (simp add: small_broker_def ids Publish_def)
  moreover have "Subscribe ''e:1'' (\<lambda>_. True) ?b = (Inr 0, snd (Subscribe ''e:1'' (\<lambda>_. True) ?b))"
    by (simp add: Subscribe_def small_broker_def Publish_def live_def)
  ultimately have "broker ?P ([] @ [(''e:1'', length ?P)]) (snd (Subscribe ''e:1'' (\<lambda>_. True) ?b))"
    by (rule broker.subscribed)
  moreover have "Subscribe ''e:0'' (\<lambda>_. True) (snd (Subscribe ''e:1'' (\<lambda>_. True) ?b)) =
      (Inr 1, snd (Subscribe ''e:0'' (\<lambda>_. True) (snd (Subscribe ''e:1'' (\<lambda>_. True) ?b))))"
    by (simp add: Subscribe_def small_broker_def Publish_def live_def)
  ultimately have "broker ?P (([] @ [(''e:1'', length ?P)]) @ [(''e:0'', length ?P)])
      (snd (Subscribe ''e:0'' (\<lambda>_. True) (snd (Subscribe ''e:1'' (\<lambda>_. True) ?b))))"
    by (rule broker.subscribed)
  then have run: "broker ?P [(''e:1'', 2), (''e:0'', 2)] streamed_broker"
    unfolding streamed_broker_def by (intro broker.streamed) (simp add: numeral_2_eq_2)
  have parsed: "ParseUint ''0'' = Some 0" "ParseUint ''1'' = Some 1" "ParseUint ''2'' = Some 2"
    by (simp_all add: ParseUint_def digits_val_def is_digit_def code_def)
  have two: "Publish (sample_event ''b'') (Publish (sample_event ''a'') small_broker) =
      small_broker\<lparr>ev_seq := 2, ev_history := [sample_event ''b''\<lparr>ae_ID := ''e:2''\<rparr>]\<rparr>"
    by (simp add: Publish_def small_broker_def remember_def ids)
  have subs: "ev_subs streamed_broker =
      [\<lparr>sb_events = [], sb_done = False, sb_allow = \<lambda>_. True, sb_replay = [], sb_sent = [sample_event ''b''\<lparr>ae_ID := ''e:2''\<rparr>]\<rparr>,
       \<lparr>sb_events = [], sb_done = False, sb_allow = \<lambda>_. True, sb_replay = [], sb_sent = [snapshot_required ?b]\<rparr>]"
    unfolding streamed_broker_def two
    by (simp add: Stream_def Subscribe_def small_broker_def live_def stream_write_def replay_of_def missed_def id_number_def
        parsed sample_event_def snapshot_required_def)
  from event_stream_complete [OF run, of 0] show ?thesis
    using run by (auto simp: subs sample_event_def snapshot_required_def)
qed

end
