(* ===== verification/Documents.thy ===== *)
theory Documents
  imports Journal
begin

section \<open>JSON documents from outside\<close>

text \<open>
  The two readers that accept a document only if its meaning is unambiguous: \<open>config.UniqueJSON\<close>
  (\<open>internal/config/readonly.go\<close>) for request bodies, files and cursors, and \<open>readJSON\<close> with
  \<open>canonicalObject\<close> (\<open>internal/journal/operation.go\<close>) for what the journal stores and hashes. Both pull
  tokens from a \<open>json.Decoder\<close>, which is modelled by the stream of lexemes it finds: a token, or the
  point at which the text stops being JSON; the end of the list is the end of the text. The decoder
  only returns delimiters that match, and only strings as keys. The reference is the tree of the
  document.
\<close>

subsection \<open>Streams and trees\<close>

datatype jtoken = OpenObject | CloseObject | OpenArray | CloseArray | JString string | JScalar string

datatype lexeme = Tok jtoken | Malformed

datatype json = Text string | Scalar string | Arr "json list" | Obj "(string \<times> json) list"

fun tokens_of :: "json \<Rightarrow> lexeme list" where
  "tokens_of (Text s) = [Tok (JString s)]"
| "tokens_of (Scalar s) = [Tok (JScalar s)]"
| "tokens_of (Arr js) = Tok OpenArray # concat (map tokens_of js) @ [Tok CloseArray]"
| "tokens_of (Obj fs) = Tok OpenObject # concat (map (\<lambda>(k, v). Tok (JString k) # tokens_of v) fs) @ [Tok CloseObject]"

text \<open>
  A document of at most so many levels, with distinct keys in every object and only admitted strings.
  Depth 0 to 32 are 33 levels.
\<close>

primrec unambiguous :: "(string \<Rightarrow> bool) \<Rightarrow> nat \<Rightarrow> json \<Rightarrow> bool" where
  "unambiguous ok 0 j = False"
| "unambiguous ok (Suc k) j =
     (case j of
        Text x \<Rightarrow> ok x
      | Scalar x \<Rightarrow> True
      | Arr js \<Rightarrow> list_all (unambiguous ok k) js
      | Obj fs \<Rightarrow> distinct (map fst fs) \<and> list_all (\<lambda>(name, v). ok name \<and> unambiguous ok k v) fs)"

definition levels :: nat where
  "levels = 33"

text \<open>\<open>Decoder.More\<close> and \<open>Decoder.Token\<close>.\<close>

definition More :: "lexeme list \<Rightarrow> bool" where
  "More s \<longleftrightarrow> s \<noteq> [] \<and> hd s \<noteq> Tok CloseObject \<and> hd s \<noteq> Tok CloseArray"

fun Token :: "lexeme list \<Rightarrow> (jtoken \<times> lexeme list) option" where
  "Token (Tok t # s) = Some (t, s)"
| "Token _ = None"

subsection \<open>The reader of the journal\<close>

text \<open>
  \<open>readJSON\<close>: \<open>val\<close> reads one value one level down. A loop takes at least one token in each round, so
  the number of tokens bounds it. \<open>None\<close> is an error.
\<close>

fun read_fields ::
  "(string \<Rightarrow> bool) \<Rightarrow> (lexeme list \<Rightarrow> (json \<times> lexeme list) option) \<Rightarrow> nat \<Rightarrow> (string \<times> json) list \<Rightarrow> lexeme list \<Rightarrow>
   ((string \<times> json) list \<times> lexeme list) option" where
  "read_fields ok val 0 fs s = None"
| "read_fields ok val (Suc n) fs s =
     (if More s
      then case Token s of
             Some (JString name, r) \<Rightarrow>
               if \<not> ok name \<or> name \<in> set (map fst fs) then None
               else (case val r of None \<Rightarrow> None | Some (v, r) \<Rightarrow> read_fields ok val n (fs @ [(name, v)]) r)
           | _ \<Rightarrow> None
      else case Token s of Some (CloseObject, r) \<Rightarrow> Some (fs, r) | _ \<Rightarrow> None)"

fun read_items ::
  "(lexeme list \<Rightarrow> (json \<times> lexeme list) option) \<Rightarrow> nat \<Rightarrow> json list \<Rightarrow> lexeme list \<Rightarrow> (json list \<times> lexeme list) option" where
  "read_items val 0 js s = None"
| "read_items val (Suc n) js s =
     (if More s then (case val s of None \<Rightarrow> None | Some (v, r) \<Rightarrow> read_items val n (js @ [v]) r)
      else case Token s of Some (CloseArray, r) \<Rightarrow> Some (js, r) | _ \<Rightarrow> None)"

primrec read_value :: "(string \<Rightarrow> bool) \<Rightarrow> nat \<Rightarrow> lexeme list \<Rightarrow> (json \<times> lexeme list) option" where
  "read_value ok 0 s = None"
| "read_value ok (Suc k) s =
     (case Token s of
        Some (OpenObject, r) \<Rightarrow> map_option (\<lambda>(fs, r). (Obj fs, r)) (read_fields ok (read_value ok k) (Suc (length r)) [] r)
      | Some (OpenArray, r) \<Rightarrow> map_option (\<lambda>(js, r). (Arr js, r)) (read_items (read_value ok k) (Suc (length r)) [] r)
      | Some (JString x, r) \<Rightarrow> if ok x then Some (Text x, r) else None
      | Some (JScalar x, r) \<Rightarrow> Some (Scalar x, r)
      | _ \<Rightarrow> None)"

definition readJSON :: "lexeme list \<Rightarrow> (json \<times> lexeme list) option" where
  "readJSON s = read_value (\<lambda>x. NUL \<notin> set x) levels s"

subsection \<open>The check of the configuration\<close>

text \<open>\<open>walk\<close> of \<open>UniqueJSON\<close>: the same traversal without a value; only the rest of the text is returned.\<close>

fun walk_fields :: "(lexeme list \<Rightarrow> lexeme list option) \<Rightarrow> nat \<Rightarrow> string list \<Rightarrow> lexeme list \<Rightarrow> lexeme list option" where
  "walk_fields val 0 seen s = None"
| "walk_fields val (Suc n) seen s =
     (if More s
      then case Token s of
             Some (JString name, r) \<Rightarrow>
               if name \<in> set seen then None
               else (case val r of None \<Rightarrow> None | Some r \<Rightarrow> walk_fields val n (name # seen) r)
           | _ \<Rightarrow> None
      else case Token s of Some (CloseObject, r) \<Rightarrow> Some r | _ \<Rightarrow> None)"

fun walk_items :: "(lexeme list \<Rightarrow> lexeme list option) \<Rightarrow> nat \<Rightarrow> lexeme list \<Rightarrow> lexeme list option" where
  "walk_items val 0 s = None"
| "walk_items val (Suc n) s =
     (if More s then (case val s of None \<Rightarrow> None | Some r \<Rightarrow> walk_items val n r)
      else case Token s of Some (CloseArray, r) \<Rightarrow> Some r | _ \<Rightarrow> None)"

primrec walk_value :: "nat \<Rightarrow> lexeme list \<Rightarrow> lexeme list option" where
  "walk_value 0 s = None"
| "walk_value (Suc k) s =
     (case Token s of
        Some (OpenObject, r) \<Rightarrow> walk_fields (walk_value k) (Suc (length r)) [] r
      | Some (OpenArray, r) \<Rightarrow> walk_items (walk_value k) (Suc (length r)) r
      | Some (JString x, r) \<Rightarrow> Some r
      | Some (JScalar x, r) \<Rightarrow> Some r
      | _ \<Rightarrow> None)"

definition UniqueJSON :: "(string \<Rightarrow> lexeme list) \<Rightarrow> string \<Rightarrow> bool" where
  "UniqueJSON scan b \<longleftrightarrow> utf8_valid b \<and> walk_value levels (scan b) = Some []"

lemma walk_fields_read:
  "(\<And>r. val' r = map_option snd (val r)) \<Longrightarrow> set seen = set (map fst fs) \<Longrightarrow>
   walk_fields val' n seen s = map_option snd (read_fields (\<lambda>_. True) val n fs s)"
  by (induction n arbitrary: seen fs s) (auto split: option.splits jtoken.splits)

lemma walk_items_read:
  "(\<And>r. val' r = map_option snd (val r)) \<Longrightarrow> walk_items val' n s = map_option snd (read_items val n js s)"
  by (induction n arbitrary: js s) (auto split: option.splits jtoken.splits)

lemma walk_value_read: "walk_value k s = map_option snd (read_value (\<lambda>_. True) k s)"
proof (induction k arbitrary: s)
  case (Suc k)
  let ?v = "read_value (\<lambda>_. True) k"
  have "walk_fields (walk_value k) n [] r = map_option snd (read_fields (\<lambda>_. True) ?v n [] r)" for n r
    by (rule walk_fields_read) (simp_all add: Suc.IH)
  moreover have "walk_items (walk_value k) n r = map_option snd (read_items ?v n [] r)" for n r
    by (rule walk_items_read) (simp add: Suc.IH)
  ultimately show ?case
    by (simp add: option.map_comp comp_def case_prod_beta split: option.split prod.split jtoken.split
        del: walk_fields.simps read_fields.simps walk_items.simps read_items.simps)
qed simp

subsection \<open>Accepted documents\<close>

abbreviation field_tokens :: "string \<times> json \<Rightarrow> lexeme list" where
  "field_tokens f \<equiv> Tok (JString (fst f)) # tokens_of (snd f)"

lemma tokens_of_Obj: "tokens_of (Obj fs) = Tok OpenObject # concat (map field_tokens fs) @ [Tok CloseObject]"
  by (simp add: case_prod_unfold)

lemma Token_Some: "Token s = Some (t, r) \<longleftrightarrow> s = Tok t # r"
  by (cases s rule: Token.cases) auto

lemma read_fields_sound:
  assumes "\<And>s j r. val s = Some (j, r) \<Longrightarrow> s = tokens_of j @ r \<and> unambiguous ok k j"
  shows "read_fields ok val n fs s = Some (gs, r) \<Longrightarrow> distinct (map fst fs) \<Longrightarrow>
    \<exists>hs. gs = fs @ hs \<and> distinct (map fst gs) \<and> list_all (\<lambda>(name, v). ok name \<and> unambiguous ok k v) hs \<and>
      s = concat (map field_tokens hs) @ Tok CloseObject # r"
proof (induction n arbitrary: fs s)
  case (Suc n)
  show ?case
  proof (cases "More s")
    case True
    with Suc.prems(1) obtain name r1 v r2 where name: "s = Tok (JString name) # r1" "ok name" "name \<notin> set (map fst fs)"
      and v: "val r1 = Some (v, r2)" and rest: "read_fields ok val n (fs @ [(name, v)]) r2 = Some (gs, r)"
      by (auto simp: Token_Some split: option.splits jtoken.splits if_splits)
    from Suc.IH [OF rest] Suc.prems(2) name(3) obtain hs where hs: "gs = (fs @ [(name, v)]) @ hs" "distinct (map fst gs)"
      "list_all (\<lambda>(name, v). ok name \<and> unambiguous ok k v) hs" "r2 = concat (map field_tokens hs) @ Tok CloseObject # r" by auto
    show ?thesis using hs name assms [OF v] by (intro exI [of _ "(name, v) # hs"]) auto
  next
    case False
    with Suc.prems show ?thesis by (auto simp: Token_Some split: option.splits jtoken.splits)
  qed
qed simp

lemma read_items_sound:
  assumes "\<And>s j r. val s = Some (j, r) \<Longrightarrow> s = tokens_of j @ r \<and> unambiguous ok k j"
  shows "read_items val n js s = Some (ks, r) \<Longrightarrow>
    \<exists>hs. ks = js @ hs \<and> list_all (unambiguous ok k) hs \<and> s = concat (map tokens_of hs) @ Tok CloseArray # r"
proof (induction n arbitrary: js s)
  case (Suc n)
  show ?case
  proof (cases "More s")
    case True
    with Suc.prems obtain v r1 where v: "val s = Some (v, r1)" and rest: "read_items val n (js @ [v]) r1 = Some (ks, r)"
      by (auto split: option.splits)
    from Suc.IH [OF rest] obtain hs where hs: "ks = (js @ [v]) @ hs" "list_all (unambiguous ok k) hs"
      "r1 = concat (map tokens_of hs) @ Tok CloseArray # r" by auto
    show ?thesis using hs assms [OF v] by (intro exI [of _ "v # hs"]) auto
  next
    case False
    with Suc.prems show ?thesis by (auto simp: Token_Some split: option.splits jtoken.splits)
  qed
qed simp

lemma read_value_sound: "read_value ok k s = Some (j, r) \<Longrightarrow> s = tokens_of j @ r \<and> unambiguous ok k j"
proof (induction k arbitrary: s j r)
  case (Suc k)
  from Suc.prems obtain t r1 where t: "s = Tok t # r1" by (auto simp: Token_Some split: option.splits)
  show ?case
  proof (cases t)
    case OpenObject
    with Suc.prems t obtain fs where fs: "read_fields ok (read_value ok k) (Suc (length r1)) [] r1 = Some (fs, r)" "j = Obj fs"
      by (auto simp del: read_fields.simps)
    from read_fields_sound [OF Suc.IH fs(1)] show ?thesis using fs(2) t OpenObject by (auto simp: tokens_of_Obj simp del: tokens_of.simps)
  next
    case OpenArray
    with Suc.prems t obtain js where js: "read_items (read_value ok k) (Suc (length r1)) [] r1 = Some (js, r)" "j = Arr js"
      by (auto simp del: read_items.simps)
    from read_items_sound [OF Suc.IH js(1)] show ?thesis using js(2) t OpenArray by auto
  qed (use Suc.prems t in \<open>auto split: if_splits\<close>)
qed simp

lemma tokens_of_starts: "\<exists>t s. tokens_of j = Tok t # s \<and> t \<noteq> CloseObject \<and> t \<noteq> CloseArray"
  by (cases j) auto

lemma More_tokens [simp]: "More (tokens_of j @ r)" "More (Tok (JString x) # r)"
  using tokens_of_starts [of j] by (auto simp: More_def)

lemma not_More_close [simp]: "\<not> More (Tok CloseObject # r)" "\<not> More (Tok CloseArray # r)"
  by (auto simp: More_def)

lemma read_fields_complete:
  assumes val: "\<And>v r. unambiguous ok k v \<Longrightarrow> val (tokens_of v @ r) = Some (v, r)"
  shows "list_all (\<lambda>(name, v). ok name \<and> unambiguous ok k v) hs \<Longrightarrow> distinct (map fst (fs @ hs)) \<Longrightarrow> length hs < n \<Longrightarrow>
    read_fields ok val n fs (concat (map field_tokens hs) @ Tok CloseObject # r) = Some (fs @ hs, r)"
proof (induction hs arbitrary: fs n)
  case Nil
  then show ?case by (cases n) auto
next
  case (Cons h hs)
  then obtain m where n: "n = Suc m" by (cases n) auto
  have "read_fields ok val m (fs @ [h]) (concat (map field_tokens hs) @ Tok CloseObject # r) = Some ((fs @ [h]) @ hs, r)"
    using Cons.prems n by (intro Cons.IH) auto
  then show ?case using Cons.prems n val by (cases h) auto
qed

lemma read_items_complete:
  assumes val: "\<And>v r. unambiguous ok k v \<Longrightarrow> val (tokens_of v @ r) = Some (v, r)"
  shows "list_all (unambiguous ok k) hs \<Longrightarrow> length hs < n \<Longrightarrow>
    read_items val n js (concat (map tokens_of hs) @ Tok CloseArray # r) = Some (js @ hs, r)"
proof (induction hs arbitrary: js n)
  case Nil
  then show ?case by (cases n) auto
next
  case (Cons h hs)
  then obtain m where n: "n = Suc m" by (cases n) auto
  have "read_items val m (js @ [h]) (concat (map tokens_of hs) @ Tok CloseArray # r) = Some ((js @ [h]) @ hs, r)"
    using Cons.prems n by (intro Cons.IH) auto
  then show ?case using Cons.prems n val by auto
qed

lemma tokens_of_length: "0 < length (tokens_of j)"
  using tokens_of_starts [of j] by auto

lemma length_items: "length js \<le> length (concat (map tokens_of js))"
proof (induction js)
  case (Cons j js)
  then show ?case using tokens_of_length [of j] by (simp only: list.map concat.simps length_append list.size)
qed simp

lemma length_fields: "length fs \<le> length (concat (map field_tokens fs))"
  by (induction fs) auto

lemma read_value_complete: "unambiguous ok k j \<Longrightarrow> read_value ok k (tokens_of j @ r) = Some (j, r)"
proof (induction k arbitrary: j r)
  case (Suc k)
  show ?case
  proof (cases j)
    case (Obj fs)
    have "length fs < Suc (length (concat (map field_tokens fs) @ Tok CloseObject # r))" using length_fields [of fs] by simp
    from read_fields_complete [of ok k "read_value ok k" fs "[]", OF Suc.IH _ _ this, of r] Suc.prems Obj show ?thesis
      by (simp add: tokens_of_Obj del: tokens_of.simps read_fields.simps)
  next
    case (Arr js)
    have "length js < Suc (length (concat (map tokens_of js) @ Tok CloseArray # r))" using length_items [of js] by simp
    from read_items_complete [of ok k "read_value ok k" js, OF Suc.IH _ this, of "[]" r] Suc.prems Arr show ?thesis
      by (simp del: read_items.simps)
  qed (use Suc.prems in auto)
qed simp

text \<open>
  A document from outside is accepted exactly if it has one meaning. The check that guards
  request bodies, configuration files and cursors accepts a text if and only if it is valid UTF-8 and the whole
  text is one JSON document that nests at most 32 deep and repeats no key in any object.
\<close>

theorem UniqueJSON_iff:
  "UniqueJSON scan b \<longleftrightarrow> utf8_valid b \<and> (\<exists>j. scan b = tokens_of j \<and> unambiguous (\<lambda>_. True) levels j)"
proof -
  have "walk_value levels s = Some [] \<longleftrightarrow> (\<exists>j. s = tokens_of j \<and> unambiguous (\<lambda>_. True) levels j)" for s
  proof
    assume "walk_value levels s = Some []"
    then obtain j where "read_value (\<lambda>_. True) levels s = Some (j, [])" by (auto simp: walk_value_read)
    from read_value_sound [OF this] show "\<exists>j. s = tokens_of j \<and> unambiguous (\<lambda>_. True) levels j" by auto
  next
    assume "\<exists>j. s = tokens_of j \<and> unambiguous (\<lambda>_. True) levels j"
    then obtain j where j: "s = tokens_of j" "unambiguous (\<lambda>_. True) levels j" by blast
    from read_value_complete [OF j(2), of "[]"] j(1) show "walk_value levels s = Some []" by (simp add: walk_value_read)
  qed
  then show ?thesis by (simp add: UniqueJSON_def)
qed

subsection \<open>Canonical form\<close>

text \<open>What a document stands for: objects are Go maps.\<close>

datatype meaning = MText string | MScalar string | MArr "meaning list" | MObj "string \<Rightarrow> meaning option"

fun denotes :: "json \<Rightarrow> meaning" where
  "denotes (Text s) = MText s"
| "denotes (Scalar s) = MScalar s"
| "denotes (Arr js) = MArr (map denotes js)"
| "denotes (Obj fs) = MObj (map_of (map (\<lambda>(name, v). (name, denotes v)) fs))"

text \<open>\<open>json.Marshal\<close> writes the keys of a map in order; \<open>marshal\<close> writes the ordered document.\<close>

fun ordered :: "json \<Rightarrow> json" where
  "ordered (Text s) = Text s"
| "ordered (Scalar s) = Scalar s"
| "ordered (Arr js) = Arr (map ordered js)"
| "ordered (Obj fs) = Obj (sort_key fst (map (\<lambda>(name, v). (name, ordered v)) fs))"

definition canonicalObject :: "(json \<Rightarrow> string) \<Rightarrow> (string \<Rightarrow> lexeme list) \<Rightarrow> string \<Rightarrow> string result" where
  "canonicalObject marshal scan raw =
     (if raw = [] \<or> length raw > MaxJSONBytes \<or> \<not> utf8_valid raw then Inl ErrInvalid
      else case readJSON (scan raw) of
             None \<Rightarrow> Inl (Wrapped (OtherError ''JSON object'') ErrInvalid)
           | Some (Obj fs, []) \<Rightarrow>
               (let result = marshal (ordered (Obj fs)) in if length result > MaxJSONBytes then Inl ErrInvalid else Inr result)
           | Some _ \<Rightarrow> Inl ErrInvalid)"

text \<open>Two lists sorted by distinct keys are the same list when they hold the same map.\<close>

lemma sorted_assoc_unique:
  fixes xs :: "('k :: linorder \<times> 'v) list"
  assumes "sorted (map fst xs)" "distinct (map fst xs)" "sorted (map fst ys)" "distinct (map fst ys)" "map_of xs = map_of ys"
  shows "xs = ys"
proof -
  have "set xs = set ys" using assms by (metis map_of_inject_set)
  moreover have "map fst xs = map fst ys" using assms calculation by (intro sorted_distinct_set_unique) auto
  moreover have "x = y" if "(x, y) \<in> set (zip xs ys)" for x y
  proof -
    have "fst x = fst y" using that calculation(2) by (metis in_set_zip nth_map fst_conv snd_conv)
    moreover have "x \<in> set ys" "y \<in> set ys" using that \<open>set xs = set ys\<close> by (auto dest: set_zip_leftD set_zip_rightD)
    ultimately show ?thesis using assms(4) by (simp add: distinct_map inj_on_def)
  qed
  ultimately show ?thesis by (metis length_map nth_equalityI in_set_zip fst_conv snd_conv)
qed

lemma keys_map: "map fst (map (\<lambda>(name, v). (name, f v)) fs) = map fst fs"
  by (simp add: case_prod_unfold comp_def)

lemma map_of_sort_key: "distinct (map fst xs) \<Longrightarrow> map_of (sort_key fst xs) = map_of xs"
  by (rule map_of_inject_set [THEN iffD2]) (simp_all add: distinct_map)

lemma distinct_sort_keys: "distinct (map fst xs) \<Longrightarrow> distinct (map fst (sort_key fst xs))"
  by (simp add: distinct_map)

lemma unambiguous_values:
  assumes "list_all (\<lambda>(name, v). ok name \<and> unambiguous ok k v) fs" and "map_of fs name = Some v"
  shows "unambiguous ok k v"
  using assms map_of_SomeD [OF assms(2)] by (auto simp: list_all_iff)

lemma denotes_ordered: "unambiguous ok k j \<Longrightarrow> denotes (ordered j) = denotes j"
proof (induction k arbitrary: j)
  case (Suc k)
  show ?case
  proof (cases j)
    case (Obj fs)
    let ?os = "map (\<lambda>(name, v). (name, ordered v)) fs"
    have "distinct (map fst ?os)" using Suc.prems Obj by (simp only: keys_map) simp
    then have "denotes (ordered j) = MObj (map_option denotes \<circ> (map_option ordered \<circ> map_of fs))"
      using Obj by (simp add: map_of_map map_of_sort_key)
    also have "\<dots> = MObj (map_option denotes \<circ> map_of fs)"
    proof -
      have "map_option denotes (map_option ordered (map_of fs name)) = map_option denotes (map_of fs name)" for name
        using Suc Obj by (cases "map_of fs name") (auto dest: unambiguous_values [where fs = fs])
      then show ?thesis by (simp add: fun_eq_iff)
    qed
    finally show ?thesis using Obj by (simp add: map_of_map)
  next
    case (Arr js)
    then show ?thesis using Suc by (auto simp: list_all_iff)
  qed (use Suc.prems in auto)
qed simp

lemma ordered_determined:
  "unambiguous ok k i \<Longrightarrow> unambiguous ok k j \<Longrightarrow> denotes i = denotes j \<Longrightarrow> ordered i = ordered j"
proof (induction k arbitrary: i j)
  case (Suc k)
  show ?case
  proof (cases i)
    case (Obj fs)
    then obtain gs where j: "j = Obj gs" using Suc.prems(3) by (cases j) auto
    let ?o = "\<lambda>xs. map (\<lambda>(name, v). (name, ordered v)) xs"
    have same: "map_option denotes (map_of fs name) = map_option denotes (map_of gs name)" for name
      using Suc.prems(3) Obj j by (simp add: map_of_map fun_eq_iff)
    have fine: "list_all (\<lambda>(name, v). ok name \<and> unambiguous ok k v) fs" "list_all (\<lambda>(name, v). ok name \<and> unambiguous ok k v) gs"
      using Suc.prems(1, 2) Obj j by simp_all
    have "map_option ordered (map_of fs name) = map_option ordered (map_of gs name)" for name
    proof (cases "map_of fs name")
      case None
      then show ?thesis using same [of name] by simp
    next
      case (Some v)
      then obtain w where w: "map_of gs name = Some w" "denotes v = denotes w" using same [of name] by (cases "map_of gs name") auto
      then show ?thesis using Some Suc.IH [OF unambiguous_values [OF fine(1) Some] unambiguous_values [OF fine(2) w(1)]] by simp
    qed
    then have maps: "map_of (?o fs) = map_of (?o gs)" by (simp add: map_of_map fun_eq_iff)
    have d: "distinct (map fst (?o fs))" "distinct (map fst (?o gs))" using Suc.prems Obj j by (simp_all only: keys_map) simp_all
    have "sort_key fst (?o fs) = sort_key fst (?o gs)"
      using d maps by (intro sorted_assoc_unique distinct_sort_keys) (simp_all only: map_of_sort_key sorted_sort_key)
    then show ?thesis using Obj j by simp
  next
    case (Arr xs)
    then obtain js where j: "j = Arr js" using Suc.prems(3) by (cases j) auto
    have "map denotes xs = map denotes js" using Suc.prems(3) Arr j by simp
    then have "map ordered xs = map ordered js"
      using Suc Arr j by (auto simp: list_eq_iff_nth_eq list_all_length)
    then show ?thesis using Arr j by simp
  next
    case (Text x)
    then show ?thesis using Suc.prems(3) by (cases j) auto
  next
    case (Scalar x)
    then show ?thesis using Suc.prems(3) by (cases j) auto
  qed
qed simp

lemma ordered_iff:
  assumes "unambiguous ok k i" and "unambiguous ok k j"
  shows "ordered i = ordered j \<longleftrightarrow> denotes i = denotes j"
  using ordered_determined [OF assms] denotes_ordered [OF assms(1)] denotes_ordered [OF assms(2)] by metis

lemma canonicalObject_Inr:
  "canonicalObject marshal scan raw = Inr out \<longleftrightarrow>
     raw \<noteq> [] \<and> length raw \<le> MaxJSONBytes \<and> utf8_valid raw \<and>
     (\<exists>fs. scan raw = tokens_of (Obj fs) \<and> unambiguous (\<lambda>x. NUL \<notin> set x) levels (Obj fs) \<and>
        out = marshal (ordered (Obj fs)) \<and> length out \<le> MaxJSONBytes)"
proof -
  have read: "readJSON s = Some (j, []) \<longleftrightarrow> s = tokens_of j \<and> unambiguous (\<lambda>x. NUL \<notin> set x) levels j" for s j
    using read_value_sound [of "\<lambda>x. NUL \<notin> set x" levels s j "[]"] read_value_complete [of "\<lambda>x. NUL \<notin> set x" levels j "[]"]
    by (auto simp: readJSON_def)
  have "canonicalObject marshal scan raw = Inr out \<longleftrightarrow>
     raw \<noteq> [] \<and> length raw \<le> MaxJSONBytes \<and> utf8_valid raw \<and>
     (\<exists>fs. readJSON (scan raw) = Some (Obj fs, []) \<and> out = marshal (ordered (Obj fs)) \<and> length out \<le> MaxJSONBytes)"
    by (auto simp: canonicalObject_def Let_def split: option.splits json.splits list.splits)
  then show ?thesis by (simp only: read) blast
qed


end
