(* ===== verification/Settings.thy ===== *)
theory Settings
  imports Plans Documents
begin

section \<open>Configuration and credentials\<close>

text \<open>
  \<open>internal/config\<close>: the validation of the configuration (\<open>config.go\<close>, \<open>readonly.go\<close>) and of the credential
  file. Everything the server assumes of its players, sources and principals is established here:
  unique identities, verified volume ceilings, credentials that name distinct tokens and known
  players. Reading and decoding a file is \<open>DecodeFile\<close> on a file system given as an argument, and the
  parser of IP addresses is an argument too.
\<close>

subsection \<open>Standard library\<close>

definition contains_text :: "string \<Rightarrow> string \<Rightarrow> bool" where
  "contains_text e s \<longleftrightarrow> list_ex (\<lambda>i. take (length e) (drop i s) = e) [0..<Suc (length s)]"

definition ContainsAny :: "string \<Rightarrow> string \<Rightarrow> bool" where
  "ContainsAny s chars \<longleftrightarrow> list_ex (\<lambda>c. c \<in> set chars) s"

text \<open>The control characters U+0000 to U+001F and U+007F to U+009F in UTF-8.\<close>

definition control_encodings :: "string list" where
  "control_encodings =
     map (\<lambda>n. [char_of n]) ([0..<32] @ [127]) @ map (\<lambda>n. [char_of (194 :: nat), char_of n]) [128..<160]"

fun last_colon :: "string \<Rightarrow> (string \<times> string) option" where
  "last_colon [] = None"
| "last_colon (c # s) =
     (case last_colon s of
        Some (a, b) \<Rightarrow> Some (c # a, b)
      | None \<Rightarrow> if c = CHR '':'' then Some ([], s) else None)"

text \<open>\<open>net.SplitHostPort\<close>; \<open>None\<close> is an error.\<close>

definition SplitHostPort :: "string \<Rightarrow> (string \<times> string) option" where
  "SplitHostPort s =
     (case last_colon s of
        None \<Rightarrow> None
      | Some (before, port) \<Rightarrow>
          if hd s = CHR ''[''
          then (case Cut CHR '']'' s of
                  (a, b, ok) \<Rightarrow>
                    if \<not> ok \<or> before \<noteq> a @ '']'' \<or> CHR ''['' \<in> set (tl s) \<or> CHR '']'' \<in> set b then None
                    else Some (tl a, port))
          else if CHR '':'' \<in> set before \<or> CHR ''['' \<in> set s \<or> CHR '']'' \<in> set s then None
          else Some (before, port))"

definition hex_digit :: "char \<Rightarrow> nat option" where
  "hex_digit c =
     (let n = code c in
      if 48 \<le> n \<and> n \<le> 57 then Some (n - 48) else if 97 \<le> n \<and> n \<le> 102 then Some (n - 87)
      else if 65 \<le> n \<and> n \<le> 70 then Some (n - 55) else None)"

fun hex_decode :: "string \<Rightarrow> string option" where
  "hex_decode [] = Some []"
| "hex_decode [c] = None"
| "hex_decode (a # b # s) =
     (case (hex_digit a, hex_digit b, hex_decode s) of
        (Some m, Some n, Some t) \<Rightarrow> Some (char_of (16 * m + n) # t)
      | _ \<Rightarrow> None)"

text \<open>\<open>strings.ToLower\<close> on ASCII.\<close>

definition lower_char :: "char \<Rightarrow> char" where
  "lower_char c = (if 65 \<le> code c \<and> code c \<le> 90 then char_of (code c + 32) else c)"

subsection \<open>Records\<close>

record Database =
  db_Host :: string
  db_Port :: int
  db_Name :: string
  db_User :: string
  db_PasswordFile :: string
  db_CAFile :: string
  db_MaxConnections :: int
  db_TimeoutSeconds :: int
  db_LockTimeoutSeconds :: int

record config_Config =
  gc_LogLevel :: string
  gc_Listen :: string
  gc_CertFile :: string
  gc_KeyFile :: string
  gc_ShutdownSeconds :: int
  gc_Database :: Database
  gc_CredentialsFile :: string
  gc_DocsEnabled :: bool
  gc_Players :: "config_Player list"
  gc_Sources :: "Source list"

record Credential =
  cr_Principal :: string
  cr_TokenSHA256 :: string
  cr_Scopes :: "string list"
  cr_Players :: "string list"

record CredentialFile =
  cr_Version :: int
  cr_Credentials :: "Credential list option"

text \<open>\<open>fieldError\<close>: the field, a code and a message, never a value.\<close>

datatype fieldError = invalidField string string string

definition key_char :: "char \<Rightarrow> bool" where
  "key_char c \<longleftrightarrow> (97 \<le> code c \<and> code c \<le> 122) \<or> (48 \<le> code c \<and> code c \<le> 57)"

definition KeyValid :: "string \<Rightarrow> bool" where
  "KeyValid s \<longleftrightarrow>
     s \<noteq> [] \<and> key_char (hd s) \<and> length s \<le> 64 \<and> list_all (\<lambda>c. key_char c \<or> c = CHR ''-'') (tl s)"

definition validDigest :: "string \<Rightarrow> bool" where
  "validDigest s \<longleftrightarrow>
     (case hex_decode s of None \<Rightarrow> False | Some b \<Rightarrow> length b = 32 \<and> s = map lower_char s)"

subsection \<open>Players and sources\<close>

text \<open>The rules of one player in the order of the code; the first that applies is the error.\<close>

definition player_rules :: "string list \<Rightarrow> string list \<Rightarrow> string list \<Rightarrow> config_Player \<Rightarrow> (bool \<times> (string \<times> string \<times> string) option) list" where
  "player_rules keys serials addresses p =
     (let identity = (\<lambda>name. Some (name, ''invalid_value'',
                        ''invalid or duplicate player identity/address/pin; pinned TLS port 1265 required''))
      in [(cp_WritesEnabled p \<and> cp_VolumeCeiling p = None,
             Some (''volume_ceiling'', ''required'', ''writes_enabled requires a verified volume_ceiling'')),
          (\<not> KeyValid (cp_Key p) \<or> cp_Key p \<in> set keys, identity ''key''),
          (cp_Serial p = [] \<or> length (cp_Serial p) > 256 \<or> cp_Serial p \<in> set serials, identity ''serial''),
          (cp_Address p \<in> set addresses \<or>
             (case SplitHostPort (cp_Address p) of None \<Rightarrow> True | Some (host, port) \<Rightarrow> host = [] \<or> port \<noteq> ''1265''),
             identity ''address''),
          (\<not> validDigest (cp_FingerprintSHA256 p), identity ''fingerprint_sha256''),
          (case cp_VolumeCeiling p of None \<Rightarrow> False | Some c \<Rightarrow> c < 0 \<or> c > 100,
             Some (''volume_ceiling'', ''invalid_value'', ''volume_ceiling must be 0..100''))])"

definition at_index :: "string \<Rightarrow> nat \<Rightarrow> string \<times> string \<times> string \<Rightarrow> fieldError" where
  "at_index table i problem =
     (case problem of (name, c, message) \<Rightarrow> invalidField (table @ ''['' @ show_nat i @ ''].'' @ name) c message)"

fun players_problem :: "nat \<Rightarrow> string list \<Rightarrow> string list \<Rightarrow> string list \<Rightarrow> config_Player list \<Rightarrow> fieldError option" where
  "players_problem i keys serials addresses [] = None"
| "players_problem i keys serials addresses (p # ps) =
     (case first_rule (player_rules keys serials addresses p) None of
        Some problem \<Rightarrow> Some (at_index ''players'' i problem)
      | None \<Rightarrow> players_problem (Suc i) (cp_Key p # keys) (cp_Serial p # serials) (cp_Address p # addresses) ps)"

definition source_rules :: "string list \<Rightarrow> string list \<Rightarrow> (string \<times> string) list \<Rightarrow> Source \<Rightarrow> (bool \<times> (string \<times> string \<times> string) option) list" where
  "source_rules keys seen routes s =
     [(\<not> KeyValid (so_Key s) \<or> so_Key s \<in> set seen, Some (''key'', ''invalid_value'', ''invalid source configuration'')),
      (so_Player s \<notin> set keys, Some (''player'', ''unknown_player'', ''invalid source configuration'')),
      ((so_Player s, so_Name s) \<in> set routes \<or> so_Name s = [] \<or> length (so_Name s) > 256,
         Some (''name'', ''invalid_value'', ''invalid source configuration''))]"

fun sources_problem :: "nat \<Rightarrow> string list \<Rightarrow> string list \<Rightarrow> (string \<times> string) list \<Rightarrow> Source list \<Rightarrow> fieldError option" where
  "sources_problem i keys seen routes [] = None"
| "sources_problem i keys seen routes (s # ss) =
     (case first_rule (source_rules keys seen routes s) None of
        Some problem \<Rightarrow> Some (at_index ''sources'' i problem)
      | None \<Rightarrow> sources_problem (Suc i) keys (so_Key s # seen) ((so_Player s, so_Name s) # routes) ss)"

definition validateReadOnly :: "config_Config \<Rightarrow> fieldError option" where
  "validateReadOnly c =
     (if length (gc_Players c) > 16 then Some (invalidField ''players'' ''capacity_exceeded'' ''read-only configuration exceeds capacity'')
      else if length (gc_Sources c) > 16
      then Some (invalidField ''sources'' ''capacity_exceeded'' ''read-only configuration exceeds capacity'')
      else if gc_Players c \<noteq> [] \<and> gc_CredentialsFile c = []
      then Some (invalidField ''credentials_file'' ''required'' ''configured players require credentials_file'')
      else case players_problem 0 [] [] [] (gc_Players c) of
             Some e \<Rightarrow> Some e
           | None \<Rightarrow> sources_problem 0 (map cp_Key (gc_Players c)) [] [] (gc_Sources c))"

subsection \<open>The whole configuration\<close>

definition databaseTCPHost :: "(string \<Rightarrow> bool) \<Rightarrow> string \<Rightarrow> bool" where
  "databaseTCPHost parseAddr host \<longleftrightarrow>
     \<not> (host = [] \<or> ContainsAny host (''/'' @ [CHR 0x5C] @ ''@?#,[]'') \<or>
        list_ex (\<lambda>e. contains_text e host) (space_encodings @ control_encodings)) \<and>
     (CHR '':'' \<in> set host \<longrightarrow> parseAddr host)"

definition listen_ok :: "string \<Rightarrow> bool" where
  "listen_ok listen \<longleftrightarrow>
     (case SplitHostPort listen of
        None \<Rightarrow> False
      | Some (_, port) \<Rightarrow> (case Atoi port of None \<Rightarrow> False | Some n \<Rightarrow> 1024 \<le> n \<and> n \<le> 65535))"

definition config_rules :: "(string \<Rightarrow> bool) \<Rightarrow> config_Config \<Rightarrow> (bool \<times> fieldError option) list" where
  "config_rules parseAddr c =
     (let d = gc_Database c;
          tls = (\<lambda>name. Some (invalidField name ''required'' ''API certificate and key files are required''));
          database = (\<lambda>name. Some (invalidField (''database.'' @ name) ''required''
                        ''database host, port, name, user, password_file and ca_file are required''));
          timeouts = (\<lambda>name. Some (invalidField (''database.'' @ name) ''invalid_value''
                        ''database timeout_seconds must be 1..30 and lock_timeout_seconds 1..timeout_seconds''))
      in [(gc_LogLevel c \<notin> {[], ''debug'', ''info'', ''warn'', ''error''},
             Some (invalidField ''log_level'' ''invalid_value'' ''log_level must be debug, info, warn or error'')),
          (\<not> listen_ok (gc_Listen c),
             Some (invalidField ''listen'' ''invalid_value'' ''listen must use a numeric unprivileged TCP port'')),
          (gc_CertFile c = [], tls ''cert_file''), (gc_KeyFile c = [], tls ''key_file''),
          (gc_ShutdownSeconds c < 1 \<or> gc_ShutdownSeconds c > 25,
             Some (invalidField ''shutdown_seconds'' ''invalid_value'' ''shutdown_seconds must be between 1 and 25'')),
          (db_Host d = [], database ''host''), (db_Port d = 0, database ''port''), (db_Name d = [], database ''name''),
          (db_User d = [], database ''user''), (db_PasswordFile d = [], database ''password_file''),
          (db_CAFile d = [], database ''ca_file''),
          (\<not> databaseTCPHost parseAddr (db_Host d),
             Some (invalidField ''database.host'' ''invalid_value''
               ''database host must be one TCP hostname or IP address without a scheme, path or port'')),
          (db_MaxConnections d < 1 \<or> db_MaxConnections d > 16,
             Some (invalidField ''database.max_connections'' ''invalid_value'' ''database max_connections must be between 1 and 16'')),
          (db_TimeoutSeconds d < 1 \<or> db_TimeoutSeconds d > 30, timeouts ''timeout_seconds''),
          (db_LockTimeoutSeconds d < 1 \<or> db_LockTimeoutSeconds d > db_TimeoutSeconds d, timeouts ''lock_timeout_seconds'')])"

definition Config_Validate :: "(string \<Rightarrow> bool) \<Rightarrow> config_Config \<Rightarrow> fieldError option" where
  "Config_Validate parseAddr c = first_rule (config_rules parseAddr c) (validateReadOnly c)"

subsection \<open>Credentials\<close>

definition known_scope :: "string \<Rightarrow> bool" where
  "known_scope s \<longleftrightarrow> s = ''read'' \<or> s = ''control'' \<or> s = ''alarm'' \<or> s = ''operator''"

definition credential_rules :: "string list \<Rightarrow> string list \<Rightarrow> string list \<Rightarrow> Credential \<Rightarrow> (bool \<times> (string \<times> string \<times> string) option) list" where
  "credential_rules allowed principals tokens c =
     (let invalid = (\<lambda>name. Some (name, ''invalid_value'', ''invalid or duplicate credential''))
      in [(\<not> KeyValid (cr_Principal c) \<or> cr_Principal c \<in> set principals, invalid ''principal''),
          (\<not> validDigest (cr_TokenSHA256 c) \<or> cr_TokenSHA256 c \<in> set tokens, invalid ''token_sha256''),
          (cr_Scopes c = [] \<or> length (cr_Scopes c) > 4, invalid ''scopes''),
          (cr_Players c = [] \<or> length (cr_Players c) > 16, invalid ''players''),
          (\<not> seen_all (\<lambda>s. s) known_scope [] (cr_Scopes c), Some (''scopes'', ''invalid_scope'', ''invalid credential scope'')),
          (\<not> seen_all (\<lambda>p. p) (\<lambda>p. p \<in> set allowed) [] (cr_Players c),
             Some (''players'', ''unknown_player'', ''invalid credential player''))])"

fun credentials_problem :: "string list \<Rightarrow> nat \<Rightarrow> string list \<Rightarrow> string list \<Rightarrow> Credential list \<Rightarrow> fieldError option" where
  "credentials_problem allowed i principals tokens [] = None"
| "credentials_problem allowed i principals tokens (c # cs) =
     (case first_rule (credential_rules allowed principals tokens c) None of
        Some problem \<Rightarrow> Some (at_index ''credentials'' i problem)
      | None \<Rightarrow> credentials_problem allowed (Suc i) (cr_Principal c # principals) (cr_TokenSHA256 c # tokens) cs)"

text \<open>\<open>file\<close> is what \<open>DecodeFile\<close> makes of the file.\<close>

definition LoadCredentials :: "(string \<Rightarrow> fieldError + CredentialFile) \<Rightarrow> string \<Rightarrow> config_Player list \<Rightarrow> fieldError + Credential list" where
  "LoadCredentials file path players =
     (if path = [] then Inr []
      else case file path of
             Inl e \<Rightarrow> Inl e
           | Inr f \<Rightarrow>
               if cr_Version f \<noteq> 1
               then Inl (invalidField ''version'' ''unsupported_version'' ''invalid credential file version/capacity'')
               else case cr_Credentials f of
                      None \<Rightarrow> Inl (invalidField ''credentials'' ''capacity_exceeded'' ''invalid credential file version/capacity'')
                    | Some cs \<Rightarrow>
                        if length cs > 64
                        then Inl (invalidField ''credentials'' ''capacity_exceeded'' ''invalid credential file version/capacity'')
                        else case credentials_problem (map cp_Key players) 0 [] [] cs of
                               Some e \<Rightarrow> Inl e
                             | None \<Rightarrow> Inr cs)"

subsection \<open>What a valid configuration is\<close>

definition player_ok :: "config_Player \<Rightarrow> bool" where
  "player_ok p \<longleftrightarrow>
     KeyValid (cp_Key p) \<and> cp_Serial p \<noteq> [] \<and> length (cp_Serial p) \<le> 256 \<and> validDigest (cp_FingerprintSHA256 p) \<and>
     (\<exists>host. SplitHostPort (cp_Address p) = Some (host, ''1265'') \<and> host \<noteq> []) \<and>
     (case cp_VolumeCeiling p of None \<Rightarrow> \<not> cp_WritesEnabled p | Some c \<Rightarrow> 0 \<le> c \<and> c \<le> 100)"

definition players_ok :: "config_Player list \<Rightarrow> bool" where
  "players_ok ps \<longleftrightarrow>
     distinct (map cp_Key ps) \<and> distinct (map cp_Serial ps) \<and> distinct (map cp_Address ps) \<and> list_all player_ok ps"

definition sources_ok :: "string list \<Rightarrow> Source list \<Rightarrow> bool" where
  "sources_ok keys ss \<longleftrightarrow>
     distinct (map so_Key ss) \<and> distinct (map (\<lambda>s. (so_Player s, so_Name s)) ss) \<and>
     list_all (\<lambda>s. KeyValid (so_Key s) \<and> so_Player s \<in> set keys \<and> so_Name s \<noteq> [] \<and> length (so_Name s) \<le> 256) ss"

definition credential_ok :: "string list \<Rightarrow> Credential \<Rightarrow> bool" where
  "credential_ok allowed c \<longleftrightarrow>
     KeyValid (cr_Principal c) \<and> validDigest (cr_TokenSHA256 c) \<and>
     cr_Scopes c \<noteq> [] \<and> length (cr_Scopes c) \<le> 4 \<and> distinct (cr_Scopes c) \<and> list_all known_scope (cr_Scopes c) \<and>
     cr_Players c \<noteq> [] \<and> length (cr_Players c) \<le> 16 \<and> distinct (cr_Players c) \<and> set (cr_Players c) \<subseteq> set allowed"

definition credentials_ok :: "string list \<Rightarrow> Credential list \<Rightarrow> bool" where
  "credentials_ok allowed cs \<longleftrightarrow>
     distinct (map cr_Principal cs) \<and> distinct (map cr_TokenSHA256 cs) \<and> list_all (credential_ok allowed) cs"

lemma player_rules_None:
  "first_rule (player_rules keys serials addresses p) None = None \<longleftrightarrow>
     player_ok p \<and> cp_Key p \<notin> set keys \<and> cp_Serial p \<notin> set serials \<and> cp_Address p \<notin> set addresses"
  by (auto simp: player_rules_def player_ok_def Let_def not_le not_less split: option.splits prod.splits)

lemma players_problem_None:
  "players_problem i keys serials addresses ps = None \<longleftrightarrow>
     players_ok ps \<and> set (map cp_Key ps) \<inter> set keys = {} \<and> set (map cp_Serial ps) \<inter> set serials = {} \<and>
     set (map cp_Address ps) \<inter> set addresses = {}"
proof (induction ps arbitrary: i keys serials addresses)
  case Nil
  then show ?case by (simp add: players_ok_def)
next
  case (Cons p ps)
  have "players_problem i keys serials addresses (p # ps) = None \<longleftrightarrow>
      first_rule (player_rules keys serials addresses p) None = None \<and>
      players_problem (Suc i) (cp_Key p # keys) (cp_Serial p # serials) (cp_Address p # addresses) ps = None"
    by (simp split: option.split)
  then show ?case unfolding player_rules_None Cons.IH by (auto simp: players_ok_def)
qed

lemma source_rules_None:
  "first_rule (source_rules keys seen routes s) None = None \<longleftrightarrow>
     KeyValid (so_Key s) \<and> so_Player s \<in> set keys \<and> so_Name s \<noteq> [] \<and> length (so_Name s) \<le> 256 \<and>
     so_Key s \<notin> set seen \<and> (so_Player s, so_Name s) \<notin> set routes"
  by (auto simp: source_rules_def not_less)

lemma sources_problem_None:
  "sources_problem i keys seen routes ss = None \<longleftrightarrow>
     sources_ok keys ss \<and> set (map so_Key ss) \<inter> set seen = {} \<and> set (map (\<lambda>s. (so_Player s, so_Name s)) ss) \<inter> set routes = {}"
proof (induction ss arbitrary: i seen routes)
  case Nil
  then show ?case by (simp add: sources_ok_def)
next
  case (Cons s ss)
  have "sources_problem i keys seen routes (s # ss) = None \<longleftrightarrow>
      first_rule (source_rules keys seen routes s) None = None \<and>
      sources_problem (Suc i) keys (so_Key s # seen) ((so_Player s, so_Name s) # routes) ss = None"
    by (simp split: option.split)
  then show ?case unfolding source_rules_None Cons.IH by (auto simp: sources_ok_def)
qed

lemma credential_rules_None:
  "first_rule (credential_rules allowed principals tokens c) None = None \<longleftrightarrow>
     credential_ok allowed c \<and> cr_Principal c \<notin> set principals \<and> cr_TokenSHA256 c \<notin> set tokens"
  by (auto simp: credential_rules_def credential_ok_def Let_def not_less seen_all_Nil list_all_iff)

lemma credentials_problem_None:
  "credentials_problem allowed i principals tokens cs = None \<longleftrightarrow>
     credentials_ok allowed cs \<and> set (map cr_Principal cs) \<inter> set principals = {} \<and> set (map cr_TokenSHA256 cs) \<inter> set tokens = {}"
proof (induction cs arbitrary: i principals tokens)
  case Nil
  then show ?case by (simp add: credentials_ok_def)
next
  case (Cons c cs)
  have "credentials_problem allowed i principals tokens (c # cs) = None \<longleftrightarrow>
      first_rule (credential_rules allowed principals tokens c) None = None \<and>
      credentials_problem allowed (Suc i) (cr_Principal c # principals) (cr_TokenSHA256 c # tokens) cs = None"
    by (simp split: option.split)
  then show ?case unfolding credential_rules_None Cons.IH by (auto simp: credentials_ok_def)
qed

lemma validateReadOnly_None:
  "validateReadOnly c = None \<longleftrightarrow>
     length (gc_Players c) \<le> 16 \<and> length (gc_Sources c) \<le> 16 \<and> (gc_Players c = [] \<or> gc_CredentialsFile c \<noteq> []) \<and>
     players_ok (gc_Players c) \<and> sources_ok (map cp_Key (gc_Players c)) (gc_Sources c)"
  using players_problem_None [of 0 "[]" "[]" "[]" "gc_Players c"] sources_problem_None [of 0 "map cp_Key (gc_Players c)" "[]" "[]" "gc_Sources c"]
  by (auto simp: validateReadOnly_def not_less split: option.splits)

definition config_ok :: "(string \<Rightarrow> bool) \<Rightarrow> config_Config \<Rightarrow> bool" where
  "config_ok parseAddr c \<longleftrightarrow>
     list_all (\<lambda>(bad, _). \<not> bad) (config_rules parseAddr c) \<and>
     length (gc_Players c) \<le> 16 \<and> length (gc_Sources c) \<le> 16 \<and> (gc_Players c = [] \<or> gc_CredentialsFile c \<noteq> []) \<and>
     players_ok (gc_Players c) \<and> sources_ok (map cp_Key (gc_Players c)) (gc_Sources c)"

text \<open>
  A configuration is accepted exactly if the server can rely on it: at most sixteen players with
  distinct keys, serials and addresses, each pinned by a digest on the TLS port, each ceiling within
  0 and 100 and present wherever writes are enabled; and sources with distinct keys and names that
  belong to configured players. Every check of the code is needed and together they are enough.
\<close>

theorem Config_Validate_iff: "Config_Validate parseAddr c = None \<longleftrightarrow> config_ok parseAddr c"
proof -
  have "first_rule (config_rules parseAddr c) (validateReadOnly c) = None \<longleftrightarrow>
      list_all (\<lambda>(bad, _). \<not> bad) (config_rules parseAddr c) \<and> validateReadOnly c = None"
    unfolding config_rules_def Let_def by (simp del: not_less)
  then show ?thesis by (simp only: Config_Validate_def validateReadOnly_None config_ok_def)
qed

text \<open>
  Credentials are accepted exactly if their principals and token digests are distinct, with known
  scopes and only configured players.
\<close>

theorem LoadCredentials_iff:
  "LoadCredentials file path players = Inr cs \<longleftrightarrow>
     (if path = [] then cs = []
      else (case file path of
              Inl _ \<Rightarrow> False
            | Inr f \<Rightarrow> cr_Version f = 1 \<and> cr_Credentials f = Some cs \<and> length cs \<le> 64 \<and> credentials_ok (map cp_Key players) cs))"
  using credentials_problem_None [of "map cp_Key players" 0 "[]" "[]" cs]
  by (auto simp: LoadCredentials_def not_less split: sum.splits option.splits)

end
