(* ===== verification/Serving.thy ===== *)
theory Serving
  imports Projections Cursors Streams Settings
begin

section \<open>The HTTP API\<close>

text \<open>
  \<open>internal/api\<close>: authentication, the checks every request passes (\<open>readonly.go\<close>), the handlers of reads
  (\<open>readonly.go\<close>, \<open>history.go\<close>, \<open>health.go\<close>, \<open>docs.go\<close>) and of commands (\<open>mutations.go\<close>), and the mapping of errors to
  responses. A handler is a program over the worker's ports, the journal's reads, the coordinator's
  \<open>Submit\<close> and the event broker; every call of \<open>Submit\<close> is recorded. The OpenAPI validator and the binding
  of parameters and bodies by the generated code are arguments.
\<close>

subsection \<open>Failures and their responses\<close>

record apiFailure =
  af_status :: int
  af_code :: string
  af_retry :: bool

datatype api_error = Failure apiFailure | Plain error

definition failed :: "int \<Rightarrow> string \<Rightarrow> bool \<Rightarrow> apiFailure" where
  "failed status c retry = \<lparr>af_status = status, af_code = c, af_retry = retry\<rparr>"

record error_response =
  er_status :: int
  er_code :: string
  er_outcome :: string
  er_retryable :: bool
  er_authenticate :: bool
  er_retryAfter :: bool

definition failure_rules :: "error \<Rightarrow> (bool \<times> apiFailure) list" where
  "failure_rules e =
     [(errors_Is e errResourceNotFound \<or> errors_Is e ErrNotFound, failed 404 ''not_found'' False),
      (errors_Is e ErrPreconditionRequired, failed 428 ''precondition_required'' False),
      (errors_Is e ErrPrecondition, failed 412 ''revision_changed'' False),
      (errors_Is e ErrGrouped, failed 409 ''grouped_target'' False),
      (errors_Is e ErrOwnership, failed 409 ''ownership_lost'' False),
      (errors_Is e ErrConflict, failed 409 ''idempotency_conflict'' False),
      (errors_Is e ErrBusy \<or> errors_Is e ErrRevision, failed 409 ''device_reserved'' False),
      (errors_Is e ErrInvalid, failed 400 ''invalid_request'' False),
      (errors_Is e ErrReadOnly, failed 422 ''writes_disabled'' False),
      (errors_Is e ErrAmbiguous, failed 409 ''ambiguous_catalog'' False),
      (errors_Is e ErrStaleReference \<or> errors_Is e ErrStale, failed 409 ''stale_reference'' False),
      (errors_Is e ErrBounds, failed 422 ''out_of_bounds'' False),
      (errors_Is e ErrNotSkippable, failed 422 ''not_skippable'' False),
      (errors_Is e ErrQueueFull \<or> errors_Is e ErrCatalogFull \<or> errors_Is e errEventCapacity \<or> errors_Is e ErrCapacity,
         failed 429 ''capacity_exceeded'' True)]"

definition failure_of :: "api_error \<Rightarrow> apiFailure" where
  "failure_of x = (case x of Failure f \<Rightarrow> f | Plain e \<Rightarrow> first_rule (failure_rules e) (failed 503 ''unavailable'' True))"

text \<open>The assignment of \<open>Retryable\<close> for an uncertain commit is overwritten by the next statement.\<close>

definition writeError :: "api_error \<Rightarrow> error_response" where
  "writeError x =
     (let f = failure_of x;
          uncertain = (case x of Plain e \<Rightarrow> errors_Is e ErrCommitUncertain | Failure _ \<Rightarrow> False)
      in \<lparr>er_status = af_status f, er_code = af_code f, er_outcome = (if uncertain then ''unknown'' else ''not_sent''),
          er_retryable = af_retry f, er_authenticate = (af_status f = 401), er_retryAfter = (af_status f = 429)\<rparr>)"

subsection \<open>Principals\<close>

definition allows :: "Credential \<Rightarrow> string \<Rightarrow> bool" where
  "allows p player \<longleftrightarrow> player \<in> set (cr_Players p)"

definition operator :: "Credential \<Rightarrow> bool" where
  "operator p \<longleftrightarrow> ''operator'' \<in> set (cr_Scopes p)"

text \<open>\<open>ht_Query\<close> is what \<open>url.ParseQuery\<close> returns; \<open>ht_Body\<close> is absent when reading it failed or it exceeds 16 KiB.\<close>

record http_request =
  ht_Method :: string
  ht_Path :: string
  ht_RawPath :: string
  ht_Query :: "(string \<times> string list) list option"
  ht_Header :: "string \<Rightarrow> string list"
  ht_Body :: "string option"

text \<open>The contract's validator, and the standard library's digest, JSON tokens and JSON syntax.\<close>

record server =
  sv_credentials :: "Credential list"
  sv_docsEnabled :: bool
  sv_sha256 :: "string \<Rightarrow> string"
  sv_scan :: "string \<Rightarrow> lexeme list"
  sv_parse :: "string \<Rightarrow> json option"
  sv_validate :: "http_request \<Rightarrow> string \<Rightarrow> bool"

text \<open>The token of a well-formed \<open>Authorization\<close> header.\<close>

definition bearer_token :: "http_request \<Rightarrow> string option" where
  "bearer_token r =
     (case ht_Header r ''Authorization'' of
        [h] \<Rightarrow>
          (case Cut CHR '' '' h of
             (scheme, token, ok) \<Rightarrow>
               if \<not> ok \<or> map lower_char scheme \<noteq> ''bearer'' \<or> length token < 32 \<or> length token > 256 \<or>
                  ContainsAny token ([CHR '' '', CHR 0x09, CR, LF]) then None
               else Some token)
      | _ \<Rightarrow> None)"

text \<open>The loop compares with every credential and keeps the last match.\<close>

fun find_credential :: "string \<Rightarrow> Credential list \<Rightarrow> Credential option \<Rightarrow> Credential option" where
  "find_credential digest [] best = best"
| "find_credential digest (c # cs) best =
     find_credential digest cs (if hex_decode (cr_TokenSHA256 c) = Some digest then Some c else best)"

definition authenticate :: "server \<Rightarrow> http_request \<Rightarrow> Credential option" where
  "authenticate sv r =
     (case bearer_token r of
        None \<Rightarrow> None
      | Some token \<Rightarrow> find_credential (sv_sha256 sv token) (sv_credentials sv) None)"

definition HasSuffix :: "string \<Rightarrow> string \<Rightarrow> bool" where
  "HasSuffix s suf \<longleftrightarrow> length suf \<le> length s \<and> drop (length s - length suf) s = suf"

definition required_scope :: "http_request \<Rightarrow> string" where
  "required_scope r =
     (if (ht_Method r = ''POST'' \<and> \<not> HasSuffix (ht_Path r) ''/preflight'') \<or> ht_Method r = ''PUT''
      then (if HasSuffix (ht_Path r) ''/playback'' \<or> HasSuffix (ht_Path r) ''/stop'' then ''operator'' else ''control'')
      else ''read'')"

subsection \<open>Routes\<close>

text \<open>The paths of the contract with their methods and query parameters.\<close>

definition contract :: "(string \<times> string \<times> string list) list" where
  "contract =
     [(''GET'', ''/livez'', []), (''GET'', ''/readyz'', []), (''GET'', ''/metrics'', []), (''GET'', ''/v1/players'', []),
      (''GET'', ''/v1/players/{player}'', []), (''GET'', ''/v1/groups'', []), (''GET'', ''/v1/sources'', []),
      (''GET'', ''/v1/sources/{source}/items'', [''parent_ref'', ''cursor'', ''limit'']),
      (''GET'', ''/v1/players/{player}/queue'', [''offset'', ''limit'', ''revision'']),
      (''POST'', ''/v1/players/{player}/preflight'', []),
      (''GET'', ''/v1/operations'',
         [''player'', ''state'', ''kind'', ''delivery'', ''created_from'', ''created_before'', ''limit'', ''cursor'']),
      (''GET'', ''/v1/operations/{operation}'', []), (''GET'', ''/v1/events'', []),
      (''POST'', ''/v1/players/{player}/playback'', []), (''PUT'', ''/v1/players/{player}/volume'', []),
      (''PUT'', ''/v1/players/{player}/mute'', []), (''PUT'', ''/v1/players/{player}/transport'', []),
      (''POST'', ''/v1/players/{player}/skip'', []), (''POST'', ''/v1/players/{player}/stop'', []),
      (''POST'', ''/v1/operations/{operation}/cancel'', [])]"

text \<open>\<open>http.ServeMux\<close>: a segment in braces matches any one segment that is not empty.\<close>

fun match_segments :: "string list \<Rightarrow> string list \<Rightarrow> bool" where
  "match_segments [] [] = True"
| "match_segments (t # ts) (s # ss) =
     ((if take 1 t = ''{'' then s \<noteq> [] else s = t) \<and> match_segments ts ss)"
| "match_segments _ _ = False"

definition routed :: "http_request \<Rightarrow> (string \<times> string list) option" where
  "routed r =
     (let segments = Split CHR ''/'' (ht_Path r) in
      case find (\<lambda>(m, path, _). m = ht_Method r \<and> match_segments (Split CHR ''/'' path) segments) contract of
        None \<Rightarrow> None
      | Some (_, path, query) \<Rightarrow>
          if segments \<noteq> [] \<and> last segments \<in> {''.'', ''..''} then None else Some (path, query))"

definition unclean_path :: "http_request \<Rightarrow> bool" where
  "unclean_path r \<longleftrightarrow>
     contains_text ''//'' (ht_Path r) \<or> contains_text ''/../'' (ht_Path r) \<or> contains_text ''/./'' (ht_Path r) \<or> ht_RawPath r \<noteq> []"

definition priority_path :: "string \<Rightarrow> bool" where
  "priority_path path \<longleftrightarrow> path = ''/v1/players/{player}/stop'' \<or> path = ''/v1/operations/{operation}/cancel''"

definition single_headers :: "http_request \<Rightarrow> bool" where
  "single_headers r \<longleftrightarrow>
     list_all (\<lambda>h. length (ht_Header r h) \<le> 1) [''Last-Event-ID'', ''Content-Type'', ''Idempotency-Key'', ''If-Match'']"

definition query_allowed :: "string list \<Rightarrow> http_request \<Rightarrow> bool" where
  "query_allowed allowed r \<longleftrightarrow>
     (case ht_Query r of None \<Rightarrow> False | Some q \<Rightarrow> list_all (\<lambda>(k, v). k \<in> set allowed \<and> length v = 1) q)"

subsection \<open>Numeric bounds of a refused body\<close>

text \<open>\<open>json.Unmarshal\<close> of one value into an integer: absent and other values are errors, null is zero.\<close>

definition json_int :: "json option \<Rightarrow> int option" where
  "json_int x =
     (case x of
        Some (Scalar s) \<Rightarrow> if s = ''null'' then Some 0 else Atoi s
      | _ \<Rightarrow> None)"

definition json_object :: "json option \<Rightarrow> (string \<times> json) list option" where
  "json_object x = (case x of Some (Obj fs) \<Rightarrow> Some fs | Some (Scalar s) \<Rightarrow> if s = ''null'' then Some [] else None | _ \<Rightarrow> None)"

definition outside :: "int \<Rightarrow> int \<Rightarrow> json option \<Rightarrow> bool" where
  "outside low high x \<longleftrightarrow> (case json_int x of None \<Rightarrow> False | Some n \<Rightarrow> n < low \<or> n > high)"

text \<open>A struct field is matched by its name in any case; every such key is decoded and the last one counts.\<close>

definition target_level :: "json option \<Rightarrow> json option" where
  "target_level x =
     (case json_object x of
        None \<Rightarrow> None
      | Some fs \<Rightarrow>
          (let levels = map snd (filter (\<lambda>(k, _). map lower_char k = ''level'') fs) in
           if levels = [] \<or> list_ex (\<lambda>v. json_int (Some v) = None) levels \<or> last levels = Scalar ''null'' then None
           else Some (last levels)))"

definition automation_outside :: "(string \<times> json) list \<Rightarrow> bool" where
  "automation_outside fs \<longleftrightarrow>
     outside 0 7200 (map_of fs ''ramp_seconds'') \<or> outside 1 7200 (map_of fs ''duration_seconds'') \<or>
     outside 0 60 (map_of fs ''fade_seconds'') \<or> outside 0 100 (target_level (map_of fs ''target_volume''))"

definition mutationOutOfBounds :: "(string \<Rightarrow> json option) \<Rightarrow> string \<Rightarrow> string \<Rightarrow> bool" where
  "mutationOutOfBounds parse path b \<longleftrightarrow>
     (case json_object (parse b) of
        None \<Rightarrow> False
      | Some fs \<Rightarrow>
          if path = ''/v1/players/{player}/volume'' then outside 0 100 (map_of fs ''level'')
          else if path = ''/v1/players/{player}/playback'' \<or> path = ''/v1/players/{player}/preflight''
          then (case json_object (map_of fs ''automation'') of None \<Rightarrow> False | Some a \<Rightarrow> automation_outside a) \<or>
               (case json_object (map_of fs ''initial_volume'') of None \<Rightarrow> False | Some v \<Rightarrow> outside 0 100 (map_of v ''level''))
          else if path = ''/v1/players/{player}/stop'' \<or> path = ''/v1/operations/{operation}/cancel''
          then outside 0 60 (map_of fs ''fade_seconds'')
          else False)"

subsection \<open>The checks of every request\<close>

definition documentation_path :: "string \<Rightarrow> bool" where
  "documentation_path path \<longleftrightarrow> path = ''/openapi.yaml'' \<or> path = ''/docs'' \<or> take 6 path = ''/docs/''"

definition serveDocumentation :: "server \<Rightarrow> http_request \<Rightarrow> api_error + string" where
  "serveDocumentation sv r =
     (if \<not> sv_docsEnabled sv \<or> ht_RawPath r \<noteq> [] then Inl (Failure (failed 404 ''not_found'' False))
      else if ht_Path r \<notin> {''/docs'', ''/docs/'', ''/docs/init.js'', ''/openapi.yaml''} then Inl (Failure (failed 404 ''not_found'' False))
      else if ht_Method r \<noteq> ''GET'' \<and> ht_Method r \<noteq> ''HEAD'' then Inl (Failure (failed 405 ''method_not_allowed'' False))
      else Inr (ht_Path r))"

datatype screened = Documentation string | Health string | Admitted Credential string string

definition invalid_request :: api_error where
  "invalid_request = Failure (failed 400 ''invalid_request'' False)"

text \<open>What is checked of the route, once the caller is known.\<close>

definition route_rules :: "server \<Rightarrow> bool \<Rightarrow> bool \<Rightarrow> http_request \<Rightarrow> string \<Rightarrow> string list \<Rightarrow> (bool \<times> api_error option) list" where
  "route_rules sv halting permit r path allowed =
     (let b = (case ht_Body r of None \<Rightarrow> [] | Some b \<Rightarrow> b)
      in [(halting, Some (Failure (failed 503 ''shutting_down'' True))),
          (\<not> permit, Some (Failure (failed 429 ''request_capacity'' True))),
          (\<not> query_allowed allowed r, Some invalid_request),
          (\<not> single_headers r, Some invalid_request),
          (ht_Body r = None, Some invalid_request),
          (b \<noteq> [] \<and> ((ht_Method r \<noteq> ''POST'' \<and> ht_Method r \<noteq> ''PUT'') \<or> \<not> UniqueJSON (sv_scan sv) b), Some invalid_request),
          (\<not> sv_validate sv r path,
             Some (if mutationOutOfBounds (sv_parse sv) path b then Plain ErrBounds else invalid_request))])"

text \<open>
  The handler of the server. \<open>permit path\<close> is whether a request of the path's kind may still enter: 32
  ordinary ones and, apart from them, 4 stops and cancellations.
\<close>

definition screen :: "server \<Rightarrow> bool \<Rightarrow> (bool \<Rightarrow> bool) \<Rightarrow> http_request \<Rightarrow> api_error + screened" where
  "screen sv halting permit r =
     (if documentation_path (ht_Path r) then (case serveDocumentation sv r of Inl e \<Rightarrow> Inl e | Inr x \<Rightarrow> Inr (Documentation x))
      else if ht_Path r = ''/livez'' \<or> ht_Path r = ''/readyz''
      then (if unclean_path r then Inl invalid_request
            else case routed r of
                   None \<Rightarrow> Inl (Failure (failed 404 ''not_found'' False))
                 | Some (path, _) \<Rightarrow> Inr (Health path))
      else case authenticate sv r of
             None \<Rightarrow> Inl (Failure (failed 401 ''unauthorized'' False))
           | Some p \<Rightarrow>
               if required_scope r \<notin> set (cr_Scopes p) then Inl (Failure (failed 403 ''forbidden'' False))
               else if unclean_path r then Inl invalid_request
               else case routed r of
                      None \<Rightarrow> Inl (Failure (failed 404 ''not_found'' False))
                    | Some (path, allowed) \<Rightarrow>
                        (case first_rule (route_rules sv halting (permit (priority_path path)) r path allowed) None of
                           Some e \<Rightarrow> Inl e
                         | None \<Rightarrow> Inr (Admitted p path (case ht_Body r of None \<Rightarrow> [] | Some b \<Rightarrow> b))))"

subsection \<open>Handlers\<close>

text \<open>
  The state of a handler: the world behind the ports, the event broker, and the calls of \<open>Submit\<close> made so
  far. Answers are a value or an error for \<open>writeError\<close>.
\<close>

record 'w api =
  ap_worker :: "'w worker"
  ap_events :: api_Events
  ap_submitted :: "(Request \<times> Command) list"

type_synonym ('w, 'a) handler = "('w api, api_error + 'a) state"

record 'w backend =
  bk_reads :: "'w Reads"
  bk_db :: "'w \<Rightarrow> journal_db"
  bk_outage :: "'w \<Rightarrow> error option"
  bk_elapse :: "'w \<Rightarrow> happening list \<times> 'w"
  bk_delivery :: "string \<Rightarrow> string option"
  bk_submit :: "(Request \<Rightarrow> Command \<Rightarrow> ('w, Operation result) port) option"
  bk_json :: projection_json
  bk_cursors :: cursor_json
  bk_formatTime :: "time \<Rightarrow> string"

text \<open>A read of the journal: things happen meanwhile, the database may be out, or it answers from its rows.\<close>

definition journal_read :: "'w backend \<Rightarrow> (journal_db \<Rightarrow> 'a result) \<Rightarrow> ('w, 'a result) port" where
  "journal_read bk f v =
     (case bk_elapse bk v of
        (hs, v') \<Rightarrow> (case bk_outage bk v' of Some e \<Rightarrow> Inl e | None \<Rightarrow> f (bk_db bk v'), hs, v'))"

definition reply_with :: "'a \<Rightarrow> ('w, 'a) handler" where
  "reply_with x = State_Monad.return (Inr x)"

definition refuse :: "api_error \<Rightarrow> ('w, 'a) handler" where
  "refuse e = State_Monad.return (Inl e)"

definition onwards :: "('w, 'a) handler \<Rightarrow> ('a \<Rightarrow> ('w, 'b) handler) \<Rightarrow> ('w, 'b) handler" where
  "onwards m f = do { x \<leftarrow> m; case x of Inl e \<Rightarrow> refuse e | Inr y \<Rightarrow> f y }"

definition behind :: "('w worker, 'a) state \<Rightarrow> ('w api, 'a) state" where
  "behind m = State (\<lambda>a. case run_state m (ap_worker a) of (x, w) \<Rightarrow> (x, a\<lparr>ap_worker := w\<rparr>))"

definition plain :: "'a result \<Rightarrow> api_error + 'a" where
  "plain x = (case x of Inl e \<Rightarrow> Inl (Plain e) | Inr y \<Rightarrow> Inr y)"

definition reading :: "('w, 'a) work \<Rightarrow> ('w, 'a) handler" where
  "reading m = do { x \<leftarrow> behind m; State_Monad.return (plain x) }"

definition forbidden :: api_error where
  "forbidden = Failure (failed 403 ''forbidden'' False)"

definition authorize :: "Credential \<Rightarrow> string \<Rightarrow> ('w, unit) handler" where
  "authorize p key = (if \<not> allows p key then refuse forbidden else reply_with ())"

text \<open>An operation is shown to its principal and to operators.\<close>

definition may_see :: "Credential \<Rightarrow> Operation \<Rightarrow> bool" where
  "may_see p x \<longleftrightarrow> o_Principal x = cr_Principal p \<or> operator p"

text \<open>\<open>journal.Active\<close>: none, or an error that is not the absence of one.\<close>

definition active_operation :: "'w backend \<Rightarrow> string \<Rightarrow> ('w, Operation option) handler" where
  "active_operation bk key = do {
     x \<leftarrow> behind (call (journal_read bk (\<lambda>db. Active db key)));
     case x of
       Inl e \<Rightarrow> if errors_Is e ErrNotFound then reply_with None else refuse (Plain e)
     | Inr y \<Rightarrow> reply_with (Some y)
   }"

definition player :: "'w backend \<Rightarrow> Credential \<Rightarrow> string \<Rightarrow> ('w, control_Player) handler" where
  "player bk p key =
     onwards (authorize p key) (\<lambda>_.
     onwards (reading (Reads_Player (bk_reads bk) key)) (\<lambda>v.
     onwards (active_operation bk key) (\<lambda>x.
       reply_with (case x of Some y \<Rightarrow> if may_see p y then v\<lparr>pl_ActiveOperation := Some (o_ID y)\<rparr> else v | None \<Rightarrow> v))))"

fun players :: "'w backend \<Rightarrow> Credential \<Rightarrow> string list \<Rightarrow> ('w, control_Player list) handler" where
  "players bk p [] = reply_with []"
| "players bk p (key # keys) =
     (if \<not> allows p key then players bk p keys
      else onwards (player bk p key) (\<lambda>v. onwards (players bk p keys) (\<lambda>vs. reply_with (v # vs))))"

subsection \<open>Reads\<close>

definition GetPlayers :: "'w backend \<Rightarrow> Credential \<Rightarrow> ('w, control_Player list) handler" where
  "GetPlayers bk p = players bk p (map (\<lambda>d. cp_Key (dv_Config d)) (rs_devices (bk_reads bk)))"

definition GetGroups :: "'w backend \<Rightarrow> Credential \<Rightarrow> ('w, control_Group list) handler" where
  "GetGroups bk p = do { x \<leftarrow> behind (Reads_Groups (bk_reads bk) (allows p)); reply_with x }"

definition GetSources :: "'w backend \<Rightarrow> Credential \<Rightarrow> ('w, control_Source list) handler" where
  "GetSources bk p = do { x \<leftarrow> behind (Reads_Sources (bk_reads bk) (allows p)); reply_with x }"

text \<open>\<open>value\<close>: an optional parameter or its default.\<close>

definition or_else :: "'a \<Rightarrow> 'a option \<Rightarrow> 'a" where
  "or_else d x = (case x of None \<Rightarrow> d | Some y \<Rightarrow> y)"

definition GetItems :: "'w backend \<Rightarrow> Credential \<Rightarrow> string \<Rightarrow> string option \<Rightarrow> string option \<Rightarrow> int option \<Rightarrow> ('w, control_Items) handler" where
  "GetItems bk p source parent cursor limit =
     (case SourcePlayer (bk_reads bk) source of
        Inl e \<Rightarrow> refuse (Plain e)
      | Inr key \<Rightarrow>
          onwards (authorize p key) (\<lambda>_.
            reading (Reads_Items (bk_reads bk) source (or_else [] parent) (or_else [] cursor) (or_else 50 limit))))"

definition GetQueue :: "'w backend \<Rightarrow> Credential \<Rightarrow> string \<Rightarrow> string option \<Rightarrow> int option \<Rightarrow> int option \<Rightarrow> ('w, control_Queue) handler" where
  "GetQueue bk p key revision offset limit =
     onwards (authorize p key) (\<lambda>_.
       reading (Reads_Queue (bk_reads bk) key (or_else [] revision) (or_else 0 offset) (or_else 50 limit)))"

definition GetOperation :: "'w backend \<Rightarrow> Credential \<Rightarrow> string \<Rightarrow> ('w, control_Operation) handler" where
  "GetOperation bk p ident =
     onwards (reading (call (journal_read bk (\<lambda>db. Get db ident)))) (\<lambda>x.
       if \<not> allows p (o_Player x) \<or> \<not> may_see p x then refuse forbidden
       else reply_with (ProjectOperation (bk_json bk) x))"

text \<open>The subscription sees events of its players, and operations of its principal or, for operators, of everyone.\<close>

definition event_allowed :: "Credential \<Rightarrow> api_Event \<Rightarrow> bool" where
  "event_allowed p e \<longleftrightarrow>
     (ae_Player e = [] \<or> allows p (ae_Player e)) \<and> (ae_Operation e = [] \<or> ae_Principal e = cr_Principal p \<or> operator p)"

definition GetEvents :: "Credential \<Rightarrow> string option \<Rightarrow> ('w, nat) handler" where
  "GetEvents p last_id = State (\<lambda>a.
     case Subscribe (or_else [] last_id) (event_allowed p) (ap_events a) of
       (x, b) \<Rightarrow> (plain x, a\<lparr>ap_events := b\<rparr>))"

subsection \<open>The history\<close>

text \<open>
  The parameters as the generated code binds them; \<open>hl_texts\<close> are the raw values of \<open>created_from\<close> and
  \<open>created_before\<close> with whether they match the pattern of an RFC 3339 instant, and \<open>hl_empty\<close> whether a
  parameter was given empty.
\<close>

record list_params =
  hl_empty :: bool
  hl_texts :: "bool list"
  hl_Player :: "string option"
  hl_State :: "string option"
  hl_Kind :: "string option"
  hl_Delivery :: "string option"
  hl_CreatedFrom :: "time option"
  hl_CreatedBefore :: "time option"
  hl_Limit :: "int option"
  hl_Cursor :: "string option"

definition history_query :: "Credential \<Rightarrow> list_params \<Rightarrow> HistoryQuery" where
  "history_query p hl =
     \<lparr>hq_Principal = cr_Principal p, hq_Operator = operator p, hq_Players = cr_Players p, hq_Player = or_else [] (hl_Player hl),
      hq_State = or_else [] (hl_State hl), hq_Kind = or_else [] (hl_Kind hl), hq_Delivery = or_else [] (hl_Delivery hl),
      hq_CreatedFrom = hl_CreatedFrom hl, hq_CreatedBefore = hl_CreatedBefore hl, hq_Before = None, hq_Limit = or_else 50 (hl_Limit hl)\<rparr>"

definition historyTime :: "(time \<Rightarrow> string) \<Rightarrow> time option \<Rightarrow> string" where
  "historyTime format t = (case t of None \<Rightarrow> [] | Some t \<Rightarrow> format t)"

definition history_filters :: "(time \<Rightarrow> string) \<Rightarrow> HistoryQuery \<Rightarrow> historyFilters" where
  "history_filters format q =
     \<lparr>hf_Player = hq_Player q, hf_State = hq_State q, hf_Kind = hq_Kind q, hf_Delivery = hq_Delivery q,
      hf_CreatedFrom = historyTime format (hq_CreatedFrom q), hf_CreatedBefore = historyTime format (hq_CreatedBefore q),
      hf_Limit = hq_Limit q\<rparr>"

definition list_refused :: "Credential \<Rightarrow> list_params \<Rightarrow> api_error option" where
  "list_refused p hl =
     (if or_else [] (hl_Player hl) \<noteq> [] \<and> \<not> allows p (or_else [] (hl_Player hl)) then Some forbidden
      else if hl_empty hl \<or> \<not> list_all (\<lambda>ok. ok) (hl_texts hl) then Some invalid_request
      else case (hl_CreatedFrom hl, hl_CreatedBefore hl) of
             (Some a, Some b) \<Rightarrow> if \<not> a < b then Some invalid_request else None
           | _ \<Rightarrow> None)"

definition operation_page :: "'w backend \<Rightarrow> historyFilters \<Rightarrow> HistoryPage \<Rightarrow> ('w, control_Operation list \<times> string option) handler" where
  "operation_page bk filters page =
     (let items = map (ProjectOperation (bk_json bk)) (hg_Items page) in
      case hg_Next page of
        None \<Rightarrow> reply_with (items, None)
      | Some position \<Rightarrow>
          (case encodeHistoryCursor (bk_cursors bk) position filters of
             Inl e \<Rightarrow> refuse (Plain e)
           | Inr cursor \<Rightarrow> reply_with (items, Some cursor)))"

definition ListOperations :: "'w backend \<Rightarrow> Credential \<Rightarrow> list_params \<Rightarrow> ('w, control_Operation list \<times> string option) handler" where
  "ListOperations bk p hl =
     (case list_refused p hl of
        Some e \<Rightarrow> refuse e
      | None \<Rightarrow>
          (let q = history_query p hl; filters = history_filters (bk_formatTime bk) q in
           case hl_Cursor hl of
             None \<Rightarrow> onwards (reading (call (journal_read bk (\<lambda>db. List (bk_delivery bk) db q)))) (operation_page bk filters)
           | Some cursor \<Rightarrow>
               (case decodeHistoryCursor (bk_cursors bk) cursor filters of
                  Inl _ \<Rightarrow> refuse invalid_request
                | Inr position \<Rightarrow>
                    onwards (reading (call (journal_read bk (\<lambda>db. List (bk_delivery bk) db (q\<lparr>hq_Before := Some position\<rparr>))))) (operation_page bk filters))))"

subsection \<open>Commands\<close>

record PlaybackInput =
  pi_ItemRef :: "string option"
  pi_ItemRefs :: "string list option"
  pi_Level :: int
  pi_Shuffle :: bool
  pi_Repeat :: string
  pi_Takeover :: bool
  pi_ExpectedOwner :: "string option"
  pi_Buffered :: "BufferedPlayback option"
  pi_Automation :: "Automation option"

definition playbackCommand :: "PlaybackInput \<Rightarrow> Command" where
  "playbackCommand b =
     zeroCommand\<lparr>c_Kind := CommandKindPlayback, c_ItemRef := or_else [] (pi_ItemRef b), c_ItemRefs := pi_ItemRefs b,
       c_Level := pi_Level b, c_Shuffle := pi_Shuffle b, c_Repeat := Repeat_of (pi_Repeat b), c_Takeover := pi_Takeover b,
       c_ExpectedOwner := or_else [] (pi_ExpectedOwner b), c_Buffered := pi_Buffered b, c_Automation := pi_Automation b\<rparr>"

definition operator_required :: api_error where
  "operator_required = Failure (failed 403 ''operator_required'' False)"

text \<open>The call of the coordinator, recorded.\<close>

definition submitting :: "(Request \<Rightarrow> Command \<Rightarrow> ('w, Operation result) port) \<Rightarrow> Request \<Rightarrow> Command \<Rightarrow> ('w, Operation) handler" where
  "submitting submitter request cmd = do {
     x \<leftarrow> behind (call (submitter request cmd));
     State (\<lambda>a. (plain x, a\<lparr>ap_submitted := ap_submitted a @ [(request, cmd)]\<rparr>))
   }"

text \<open>\<open>r\<close> is the request that was authenticated, \<open>body\<close> its decoded body encoded again.\<close>

definition api_submit ::
  "'w backend \<Rightarrow> Credential \<Rightarrow> http_request \<Rightarrow> string \<Rightarrow> string \<Rightarrow> string \<Rightarrow> string \<Rightarrow> Command \<Rightarrow> ('w, control_Operation) handler" where
  "api_submit bk p r key idem match body cmd =
     onwards (authorize p key) (\<lambda>_.
       if c_Takeover cmd \<and> \<not> operator p then refuse operator_required
       else case bk_submit bk of
              None \<Rightarrow> refuse (Failure (failed 503 ''control_unavailable'' True))
            | Some submitter \<Rightarrow>
                onwards (submitting submitter
                    \<lparr>rq_Principal = cr_Principal p, rq_Method = ht_Method r, rq_Endpoint = ht_Path r, rq_Key = idem, rq_Player = key,
                     rq_IfMatch = match, rq_Body = body\<rparr> cmd)
                  (\<lambda>x. reply_with (ProjectOperation (bk_json bk) x)))"

text \<open>
  The operations of the contract with their bound parameters: the player or operation of the path, the
  idempotency key and the revision of the headers, the fields of the body, and the body's text.
\<close>

record meta =
  mt_key :: string
  mt_match :: "string option"
  mt_body :: string

datatype api_call =
    CallGetMetrics
  | CallGetPlayers
  | CallGetPlayer string
  | CallGetGroups
  | CallGetSources
  | CallGetItems string "string option" "string option" "int option"
  | CallGetQueue string "string option" "int option" "int option"
  | CallPreflight string PlaybackInput
  | CallListOperations list_params
  | CallGetOperation string
  | CallGetEvents "string option"
  | CallPlayback string meta PlaybackInput
  | CallSetVolume string meta int bool "string option"
  | CallSetMute string meta bool bool "string option"
  | CallSetTransport string meta string bool "string option"
  | CallSkipPlayer string meta string bool
  | CallStopPlayer string meta int
  | CallCancelOperation string meta string "int option"

datatype reply =
    ReplyHealth bool
  | ReplyMetrics
  | ReplyPlayers "control_Player list"
  | ReplyPlayer control_Player
  | ReplyGroups "control_Group list"
  | ReplySources "control_Source list"
  | ReplyItems control_Items
  | ReplyQueue control_Queue
  | ReplyPreflight Preflight
  | ReplyOperations "control_Operation list" "string option"
  | ReplyOperation control_Operation
  | ReplyStream nat
  | ReplyAccepted control_Operation
  | ReplyDocument string

definition replying :: "('a \<Rightarrow> reply) \<Rightarrow> ('w, 'a) handler \<Rightarrow> ('w, reply) handler" where
  "replying f m = onwards m (\<lambda>x. reply_with (f x))"

definition volumeCommand :: "int \<Rightarrow> bool \<Rightarrow> string option \<Rightarrow> Command" where
  "volumeCommand level takeover expected =
     zeroCommand\<lparr>c_Kind := CommandKindVolume, c_Level := level, c_Takeover := takeover, c_ExpectedOwner := or_else [] expected\<rparr>"

definition muteCommand :: "bool \<Rightarrow> bool \<Rightarrow> string option \<Rightarrow> Command" where
  "muteCommand muted takeover expected =
     zeroCommand\<lparr>c_Kind := CommandKindMute, c_Muted := muted, c_Takeover := takeover, c_ExpectedOwner := or_else [] expected\<rparr>"

definition transportCommand :: "string \<Rightarrow> bool \<Rightarrow> string option \<Rightarrow> Command" where
  "transportCommand state takeover expected =
     zeroCommand\<lparr>c_Kind := CommandKindTransport, c_State := PlayState_of state, c_Takeover := takeover,
       c_ExpectedOwner := or_else [] expected\<rparr>"

definition skipCommand :: "string \<Rightarrow> bool \<Rightarrow> Command" where
  "skipCommand direction takeover = zeroCommand\<lparr>c_Kind := CommandKindSkip, c_Direction := direction, c_Takeover := takeover\<rparr>"

definition stopCommand :: "int \<Rightarrow> Command" where
  "stopCommand fade = zeroCommand\<lparr>c_Kind := CommandKindStop, c_FadeSeconds := fade\<rparr>"

definition cancelCommand :: "string \<Rightarrow> string \<Rightarrow> int \<Rightarrow> Command" where
  "cancelCommand target mode fade =
     zeroCommand\<lparr>c_Kind := CommandKindCancel, c_Target := target, c_Mode := mode, c_FadeSeconds := fade\<rparr>"

definition Preflight_handler :: "'w backend \<Rightarrow> Credential \<Rightarrow> string \<Rightarrow> PlaybackInput \<Rightarrow> ('w, Preflight) handler" where
  "Preflight_handler bk p key body =
     onwards (authorize p key) (\<lambda>_.
       if pi_Takeover body \<and> \<not> operator p then refuse operator_required
       else onwards (reading (Reads_Preflight (bk_reads bk) key (playbackCommand body))) (\<lambda>v.
            onwards (active_operation bk key) (\<lambda>x.
              reply_with (case x of
                  None \<Rightarrow> v
                | Some y \<Rightarrow>
                    let v = (if pi_Takeover body then v
                             else v\<lparr>pf_Ready := False, pf_Warnings := pf_Warnings v @ [''device_reserved'']\<rparr>)
                    in if may_see p y then v\<lparr>pf_Player := (pf_Player v)\<lparr>pl_ActiveOperation := Some (o_ID y)\<rparr>\<rparr> else v))))"

definition CancelOperation :: "'w backend \<Rightarrow> Credential \<Rightarrow> http_request \<Rightarrow> string \<Rightarrow> meta \<Rightarrow> string \<Rightarrow> int option \<Rightarrow> ('w, control_Operation) handler" where
  "CancelOperation bk p r ident mt mode fade =
     onwards (reading (call (journal_read bk (\<lambda>db. Get db ident)))) (\<lambda>target.
       if \<not> allows p (o_Player target) \<or> \<not> may_see p target then refuse forbidden
       else if mode = ''release'' \<and> or_else 0 fade \<noteq> 0 then refuse (Failure (failed 422 ''release_cannot_fade'' False))
       else api_submit bk p r (o_Player target) (mt_key mt) [] (mt_body mt) (cancelCommand (o_ID target) mode (or_else 0 fade)))"

text \<open>\<open>ready\<close> is the answer of the journal, asked between two looks at the shutdown flag.\<close>

definition GetReadiness :: "bool \<Rightarrow> bool \<Rightarrow> bool \<Rightarrow> bool" where
  "GetReadiness before ready after \<longleftrightarrow> \<not> (before \<or> \<not> ready \<or> after)"

definition handle :: "'w backend \<Rightarrow> Credential \<Rightarrow> http_request \<Rightarrow> api_call \<Rightarrow> ('w, reply) handler" where
  "handle bk p r c =
     (let send = (\<lambda>key mt match cmd. replying ReplyAccepted (api_submit bk p r key (mt_key mt) match (mt_body mt) cmd)) in
      case c of
        CallGetMetrics \<Rightarrow> reply_with ReplyMetrics
      | CallGetPlayers \<Rightarrow> replying ReplyPlayers (GetPlayers bk p)
      | CallGetPlayer key \<Rightarrow> replying ReplyPlayer (player bk p key)
      | CallGetGroups \<Rightarrow> replying ReplyGroups (GetGroups bk p)
      | CallGetSources \<Rightarrow> replying ReplySources (GetSources bk p)
      | CallGetItems source parent cursor limit \<Rightarrow> replying ReplyItems (GetItems bk p source parent cursor limit)
      | CallGetQueue key revision offset limit \<Rightarrow> replying ReplyQueue (GetQueue bk p key revision offset limit)
      | CallPreflight key body \<Rightarrow> replying ReplyPreflight (Preflight_handler bk p key body)
      | CallListOperations hl \<Rightarrow> replying (\<lambda>(xs, next). ReplyOperations xs next) (ListOperations bk p hl)
      | CallGetOperation ident \<Rightarrow> replying ReplyOperation (GetOperation bk p ident)
      | CallGetEvents last_id \<Rightarrow> replying ReplyStream (GetEvents p last_id)
      | CallPlayback key mt body \<Rightarrow> send key mt (or_else [] (mt_match mt)) (playbackCommand body)
      | CallSetVolume key mt level takeover expected \<Rightarrow> send key mt (or_else [] (mt_match mt)) (volumeCommand level takeover expected)
      | CallSetMute key mt muted takeover expected \<Rightarrow> send key mt (or_else [] (mt_match mt)) (muteCommand muted takeover expected)
      | CallSetTransport key mt state takeover expected \<Rightarrow>
          send key mt (or_else [] (mt_match mt)) (transportCommand state takeover expected)
      | CallSkipPlayer key mt direction takeover \<Rightarrow> send key mt (or_else [] (mt_match mt)) (skipCommand direction takeover)
      | CallStopPlayer key mt fade \<Rightarrow> send key mt [] (stopCommand fade)
      | CallCancelOperation ident mt mode fade \<Rightarrow> replying ReplyAccepted (CancelOperation bk p r ident mt mode fade))"

text \<open>
  The route of each operation, from the registrations of the generated code. \<open>binding\<close> is the rest of
  that code: it finds the parameters of the operation registered for a path, or refuses them.
\<close>

fun route_of :: "api_call \<Rightarrow> string" where
  "route_of CallGetMetrics = ''/metrics''"
| "route_of CallGetPlayers = ''/v1/players''"
| "route_of (CallGetPlayer _) = ''/v1/players/{player}''"
| "route_of CallGetGroups = ''/v1/groups''"
| "route_of CallGetSources = ''/v1/sources''"
| "route_of (CallGetItems _ _ _ _) = ''/v1/sources/{source}/items''"
| "route_of (CallGetQueue _ _ _ _) = ''/v1/players/{player}/queue''"
| "route_of (CallPreflight _ _) = ''/v1/players/{player}/preflight''"
| "route_of (CallListOperations _) = ''/v1/operations''"
| "route_of (CallGetOperation _) = ''/v1/operations/{operation}''"
| "route_of (CallGetEvents _) = ''/v1/events''"
| "route_of (CallPlayback _ _ _) = ''/v1/players/{player}/playback''"
| "route_of (CallSetVolume _ _ _ _ _) = ''/v1/players/{player}/volume''"
| "route_of (CallSetMute _ _ _ _ _) = ''/v1/players/{player}/mute''"
| "route_of (CallSetTransport _ _ _ _ _) = ''/v1/players/{player}/transport''"
| "route_of (CallSkipPlayer _ _ _ _) = ''/v1/players/{player}/skip''"
| "route_of (CallStopPlayer _ _ _) = ''/v1/players/{player}/stop''"
| "route_of (CallCancelOperation _ _ _ _) = ''/v1/operations/{operation}/cancel''"

definition dispatch_call :: "(string \<Rightarrow> http_request \<Rightarrow> string \<Rightarrow> api_call option) \<Rightarrow> string \<Rightarrow> http_request \<Rightarrow> string \<Rightarrow> api_call option" where
  "dispatch_call binding path r b =
     (case binding path r b of None \<Rightarrow> None | Some c \<Rightarrow> if route_of c = path then Some c else None)"

text \<open>\<open>ready\<close> is what a readiness probe finds: the journal's answer and the flag after it.\<close>

definition serve ::
  "server \<Rightarrow> 'w backend \<Rightarrow> (string \<Rightarrow> http_request \<Rightarrow> string \<Rightarrow> api_call option) \<Rightarrow> bool \<Rightarrow> (bool \<Rightarrow> bool) \<Rightarrow> bool \<times> bool \<Rightarrow> http_request \<Rightarrow>
   ('w, reply) handler" where
  "serve sv bk binding halting permit ready r =
     (case screen sv halting permit r of
        Inl e \<Rightarrow> refuse e
      | Inr (Documentation x) \<Rightarrow> reply_with (ReplyDocument x)
      | Inr (Health path) \<Rightarrow> reply_with (ReplyHealth (path = ''/livez'' \<or> GetReadiness halting (fst ready) (snd ready)))
      | Inr (Admitted p path b) \<Rightarrow>
          (case dispatch_call binding path r b of
             None \<Rightarrow> refuse invalid_request
           | Some c \<Rightarrow> handle bk p r c))"

end
