(* ===== verification/Access.thy ===== *)
theory Access
  imports Serving
begin

section \<open>Who may do what through the API\<close>

text \<open>
  The properties of the handlers: a command reaches the coordinator only for an authenticated principal
  with the scope of its kind, and a reply shows a principal only what it may see. The first half are
  the rules for handlers: what they leave alone and what they reply.
\<close>

subsection \<open>Rules for handlers\<close>

lemma run_reply [simp]: "run_state (reply_with x) a = (Inr x, a)"
  by (simp add: reply_with_def)

lemma run_refuse [simp]: "run_state (refuse e) a = (Inl e, a)"
  by (simp add: refuse_def)

lemma run_onwards:
  "run_state (onwards m f) a = (case run_state m a of (Inl e, a') \<Rightarrow> (Inl e, a') | (Inr x, a') \<Rightarrow> run_state (f x) a')"
  by (simp add: onwards_def split: prod.splits sum.splits)

lemma run_behind: "run_state (behind m) a = (case run_state m (ap_worker a) of (x, w) \<Rightarrow> (x, a\<lparr>ap_worker := w\<rparr>))"
  by (simp add: behind_def)

lemma run_reading:
  "run_state (reading m) a = (case run_state m (ap_worker a) of (x, w) \<Rightarrow> (plain x, a\<lparr>ap_worker := w\<rparr>))"
  by (simp add: reading_def run_behind split: prod.splits)

text \<open>A handler that submits no command, sends none to a device and writes no record.\<close>

definition quiet :: "'w api \<Rightarrow> 'w api \<Rightarrow> bool" where
  "quiet a a' \<longleftrightarrow> ap_submitted a' = ap_submitted a \<and> beside (ap_worker a) (ap_worker a')"

interpretation silent: change_relation quiet
  by unfold_locales (auto simp: quiet_def intro: beside_refl beside_trans)

lemma quiet_behind: "within beside m \<Longrightarrow> within quiet (behind m)"
  by (rule withinI) (auto simp: run_behind quiet_def split: prod.splits elim: withinD)

lemma quiet_reply: "within quiet (reply_with x)"
  unfolding reply_with_def by (rule silent.within_return)

lemma quiet_refuse: "within quiet (refuse e)"
  unfolding refuse_def by (rule silent.within_return)

lemma quiet_reading: "within beside m \<Longrightarrow> within quiet (reading m)"
  unfolding reading_def by (intro silent.within_structure quiet_behind)

lemmas beside_rules =
  besides.within_call besides.within_Reads_Player besides.within_groups_of besides.within_sources_of besides.within_Reads_Items
  besides.within_Reads_Queue besides.within_Reads_Preflight

lemma quiet_onwards: "within quiet m \<Longrightarrow> (\<And>x. within quiet (f x)) \<Longrightarrow> within quiet (onwards m f)"
  unfolding onwards_def by (intro silent.within_structure quiet_refuse)

lemma quiet_authorize: "within quiet (authorize p key)"
  unfolding authorize_def by (intro silent.within_if quiet_refuse quiet_reply)

lemma quiet_active: "within quiet (active_operation bk key)"
  unfolding active_operation_def by (intro silent.within_structure quiet_behind quiet_refuse quiet_reply beside_rules)

lemma quiet_player: "within quiet (player bk p key)"
  unfolding player_def by (intro quiet_onwards quiet_authorize quiet_reading quiet_active quiet_reply beside_rules)

lemma quiet_players: "within quiet (players bk p keys)"
  by (induction keys) (auto intro!: quiet_onwards quiet_player quiet_reply)

lemma quiet_page: "within quiet (operation_page bk filters page)"
  unfolding operation_page_def by (intro silent.within_structure quiet_refuse quiet_reply)

lemma quiet_events: "within quiet (GetEvents p last_id)"
  by (auto intro!: withinI simp: GetEvents_def quiet_def beside_refl split: prod.splits)

lemmas quiet_rules =
  quiet_onwards quiet_behind quiet_reply quiet_refuse quiet_reading quiet_authorize quiet_active quiet_player quiet_players
  quiet_page quiet_events silent.within_structure

subsection \<open>Commands\<close>

text \<open>A handler that submits at most one command, which satisfies \<open>P\<close>.\<close>

definition submits :: "(Request \<times> Command \<Rightarrow> bool) \<Rightarrow> ('w, 'a) handler \<Rightarrow> bool" where
  "submits P m \<longleftrightarrow>
     (\<forall>a x a'. run_state m a = (x, a') \<longrightarrow>
        (\<exists>xs. ap_submitted a' = ap_submitted a @ xs \<and> length xs \<le> 1 \<and> list_all P xs))"

lemma submitsD:
  "submits P m \<Longrightarrow> run_state m a = (x, a') \<Longrightarrow> \<exists>xs. ap_submitted a' = ap_submitted a @ xs \<and> length xs \<le> 1 \<and> list_all P xs"
  by (simp add: submits_def)

lemma submits_weaken: "submits P m \<Longrightarrow> (\<And>x. P x \<Longrightarrow> Q x) \<Longrightarrow> submits Q m"
  by (fastforce simp: submits_def list_all_iff)

lemma submits_quiet: "within quiet m \<Longrightarrow> submits P m"
  unfolding submits_def by (auto dest!: withinD simp: quiet_def)

lemma submits_quiet_first:
  assumes "within quiet m" and "\<And>x. submits P (f x)"
  shows "submits P (onwards m f)"
  unfolding submits_def
proof (intro allI impI)
  fix a x a'
  assume run: "run_state (onwards m f) a = (x, a')"
  obtain y b where m: "run_state m a = (y, b)" by fastforce
  have b: "ap_submitted b = ap_submitted a" using withinD [OF assms(1) m] by (simp add: quiet_def)
  show "\<exists>xs. ap_submitted a' = ap_submitted a @ xs \<and> length xs \<le> 1 \<and> list_all P xs"
  proof (cases y)
    case (Inl e)
    then show ?thesis using run m b by (simp add: run_onwards)
  next
    case (Inr z)
    then have "run_state (f z) b = (x, a')" using run m by (simp add: run_onwards)
    from submitsD [OF assms(2) this] show ?thesis by (simp add: b)
  qed
qed

lemma submits_then_quiet:
  assumes "submits P m" and "\<And>x. within quiet (f x)"
  shows "submits P (onwards m f)"
  unfolding submits_def
proof (intro allI impI)
  fix a x a'
  assume run: "run_state (onwards m f) a = (x, a')"
  obtain y b where m: "run_state m a = (y, b)" by fastforce
  have "ap_submitted a' = ap_submitted b"
  proof (cases y)
    case (Inl e)
    then show ?thesis using run m by (simp add: run_onwards)
  next
    case (Inr z)
    then have "run_state (f z) b = (x, a')" using run m by (simp add: run_onwards)
    from withinD [OF assms(2) this] show ?thesis by (simp add: quiet_def)
  qed
  then show "\<exists>xs. ap_submitted a' = ap_submitted a @ xs \<and> length xs \<le> 1 \<and> list_all P xs"
    using submitsD [OF assms(1) m] by simp
qed

lemma submits_submitting: "P (request, cmd) \<Longrightarrow> submits P (submitting submitter request cmd)"
  by (auto simp: submits_def submitting_def run_behind split: prod.splits)

lemma submits_replying: "submits P m \<Longrightarrow> submits P (replying f m)"
  unfolding replying_def by (intro submits_then_quiet quiet_reply)

text \<open>What holds of a submitted command: it is the caller's own, for one of its players, and a takeover is an operator's.\<close>

definition own_command :: "Credential \<Rightarrow> http_request \<Rightarrow> Request \<times> Command \<Rightarrow> bool" where
  "own_command p r x \<longleftrightarrow>
     rq_Principal (fst x) = cr_Principal p \<and> rq_Method (fst x) = ht_Method r \<and> rq_Endpoint (fst x) = ht_Path r \<and>
     allows p (rq_Player (fst x)) \<and> (c_Takeover (snd x) \<longrightarrow> operator p)"

lemma submits_onwards_authorize:
  "(allows p key \<Longrightarrow> submits P m) \<Longrightarrow> submits P (onwards (authorize p key) (\<lambda>_. m))"
  by (cases "allows p key") (auto simp: submits_def authorize_def run_onwards)

lemma submits_api_submit:
  assumes "\<And>rq. own_command p r (rq, cmd) \<Longrightarrow> P (rq, cmd)"
  shows "submits P (api_submit bk p r key idem match body cmd)"
  unfolding api_submit_def
proof (rule submits_onwards_authorize)
  assume key: "allows p key"
  show "submits P (if c_Takeover cmd \<and> \<not> operator p then refuse operator_required
       else case bk_submit bk of
              None \<Rightarrow> refuse (Failure (failed 503 ''control_unavailable'' True))
            | Some submitter \<Rightarrow>
                onwards (submitting submitter
                    \<lparr>rq_Principal = cr_Principal p, rq_Method = ht_Method r, rq_Endpoint = ht_Path r, rq_Key = idem, rq_Player = key,
                     rq_IfMatch = match, rq_Body = body\<rparr> cmd)
                  (\<lambda>x. reply_with (ProjectOperation (bk_json bk) x)))"
  proof (cases "(c_Takeover cmd \<longrightarrow> operator p) \<and> bk_submit bk \<noteq> None")
    case True
    then show ?thesis
      using key by (auto intro!: submits_then_quiet submits_submitting assms quiet_reply simp: own_command_def)
  next
    case False
    then show ?thesis by (auto intro!: submits_quiet quiet_refuse split: option.splits)
  qed
qed

subsection \<open>Routes and scopes\<close>

lemma Split_more: "c \<in> set s \<Longrightarrow> 2 \<le> length (Split c s)"
  by (induction s) (auto simp: Suc_le_eq split: list.splits)

lemma last_Split:
  assumes "c \<notin> set x"
  shows "last (Split c (a @ c # x)) = x"
proof (induction a)
  case Nil
  then show ?case using assms by (simp add: Split_absent)
next
  case (Cons y a)
  have "2 \<le> length (Split c (a @ c # x))" by (intro Split_more) simp
  then obtain u v vs where "Split c (a @ c # x) = u # v # vs" by (cases "Split c (a @ c # x)"; cases "tl (Split c (a @ c # x))") auto
  then show ?case using Cons by auto
qed

lemma Join_last: "2 \<le> length xs \<Longrightarrow> \<exists>a. Join [c] xs = a @ c # last xs"
proof (induction "[c]" xs rule: Join.induct)
  case (3 x y ys)
  show ?case
  proof (cases ys)
    case Nil
    then show ?thesis by simp
  next
    case (Cons z zs)
    then obtain a where "Join [c] (y # ys) = a @ c # last (y # ys)" using 3 by auto
    then show ?thesis by (intro exI [of _ "x @ c # a"]) simp
  qed
qed simp_all

lemma HasSuffix_append: "HasSuffix s suf \<longleftrightarrow> (\<exists>a. s = a @ suf)"
  by (auto simp: HasSuffix_def) (metis append_take_drop_id)

lemma HasSuffix_segment:
  assumes "CHR ''/'' \<notin> set x" and "2 \<le> length (Split CHR ''/'' s)"
  shows "HasSuffix s (CHR ''/'' # x) \<longleftrightarrow> last (Split CHR ''/'' s) = x"
proof
  assume "HasSuffix s (CHR ''/'' # x)"
  then obtain a where "s = a @ CHR ''/'' # x" by (auto simp: HasSuffix_append)
  then show "last (Split CHR ''/'' s) = x" using last_Split [OF assms(1)] by simp
next
  assume "last (Split CHR ''/'' s) = x"
  moreover obtain a where "Join [CHR ''/''] (Split CHR ''/'' s) = a @ CHR ''/'' # last (Split CHR ''/'' s)"
    using Join_last [OF assms(2)] by blast
  ultimately show "HasSuffix s (CHR ''/'' # x)" by (auto simp: Join_Split HasSuffix_append)
qed

lemma match_last:
  "match_segments ts ss \<Longrightarrow> ts \<noteq> [] \<Longrightarrow> take 1 (last ts) \<noteq> ''{'' \<Longrightarrow> last ss = last ts \<and> length ss = length ts"
proof (induction ts ss rule: match_segments.induct)
  case (2 t ts s ss)
  then show ?case by (cases ts; cases ss) (auto split: if_splits)
qed auto

lemma routed_contract:
  assumes "routed r = Some (path, query)"
  shows "(ht_Method r, path, query) \<in> set contract" and "match_segments (Split CHR ''/'' path) (Split CHR ''/'' (ht_Path r))"
proof -
  let ?p = "\<lambda>(m, path, _ :: string list). m = ht_Method r \<and> match_segments (Split CHR ''/'' path) (Split CHR ''/'' (ht_Path r))"
  obtain m where f: "find ?p contract = Some (m, path, query)"
    using assms by (auto simp: routed_def Let_def split: option.splits prod.splits if_splits)
  from f [unfolded find_Some_iff] show "(ht_Method r, path, query) \<in> set contract"
    and "match_segments (Split CHR ''/'' path) (Split CHR ''/'' (ht_Path r))"
    by (auto simp: in_set_conv_nth)
qed

lemma screen_Admitted:
  assumes "screen sv halting permit r = Inr (Admitted p path b)"
  shows "authenticate sv r = Some p" and "required_scope r \<in> set (cr_Scopes p)" and "\<not> halting"
    and "\<exists>query. routed r = Some (path, query)"
  using assms
  by (auto simp: screen_def route_rules_def Let_def split: if_splits option.splits sum.splits prod.splits)

fun call_kind :: "api_call \<Rightarrow> CommandKind option" where
  "call_kind (CallPlayback _ _ _) = Some CommandKindPlayback"
| "call_kind (CallSetVolume _ _ _ _ _) = Some CommandKindVolume"
| "call_kind (CallSetMute _ _ _ _ _) = Some CommandKindMute"
| "call_kind (CallSetTransport _ _ _ _ _) = Some CommandKindTransport"
| "call_kind (CallSkipPlayer _ _ _ _) = Some CommandKindSkip"
| "call_kind (CallStopPlayer _ _ _) = Some CommandKindStop"
| "call_kind (CallCancelOperation _ _ _ _) = Some CommandKindCancel"
| "call_kind _ = None"

definition scope_of :: "CommandKind \<Rightarrow> string" where
  "scope_of k = (if k = CommandKindPlayback \<or> k = CommandKindStop then ''operator'' else ''control'')"

lemma required_scope_segments:
  assumes "2 \<le> length (Split CHR ''/'' (ht_Path r))"
  shows "required_scope r =
    (let x = last (Split CHR ''/'' (ht_Path r)) in
     if (ht_Method r = ''POST'' \<and> x \<noteq> ''preflight'') \<or> ht_Method r = ''PUT''
     then (if x = ''playback'' \<or> x = ''stop'' then ''operator'' else ''control'') else ''read'')"
  using HasSuffix_segment [OF _ assms, of "''preflight''"] HasSuffix_segment [OF _ assms, of "''playback''"]
    HasSuffix_segment [OF _ assms, of "''stop''"]
  by (simp add: required_scope_def Let_def)

lemma command_scope:
  assumes "routed r = Some (route_of c, query)" and "call_kind c = Some k"
  shows "required_scope r = scope_of k"
proof -
  let ?t = "Split CHR ''/'' (route_of c)" and ?s = "Split CHR ''/'' (ht_Path r)"
  have t: "?t \<noteq> []" "take 1 (last ?t) \<noteq> ''{''" "2 \<le> length ?t" using assms(2) by (cases c; simp)+
  have s: "last ?s = last ?t" "length ?s = length ?t" using match_last [OF routed_contract(2) [OF assms(1)] t(1, 2)] by auto
  have m: "(ht_Method r, route_of c, query) \<in> set contract" by (rule routed_contract(1) [OF assms(1)])
  show ?thesis
    using required_scope_segments [of r] s t(3) m assms(2) by (cases c) (auto simp: contract_def scope_of_def Let_def)
qed

lemma command_kinds:
  "c_Kind (playbackCommand b) = CommandKindPlayback" "c_Kind (volumeCommand level t e) = CommandKindVolume"
  "c_Kind (muteCommand muted t e) = CommandKindMute" "c_Kind (transportCommand state t e) = CommandKindTransport"
  "c_Kind (skipCommand direction t) = CommandKindSkip" "c_Kind (stopCommand fade) = CommandKindStop"
  "c_Kind (cancelCommand target mode fade) = CommandKindCancel"
  by (simp_all add: playbackCommand_def volumeCommand_def muteCommand_def transportCommand_def skipCommand_def stopCommand_def
      cancelCommand_def)

lemma submits_handle:
  "submits (\<lambda>x. own_command p r x \<and> call_kind c = Some (c_Kind (snd x))) (handle bk p r c)"
proof (cases "call_kind c")
  case None
  then have "within quiet (handle bk p r c)"
    by (cases c)
      (auto simp: handle_def replying_def GetPlayers_def GetGroups_def GetSources_def GetItems_def GetQueue_def Preflight_handler_def
        Reads_Groups_def Reads_Sources_def ListOperations_def GetOperation_def intro!: quiet_rules beside_rules
        split: sum.splits option.splits)
  then show ?thesis by (rule submits_quiet)
next
  case (Some k)
  have refused: "submits P (refuse e)" for P :: "Request \<times> Command \<Rightarrow> bool" and e by (intro submits_quiet quiet_refuse)
  from Some show ?thesis
    by (cases c)
      (auto simp: handle_def CancelOperation_def command_kinds intro!: submits_replying submits_api_submit submits_quiet_first
        quiet_reading beside_rules refused)
qed

text \<open>
  C5. A command reaches the coordinator only through its door. Whatever the request, whatever the
  journal and the devices answer, serving it calls \<open>Submit\<close> at most once; and if it does, the server is not
  shutting down, the request carries the token of a configured credential, the command is submitted in
  the name of that credential's principal with the method and path of the request, for a player the
  credential grants, with the scope its kind needs (operator for playback and Stop, control for every
  other command), and a takeover only for an operator.
\<close>

theorem commands_authorized:
  "case run_state (serve sv bk binding halting permit ready r) a of
     (x, a') \<Rightarrow>
       \<exists>xs. ap_submitted a' = ap_submitted a @ xs \<and> length xs \<le> 1 \<and>
         list_all (\<lambda>(rq, cmd).
           \<not> halting \<and>
           (\<exists>p. authenticate sv r = Some p \<and> scope_of (c_Kind cmd) \<in> set (cr_Scopes p) \<and>
              rq_Principal rq = cr_Principal p \<and> rq_Method rq = ht_Method r \<and> rq_Endpoint rq = ht_Path r \<and>
              rq_Player rq \<in> set (cr_Players p) \<and> (if c_Takeover cmd then ''operator'' \<in> set (cr_Scopes p) else True))) xs"
proof -
  let ?P = "\<lambda>(rq, cmd). \<not> halting \<and>
     (\<exists>p. authenticate sv r = Some p \<and> scope_of (c_Kind cmd) \<in> set (cr_Scopes p) \<and>
        rq_Principal rq = cr_Principal p \<and> rq_Method rq = ht_Method r \<and> rq_Endpoint rq = ht_Path r \<and>
        rq_Player rq \<in> set (cr_Players p) \<and> (if c_Takeover cmd then ''operator'' \<in> set (cr_Scopes p) else True))"
  have sub: "submits ?P (serve sv bk binding halting permit ready r)"
  proof (cases "\<exists>p path b c. screen sv halting permit r = Inr (Admitted p path b) \<and> dispatch_call binding path r b = Some c")
    case False
    then show ?thesis
      by (auto simp: serve_def intro!: submits_quiet quiet_refuse quiet_reply split: sum.splits screened.splits option.splits)
  next
    case True
    then obtain p path b c where sc: "screen sv halting permit r = Inr (Admitted p path b)" and c: "dispatch_call binding path r b = Some c"
      by blast
    have path: "route_of c = path" using c by (auto simp: dispatch_call_def split: option.splits if_splits)
    obtain query where route: "routed r = Some (route_of c, query)" using screen_Admitted(4) [OF sc] path by blast
    have "?P x" if "own_command p r x \<and> call_kind c = Some (c_Kind (snd x))" for x
      using that screen_Admitted(1, 2, 3) [OF sc] command_scope [OF route]
      by (cases x) (auto simp: own_command_def allows_def operator_def)
    then have "submits ?P (handle bk p r c)" by (rule submits_weaken [OF submits_handle])
    then show ?thesis using sc c by (simp add: serve_def)
  qed
  obtain x a' where run: "run_state (serve sv bk binding halting permit ready r) a = (x, a')" by fastforce
  show ?thesis unfolding run prod.case by (rule submitsD [OF sub run])
qed

subsection \<open>Reads\<close>

text \<open>What holds of every reply of a handler, and of the state it leaves.\<close>

definition replies :: "('w, 'a) handler \<Rightarrow> ('a \<Rightarrow> 'w api \<Rightarrow> bool) \<Rightarrow> bool" where
  "replies m Q \<longleftrightarrow> (\<forall>a x a'. run_state m a = (Inr x, a') \<longrightarrow> Q x a')"

lemma repliesD: "replies m Q \<Longrightarrow> run_state m a = (Inr x, a') \<Longrightarrow> Q x a'"
  by (simp add: replies_def)

lemma replies_refuse: "replies (refuse e) Q"
  by (simp add: replies_def)

lemma replies_reply: "(\<And>a. Q x a) \<Longrightarrow> replies (reply_with x) Q"
  by (simp add: replies_def)

lemma replies_if: "(b \<Longrightarrow> replies m Q) \<Longrightarrow> (\<not> b \<Longrightarrow> replies n Q) \<Longrightarrow> replies (if b then m else n) Q"
  by simp

lemma replies_onwards:
  assumes "replies m (\<lambda>x _. P x)" and "\<And>x. P x \<Longrightarrow> replies (f x) Q"
  shows "replies (onwards m f) Q"
  using assms by (fastforce simp: replies_def run_onwards split: prod.splits sum.splits)

lemma replies_weaken: "replies m P \<Longrightarrow> (\<And>x a. P x a \<Longrightarrow> Q x a) \<Longrightarrow> replies m Q"
  by (auto simp: replies_def)

lemma replies_replying: "replies m (\<lambda>x. Q (f x)) \<Longrightarrow> replies (replying f m) Q"
  by (fastforce simp: replies_def replying_def run_onwards split: prod.splits sum.splits)

lemma replies_authorize: "replies (authorize p key) (\<lambda>_ _. allows p key)"
  unfolding authorize_def by (intro replies_if replies_refuse replies_reply) simp

lemma replies_port: "(\<And>w x w' a. run_state m w = (Inr x, w') \<Longrightarrow> Q x a) \<Longrightarrow> replies (reading m) Q"
  by (fastforce simp: replies_def run_reading plain_def split: prod.splits sum.splits)

lemma replies_reading:
  "(\<And>w x w'. run_state m w = (Inr x, w') \<Longrightarrow> Q x) \<Longrightarrow> replies (reading m) (\<lambda>x _. Q x)"
  by (rule replies_port)

text \<open>A reply of a read of the journal is computed from one of its states.\<close>

lemma run_journal_read:
  "run_state (call (journal_read bk f)) w = (Inr x, w') \<Longrightarrow> \<exists>v. f (bk_db bk v) = Inr x"
  by (auto simp: run_simps journal_read_def split: prod.splits option.splits)

lemma replies_journal: "replies (reading (call (journal_read bk f))) (\<lambda>x _. \<exists>v. f (bk_db bk v) = Inr x)"
  by (intro replies_reading) (rule run_journal_read)

text \<open>The journal's driver does not report the absence of a row when the database is out.\<close>

definition outage_told :: "'w backend \<Rightarrow> bool" where
  "outage_told bk \<longleftrightarrow> (\<forall>v e. bk_outage bk v = Some e \<longrightarrow> \<not> errors_Is e ErrNotFound)"

definition active_answer :: "'w backend \<Rightarrow> string \<Rightarrow> Operation option \<Rightarrow> bool" where
  "active_answer bk key x \<longleftrightarrow>
     (case x of
        Some y \<Rightarrow> \<exists>v. Active (bk_db bk v) key = Inr y
      | None \<Rightarrow> outage_told bk \<longrightarrow> (\<exists>v. Active (bk_db bk v) key = Inl ErrNotFound))"

lemma Active_error: "Active db key = Inl e \<Longrightarrow> e = ErrNotFound"
  by (simp add: Active_def split: option.splits)

lemma replies_active: "replies (active_operation bk key) (\<lambda>x _. active_answer bk key x)"
  unfolding replies_def active_operation_def
  by (auto simp: run_behind run_simps journal_read_def active_answer_def outage_told_def
      split: prod.splits option.splits sum.splits if_splits dest: Active_error)

text \<open>A player a principal sees is its own to see, and an operation shown with it is the principal's or the principal is an operator.\<close>

definition own_player :: "'w backend \<Rightarrow> Credential \<Rightarrow> control_Player \<Rightarrow> bool" where
  "own_player bk p v \<longleftrightarrow>
     allows p (pl_Key v) \<and>
     (case pl_ActiveOperation v of
        None \<Rightarrow> True
      | Some i \<Rightarrow> \<exists>w y. Active (bk_db bk w) (pl_Key v) = Inr y \<and> o_ID y = i \<and> may_see p y)"

lemma run_Reads_Player:
  "run_state (Reads_Player rs key) w = (Inr v, w') \<Longrightarrow> pl_Key v = key \<and> pl_ActiveOperation v = None"
  by (auto simp: Reads_Player_def shown_def run_simps project_player_def Let_def split: sum.splits prod.splits)

lemma own_with_active:
  assumes "allows p (pl_Key v)" "pl_ActiveOperation v = None" "active_answer bk (pl_Key v) x"
  shows "own_player bk p (case x of Some y \<Rightarrow> if may_see p y then v\<lparr>pl_ActiveOperation := Some (o_ID y)\<rparr> else v | None \<Rightarrow> v)"
  using assms by (auto simp: own_player_def active_answer_def split: option.splits)

lemma replies_player: "replies (player bk p key) (\<lambda>v _. own_player bk p v)"
  unfolding player_def
  by (rule replies_onwards [OF replies_authorize], rule replies_onwards [OF replies_reading], erule run_Reads_Player,
      rule replies_onwards [OF replies_active], rule replies_reply)
    (auto intro: own_with_active)

lemma replies_players: "replies (players bk p keys) (\<lambda>vs _. list_all (own_player bk p) vs)"
proof (induction keys)
  case (Cons key keys)
  have "replies (onwards (player bk p key) (\<lambda>v. onwards (players bk p keys) (\<lambda>vs. reply_with (v # vs)))) (\<lambda>vs _. list_all (own_player bk p) vs)"
    by (rule replies_onwards [OF replies_player], rule replies_onwards [OF Cons], rule replies_reply) simp
  then show ?case using Cons by simp
qed (simp add: replies_reply)

lemma group_entries_key: "group_entries key v gs seen = (out, seen') \<Longrightarrow> list_all (\<lambda>g. gr_Player g = key \<and> gr_Members g = [key]) out"
  by (induction gs arbitrary: seen out seen') (auto simp: Let_def split: if_splits prod.splits)

lemma run_groups_of:
  "run_state (groups_of allowed ds seen) w = (gs, w') \<Longrightarrow> list_all (\<lambda>g. allowed (gr_Player g) \<and> gr_Members g = [gr_Player g]) gs"
proof (induction ds arbitrary: seen w gs w')
  case (Cons d ds)
  then show ?case
    by (auto simp: run_simps split: if_splits prod.splits dest!: group_entries_key) (auto simp: list_all_iff)
qed (simp add: run_simps)

lemma run_sources_of:
  "run_state (sources_of rs allowed cs) w = (ss, w') \<Longrightarrow> list_all (\<lambda>s. allowed (cs_Player s)) ss"
  by (induction cs arbitrary: w ss w') (auto simp: run_simps source_entry_def split: if_splits prod.splits)

text \<open>An operation shown in full is a row of the journal that the principal may see.\<close>

definition own_row :: "'w backend \<Rightarrow> Credential \<Rightarrow> Operation \<Rightarrow> bool" where
  "own_row bk p y \<longleftrightarrow> (\<exists>v. y \<in> set (j_operations (bk_db bk v))) \<and> allows p (o_Player y) \<and> may_see p y"

lemma Get_row: "Get db ident = Inr y \<Longrightarrow> y \<in> set (j_operations db)"
  by (auto simp: Get_def Journal.GetOperation_def find_Some_iff split: option.splits)

lemma replies_GetOperation:
  "replies (GetOperation bk p ident) (\<lambda>x _. \<exists>y. own_row bk p y \<and> x = ProjectOperation (bk_json bk) y)"
  unfolding GetOperation_def
  by (rule replies_onwards [OF replies_journal], rule replies_if, rule replies_refuse, rule replies_reply)
    (auto simp: own_row_def dest: Get_row)

lemma List_rows:
  assumes "List delivery db q = Inr page"
  shows "list_all (\<lambda>x. \<exists>y \<in> set (j_operations db). history_row delivery q y \<and> x = listed y) (hg_Items page)"
proof -
  have "list_all (\<lambda>y. y \<in> set (j_operations db) \<and> history_row delivery q y) (ListOperationHistory delivery q n db)" for n
    by (auto simp: ListOperationHistory_def newest_first_def list_all_iff dest!: in_set_takeD)
  then show ?thesis
    using assms by (fastforce simp: List_def Let_def list_all_iff split: sum.splits if_splits dest: in_set_takeD)
qed

definition own_page :: "'w backend \<Rightarrow> Credential \<Rightarrow> control_Operation list \<Rightarrow> bool" where
  "own_page bk p xs \<longleftrightarrow> list_all (\<lambda>x. \<exists>y. own_row bk p y \<and> x = ProjectOperation (bk_json bk) (listed y)) xs"

lemma history_row_own:
  "history_row delivery q y \<Longrightarrow> hq_Players q = cr_Players p \<Longrightarrow> hq_Operator q = operator p \<Longrightarrow> hq_Principal q = cr_Principal p \<Longrightarrow>
   allows p (o_Player y) \<and> may_see p y"
  by (auto simp: history_row_def allows_def may_see_def)

lemma replies_operation_page:
  assumes "own_page bk p (map (ProjectOperation (bk_json bk)) (hg_Items page))"
  shows "replies (operation_page bk filters page) (\<lambda>x _. own_page bk p (fst x))"
  unfolding operation_page_def Let_def
  using assms by (auto intro!: replies_reply replies_refuse split: option.splits sum.splits)

lemma replies_history:
  assumes "hq_Players q = cr_Players p" "hq_Operator q = operator p" "hq_Principal q = cr_Principal p"
  shows "replies (onwards (reading (call (journal_read bk (\<lambda>db. List (bk_delivery bk) db q)))) (operation_page bk filters)) (\<lambda>x _. own_page bk p (fst x))"
  by (rule replies_onwards [OF replies_journal], rule replies_operation_page)
    (fastforce simp: own_page_def own_row_def list_all_iff dest: List_rows history_row_own [OF _ assms])

lemma replies_ListOperations: "replies (ListOperations bk p hl) (\<lambda>x _. own_page bk p (fst x))"
  unfolding ListOperations_def Let_def
  by (auto intro!: replies_refuse replies_history simp: history_query_def split: option.splits sum.splits)

subsection \<open>Preflight\<close>

lemma returns_after_shown:
  assumes "\<And>v. pl_Key v = key \<Longrightarrow> pl_ActiveOperation v = None \<Longrightarrow> returns (f v) Q"
  shows "returns (State_Monad.bind (shown rs key d) f) Q"
  unfolding returns_def
proof (intro allI impI)
  fix w x w'
  assume "run_state (State_Monad.bind (shown rs key d) f) w = (Inr x, w')"
  then obtain v w1 where v: "run_state (shown rs key d) w = (v, w1)" and f: "run_state (f v) w1 = (Inr x, w')"
    by (auto split: prod.splits)
  have "pl_Key v = key" "pl_ActiveOperation v = None"
    using v by (auto simp: shown_def run_simps project_player_def Let_def split: prod.splits)
  then show "Q x w'" using returnsD [OF assms f] by blast
qed

lemma returns_Preflight_player:
  "returns (Reads_Preflight rs key cmd) (\<lambda>r w. pl_Key (pf_Player r) = key \<and> pl_ActiveOperation (pf_Player r) = None)"
  unfolding Reads_Preflight_def Let_def
  by (auto intro!: returns_fail returns_require returns_bind returns_after_shown returns_if returns_done returns_andThen split: sum.splits)

definition preflight_promise :: "'w backend \<Rightarrow> string \<Rightarrow> PlaybackInput \<Rightarrow> Preflight \<Rightarrow> bool" where
  "preflight_promise bk key body v \<longleftrightarrow>
     (pf_Ready v \<longrightarrow>
        (\<exists>d. Reads_device (bk_reads bk) key = Inr d \<and> would_admit d (playbackCommand body)) \<and>
        (pi_Takeover body \<or> (outage_told bk \<longrightarrow> (\<exists>w. Active (bk_db bk w) key = Inl ErrNotFound))))"

lemma playback_fade: "c_FadeSeconds (playbackCommand body) = 0"
  by (simp add: playbackCommand_def zeroCommand_def)

lemma replies_Reads_Preflight:
  "replies (reading (Reads_Preflight (bk_reads bk) key (playbackCommand body)))
     (\<lambda>v _. pl_Key (pf_Player v) = key \<and> pl_ActiveOperation (pf_Player v) = None \<and>
        (pf_Ready v \<longrightarrow> (\<exists>d. Reads_device (bk_reads bk) key = Inr d \<and> would_admit d (playbackCommand body))))"
proof (rule replies_reading)
  fix w x w'
  assume run: "run_state (Reads_Preflight (bk_reads bk) key (playbackCommand body)) w = (Inr x, w')"
  have "pf_Ready x \<longrightarrow> (\<exists>d. Reads_device (bk_reads bk) key = Inr d \<and> would_admit d (playbackCommand body))"
    by (rule returnsD [OF returns_Preflight run]) (simp_all add: playback_fade)
  then show "pl_Key (pf_Player x) = key \<and> pl_ActiveOperation (pf_Player x) = None \<and>
      (pf_Ready x \<longrightarrow> (\<exists>d. Reads_device (bk_reads bk) key = Inr d \<and> would_admit d (playbackCommand body)))"
    using returnsD [OF returns_Preflight_player run] by simp
qed

lemma replies_Preflight:
  "replies (Preflight_handler bk p key body)
     (\<lambda>v _. own_player bk p (pf_Player v) \<and> allows p key \<and> (pi_Takeover body \<longrightarrow> operator p) \<and> preflight_promise bk key body v)"
  unfolding Preflight_handler_def
  by (rule replies_onwards [OF replies_authorize], rule replies_if, rule replies_refuse, rule replies_onwards [OF replies_Reads_Preflight],
      rule replies_onwards [OF replies_active], rule replies_reply)
    (auto simp: own_player_def active_answer_def preflight_promise_def Let_def split: option.splits)

lemma quiet_Preflight: "within quiet (Preflight_handler bk p key body)"
  unfolding Preflight_handler_def by (auto intro!: quiet_rules beside_rules)


subsection \<open>What a reply may show\<close>

definition confined :: "'w backend \<Rightarrow> Credential \<Rightarrow> reply \<Rightarrow> 'w api \<Rightarrow> bool" where
  "confined bk p y a \<longleftrightarrow>
     (case y of
        ReplyPlayers vs \<Rightarrow> list_all (own_player bk p) vs
      | ReplyPlayer v \<Rightarrow> own_player bk p v
      | ReplyGroups gs \<Rightarrow> list_all (\<lambda>g. allows p (gr_Player g) \<and> gr_Members g = [gr_Player g]) gs
      | ReplySources ss \<Rightarrow> list_all (\<lambda>s. allows p (cs_Player s)) ss
      | ReplyItems items \<Rightarrow>
          \<exists>source key parent cursor limit w w'. SourcePlayer (bk_reads bk) source = Inr key \<and> allows p key \<and>
            run_state (Reads_Items (bk_reads bk) source parent cursor limit) w = (Inr items, w')
      | ReplyQueue q \<Rightarrow>
          \<exists>key revision start limit w w'. allows p key \<and> run_state (Reads_Queue (bk_reads bk) key revision start limit) w = (Inr q, w')
      | ReplyPreflight v \<Rightarrow> own_player bk p (pf_Player v)
      | ReplyOperations xs _ \<Rightarrow> own_page bk p xs
      | ReplyOperation x \<Rightarrow> \<exists>y. own_row bk p y \<and> x = ProjectOperation (bk_json bk) y
      | ReplyStream n \<Rightarrow>
          n < length (ev_subs (ap_events a)) \<and> sb_allow (ev_subs (ap_events a) ! n) = event_allowed p \<and>
          list_all (event_allowed p) (sb_replay (ev_subs (ap_events a) ! n))
      | ReplyMetrics \<Rightarrow> True
      | ReplyAccepted _ \<Rightarrow> True
      | ReplyHealth _ \<Rightarrow> False
      | ReplyDocument _ \<Rightarrow> False)"

lemma replies_GetItems:
  "replies (GetItems bk p source parent cursor limit) (\<lambda>x. confined bk p (ReplyItems x))"
  unfolding GetItems_def
  by (auto intro!: replies_refuse replies_onwards [OF replies_authorize] replies_port simp: confined_def split: sum.splits)
    blast

lemma replies_GetQueue: "replies (GetQueue bk p key revision offset limit) (\<lambda>x. confined bk p (ReplyQueue x))"
  unfolding GetQueue_def
  by (auto intro!: replies_onwards [OF replies_authorize] replies_port simp: confined_def)
    blast

lemma replies_GetGroups: "replies (GetGroups bk p) (\<lambda>x. confined bk p (ReplyGroups x))"
  by (auto simp: replies_def GetGroups_def Reads_Groups_def run_behind confined_def split: prod.splits dest: run_groups_of)

lemma replies_GetSources: "replies (GetSources bk p) (\<lambda>x. confined bk p (ReplySources x))"
  by (auto simp: replies_def GetSources_def Reads_Sources_def run_behind confined_def split: prod.splits dest: run_sources_of)

lemma replies_GetEvents: "replies (GetEvents p last_id) (\<lambda>x. confined bk p (ReplyStream x))"
  by (auto simp: replies_def GetEvents_def Subscribe_def confined_def plain_def replay_of_def snapshot_required_def event_allowed_def
      list_all_iff split: if_splits)

lemma replies_shown_operation: "replies (GetOperation bk p ident) (\<lambda>x. confined bk p (ReplyOperation x))"
  by (rule replies_weaken [OF replies_GetOperation]) (simp add: confined_def)

lemma replies_handle: "replies (handle bk p r c) (confined bk p)"
proof (cases "call_kind c")
  case None
  then show ?thesis
    by (cases c)
      (auto simp: handle_def GetPlayers_def intro!: replies_replying replies_GetItems replies_GetQueue replies_GetGroups replies_GetSources
        replies_GetEvents replies_shown_operation replies_reply
        intro: replies_weaken [OF replies_player] replies_weaken [OF replies_players] replies_weaken [OF replies_Preflight]
          replies_weaken [OF replies_ListOperations]
        simp: confined_def)
next
  case (Some k)
  then show ?thesis
    by (cases c) (auto simp: handle_def replies_def replying_def run_onwards confined_def split: prod.splits sum.splits)
qed

text \<open>
  C6. A reply shows a principal nothing it may not see. Whatever the request, the devices and the
  journal, what is served besides health and documentation is served to the principal of a configured
  credential; and a player, group, source, queue or listing in the reply is of a player the credential
  grants, an operation in it (shown on its own, in a page of the history, or as the active operation of a
  player) is a row of the journal that belongs to a granted player and to the principal, unless the
  principal is an operator, and an event stream is subscribed with exactly this filter, which its
  replay satisfies too.
\<close>

theorem reads_confined:
  "case run_state (serve sv bk binding halting permit ready r) a of
     (Inl e, a') \<Rightarrow> True
   | (Inr (ReplyHealth b), a') \<Rightarrow> True
   | (Inr (ReplyDocument d), a') \<Rightarrow> sv_docsEnabled sv
   | (Inr y, a') \<Rightarrow> \<exists>p. authenticate sv r = Some p \<and> required_scope r \<in> set (cr_Scopes p) \<and> confined bk p y a'"
proof -
  have doc: "sv_docsEnabled sv" if "screen sv halting permit r = Inr (Documentation d)" for d
    using that by (auto simp: screen_def serveDocumentation_def split: if_splits sum.splits option.splits prod.splits)
  obtain x a' where run: "run_state (serve sv bk binding halting permit ready r) a = (x, a')" by fastforce
  show ?thesis
  proof (cases x)
    case (Inl e)
    then show ?thesis by (simp add: run)
  next
    case (Inr y)
    consider (health) h where "y = ReplyHealth h" | (doc) d where "y = ReplyDocument d" "screen sv halting permit r = Inr (Documentation d)"
      | (own) p path b c where "screen sv halting permit r = Inr (Admitted p path b)" "run_state (handle bk p r c) a = (Inr y, a')"
      using run Inr by (auto simp: serve_def split: sum.splits screened.splits option.splits)
    then show ?thesis
    proof cases
      case own
      from own(1) [THEN screen_Admitted(1)] own(1) [THEN screen_Admitted(2)] repliesD [OF replies_handle own(2)]
      show ?thesis by (cases y) (auto simp: run Inr confined_def)
    qed (use doc in \<open>auto simp: run Inr\<close>)
  qed
qed

end
