(* ===== verification/Watchers.thy ===== *)
theory Watchers
  imports Access
begin

section \<open>The watchers and the whole service\<close>

text \<open>
  \<open>internal/app/devices.go\<close>: the goroutines that turn changes of players and operations into events, and
  the service as the interleaving of requests, watchers, streams and everything that happens
  elsewhere.
\<close>

subsection \<open>Watchers\<close>

definition publishing :: "string \<Rightarrow> string \<Rightarrow> string \<Rightarrow> string \<Rightarrow> 'w api \<Rightarrow> 'w api" where
  "publishing kind key ident owner a =
     a\<lparr>ap_events := Publish \<lparr>ae_ID = [], ae_Kind = kind, ae_Player = key, ae_Operation = ident, ae_Principal = owner\<rparr> (ap_events a)\<rparr>"

text \<open>One round of the player watcher; a player that cannot be read has the empty revision of the zero value.\<close>

definition watch_player :: "'w Reads \<Rightarrow> string \<Rightarrow> 'w api \<times> (string \<Rightarrow> string) \<Rightarrow> 'w api \<times> (string \<Rightarrow> string)" where
  "watch_player rs key x =
     (case x of (a, seen) \<Rightarrow>
        (case run_state (Reads_Player rs key) (ap_worker a) of
           (Inl _, w) \<Rightarrow> (a\<lparr>ap_worker := w\<rparr>, seen)
         | (Inr p, w) \<Rightarrow>
             if seen (pl_Key p) \<noteq> pl_Revision p
             then (publishing ''player_changed'' (pl_Key p) [] [] (a\<lparr>ap_worker := w\<rparr>), seen(pl_Key p := pl_Revision p))
             else (a\<lparr>ap_worker := w\<rparr>, seen)))"

definition device_keys :: "'w Reads \<Rightarrow> string list" where
  "device_keys rs = map (\<lambda>d. cp_Key (dv_Config d)) (rs_devices rs)"

definition watchPlayers :: "'w Reads \<Rightarrow> 'w api \<times> (string \<Rightarrow> string) \<Rightarrow> 'w api \<times> (string \<Rightarrow> string)" where
  "watchPlayers rs = fold (watch_player rs) (device_keys rs)"

text \<open>The operation of a device: the active one, or the last one seen if there is none any more.\<close>

definition current_operation :: "'w backend \<Rightarrow> string \<Rightarrow> Operation option \<Rightarrow> ('w, Operation) work" where
  "current_operation bk key old = do {
     x \<leftarrow> call (journal_read bk (\<lambda>db. Active db key));
     case (x, old) of
       (Inl e, Some y) \<Rightarrow>
         if errors_Is e ErrNotFound then call (journal_read bk (\<lambda>db. Get db (o_ID y))) else State_Monad.return x
     | _ \<Rightarrow> State_Monad.return x
   }"

definition watch_operation :: "'w backend \<Rightarrow> string \<Rightarrow> 'w api \<times> (string \<rightharpoonup> Operation) \<Rightarrow> 'w api \<times> (string \<rightharpoonup> Operation)" where
  "watch_operation bk key x =
     (case x of (a, seen) \<Rightarrow>
        (case run_state (current_operation bk key (seen key)) (ap_worker a) of
           (Inl _, w) \<Rightarrow> (a\<lparr>ap_worker := w\<rparr>, seen)
         | (Inr y, w) \<Rightarrow>
             let a = a\<lparr>ap_worker := w\<rparr>;
                 changed = (case seen key of None \<Rightarrow> True | Some old \<Rightarrow> o_ID old \<noteq> o_ID y \<or> o_Revision old \<noteq> o_Revision y);
                 a = (if changed then publishing ''operation_changed'' key (o_ID y) (o_Principal y) a else a);
                 seen = (if changed then seen(key \<mapsto> y) else seen)
             in (a, if o_FinishedAt y \<noteq> None then seen(key := None) else seen)))"

definition watchOperations :: "'w backend \<Rightarrow> 'w api \<times> (string \<rightharpoonup> Operation) \<Rightarrow> 'w api \<times> (string \<rightharpoonup> Operation)" where
  "watchOperations bk = fold (watch_operation bk) (device_keys (bk_reads bk))"

subsection \<open>The service\<close>

record 'w service =
  sx_api :: "'w api"
  sx_revisions :: "string \<Rightarrow> string"
  sx_operations :: "string \<rightharpoonup> Operation"

text \<open>
  What happens next: a request is served, a watcher makes a round, a device reports a gap, a stream is
  written or ends, the broker is closed, or the devices, the journal and the workers move on.
\<close>

datatype 'w service_step =
    Ask "string \<Rightarrow> http_request \<Rightarrow> string \<Rightarrow> api_call option" bool "bool \<Rightarrow> bool" "bool \<times> bool" http_request
  | PlayersRound
  | OperationsRound
  | DeviceGap string
  | StreamWrite nat
  | StreamEnd nat
  | CloseEvents
  | Elsewhere "'w worker"

fun advance :: "server \<Rightarrow> 'w backend \<Rightarrow> 'w service_step \<Rightarrow> 'w service \<Rightarrow> 'w service" where
  "advance sv bk (Ask binding halting permit ready r) x =
     x\<lparr>sx_api := snd (run_state (serve sv bk binding halting permit ready r) (sx_api x))\<rparr>"
| "advance sv bk PlayersRound x =
     (case watchPlayers (bk_reads bk) (sx_api x, sx_revisions x) of (a, seen) \<Rightarrow> x\<lparr>sx_api := a, sx_revisions := seen\<rparr>)"
| "advance sv bk OperationsRound x =
     (case watchOperations bk (sx_api x, sx_operations x) of (a, seen) \<Rightarrow> x\<lparr>sx_api := a, sx_operations := seen\<rparr>)"
| "advance sv bk (DeviceGap key) x = x\<lparr>sx_api := publishing ''snapshot_required'' key [] [] (sx_api x)\<rparr>"
| "advance sv bk (StreamWrite i) x = x\<lparr>sx_api := (sx_api x)\<lparr>ap_events := Stream i (ap_events (sx_api x))\<rparr>\<rparr>"
| "advance sv bk (StreamEnd i) x = x\<lparr>sx_api := (sx_api x)\<lparr>ap_events := subscription_Close i (ap_events (sx_api x))\<rparr>\<rparr>"
| "advance sv bk CloseEvents x = x\<lparr>sx_api := (sx_api x)\<lparr>ap_events := Events_Close (ap_events (sx_api x))\<rparr>\<rparr>"
| "advance sv bk (Elsewhere w) x = x\<lparr>sx_api := (sx_api x)\<lparr>ap_worker := w\<rparr>\<rparr>"

definition service_run :: "server \<Rightarrow> 'w backend \<Rightarrow> 'w service_step list \<Rightarrow> 'w service \<Rightarrow> 'w service" where
  "service_run sv bk steps x = fold (advance sv bk) steps x"

definition openService :: "string \<Rightarrow> 'w worker \<Rightarrow> 'w service option" where
  "openService epoch w =
     (case NewEvents epoch 256 32 64 of
        None \<Rightarrow> None
      | Some b \<Rightarrow> Some \<lparr>sx_api = \<lparr>ap_worker = w, ap_events = b, ap_submitted = []\<rparr>, sx_revisions = (\<lambda>_. []), sx_operations = (\<lambda>_. None)\<rparr>)"

subsection \<open>What the streams tell\<close>

text \<open>An event names an operation only together with its principal, as the journal has it.\<close>

definition event_true :: "'w backend \<Rightarrow> api_Event \<Rightarrow> bool" where
  "event_true bk e \<longleftrightarrow>
     ae_Operation e = [] \<or>
     (\<exists>v y. y \<in> set (j_operations (bk_db bk v)) \<and> o_ID y = ae_Operation e \<and> o_Principal y = ae_Principal e)"

definition stream_ok :: "server \<Rightarrow> 'w backend \<Rightarrow> subscription \<Rightarrow> bool" where
  "stream_ok sv bk s \<longleftrightarrow>
     (\<exists>p \<in> set (sv_credentials sv). sb_allow s = event_allowed p \<and>
        (\<forall>e \<in> set (sb_sent s) \<union> set (sb_replay s) \<union> set (sb_events s). event_allowed p e \<and> event_true bk e))"

definition events_ok :: "server \<Rightarrow> 'w backend \<Rightarrow> api_Events \<Rightarrow> bool" where
  "events_ok sv bk b \<longleftrightarrow> (\<forall>e \<in> set (ev_history b). event_true bk e) \<and> (\<forall>s \<in> set (ev_subs b). stream_ok sv bk s)"

lemma event_true_ID [simp]: "event_true bk (e\<lparr>ae_ID := i\<rparr>) = event_true bk e"
  by (simp add: event_true_def)

lemma event_allowed_ID [simp]: "event_allowed p (e\<lparr>ae_ID := i\<rparr>) = event_allowed p e"
  by (simp add: event_allowed_def)

lemma stream_ok_close [simp]: "stream_ok sv bk (close_sub s) = stream_ok sv bk s"
  by (simp add: stream_ok_def close_sub_def)

lemma stream_ok_write: "stream_ok sv bk s \<Longrightarrow> stream_ok sv bk (stream_write s)"
  by (auto simp: stream_ok_def stream_write_def split: list.splits)

lemma stream_ok_offer: "stream_ok sv bk s \<Longrightarrow> event_true bk e \<Longrightarrow> stream_ok sv bk (offer n e s)"
  by (auto simp: offer_def stream_ok_def close_sub_def)

lemma in_set_tl: "x \<in> set (tl xs) \<Longrightarrow> x \<in> set xs"
  by (cases xs) auto

lemma events_ok_Publish: "events_ok sv bk b \<Longrightarrow> event_true bk e \<Longrightarrow> events_ok sv bk (Publish e b)"
  by (auto simp: events_ok_def Publish_def remember_def Let_def intro!: stream_ok_offer dest: in_set_tl split: if_splits)

lemma events_ok_Stream: "events_ok sv bk b \<Longrightarrow> events_ok sv bk (Stream i b)"
  by (auto simp: events_ok_def Stream_def stream_ok_write dest!: set_update_subset_insert [THEN subsetD])

lemma events_ok_Close: "events_ok sv bk b \<Longrightarrow> events_ok sv bk (subscription_Close i b)"
  by (auto simp: events_ok_def subscription_Close_def dest!: set_update_subset_insert [THEN subsetD] split: if_splits)

lemma events_ok_Close_all: "events_ok sv bk b \<Longrightarrow> events_ok sv bk (Events_Close b)"
  by (auto simp: events_ok_def Events_Close_def)

text \<open>What serving a request may do to the broker.\<close>

definition subscribes :: "Credential set \<Rightarrow> 'w api \<Rightarrow> 'w api \<Rightarrow> bool" where
  "subscribes C a a' \<longleftrightarrow>
     (\<exists>xs. ap_events a' = (ap_events a)\<lparr>ev_subs := ev_subs (ap_events a) @ xs\<rparr> \<and>
        (\<forall>s \<in> set xs. sb_sent s = [] \<and> sb_events s = [] \<and>
           (\<exists>p \<in> C. sb_allow s = event_allowed p \<and>
              (\<forall>e \<in> set (sb_replay s). event_allowed p e \<and> (ae_Operation e = [] \<or> e \<in> set (ev_history (ap_events a)))))))"

interpretation subscribing: change_relation "subscribes C" for C
proof
  show "subscribes C a a" for a by (auto simp: subscribes_def intro!: exI [of _ "[]"])
  show "subscribes C a c" if "subscribes C a b" "subscribes C b c" for a b c
    using that unfolding subscribes_def by (elim exE conjE) (rule exI, rule conjI, simp, auto)
qed

lemma events_ok_subscribes:
  "subscribes (set (sv_credentials sv)) a a' \<Longrightarrow> events_ok sv bk (ap_events a) \<Longrightarrow> events_ok sv bk (ap_events a')"
  by (fastforce simp: subscribes_def events_ok_def stream_ok_def event_true_def)

lemma subscribes_same: "ap_events a' = ap_events a \<Longrightarrow> subscribes C a a'"
  by (auto simp: subscribes_def intro!: exI [of _ "[]"])

lemma subscribes_one:
  assumes "ap_events a' = (ap_events a)\<lparr>ev_subs := ev_subs (ap_events a) @ [s]\<rparr>" "sb_sent s = []" "sb_events s = []" "p \<in> C"
    "sb_allow s = event_allowed p"
    "\<And>e. e \<in> set (sb_replay s) \<Longrightarrow> event_allowed p e \<and> (ae_Operation e = [] \<or> e \<in> set (ev_history (ap_events a)))"
  shows "subscribes C a a'"
  unfolding subscribes_def using assms by (intro exI [of _ "[s]"]) auto

lemma notice_allowed: "event_allowed p (snapshot_required b)" "ae_Operation (snapshot_required b) = []"
  by (simp_all add: event_allowed_def snapshot_required_def)

lemma sub_behind: "within (subscribes C) (behind m)"
  by (rule withinI) (auto simp: run_behind subscribes_same split: prod.splits)

lemma sub_reply: "within (subscribes C) (reply_with x)"
  unfolding reply_with_def by (rule subscribing.within_return)

lemma sub_refuse: "within (subscribes C) (refuse e)"
  unfolding refuse_def by (rule subscribing.within_return)

lemma sub_reading: "within (subscribes C) (reading m)"
  unfolding reading_def by (intro subscribing.within_structure sub_behind)

lemma sub_onwards: "within (subscribes C) m \<Longrightarrow> (\<And>x. within (subscribes C) (f x)) \<Longrightarrow> within (subscribes C) (onwards m f)"
  unfolding onwards_def by (intro subscribing.within_structure sub_refuse)

lemma sub_submitting: "within (subscribes C) (submitting submitter request cmd)"
  unfolding submitting_def by (intro subscribing.within_bind sub_behind) (auto intro!: withinI subscribes_same)

lemma sub_events: "p \<in> C \<Longrightarrow> within (subscribes C) (GetEvents p last_id)"
  by (rule withinI)
    (auto simp: GetEvents_def Subscribe_def subscribes_same replay_of_def notice_allowed intro!: subscribes_one [where p = p] split: if_splits)

lemma sub_players: "within (subscribes C) (players bk p keys)"
  by (induction keys)
    (auto simp: player_def authorize_def active_operation_def intro!: sub_onwards sub_reply sub_refuse sub_reading sub_behind subscribing.within_structure)

lemma sub_submit: "within (subscribes C) (api_submit bk p r key idem match body cmd)"
  unfolding api_submit_def authorize_def
  by (intro sub_onwards sub_reply sub_refuse sub_submitting subscribing.within_structure)

lemma sub_handle: "p \<in> C \<Longrightarrow> within (subscribes C) (handle bk p r c)"
  unfolding handle_def Let_def
  by (cases c)
    (auto simp: replying_def GetPlayers_def GetGroups_def GetSources_def GetItems_def GetQueue_def Preflight_handler_def player_def
      authorize_def active_operation_def ListOperations_def Let_def operation_page_def GetOperation_def CancelOperation_def
      intro!: sub_onwards sub_reply sub_refuse sub_reading sub_behind sub_events sub_players sub_submit subscribing.within_structure
      split: option.splits sum.splits)

lemma authenticate_configured: "authenticate sv r = Some p \<Longrightarrow> p \<in> set (sv_credentials sv)"
proof -
  have "find_credential d cs best = Some p \<Longrightarrow> p \<in> set cs \<or> best = Some p" for d cs best
    by (induction d cs best rule: find_credential.induct) (auto split: if_splits)
  then show "authenticate sv r = Some p \<Longrightarrow> p \<in> set (sv_credentials sv)"
    by (fastforce simp: authenticate_def split: option.splits)
qed

lemma sub_serve: "within (subscribes (set (sv_credentials sv))) (serve sv bk binding halting permit ready r)"
  unfolding serve_def
  by (auto intro!: sub_refuse sub_reply sub_handle authenticate_configured split: sum.splits screened.splits option.splits dest: screen_Admitted(1))

subsection \<open>The watchers tell the truth\<close>

lemma Active_row: "Active db key = Inr y \<Longrightarrow> y \<in> set (j_operations db)"
  by (auto simp: Active_def ActiveOperation_def find_Some_iff split: option.splits)

lemma run_current_operation:
  assumes "run_state (current_operation bk key old) w = (Inr y, w')"
  shows "\<exists>v. y \<in> set (j_operations (bk_db bk v))"
proof -
  obtain x w1 where x: "run_state (call (journal_read bk (\<lambda>db. Active db key))) w = (x, w1)" by fastforce
  then have "x = Inr y \<or> (\<exists>z w2. run_state (call (journal_read bk (\<lambda>db. Get db z))) w2 = (Inr y, w'))"
    using assms by (auto simp: current_operation_def split: sum.splits option.splits if_splits)
  then show ?thesis using x by (auto dest!: run_journal_read Active_row Get_row)
qed

lemma events_ok_publishing:
  "events_ok sv bk (ap_events a) \<Longrightarrow> ident = [] \<or> (\<exists>v y. y \<in> set (j_operations (bk_db bk v)) \<and> o_ID y = ident \<and> o_Principal y = owner) \<Longrightarrow>
   events_ok sv bk (ap_events (publishing kind key ident owner a))"
  by (simp add: publishing_def) (erule events_ok_Publish, simp add: event_true_def)

lemma watch_player_ok: "events_ok sv bk (ap_events (fst x)) \<Longrightarrow> events_ok sv bk (ap_events (fst (watch_player rs key x)))"
  by (auto simp: watch_player_def intro!: events_ok_publishing split: prod.splits sum.splits)

lemma watch_operation_ok: "events_ok sv bk (ap_events (fst x)) \<Longrightarrow> events_ok sv bk (ap_events (fst (watch_operation bk key x)))"
  by (auto simp: watch_operation_def Let_def intro!: events_ok_publishing split: prod.splits sum.splits option.splits
      dest!: run_current_operation)

lemma fold_ok: "(\<And>x y. P y \<Longrightarrow> P (f x y)) \<Longrightarrow> P y \<Longrightarrow> P (fold f xs y)"
  by (induction xs arbitrary: y) auto

lemma advance_ok: "events_ok sv bk (ap_events (sx_api x)) \<Longrightarrow> events_ok sv bk (ap_events (sx_api (advance sv bk s x)))"
proof (cases s)
  case (Ask binding halting permit ready r)
  assume "events_ok sv bk (ap_events (sx_api x))"
  moreover obtain y a where "run_state (serve sv bk binding halting permit ready r) (sx_api x) = (y, a)" by fastforce
  ultimately show ?thesis using events_ok_subscribes withinD [OF sub_serve] Ask by fastforce
next
  case PlayersRound
  assume "events_ok sv bk (ap_events (sx_api x))"
  then have "events_ok sv bk (ap_events (fst (watchPlayers (bk_reads bk) (sx_api x, sx_revisions x))))"
    unfolding watchPlayers_def by (intro fold_ok [where P = "\<lambda>x. events_ok sv bk (ap_events (fst x))"] watch_player_ok) simp_all
  then show ?thesis using PlayersRound by (auto split: prod.splits)
next
  case OperationsRound
  assume "events_ok sv bk (ap_events (sx_api x))"
  then have "events_ok sv bk (ap_events (fst (watchOperations bk (sx_api x, sx_operations x))))"
    unfolding watchOperations_def by (intro fold_ok [where P = "\<lambda>x. events_ok sv bk (ap_events (fst x))"] watch_operation_ok) simp_all
  then show ?thesis using OperationsRound by (auto split: prod.splits)
qed (simp_all add: events_ok_publishing events_ok_Stream events_ok_Close events_ok_Close_all)


end
