(* ===== verification/Checks.thy ===== *)
theory Checks
  imports Settings
begin

section \<open>Loading and checking files\<close>

text \<open>
  \<open>internal/config/files.go\<close>, \<open>DecodeFile\<close> and \<open>Load\<close>, and the offline check of \<open>internal/config/check.go\<close>. The file
  system, the JSON decoder and the certificate library are parameters.
\<close>

subsection \<open>Files\<close>

text \<open>
  What the system calls answer for a path that can be opened: \<open>Stat\<close> with the regularity and the size,
  and all that can be read until the end, which may have changed since.
\<close>

record os_file =
  fl_stat :: "(bool \<times> int) option"
  fl_data :: "string option"

definition maxFileBytes :: nat where
  "maxFileBytes = 2 ^ 20"

definition file_error :: "string \<Rightarrow> string \<Rightarrow> fieldError" where
  "file_error c message = invalidField [] c message"

definition ReadReferencedFile :: "(string \<Rightarrow> os_file option) \<Rightarrow> string \<Rightarrow> fieldError + string" where
  "ReadReferencedFile files path =
     (case files path of
        None \<Rightarrow> Inl (file_error ''file_unreadable'' ''cannot open configuration file'')
      | Some f \<Rightarrow>
          (case fl_stat f of
             None \<Rightarrow> Inl (file_error ''file_unreadable'' ''cannot inspect configuration file'')
           | Some (regular, bytes) \<Rightarrow>
               if \<not> regular then Inl (file_error ''file_not_regular'' ''configuration file must resolve to a regular file'')
               else if bytes > int maxFileBytes then Inl (file_error ''file_too_large'' ''configuration file exceeds 1 MiB bound'')
               else case map_option (take (maxFileBytes + 1)) (fl_data f) of
                      None \<Rightarrow> Inl (file_error ''file_unreadable'' ''cannot read configuration file'')
                    | Some b \<Rightarrow>
                        if length b > maxFileBytes then Inl (file_error ''file_too_large'' ''configuration file exceeds 1 MiB bound'')
                        else Inr b))"

text \<open>\<open>decode\<close> is the strict decoder: what it makes of the value it is given, and whether it succeeded.\<close>

definition DecodeFile ::
  "(string \<Rightarrow> os_file option) \<Rightarrow> (string \<Rightarrow> lexeme list) \<Rightarrow> (string \<Rightarrow> 'a \<Rightarrow> 'a \<times> bool) \<Rightarrow> string \<Rightarrow> 'a \<Rightarrow> 'a \<times> fieldError option" where
  "DecodeFile files scan decode path x =
     (case ReadReferencedFile files path of
        Inl e \<Rightarrow> (x, Some e)
      | Inr b \<Rightarrow>
          if \<not> UniqueJSON scan b then (x, Some (file_error ''invalid_json'' ''invalid configuration JSON''))
          else case decode b x of
                 (y, ok) \<Rightarrow> (y, if ok then None else Some (file_error ''invalid_json'' ''invalid configuration JSON'')))"

definition defaults :: config_Config where
  "defaults =
     \<lparr>gc_LogLevel = ''info'', gc_Listen = '':8443'', gc_CertFile = [], gc_KeyFile = [], gc_ShutdownSeconds = 25,
      gc_Database = \<lparr>db_Host = [], db_Port = 5432, db_Name = [], db_User = [], db_PasswordFile = [], db_CAFile = [],
        db_MaxConnections = 4, db_TimeoutSeconds = 5, db_LockTimeoutSeconds = 2\<rparr>,
      gc_CredentialsFile = [], gc_DocsEnabled = False, gc_Players = [], gc_Sources = []\<rparr>"

text \<open>The libraries behind loading and checking.\<close>

record certificate =
  ct_NotBefore :: time
  ct_NotAfter :: time
  ct_ExtKeyUsage :: "nat list"
  ct_UnknownExtKeyUsage :: "string list"

record config_env =
  ce_files :: "string \<Rightarrow> os_file option"
  ce_scan :: "string \<Rightarrow> lexeme list"
  ce_config :: "string \<Rightarrow> config_Config \<Rightarrow> config_Config \<times> bool"
  ce_credentials :: "string \<Rightarrow> CredentialFile \<Rightarrow> CredentialFile \<times> bool"
  ce_parseAddr :: "string \<Rightarrow> bool"
  ce_pem :: "string \<Rightarrow> (string \<times> string) list"
  ce_certificate :: "string \<Rightarrow> certificate option"
  ce_keyPair :: "string \<Rightarrow> string \<Rightarrow> bool"
  ce_caPool :: "string \<Rightarrow> bool"

definition Load :: "config_env \<Rightarrow> string \<Rightarrow> config_Config \<times> fieldError option" where
  "Load env path =
     (case DecodeFile (ce_files env) (ce_scan env) (ce_config env) path defaults of
        (c, Some e) \<Rightarrow> (c, Some e)
      | (c, None) \<Rightarrow> (c, Config_Validate (ce_parseAddr env) c))"

definition credential_file :: "config_env \<Rightarrow> string \<Rightarrow> fieldError + CredentialFile" where
  "credential_file env path =
     (case DecodeFile (ce_files env) (ce_scan env) (ce_credentials env) path \<lparr>cr_Version = 0, cr_Credentials = None\<rparr> of
        (_, Some e) \<Rightarrow> Inl e
      | (f, None) \<Rightarrow> Inr f)"

subsection \<open>The offline check\<close>

record Check =
  ck_Field :: string
  ck_Code :: string
  ck_Message :: string
  ck_OK :: bool

definition checkSuccess :: "string \<Rightarrow> string \<Rightarrow> Check" where
  "checkSuccess field message = \<lparr>ck_Field = field, ck_Code = ''ok'', ck_Message = message, ck_OK = True\<rparr>"

definition checkFault :: "string \<Rightarrow> string \<Rightarrow> string \<Rightarrow> Check" where
  "checkFault field c message = \<lparr>ck_Field = field, ck_Code = c, ck_Message = message, ck_OK = False\<rparr>"

text \<open>Every error of loading is a \<open>fieldError\<close>.\<close>

definition checkFailure :: "string \<Rightarrow> fieldError \<Rightarrow> Check" where
  "checkFailure field err =
     (case err of invalidField name c message \<Rightarrow>
        checkFault (if name = [] then field
                    else if field = ''credentials_file'' \<and> name = ''version'' then ''credentials_file.version''
                    else name) c message)"

text \<open>\<open>parseCertificateChain\<close>: \<open>ce_pem\<close> are the blocks that \<open>pem.Decode\<close> finds one after the other.\<close>

fun certificates :: "(string \<Rightarrow> certificate option) \<Rightarrow> (string \<times> string) list \<Rightarrow> certificate list option" where
  "certificates parse [] = Some []"
| "certificates parse ((kind, bytes) # blocks) =
     (if kind \<noteq> ''CERTIFICATE'' then certificates parse blocks
      else case parse bytes of
             None \<Rightarrow> None
           | Some c \<Rightarrow> map_option ((#) c) (certificates parse blocks))"

definition parseCertificateChain :: "config_env \<Rightarrow> string \<Rightarrow> certificate list option" where
  "parseCertificateChain env b =
     (case certificates (ce_certificate env) (ce_pem env b) of
        None \<Rightarrow> None
      | Some [] \<Rightarrow> None
      | Some chain \<Rightarrow> Some chain)"

text \<open>\<open>x509.ExtKeyUsageAny\<close> is 0 and \<open>x509.ExtKeyUsageServerAuth\<close> is 1.\<close>

definition allowsServerAuth :: "certificate \<Rightarrow> bool" where
  "allowsServerAuth c \<longleftrightarrow>
     (ct_ExtKeyUsage c = [] \<and> ct_UnknownExtKeyUsage c = []) \<or> list_ex (\<lambda>u. u = 0 \<or> u = 1) (ct_ExtKeyUsage c)"

fun validity :: "time \<Rightarrow> certificate list \<Rightarrow> Check list" where
  "validity now [] = []"
| "validity now (c # cs) =
     (if now < ct_NotBefore c
      then [checkFault ''cert_file'' ''certificate_not_yet_valid''
              ''API certificate chain contains a certificate that is not yet valid.'']
      else if now > ct_NotAfter c
      then [checkFault ''cert_file'' ''certificate_expired'' ''API certificate chain contains an expired certificate.'']
      else validity now cs)"

definition chain_checks :: "config_env \<Rightarrow> string \<Rightarrow> string \<Rightarrow> time \<Rightarrow> Check list" where
  "chain_checks env certPEM keyPEM now =
     (case parseCertificateChain env certPEM of
        None \<Rightarrow> [checkFault ''cert_file'' ''certificate_invalid''
                  ''API certificate file must contain a parseable PEM certificate chain.'']
      | Some chain \<Rightarrow>
          (let failures =
             (if ce_keyPair env certPEM keyPEM then []
              else [checkFault ''key_file'' ''key_pair_invalid''
                      ''API private key must be readable PEM and match the leaf certificate.'']) @
             validity now chain @
             (if allowsServerAuth (hd chain) then []
              else [checkFault ''cert_file'' ''certificate_usage''
                      ''API leaf certificate must permit TLS server authentication.''])
           in if failures \<noteq> [] then failures
              else [checkSuccess ''api.tls''
                     ''API certificate and key match, validity and server-auth usage pass; hostname and trust are not checked offline.'']))"

definition read_failures :: "string \<Rightarrow> fieldError + string \<Rightarrow> Check list" where
  "read_failures field x = (case x of Inl e \<Rightarrow> [checkFailure field e] | Inr _ \<Rightarrow> [])"

definition checkAPITLS :: "config_env \<Rightarrow> string \<Rightarrow> string \<Rightarrow> time \<Rightarrow> Check list" where
  "checkAPITLS env certFile keyFile now =
     (let cert = ReadReferencedFile (ce_files env) certFile;
          key = ReadReferencedFile (ce_files env) keyFile
      in case (cert, key) of
           (Inr certPEM, Inr keyPEM) \<Rightarrow> chain_checks env certPEM keyPEM now
         | _ \<Rightarrow> read_failures ''cert_file'' cert @ read_failures ''key_file'' key)"

definition check_credentials :: "config_env \<Rightarrow> config_Config \<Rightarrow> Check" where
  "check_credentials env c =
     (case LoadCredentials (credential_file env) (gc_CredentialsFile c) (gc_Players c) of
        Inl e \<Rightarrow> checkFailure ''credentials_file'' e
      | Inr _ \<Rightarrow>
          if gc_CredentialsFile c = []
          then checkSuccess ''credentials_file'' ''No credential file is configured; authenticated API access is disabled.''
          else checkSuccess ''credentials_file'' ''Credential schema, scopes and player references are valid.'')"

definition check_password :: "config_env \<Rightarrow> config_Config \<Rightarrow> Check" where
  "check_password env c =
     (case ReadReferencedFile (ce_files env) (db_PasswordFile (gc_Database c)) of
        Inl e \<Rightarrow> checkFailure ''database.password_file'' e
      | Inr b \<Rightarrow>
          if TrimSpace b = []
          then checkFault ''database.password_file'' ''password_empty'' ''Database password file is empty after trimming whitespace.''
          else checkSuccess ''database.password_file'' ''Database password file contains a non-empty value.'')"

definition check_ca :: "config_env \<Rightarrow> config_Config \<Rightarrow> Check" where
  "check_ca env c =
     (case ReadReferencedFile (ce_files env) (db_CAFile (gc_Database c)) of
        Inl e \<Rightarrow> checkFailure ''database.ca_file'' e
      | Inr b \<Rightarrow>
          if \<not> ce_caPool env b
          then checkFault ''database.ca_file'' ''ca_invalid'' ''Database CA file must contain at least one parseable PEM certificate.''
          else checkSuccess ''database.ca_file''
                 ''Database CA certificates can be loaded; remote identity and trust are not checked offline.'')"

definition CheckFile :: "config_env \<Rightarrow> string \<Rightarrow> time \<Rightarrow> config_Config \<times> Check list" where
  "CheckFile env path now =
     (case Load env path of
        (c, Some e) \<Rightarrow> (c, [checkFailure ''config'' e])
      | (c, None) \<Rightarrow>
          (c, [checkSuccess ''config'' ''Configuration schema and local safety policies are valid.'', check_credentials env c] @
              checkAPITLS env (gc_CertFile c) (gc_KeyFile c) now @ [check_password env c, check_ca env c]))"

subsection \<open>What a clean check says\<close>

lemma checkFailure_fails [simp]: "\<not> ck_OK (checkFailure field e)"
  by (cases e) (simp add: checkFailure_def checkFault_def)

lemma checkFault_fails [simp]: "\<not> ck_OK (checkFault field c message)"
  by (simp add: checkFault_def)

lemma checkSuccess_ok [simp]: "ck_OK (checkSuccess field message)"
  by (simp add: checkSuccess_def)

lemma validity_ok: "list_all ck_OK (validity now chain) \<longleftrightarrow> list_all (\<lambda>c. ct_NotBefore c \<le> now \<and> now \<le> ct_NotAfter c) chain"
  by (induction chain) auto

lemma validity_Nil: "validity now chain = [] \<longleftrightarrow> list_all (\<lambda>c. ct_NotBefore c \<le> now \<and> now \<le> ct_NotAfter c) chain"
  by (induction chain) auto

definition usable_chain :: "config_env \<Rightarrow> string \<Rightarrow> string \<Rightarrow> time \<Rightarrow> bool" where
  "usable_chain env certPEM keyPEM now \<longleftrightarrow>
     (case parseCertificateChain env certPEM of
        None \<Rightarrow> False
      | Some chain \<Rightarrow>
          ce_keyPair env certPEM keyPEM \<and> list_all (\<lambda>c. ct_NotBefore c \<le> now \<and> now \<le> ct_NotAfter c) chain \<and> allowsServerAuth (hd chain))"

lemma chain_checks_ok: "list_all ck_OK (chain_checks env certPEM keyPEM now) \<longleftrightarrow> usable_chain env certPEM keyPEM now"
  by (auto simp: chain_checks_def usable_chain_def Let_def validity_ok validity_Nil split: option.splits)

text \<open>A file that can be read whole, with a property of its content.\<close>

definition readable :: "config_env \<Rightarrow> string \<Rightarrow> (string \<Rightarrow> bool) \<Rightarrow> bool" where
  "readable env path P \<longleftrightarrow>
     (case ce_files env path of
        None \<Rightarrow> False
      | Some f \<Rightarrow>
          (case (fl_stat f, fl_data f) of
             (Some (True, n), Some b) \<Rightarrow> n \<le> 2 ^ 20 \<and> length b \<le> 2 ^ 20 \<and> P b
           | _ \<Rightarrow> False))"

lemma ReadReferencedFile_iff: "readable env path P \<longleftrightarrow> (\<exists>b. ReadReferencedFile (ce_files env) path = Inr b \<and> P b)"
  by (auto simp: readable_def ReadReferencedFile_def maxFileBytes_def not_less split: option.splits bool.splits)

lemma checkAPITLS_ok:
  "list_all ck_OK (checkAPITLS env cert key now) \<longleftrightarrow>
     readable env cert (\<lambda>c. readable env key (\<lambda>k. usable_chain env c k now))"
  unfolding ReadReferencedFile_iff
  by (auto simp: checkAPITLS_def Let_def read_failures_def chain_checks_ok split: sum.splits)

lemma check_password_ok: "ck_OK (check_password env c) \<longleftrightarrow> readable env (db_PasswordFile (gc_Database c)) (\<lambda>b. TrimSpace b \<noteq> [])"
  unfolding ReadReferencedFile_iff by (auto simp: check_password_def split: sum.splits)

lemma check_ca_ok: "ck_OK (check_ca env c) \<longleftrightarrow> readable env (db_CAFile (gc_Database c)) (ce_caPool env)"
  unfolding ReadReferencedFile_iff by (auto simp: check_ca_def split: sum.splits)

lemma DecodeFile_None:
  "DecodeFile (ce_files env) scan decode path x = (y, None) \<longleftrightarrow> readable env path (\<lambda>b. UniqueJSON scan b \<and> decode b x = (y, True))"
  unfolding ReadReferencedFile_iff by (auto simp: DecodeFile_def split: sum.splits prod.splits if_splits)

definition own_credentials :: "config_env \<Rightarrow> config_Config \<Rightarrow> bool" where
  "own_credentials env c \<longleftrightarrow>
     (gc_CredentialsFile c = [] \<or>
      readable env (gc_CredentialsFile c) (\<lambda>b. UniqueJSON (ce_scan env) b \<and>
        (case ce_credentials env b \<lparr>cr_Version = 0, cr_Credentials = None\<rparr> of
           (f, ok) \<Rightarrow> ok \<and> cr_Version f = 1 \<and>
             (case cr_Credentials f of None \<Rightarrow> False | Some cs \<Rightarrow> length cs \<le> 64 \<and> credentials_ok (map cp_Key (gc_Players c)) cs))))"

lemma credential_file_Inr:
  "credential_file env path = Inr f \<longleftrightarrow>
     readable env path (\<lambda>b. UniqueJSON (ce_scan env) b \<and> ce_credentials env b \<lparr>cr_Version = 0, cr_Credentials = None\<rparr> = (f, True))"
  unfolding credential_file_def DecodeFile_None [symmetric] by (auto split: prod.splits option.splits)

lemma check_credentials_ok: "ck_OK (check_credentials env c) \<longleftrightarrow> own_credentials env c"
proof -
  have "ck_OK (check_credentials env c) \<longleftrightarrow> (\<exists>cs. LoadCredentials (credential_file env) (gc_CredentialsFile c) (gc_Players c) = Inr cs)"
    by (auto simp: check_credentials_def split: sum.splits)
  also have "\<dots> \<longleftrightarrow> gc_CredentialsFile c = [] \<or>
      (\<exists>f cs. credential_file env (gc_CredentialsFile c) = Inr f \<and> cr_Version f = 1 \<and> cr_Credentials f = Some cs \<and> length cs \<le> 64 \<and>
         credentials_ok (map cp_Key (gc_Players c)) cs)"
    unfolding LoadCredentials_iff by (cases "credential_file env (gc_CredentialsFile c)"; cases "gc_CredentialsFile c = []") simp_all
  also have "\<dots> \<longleftrightarrow> own_credentials env c"
  proof (cases "ReadReferencedFile (ce_files env) (gc_CredentialsFile c)")
    case (Inr b)
    obtain f ok where f: "ce_credentials env b \<lparr>cr_Version = 0, cr_Credentials = None\<rparr> = (f, ok)" by fastforce
    show ?thesis
      unfolding own_credentials_def credential_file_Inr ReadReferencedFile_iff Inr by (cases "cr_Credentials f") (simp_all add: f)
  qed (simp add: own_credentials_def credential_file_Inr ReadReferencedFile_iff)
  finally show ?thesis .
qed


end
