(* ===== verification/Migrations.thy ===== *)
theory Migrations
  imports Settings
begin

section \<open>Schema versions\<close>

text \<open>
  \<open>internal/journal/migrations.go\<close> and \<open>migration_store.go\<close>: which migration files are accepted, what is
  recorded of them, and which releases may use or migrate a database. Goose, which executes the files,
  is a parameter; the check of the runtime's readiness (\<open>journal.go\<close>) is the last part.
\<close>

subsection \<open>Text\<close>

definition HasPrefix :: "string \<Rightarrow> string \<Rightarrow> bool" where
  "HasPrefix s pre \<longleftrightarrow> take (length pre) s = pre"

definition CutPrefix :: "string \<Rightarrow> string \<Rightarrow> string option" where
  "CutPrefix s pre = (if HasPrefix s pre then Some (drop (length pre) s) else None)"

text \<open>\<open>strings.Fields\<close>: every round takes a space or a byte, so \<open>length s\<close> rounds are enough.\<close>

fun words_from :: "nat \<Rightarrow> string \<Rightarrow> string \<Rightarrow> string list" where
  "words_from 0 w s = (if w = [] then [] else [w])"
| "words_from (Suc n) w s =
     (case s of
        [] \<Rightarrow> (if w = [] then [] else [w])
      | c # r \<Rightarrow>
          (case strip_one space_encodings s of
             Some r' \<Rightarrow> (if w = [] then words_from n [] r' else w # words_from n [] r')
           | None \<Rightarrow> words_from n (w @ [c]) r))"

definition Fields :: "string \<Rightarrow> string list" where
  "Fields s = words_from (length s) [] s"

text \<open>
  \<open>strings.ToUpper\<close> as far as a comparison with ASCII text can tell: the dotless i and the long s are the
  only other letters with an ASCII capital.
\<close>

fun ToUpper :: "string \<Rightarrow> string" where
  "ToUpper [] = []"
| "ToUpper (a # s) =
     (if 97 \<le> code a \<and> code a \<le> 122 then char_of (code a - 32) # ToUpper s
      else if a = CHR 0xC4 \<and> take 1 s = [CHR 0xB1] then CHR ''I'' # ToUpper (drop 1 s)
      else if a = CHR 0xC5 \<and> take 1 s = [CHR 0xBF] then CHR ''S'' # ToUpper (drop 1 s)
      else a # ToUpper s)"

definition ParseInt32 :: "string \<Rightarrow> int option" where
  "ParseInt32 s = (case Atoi s of None \<Rightarrow> None | Some n \<Rightarrow> if - (2 ^ 31) \<le> n \<and> n < 2 ^ 31 then Some n else None)"

definition pad5 :: "nat \<Rightarrow> string" where
  "pad5 n = replicate (5 - length (show_nat n)) CHR ''0'' @ show_nat n"

definition hex_char :: "nat \<Rightarrow> char" where
  "hex_char n = char_of (if n < 10 then 48 + n else 87 + n)"

definition hex_encode :: "string \<Rightarrow> string" where
  "hex_encode s = concat (map (\<lambda>c. [hex_char (code c div 16), hex_char (code c mod 16)]) s)"

subsection \<open>Files\<close>

text \<open>The annotations of one line: none, one more \<open>Up\<close>, or a refusal.\<close>

definition goose_line :: "string \<Rightarrow> nat option" where
  "goose_line line =
     (if HasPrefix line ''--'' \<and> contains_text ''+goose'' line
      then (let directive = ToUpper (Join '' '' (Fields line)) in
            if directive = ''-- +GOOSE UP'' then Some 1
            else if directive = ''-- +GOOSE STATEMENTBEGIN'' \<or> directive = ''-- +GOOSE STATEMENTEND'' then Some 0
            else None)
      else Some 0)"

fun policy_lines :: "string list \<Rightarrow> int \<Rightarrow> nat \<Rightarrow> nat \<Rightarrow> int option" where
  "policy_lines [] floor declarations up =
     (if floor < 1 \<or> declarations \<noteq> 1 \<or> up \<noteq> 1 then None else Some floor)"
| "policy_lines (l # ls) floor declarations up =
     (let line = TrimSpace l in
      case CutPrefix line ''-- heos:min-runtime='' of
        None \<Rightarrow> (case goose_line line of None \<Rightarrow> None | Some n \<Rightarrow> policy_lines ls floor declarations (up + n))
      | Some v \<Rightarrow>
          (case ParseInt32 v of
             None \<Rightarrow> None
           | Some floor' \<Rightarrow>
               (case goose_line line of None \<Rightarrow> None | Some n \<Rightarrow> policy_lines ls floor' (Suc declarations) (up + n))))"

definition migrationPolicy :: "string \<Rightarrow> int option" where
  "migrationPolicy body = policy_lines (Split LF body) 0 0 0"

record migrationStep =
  ms_checksum :: string
  ms_minRuntime :: int

text \<open>
  \<open>fs\<close> are the files that match \<open>*.sql\<close> in the order of their names with their content, if it can be
  read; \<open>sha256\<close> is the digest. The result is the catalog without the files.
\<close>

fun load_from :: "(string \<Rightarrow> string) \<Rightarrow> nat \<Rightarrow> int \<Rightarrow> (string \<times> string option) list \<Rightarrow> migrationStep list option" where
  "load_from sha256 i previous [] = Some []"
| "load_from sha256 i previous ((name, content) # files) =
     (if \<not> HasPrefix name (pad5 (i + 1) @ ''_'') then None
      else case content of
             None \<Rightarrow> None
           | Some body \<Rightarrow>
               (case migrationPolicy body of
                  None \<Rightarrow> None
                | Some floor \<Rightarrow>
                    if floor < previous \<or> floor > int (i + 1) then None
                    else map_option ((#) \<lparr>ms_checksum = hex_encode (sha256 body), ms_minRuntime = floor\<rparr>)
                           (load_from sha256 (i + 1) floor files)))"

definition loadMigrations :: "(string \<Rightarrow> string) \<Rightarrow> (string \<times> string option) list \<Rightarrow> migrationStep list option" where
  "loadMigrations sha256 files = (if files = [] then None else load_from sha256 0 0 files)"

subsection \<open>The record of applied files\<close>

record migrationRow =
  mr_Version :: int
  mr_Checksum :: string
  mr_MinRuntime :: int

definition row_valid :: "migrationStep list \<Rightarrow> nat \<Rightarrow> int \<Rightarrow> migrationRow \<Rightarrow> bool" where
  "row_valid steps i previous r \<longleftrightarrow>
     \<not> (mr_Version r \<noteq> int (i + 1) \<or> (case hex_decode (mr_Checksum r) of None \<Rightarrow> True | Some d \<Rightarrow> length d \<noteq> 32) \<or>
        mr_MinRuntime r < 1 \<or> mr_MinRuntime r < previous \<or> mr_MinRuntime r > mr_Version r \<or> mr_MinRuntime r > int (length steps)) \<and>
     \<not> (i < length steps \<and> (mr_Checksum r \<noteq> ms_checksum (steps ! i) \<or> mr_MinRuntime r \<noteq> ms_minRuntime (steps ! i)))"

fun rows_valid :: "migrationStep list \<Rightarrow> nat \<Rightarrow> int \<Rightarrow> migrationRow list \<Rightarrow> bool" where
  "rows_valid steps i previous [] = True"
| "rows_valid steps i previous (r # rs) = (row_valid steps i previous r \<and> rows_valid steps (i + 1) (mr_MinRuntime r) rs)"

definition catalog_validate :: "migrationStep list \<Rightarrow> migrationRow list \<Rightarrow> bool \<Rightarrow> bool \<Rightarrow> bool" where
  "catalog_validate steps rows complete allowFuture \<longleftrightarrow>
     \<not> ((complete \<and> length rows < length steps) \<or> (\<not> allowFuture \<and> length rows > length steps)) \<and> rows_valid steps 0 0 rows"

text \<open>
  The tables: goose's versions, and the service's rows once the first migration created their table with
  its constraints.
\<close>

record ledger =
  lg_goose :: "(int \<times> bool) list"
  lg_rows :: "migrationRow list option"

definition insert_row :: "migrationRow \<Rightarrow> ledger \<Rightarrow> ledger option" where
  "insert_row r l =
     (case lg_rows l of
        None \<Rightarrow> None
      | Some rs \<Rightarrow>
          if mr_Version r \<in> set (map mr_Version rs) \<or> mr_Version r \<le> 0 \<or> length (mr_Checksum r) \<noteq> 64 \<or>
             mr_MinRuntime r \<le> 0 \<or> mr_MinRuntime r > mr_Version r
          then None else Some (l\<lparr>lg_rows := Some (rs @ [r])\<rparr>))"

text \<open>\<open>base\<close> is the insertion of goose's own store.\<close>

definition migrationStore_Insert ::
  "(int \<Rightarrow> (int \<times> bool) list \<Rightarrow> (int \<times> bool) list option) \<Rightarrow> migrationStep list \<Rightarrow> int \<Rightarrow> ledger \<Rightarrow> ledger option" where
  "migrationStore_Insert base steps version l =
     (if version < 0 \<or> version > int (length steps) then None
      else case base version (lg_goose l) of
             None \<Rightarrow> None
           | Some gs \<Rightarrow>
               (let l' = l\<lparr>lg_goose := gs\<rparr> in
                if version = 0 then Some l'
                else let step = steps ! nat (version - 1) in
                     insert_row \<lparr>mr_Version = version, mr_Checksum = ms_checksum step, mr_MinRuntime = ms_minRuntime step\<rparr> l'))"

definition migrationStore_Delete :: "int \<Rightarrow> ledger \<Rightarrow> ledger option" where
  "migrationStore_Delete version l = None"

text \<open>The query of \<open>ListMigrations\<close>.\<close>

definition join_key :: "(int \<times> bool) option \<times> migrationRow option \<Rightarrow> int" where
  "join_key x = (case x of (Some (v, _), _) \<Rightarrow> v | (None, Some r) \<Rightarrow> mr_Version r | (None, None) \<Rightarrow> 0)"

definition full_join :: "(int \<times> bool) list \<Rightarrow> migrationRow list \<Rightarrow> ((int \<times> bool) option \<times> migrationRow option) list" where
  "full_join gs rs =
     sort_key join_key
       (concat (map (\<lambda>g. case filter (\<lambda>r. mr_Version r = fst g) rs of
                           [] \<Rightarrow> [(Some g, None)]
                         | ms \<Rightarrow> map (\<lambda>r. (Some g, Some r)) ms) gs) @
        map (\<lambda>r. (None, Some r)) (filter (\<lambda>r. mr_Version r \<notin> set (map fst gs)) rs))"

fun scan_ledger :: "migrationStep list \<Rightarrow> nat \<Rightarrow> ((int \<times> bool) option \<times> migrationRow option) list \<Rightarrow> migrationRow list option" where
  "scan_ledger steps n [] = Some []"
| "scan_ledger steps n ((g, r) # xs) =
     (case g of
        None \<Rightarrow> None
      | Some (version, installed) \<Rightarrow>
          if \<not> installed \<or> version \<noteq> int n then None
          else if version > 0
          then (case r of
                  None \<Rightarrow> None
                | Some r \<Rightarrow>
                    if mr_MinRuntime r < 1 \<or> mr_MinRuntime r > version \<or> version > int (length steps) then None
                    else map_option ((#) \<lparr>mr_Version = version, mr_Checksum = mr_Checksum r, mr_MinRuntime = mr_MinRuntime r\<rparr>)
                           (scan_ledger steps (n + 1) xs))
          else scan_ledger steps (n + 1) xs)"

definition migrationStore_ListMigrations :: "migrationStep list \<Rightarrow> ledger \<Rightarrow> int list option" where
  "migrationStore_ListMigrations steps l =
     (if lg_rows l = None \<and> lg_goose l = [(0, True)] then Some [0]
      else case lg_rows l of
             None \<Rightarrow> None
           | Some rs \<Rightarrow>
               (let joined = full_join (lg_goose l) rs in
                case scan_ledger steps 0 joined of
                  None \<Rightarrow> None
                | Some applied \<Rightarrow>
                    if joined = [] \<or> \<not> catalog_validate steps applied False False then None
                    else Some (rev (map int [0..<length joined]))))"

text \<open>\<open>CreateVersionTable\<close> refuses rows of the service without goose's; \<open>create\<close> is goose's own step.\<close>

definition CreateVersionTable :: "(ledger \<Rightarrow> ledger option) \<Rightarrow> ledger \<Rightarrow> ledger option" where
  "CreateVersionTable create l = (if lg_rows l \<noteq> None then None else create l)"

subsection \<open>Readiness\<close>

definition checkSchema :: "migrationStep list option \<Rightarrow> migrationRow list option \<Rightarrow> bool" where
  "checkSchema catalog rows =
     (case rows of
        None \<Rightarrow> False
      | Some rs \<Rightarrow> (case catalog of None \<Rightarrow> False | Some steps \<Rightarrow> catalog_validate steps (sort_key mr_Version rs) True True))"

definition Store_Ready :: "migrationStep list option \<Rightarrow> migrationRow list option \<Rightarrow> Store \<Rightarrow> journal_db \<Rightarrow> unit result" where
  "Store_Ready catalog rows st db =
     (if \<not> checkSchema catalog rows then Inl (OtherError ''incompatible schema'') else Ready st db)"

subsection \<open>A catalog and what it records\<close>

lemma hex_char_digit: "n < 16 \<Longrightarrow> hex_digit (hex_char n) = Some n"
  by (auto simp: hex_char_def hex_digit_def Let_def code_char_of)

lemma hex_decode_encode: "hex_decode (hex_encode s) = Some s"
proof (induction s)
  case (Cons c s)
  have "code c < 256" by (rule code_less)
  then have "code c div 16 < 16" "code c mod 16 < 16" by (auto simp: less_mult_imp_div_less)
  then show ?case using Cons by (simp add: hex_encode_def hex_char_digit char_of_code)
qed (simp add: hex_encode_def)

lemma hex_encode_length: "length (hex_encode s) = 2 * length s"
  by (induction s) (simp_all add: hex_encode_def)

text \<open>What the promise of SHA-256 is here: digests have 32 bytes.\<close>

definition digests :: "(string \<Rightarrow> string) \<Rightarrow> bool" where
  "digests sha256 \<longleftrightarrow> (\<forall>b. length (sha256 b) = 32)"

definition step_ok :: "nat \<Rightarrow> migrationStep \<Rightarrow> bool" where
  "step_ok i s \<longleftrightarrow>
     1 \<le> ms_minRuntime s \<and> ms_minRuntime s \<le> int (i + 1) \<and> length (ms_checksum s) = 64 \<and>
     (case hex_decode (ms_checksum s) of None \<Rightarrow> False | Some d \<Rightarrow> length d = 32)"

definition catalog_ok :: "migrationStep list \<Rightarrow> bool" where
  "catalog_ok steps \<longleftrightarrow> sorted (map ms_minRuntime steps) \<and> (\<forall>i < length steps. step_ok i (steps ! i))"

lemma policy_lines_pos: "policy_lines ls floor d up = Some n \<Longrightarrow> 1 \<le> n"
  by (induction ls floor d up rule: policy_lines.induct) (auto simp: Let_def split: if_splits option.splits)

lemma load_from_ok:
  assumes "digests sha256"
  shows "load_from sha256 i previous files = Some steps \<Longrightarrow>
    sorted (map ms_minRuntime steps) \<and> (\<forall>s \<in> set steps. previous \<le> ms_minRuntime s) \<and> (\<forall>j < length steps. step_ok (i + j) (steps ! j))"
  using assms
proof (induction sha256 i previous files arbitrary: steps rule: load_from.induct)
  case (2 sha i previous name content files)
  from "2.prems" obtain body floor rest where
    b: "content = Some body" "migrationPolicy body = Some floor" "previous \<le> floor" "floor \<le> int (i + 1)"
      "load_from sha (i + 1) floor files = Some rest"
      "steps = \<lparr>ms_checksum = hex_encode (sha body), ms_minRuntime = floor\<rparr> # rest"
      "HasPrefix name (pad5 (i + 1) @ ''_'')"
    by (auto split: if_splits option.splits)
  have ih: "sorted (map ms_minRuntime rest)" "\<forall>s \<in> set rest. floor \<le> ms_minRuntime s" "\<forall>j < length rest. step_ok (i + 1 + j) (rest ! j)"
    using "2.IH" [of body floor rest] "2.prems"(2) b by auto
  have "1 \<le> floor" using b(2) by (auto simp: migrationPolicy_def dest: policy_lines_pos)
  then have "step_ok i \<lparr>ms_checksum = hex_encode (sha body), ms_minRuntime = floor\<rparr>"
    using b "2.prems"(2) by (simp add: step_ok_def hex_decode_encode hex_encode_length digests_def)
  then show ?case using ih b by (auto simp: nth_Cons split: nat.splits)
qed simp

lemma loadMigrations_ok: "digests sha256 \<Longrightarrow> loadMigrations sha256 files = Some steps \<Longrightarrow> catalog_ok steps"
  using load_from_ok [of sha256 0 0 files steps] by (auto simp: loadMigrations_def catalog_ok_def split: if_splits)

text \<open>The row of step \<open>i\<close>, and the rows of the first \<open>k\<close> steps.\<close>

definition row_of :: "migrationStep list \<Rightarrow> nat \<Rightarrow> migrationRow" where
  "row_of steps i = \<lparr>mr_Version = int (i + 1), mr_Checksum = ms_checksum (steps ! i), mr_MinRuntime = ms_minRuntime (steps ! i)\<rparr>"

definition recorded :: "migrationStep list \<Rightarrow> nat \<Rightarrow> migrationRow list" where
  "recorded steps k = map (row_of steps) [0..<k]"

lemma catalog_floor_mono:
  "catalog_ok steps \<Longrightarrow> i \<le> j \<Longrightarrow> j < length steps \<Longrightarrow> ms_minRuntime (steps ! i) \<le> ms_minRuntime (steps ! j)"
  by (auto simp: catalog_ok_def sorted_iff_nth_mono)

lemma row_valid_row_of:
  assumes "catalog_ok steps" "i < length steps" "n \<le> length steps" "previous \<le> ms_minRuntime (steps ! i)"
  shows "row_valid (take n steps) i previous (row_of steps i) \<longleftrightarrow> ms_minRuntime (steps ! i) \<le> int n"
  using assms by (auto simp: row_valid_def row_of_def catalog_ok_def step_ok_def split: option.splits)

lemma rows_valid_recorded:
  assumes "catalog_ok steps" "k \<le> length steps" "n \<le> length steps"
  shows "i \<le> k \<Longrightarrow> (i < k \<Longrightarrow> previous \<le> ms_minRuntime (steps ! i)) \<Longrightarrow>
    rows_valid (take n steps) i previous (map (row_of steps) [i..<k]) \<longleftrightarrow> (\<forall>j \<in> {i..<k}. ms_minRuntime (steps ! j) \<le> int n)"
proof (induction "k - i" arbitrary: i previous)
  case (Suc m)
  then have ik: "i < k" and up: "[i..<k] = i # [Suc i..<k]" by (simp_all add: upt_rec)
  have "rows_valid (take n steps) (Suc i) (ms_minRuntime (steps ! i)) (map (row_of steps) [Suc i..<k]) \<longleftrightarrow>
      (\<forall>j \<in> {Suc i..<k}. ms_minRuntime (steps ! j) \<le> int n)"
    using Suc ik assms catalog_floor_mono [OF assms(1), of i "Suc i"] by (intro Suc.hyps(1)) auto
  moreover have "row_valid (take n steps) i previous (row_of steps i) \<longleftrightarrow> ms_minRuntime (steps ! i) \<le> int n"
    using Suc ik assms by (intro row_valid_row_of) auto
  moreover have "{i..<k} = insert i {Suc i..<k}" using ik by auto
  ultimately show ?case by (simp add: up row_of_def)
qed simp

lemma newest_floor:
  assumes "catalog_ok steps" "0 < k" "k \<le> length steps"
  shows "(\<forall>j \<in> {0..<k}. ms_minRuntime (steps ! j) \<le> int n) \<longleftrightarrow> ms_minRuntime (steps ! (k - 1)) \<le> int n"
proof
  assume "ms_minRuntime (steps ! (k - 1)) \<le> int n"
  moreover have "ms_minRuntime (steps ! j) \<le> ms_minRuntime (steps ! (k - 1))" if "j < k" for j
    using that assms by (intro catalog_floor_mono) auto
  ultimately show "\<forall>j \<in> {0..<k}. ms_minRuntime (steps ! j) \<le> int n" by fastforce
qed (use assms in auto)

lemma validate_recorded:
  assumes "catalog_ok steps" "0 < k" "k \<le> length steps" "n \<le> length steps"
  shows "catalog_validate (take n steps) (recorded steps k) complete allowFuture \<longleftrightarrow>
    (complete \<longrightarrow> n \<le> k) \<and> (\<not> allowFuture \<longrightarrow> k \<le> n) \<and> ms_minRuntime (steps ! (k - 1)) \<le> int n"
proof -
  have "0 < length steps" using assms(2, 3) by linarith
  then have "step_ok 0 (steps ! 0)" using assms(1) by (simp add: catalog_ok_def)
  then have "0 \<le> ms_minRuntime (steps ! 0)" by (simp add: step_ok_def)
  then have "rows_valid (take n steps) 0 0 (recorded steps k) \<longleftrightarrow> ms_minRuntime (steps ! (k - 1)) \<le> int n"
    unfolding recorded_def using rows_valid_recorded [OF assms(1, 3, 4), of 0 0] newest_floor [OF assms(1-3)] by auto
  then show ?thesis using assms(4) by (auto simp: catalog_validate_def recorded_def not_less)
qed

subsection \<open>Migrating\<close>

text \<open>What goose's own store promises: an insertion appends the version as applied.\<close>

definition appends :: "(int \<Rightarrow> (int \<times> bool) list \<Rightarrow> (int \<times> bool) list option) \<Rightarrow> bool" where
  "appends base \<longleftrightarrow> (\<forall>v gs. base v gs = Some (gs @ [(v, True)]))"

text \<open>The first migration creates the table of the service's rows.\<close>

definition run_sql :: "nat \<Rightarrow> ledger \<Rightarrow> ledger" where
  "run_sql v l = (if v = 1 then l\<lparr>lg_rows := Some []\<rparr> else l)"

text \<open>Goose applies the versions in their order, each file and its insertion in one transaction.\<close>

fun migrated :: "(int \<Rightarrow> (int \<times> bool) list \<Rightarrow> (int \<times> bool) list option) \<Rightarrow> migrationStep list \<Rightarrow> nat \<Rightarrow> ledger option" where
  "migrated base steps 0 = migrationStore_Insert base steps 0 \<lparr>lg_goose = [], lg_rows = None\<rparr>"
| "migrated base steps (Suc k) =
     (case migrated base steps k of None \<Rightarrow> None | Some l \<Rightarrow> migrationStore_Insert base steps (int (Suc k)) (run_sql (Suc k) l))"

definition goose_versions :: "nat \<Rightarrow> (int \<times> bool) list" where
  "goose_versions k = map (\<lambda>v. (int v, True)) [0..<Suc k]"

definition ledger_of :: "migrationStep list \<Rightarrow> nat \<Rightarrow> ledger" where
  "ledger_of steps k = \<lparr>lg_goose = goose_versions k, lg_rows = (if k = 0 then None else Some (recorded steps k))\<rparr>"

lemma recorded_Suc: "recorded steps (Suc k) = recorded steps k @ [row_of steps k]"
  by (simp add: recorded_def)

lemma migrated_ledger:
  assumes "catalog_ok steps" "appends base"
  shows "k \<le> length steps \<Longrightarrow> migrated base steps k = Some (ledger_of steps k)"
proof (induction k)
  case 0
  have "base 0 [] = Some [(0, True)]" using assms(2) by (simp add: appends_def)
  then show ?case by (simp add: migrationStore_Insert_def ledger_of_def goose_versions_def)
next
  case (Suc k)
  have base: "base v gs = Some (gs @ [(v, True)])" for v gs using assms(2) by (simp add: appends_def)
  have "step_ok k (steps ! k)" using assms(1) Suc.prems by (simp add: catalog_ok_def)
  moreover have "int (Suc k) \<notin> set (map mr_Version (recorded steps k))" by (auto simp: recorded_def row_of_def)
  ultimately have "insert_row (row_of steps k) \<lparr>lg_goose = gs, lg_rows = Some (recorded steps k)\<rparr> =
      Some \<lparr>lg_goose = gs, lg_rows = Some (recorded steps (Suc k))\<rparr>" for gs
    by (simp add: insert_row_def row_of_def step_ok_def recorded_Suc)
  moreover have "run_sql (Suc k) (ledger_of steps k) = \<lparr>lg_goose = goose_versions k, lg_rows = Some (recorded steps k)\<rparr>"
    by (simp add: run_sql_def ledger_of_def recorded_def)
  ultimately show ?case
    using Suc by (simp add: migrationStore_Insert_def base ledger_of_def goose_versions_def row_of_def)
qed

lemma filter_recorded: "filter (\<lambda>r. mr_Version r = int v) (recorded steps k) = (if 0 < v \<and> v \<le> k then [row_of steps (v - 1)] else [])"
proof (induction k)
  case (Suc k)
  have "mr_Version (row_of steps k) = int v \<longleftrightarrow> v = Suc k" by (simp add: row_of_def) arith
  then show ?case using Suc by (auto simp: recorded_Suc)
qed (auto simp: recorded_def)

lemma concat_singletons: "(\<And>x. x \<in> set xs \<Longrightarrow> f x = [g x]) \<Longrightarrow> concat (map f xs) = map g xs"
  by (induction xs) auto

definition joined_rows :: "migrationStep list \<Rightarrow> nat \<Rightarrow> ((int \<times> bool) option \<times> migrationRow option) list" where
  "joined_rows steps k = (Some (0, True), None) # map (\<lambda>v. (Some (int v, True), Some (row_of steps (v - 1)))) [1..<Suc k]"

lemma full_join_ledger: "full_join (goose_versions k) (recorded steps k) = joined_rows steps k"
proof -
  let ?left = "\<lambda>g. case filter (\<lambda>r. mr_Version r = fst g) (recorded steps k) of
      [] \<Rightarrow> [(Some g, None)] | ms \<Rightarrow> map (\<lambda>r. (Some g, Some r)) ms"
  have up: "[0..<Suc k] = 0 # [1..<Suc k]" by (simp add: upt_rec)
  have "concat (map (\<lambda>v. ?left (int v, True)) [1..<Suc k]) = map (\<lambda>v. (Some (int v, True), Some (row_of steps (v - 1)))) [1..<Suc k]"
    by (rule concat_singletons) (auto simp: filter_recorded)
  then have "concat (map ?left (goose_versions k)) = joined_rows steps k"
    using filter_recorded [of 0 steps k] unfolding goose_versions_def up joined_rows_def by (simp add: comp_def)
  moreover have "filter (\<lambda>r. mr_Version r \<notin> set (map fst (goose_versions k))) (recorded steps k) = []"
    by (auto simp: filter_empty_conv recorded_def goose_versions_def row_of_def image_image simp del: upt_Suc intro!: image_eqI [of _ _ "Suc _"])
  moreover have "sorted (map join_key (joined_rows steps k))"
    by (auto simp: joined_rows_def join_key_def sorted_wrt_map comp_def intro!: sorted_wrt_mono_rel [OF _ sorted_upt] simp del: upt_Suc)
  ultimately show ?thesis by (simp add: full_join_def sort_key_id_if_sorted)
qed

lemma scan_rows:
  assumes "catalog_ok steps" "k \<le> length steps"
  shows "1 \<le> v \<Longrightarrow> v \<le> Suc k \<Longrightarrow>
    scan_ledger steps v (map (\<lambda>v. (Some (int v, True), Some (row_of steps (v - 1)))) [v..<Suc k]) = Some (map (row_of steps) [v - 1..<k])"
proof (induction "Suc k - v" arbitrary: v)
  case (Suc m)
  then have vk: "v \<le> k" by simp
  have up: "[v..<Suc k] = v # [Suc v..<Suc k]" "[v - 1..<k] = (v - 1) # [v..<k]" using vk Suc.prems by (simp_all add: upt_rec)
  have "step_ok (v - 1) (steps ! (v - 1))" using assms vk Suc.prems by (simp add: catalog_ok_def)
  moreover have "scan_ledger steps (Suc v) (map (\<lambda>v. (Some (int v, True), Some (row_of steps (v - 1)))) [Suc v..<Suc k]) =
      Some (map (row_of steps) [v..<k])"
    using Suc.hyps(1) [of "Suc v"] Suc.hyps(2) vk by simp
  ultimately show ?case
    unfolding up using vk Suc.prems assms(2) by (simp add: row_of_def step_ok_def del: upt_Suc)
qed simp

lemma scan_bounded:
  "scan_ledger steps n xs = Some rs \<Longrightarrow> (Some (v, b), r) \<in> set xs \<Longrightarrow> v \<le> int (length steps)"
  by (induction steps n xs arbitrary: rs rule: scan_ledger.induct) (auto split: option.splits if_splits prod.splits)

lemma ListMigrations_own:
  assumes "catalog_ok steps" "k \<le> length steps"
  shows "migrationStore_ListMigrations steps (ledger_of steps k) = Some (rev (map int [0..<Suc k]))"
proof (cases "k = 0")
  case False
  have "scan_ledger steps 0 (joined_rows steps k) = Some (recorded steps k)"
    using scan_rows [OF assms, of 1] by (simp add: joined_rows_def recorded_def)
  moreover have "catalog_validate steps (recorded steps k) False False"
  proof -
    have "step_ok (k - 1) (steps ! (k - 1))" using assms False by (simp add: catalog_ok_def)
    then show ?thesis using validate_recorded [OF assms(1) _ assms(2) order_refl, of False False] assms(2) False by (simp add: step_ok_def)
  qed
  ultimately show ?thesis
    using False by (simp add: migrationStore_ListMigrations_def ledger_of_def full_join_ledger Let_def) (simp add: joined_rows_def)
qed (simp add: migrationStore_ListMigrations_def ledger_of_def goose_versions_def)

lemma ListMigrations_older:
  assumes "n < k"
  shows "migrationStore_ListMigrations (take n steps) (ledger_of steps k) = None"
proof -
  have "(Some (int k, True), Some (row_of steps (k - 1))) \<in> set (joined_rows steps k)" using assms by (auto simp: joined_rows_def)
  then have "scan_ledger (take n steps) 0 (joined_rows steps k) = None"
    using scan_bounded [of "take n steps" 0 "joined_rows steps k"] assms by (cases "scan_ledger (take n steps) 0 (joined_rows steps k)") fastforce+
  then show ?thesis
    using assms by (simp add: migrationStore_ListMigrations_def ledger_of_def full_join_ledger)
qed

lemma recorded_sorted: "sort_key mr_Version (recorded steps k) = recorded steps k"
  by (rule sort_key_id_if_sorted) (auto simp: recorded_def row_of_def sorted_wrt_map intro!: sorted_wrt_mono_rel [OF _ sorted_upt])

lemma checkSchema_older:
  assumes "catalog_ok steps" "k \<le> length steps" "n \<le> length steps"
  shows "checkSchema (Some (take n steps)) (lg_rows (ledger_of steps k)) \<longleftrightarrow>
    0 < k \<and> n \<le> k \<and> ms_minRuntime (steps ! (k - 1)) \<le> int n"
  using validate_recorded [OF assms(1) _ assms(2, 3), of True True]
  by (auto simp: checkSchema_def ledger_of_def recorded_sorted)

text \<open>
  C40. Releases and schemas fit together exactly as declared. Migrating with any accepted set of files
  succeeds version by version and records each file's checksum and compatibility floor; the same
  release finds its record intact. An earlier release (the first \<open>n\<close> of the files) runs on the
  migrated schema exactly if all its own files are applied and the newest applied file declares
  compatibility with it; and it never migrates a schema that is newer than its files.
\<close>

theorem schema_releases_fit:
  assumes "digests sha256" "appends base" "loadMigrations sha256 files = Some steps" "k \<le> length steps" "n \<le> length steps"
  shows "\<exists>l. migrated base steps k = Some l \<and>
    migrationStore_ListMigrations steps l = Some (rev (map int [0..<Suc k])) \<and>
    checkSchema (Some (take n steps)) (lg_rows l) = (0 < k \<and> n \<le> k \<and> ms_minRuntime (steps ! (k - 1)) \<le> int n) \<and>
    (n < k \<longrightarrow> migrationStore_ListMigrations (take n steps) l = None)"
proof -
  have ok: "catalog_ok steps" by (rule loadMigrations_ok [OF assms(1, 3)])
  show ?thesis
    using migrated_ledger [OF ok assms(2, 4)] ListMigrations_own [OF ok assms(4)] checkSchema_older [OF ok assms(4, 5)] ListMigrations_older
    by auto
qed

text \<open>Two files, the second of which the first release can live with.\<close>

definition sample_body :: string where
  "sample_body = ''-- +goose Up'' @ [LF] @ ''-- heos:min-runtime=1''"

definition sample_digest :: "string \<Rightarrow> string" where
  "sample_digest b = replicate 32 (CHR ''x'')"

definition sample_base :: "int \<Rightarrow> (int \<times> bool) list \<Rightarrow> (int \<times> bool) list option" where
  "sample_base v gs = Some (gs @ [(v, True)])"

definition sample_steps :: "migrationStep list" where
  "sample_steps = replicate 2 \<lparr>ms_checksum = hex_encode (sample_digest sample_body), ms_minRuntime = 1\<rparr>"

lemma sample_policy: "migrationPolicy sample_body = Some 1"
proof -
  have "Split LF sample_body = [''-- +goose Up'', ''-- heos:min-runtime=1'']" by code_simp
  moreover have "TrimSpace ''-- +goose Up'' = ''-- +goose Up''" "TrimSpace ''-- heos:min-runtime=1'' = ''-- heos:min-runtime=1''"
    by code_simp+
  moreover have "CutPrefix ''-- +goose Up'' ''-- heos:min-runtime='' = None" "CutPrefix ''-- heos:min-runtime=1'' ''-- heos:min-runtime='' = Some ''1''"
    by code_simp+
  moreover have "goose_line ''-- +goose Up'' = Some 1" "goose_line ''-- heos:min-runtime=1'' = Some 0" by code_simp+
  moreover have "ParseInt32 ''1'' = Some 1" by (simp add: ParseInt32_def Atoi_def digits_val_def is_digit_def code_def)
  ultimately show ?thesis by (simp add: migrationPolicy_def)
qed

lemma sample_load:
  "loadMigrations sample_digest [(''00001_initial.sql'', Some sample_body), (''00002_more.sql'', Some sample_body)] = Some sample_steps"
proof -
  have "HasPrefix ''00001_initial.sql'' (pad5 1 @ ''_'')" "HasPrefix ''00002_more.sql'' (pad5 2 @ ''_'')" by code_simp+
  then show ?thesis
    by (simp add: loadMigrations_def sample_policy sample_steps_def numeral_2_eq_2)
qed

theorem schema_releases_fit_witness:
  "\<exists>l. migrated sample_base sample_steps 2 = Some l \<and> migrationStore_ListMigrations sample_steps l = Some [2, 1, 0] \<and>
     checkSchema (Some (take 1 sample_steps)) (lg_rows l) \<and> migrationStore_ListMigrations (take 1 sample_steps) l = None"
proof -
  have "digests sample_digest" "appends sample_base" by (simp_all add: digests_def sample_digest_def appends_def sample_base_def)
  moreover have "length sample_steps = 2" "ms_minRuntime (sample_steps ! 1) = 1" by (simp_all add: sample_steps_def)
  ultimately show ?thesis
    using schema_releases_fit [OF _ _ sample_load, of sample_base 2 1] by (auto simp: upt_rec)
qed

end
