(* ===== verification/Evidence.thy ===== *)
theory Evidence
  imports Readback Documents
begin

section \<open>The evidence of an outcome\<close>

text \<open>
  \<open>internal/journal/diagnostics.go\<close>: the bounded record of why an operation ended, its validation and its
  place in the outcome; and the evidence that the worker builds (\<open>ownershipMismatch\<close> in
  \<open>control/diagnostics.go\<close>, \<open>revoke\<close> in \<open>events.go\<close>, \<open>captureDecision\<close> in \<open>completion_diagnostics.go\<close>). An outcome
  whose evidence is refused is stored without it, so the property is that it never is.
\<close>

subsection \<open>Records and their validation\<close>

record Diagnostics =
  dg_Reason :: string
  dg_Rule :: "string option"
  dg_Phase :: string
  dg_DetectedAt :: "time option"
  dg_Source :: string
  dg_ChangedFields :: "string list"
  dg_Expected :: "DiagnosticScalars option"
  dg_Observed :: "DiagnosticScalars option"

definition maxDiagnosticBytes :: nat where
  "maxDiagnosticBytes = 4 * 1024"

definition identifier_char :: "char \<Rightarrow> bool" where
  "identifier_char c \<longleftrightarrow> (97 \<le> code c \<and> code c \<le> 122) \<or> (48 \<le> code c \<and> code c \<le> 57) \<or> c = CHR ''_''"

definition diagnosticIdentifier :: "string \<Rightarrow> bool \<Rightarrow> bool" where
  "diagnosticIdentifier s blank \<longleftrightarrow> \<not> (length s > 128 \<or> (s = [] \<and> \<not> blank)) \<and> list_all identifier_char s"

definition diagnostic_fields :: "string list" where
  "diagnostic_fields =
     [''repeat'', ''shuffle'', ''player_identity'', ''grouped'', ''state'', ''volume'', ''mute'', ''queue_items'', ''queue_total'',
      ''queue_next'', ''media_presence'', ''media_source'', ''media_id'', ''media_queue_id'', ''media_metadata'',
      ''queue_membership'', ''media'', ''connection_generation'']"

definition scalars_valid :: "DiagnosticScalars option \<Rightarrow> bool" where
  "scalars_valid x \<longleftrightarrow>
     (case x of
        None \<Rightarrow> True
      | Some s \<Rightarrow>
          (case ds_Volume s of None \<Rightarrow> True | Some v \<Rightarrow> \<not> (v < 0 \<or> v > 100)) \<and>
          (case ds_State s of None \<Rightarrow> True | Some v \<Rightarrow> v \<in> {''unknown'', ''play'', ''pause'', ''stop''}) \<and>
          (case ds_Repeat s of None \<Rightarrow> True | Some v \<Rightarrow> v \<in> {''off'', ''on_all'', ''on_one''}))"

definition Diagnostics_validate :: "Diagnostics \<Rightarrow> unit result" where
  "Diagnostics_validate d =
     (if \<not> diagnosticIdentifier (dg_Reason d) False \<or> \<not> diagnosticIdentifier (dg_Phase d) True \<or>
         (case dg_Rule d of None \<Rightarrow> False | Some rule \<Rightarrow> \<not> diagnosticIdentifier rule False) \<or> length (dg_ChangedFields d) > 16
      then Inl ErrInvalid
      else if dg_Source d \<notin> {''event'', ''observation'', ''controller'', ''recovery''} then Inl ErrInvalid
      else if \<not> seen_all (\<lambda>f. f) (\<lambda>f. f \<in> set diagnostic_fields) [] (dg_ChangedFields d) then Inl ErrInvalid
      else if \<not> scalars_valid (dg_Expected d) \<or> \<not> scalars_valid (dg_Observed d) then Inl ErrInvalid
      else Inr ())"

text \<open>The encoding of the record, and of an object of raw fields with its decoding.\<close>

record diagnostics_json =
  dj_record :: "Diagnostics \<Rightarrow> string option"
  dj_fields :: "string \<Rightarrow> (string \<rightharpoonup> string) option"
  dj_object :: "(string \<rightharpoonup> string) \<Rightarrow> string option"

definition WithDiagnostics :: "diagnostics_json \<Rightarrow> (string \<Rightarrow> string result) \<Rightarrow> string option \<Rightarrow> Diagnostics \<Rightarrow> string result" where
  "WithDiagnostics js canonical outcome d =
     (case Diagnostics_validate d of
        Inl e \<Rightarrow> Inl e
      | Inr _ \<Rightarrow>
          (case dj_record js d of
             None \<Rightarrow> Inl ErrInvalid
           | Some diagnostic \<Rightarrow>
               if length diagnostic > maxDiagnosticBytes then Inl ErrInvalid
               else case canonical (case outcome of None \<Rightarrow> ''{}'' | Some x \<Rightarrow> x) of
                      Inl e \<Rightarrow> Inl e
                    | Inr object \<Rightarrow>
                        (case dj_fields js object of
                           None \<Rightarrow> Inl ErrInvalid
                         | Some flds \<Rightarrow>
                             (case dj_object js (flds(''diagnostics'' \<mapsto> diagnostic)) of
                                None \<Rightarrow> Inl ErrInvalid
                              | Some result \<Rightarrow> if length result > MaxJSONBytes then Inl ErrInvalid else Inr result))))"

text \<open>\<open>annotateOutcome\<close>: diagnostics never prevent an outcome.\<close>

definition annotateOutcome :: "diagnostics_json \<Rightarrow> (string \<Rightarrow> string result) \<Rightarrow> string \<Rightarrow> Diagnostics \<Rightarrow> string" where
  "annotateOutcome js canonical outcome d =
     (case WithDiagnostics js canonical (Some outcome) d of Inl _ \<Rightarrow> outcome | Inr encoded \<Rightarrow> encoded)"

subsection \<open>The evidence of the worker\<close>

definition controllerEvidence :: Diagnostics where
  "controllerEvidence =
     \<lparr>dg_Reason = [], dg_Rule = None, dg_Phase = [], dg_DetectedAt = None, dg_Source = ''controller'', dg_ChangedFields = [],
      dg_Expected = None, dg_Observed = None\<rparr>"

text \<open>\<open>ownershipMismatch\<close>, with the reason that \<open>evidenceFor\<close> adds.\<close>

definition mismatchEvidence :: "string \<Rightarrow> string list \<Rightarrow> Snapshot \<Rightarrow> Snapshot \<Rightarrow> Diagnostics" where
  "mismatchEvidence reason flds a b =
     controllerEvidence\<lparr>dg_Reason := reason, dg_Source := ''observation'', dg_ChangedFields := flds,
       dg_Expected := Some (snapshotScalars a), dg_Observed := Some (snapshotScalars b)\<rparr>"

definition eventEvidence :: "Event \<Rightarrow> string \<Rightarrow> time \<Rightarrow> Snapshot \<Rightarrow> Diagnostics" where
  "eventEvidence e phase at expected =
     (case eventScalars e of
        (observed, flds) \<Rightarrow>
          controllerEvidence\<lparr>dg_Reason := (if e_Gap e then ''event_gap'' else ''unexpected_event''), dg_Source := ''event'', dg_Phase := phase,
            dg_DetectedAt := Some at,
            dg_ChangedFields := (if e_Gap e then []
                                 else case observed of None \<Rightarrow> flds | Some v \<Rightarrow> scalarChanges (snapshotScalars expected) v),
            dg_Expected := Some (snapshotScalars expected), dg_Observed := (if e_Gap e then None else observed)\<rparr>)"

text \<open>\<open>captureDecision\<close> on evidence that has no time yet.\<close>

definition captured :: "string \<Rightarrow> string \<Rightarrow> time \<Rightarrow> Diagnostics \<Rightarrow> Diagnostics" where
  "captured phase rule at d =
     (if dg_DetectedAt d \<noteq> None then d else d\<lparr>dg_Phase := phase, dg_DetectedAt := Some at, dg_Rule := Some rule\<rparr>)"

subsection \<open>The evidence is accepted\<close>

definition field_names :: "string list \<Rightarrow> bool" where
  "field_names fs \<longleftrightarrow> distinct fs \<and> set fs \<subseteq> set diagnostic_fields \<and> length fs \<le> 16"

lemma changed_fields_sub:
  assumes "distinct (map fst fs)"
  shows "distinct (changed_fields fs)" and "set (changed_fields fs) \<subseteq> set (map fst fs)" and "length (changed_fields fs) \<le> length fs"
  using assms by (auto simp: changed_fields_def distinct_map_filter)

lemma field_names_changed: "distinct (map fst fs) \<Longrightarrow> set (map fst fs) \<subseteq> set diagnostic_fields \<Longrightarrow> length fs \<le> 16 \<Longrightarrow> field_names (changed_fields fs)"
  using changed_fields_sub [of fs] by (fastforce simp: field_names_def)

lemma field_names_append:
  assumes "field_names xs" "field_names ys" "set xs \<inter> set ys = {}" "length xs + length ys \<le> 16"
  shows "field_names (xs @ ys)"
  using assms by (simp add: field_names_def)

lemma field_names_stateChanges: "field_names (stateChanges a b)"
proof -
  let ?xs = "[(''repeat'', s_Repeat a \<noteq> s_Repeat b), (''shuffle'', s_Shuffle a \<noteq> s_Shuffle b),
        (''player_identity'', s_Player a \<noteq> s_Player b), (''grouped'', s_Grouped a \<noteq> s_Grouped b),
        (''state'', s_State a \<noteq> s_State b), (''volume'', s_Volume a \<noteq> s_Volume b),
        (''mute'', s_Muted a \<noteq> s_Muted b),
        (''queue_items'', q_Items (s_Queue a) \<noteq> q_Items (s_Queue b)),
        (''queue_total'', q_Total (s_Queue a) \<noteq> q_Total (s_Queue b))]"
  let ?ys = "\<lambda>x y. [(''media_source'', md_Source x \<noteq> md_Source y), (''media_id'', md_ID x \<noteq> md_ID y),
             (''media_queue_id'', md_QueueID x \<noteq> md_QueueID y),
             (''media_metadata'', md_Song x \<noteq> md_Song y \<or> md_Album x \<noteq> md_Album y \<or> md_Artist x \<noteq> md_Artist y)]"
  have xs: "field_names (changed_fields ?xs)" by (rule field_names_changed) (simp_all add: diagnostic_fields_def)
  have ys: "field_names (changed_fields (?ys x y))" for x y by (rule field_names_changed) (simp_all add: diagnostic_fields_def)
  have media: "field_names [''media_presence'']" by (simp add: field_names_def diagnostic_fields_def)
  have sx: "set (changed_fields ?xs) \<subseteq> set (map fst ?xs)" "length (changed_fields ?xs) \<le> 9"
    using changed_fields_sub(2, 3) [of ?xs] by simp_all
  have sy: "set (changed_fields (?ys x y)) \<subseteq> set (map fst (?ys x y))" "length (changed_fields (?ys x y)) \<le> 4" for x y
    using changed_fields_sub(2, 3) [of "?ys x y"] by simp_all
  have both: "field_names (changed_fields ?xs @ changed_fields (?ys x y))" for x y
    by (rule field_names_append [OF xs ys]) (use sx sy [of x y] in auto)
  have one: "field_names (changed_fields ?xs @ [''media_presence''])"
    by (rule field_names_append [OF xs media]) (use sx in auto)
  show ?thesis unfolding stateChanges_def using xs both one by (auto split: option.splits)
qed

lemma field_names_single: "f \<in> set diagnostic_fields \<Longrightarrow> field_names [f]"
  by (simp add: field_names_def)

lemma field_names_comparisons:
  "field_names (ownedChanges q a b)" "field_names (pendingChanges a b m)" "field_names (transitionChanges a b)"
  "field_names (queueLoadingControls a b)"
  by (simp_all add: ownedChanges_def pendingChanges_def transitionChanges_def queueLoadingControls_def Let_def field_names_stateChanges
      field_names_def [of "[_]"] diagnostic_fields_def)

lemma scalars_valid_snapshot: "scalars_valid (Some (snapshotScalars s))"
  by (cases "s_State s"; cases "s_Repeat s")
    (auto simp: scalars_valid_def snapshotScalars_def split: option.splits)

lemma event_data_sane:
  "(d_State (Event_Data e) \<noteq> PlayStateAbsent \<longrightarrow> PlayState_Known (d_State (Event_Data e))) \<and>
   (d_Repeat (Event_Data e) \<noteq> RepeatAbsent \<longrightarrow> Repeat_Known (d_Repeat (Event_Data e))) \<and>
   (d_HasVolume (Event_Data e) \<longrightarrow> 0 \<le> d_Volume (Event_Data e) \<and> d_Volume (Event_Data e) \<le> 100)"
proof -
  let ?d = "decodeEventData (e_Command e) (e_Params e)"
  have "(d_State ?d \<noteq> PlayStateAbsent \<longrightarrow> PlayState_Known (d_State ?d)) \<and> (d_Repeat ?d \<noteq> RepeatAbsent \<longrightarrow> Repeat_Known (d_Repeat ?d)) \<and>
      (d_HasVolume ?d \<longrightarrow> 0 \<le> d_Volume ?d \<and> d_Volume ?d \<le> 100)"
    by (cases "EventKind_of (e_Command e)")
      (simp_all add: decodeEventData_def emptyEventData_def Let_def decodeStateEvent_def decodeProgressEvent_def decodeVolumeEvent_def
        decodeShuffleEvent_def decodeRepeatEvent_def decodeUserEvent_def state_choice_known repeat_choice_known split: option.splits)
  then show ?thesis by (simp add: Event_Data_def Let_def)
qed

lemma known_strings:
  "PlayState_Known x \<Longrightarrow> PlayState_string x \<in> {''unknown'', ''play'', ''pause'', ''stop''}"
  "Repeat_Known y \<Longrightarrow> Repeat_string y \<in> {''off'', ''on_all'', ''on_one''}"
  by (cases x; simp) (cases y; simp)

lemma scalars_valid_event: "scalars_valid (fst (eventScalars e))"
  using event_data_sane [of e] known_strings(1) [of "d_State (Event_Data e)"] known_strings(2) [of "d_Repeat (Event_Data e)"]
  by (cases "d_Kind (Event_Data e)") (auto simp: eventScalars_def Let_def scalars_valid_def zeroScalars_def)

lemma field_names_event: "field_names (snd (eventScalars e))"
  by (cases "d_Kind (Event_Data e)")
    (auto simp: eventScalars_def Let_def field_names_def diagnostic_fields_def)

lemma field_names_scalars: "field_names (scalarChanges x y)"
  unfolding scalarChanges_def by (rule field_names_changed) (simp_all add: diagnostic_fields_def)

lemma validate_evidence:
  assumes "diagnosticIdentifier (dg_Reason d) False" "diagnosticIdentifier (dg_Phase d) True" "field_names (dg_ChangedFields d)"
    "dg_Source d \<in> {''event'', ''observation'', ''controller'', ''recovery''}" "scalars_valid (dg_Expected d)" "scalars_valid (dg_Observed d)"
    "\<And>r. dg_Rule d = Some r \<Longrightarrow> diagnosticIdentifier r False"
  shows "Diagnostics_validate d = Inr ()"
  using assms by (auto simp: Diagnostics_validate_def field_names_def seen_all_Nil split: option.splits)

text \<open>The reasons the worker gives, and those of the device.\<close>

definition mismatch_reasons :: "string list" where
  "mismatch_reasons =
     [''active_state_changed'', ''pending_readback_changed'', ''before_write_changed'', ''readback_changed'', ''queue_transition_changed'',
      ''queue_transition_timeout'', ''grouped_target'', ''event_gap'', ''unexpected_event'', ''queue_media_not_selected'',
      ''queue_contains_unselected_media'', ''queue_incomplete_or_invalid'', ''queue_media_not_found'']"

lemma mismatch_reasons_ok: "list_all (\<lambda>r. diagnosticIdentifier r False) mismatch_reasons"
  by code_simp

lemma queue_reasons_ok: "queueResultProblem s members bounded \<in> insert [] (set mismatch_reasons)"
  by (simp add: queueResultProblem_def mismatch_reasons_def)

lemma device_reasons_ok: "diagnosticIdentifier (DeviceError_Reason n) False"
proof -
  have "list_all (\<lambda>(_, r). diagnosticIdentifier r False) device_reasons" by code_simp
  moreover have "diagnosticIdentifier ''unknown'' False" by code_simp
  ultimately show ?thesis
    by (auto simp: DeviceError_Reason_def list_all_iff split: option.splits dest!: map_of_SomeD)
qed

text \<open>
  The evidence a worker builds is always accepted, so no outcome loses it: whatever two observations
  or which event a decision was made on, the changed fields are distinct known names, at most sixteen of
  them, and the scalars are in their vocabularies; with the reasons of the worker, any phase and any
  rule that are identifiers, the record passes its validation.
\<close>

theorem evidence_accepted:
  "(if diagnosticIdentifier phase True \<and> diagnosticIdentifier rule False \<and> reason \<in> set mismatch_reasons
    then Diagnostics_validate (eventEvidence e phase at a) = Inr () \<and>
         list_all (\<lambda>fs. Diagnostics_validate (captured phase rule at (mismatchEvidence reason fs a b)) = Inr ())
           [stateChanges a b, ownedChanges q a b, pendingChanges a b m, transitionChanges a b, queueLoadingControls a b,
            [''queue_items''], [''state''], [''media''], [''queue_membership'']]
    else True)"
proof -
  have "field_names (dg_ChangedFields (eventEvidence e phase at a))" "scalars_valid (dg_Observed (eventEvidence e phase at a))"
    using field_names_event [of e] scalars_valid_event [of e]
    by (auto simp: eventEvidence_def controllerEvidence_def field_names_scalars field_names_def [of "[]"] scalars_valid_def [of None]
        split: prod.splits option.splits)
  moreover have "diagnosticIdentifier ''event_gap'' False" "diagnosticIdentifier ''unexpected_event'' False"
    using mismatch_reasons_ok by (simp_all add: mismatch_reasons_def)
  ultimately have ev: "Diagnostics_validate (eventEvidence e phase at a) = Inr ()" if "diagnosticIdentifier phase True"
    using that by (intro validate_evidence) (auto simp: eventEvidence_def controllerEvidence_def scalars_valid_snapshot split: prod.splits)
  have "Diagnostics_validate (captured phase rule at (mismatchEvidence reason fs a b)) = Inr ()"
    if "diagnosticIdentifier phase True" "diagnosticIdentifier rule False" "reason \<in> set mismatch_reasons" "field_names fs" for fs
    using that mismatch_reasons_ok
    by (intro validate_evidence) (auto simp: captured_def mismatchEvidence_def controllerEvidence_def scalars_valid_snapshot list_all_iff)
  then show ?thesis
    using ev by (auto simp: field_names_stateChanges field_names_comparisons field_names_single diagnostic_fields_def)
qed

text \<open>Annotation keeps every other field of the outcome.\<close>

theorem diagnostics_keep_outcome:
  assumes "WithDiagnostics js canonical outcome d = Inr result"
  shows "\<exists>object flds diagnostic. canonical (case outcome of None \<Rightarrow> ''{}'' | Some x \<Rightarrow> x) = Inr object \<and> dj_fields js object = Some flds \<and>
    dj_record js d = Some diagnostic \<and> length diagnostic \<le> 4096 \<and> dj_object js (flds(''diagnostics'' \<mapsto> diagnostic)) = Some result"
  using assms by (auto simp: WithDiagnostics_def maxDiagnosticBytes_def split: sum.splits option.splits if_splits)

end
